(* ===== verification/Prelude.thy ===== *)
theory Prelude
  imports Main "HOL-Library.Word" "HOL-Library.AList"
begin

text \<open>
  The shared vocabulary of the development: the machine integers of the Rust code, its
  \<^verbatim>\<open>Result\<close> type, checked and saturating arithmetic, byte buffers with slice writes and
  reads, and the little-endian encodings \<^verbatim>\<open>to_le_bytes\<close> / \<^verbatim>\<open>from_le_bytes\<close>.
  Overflowing \<^verbatim>\<open>+\<close>, \<^verbatim>\<open>-\<close> and \<^verbatim>\<open>*\<close> wrap, as in the release profile of the workspace
  (\<^verbatim>\<open>Cargo.toml\<close> leaves \<^verbatim>\<open>overflow-checks\<close> off there); \<^verbatim>\<open>usize\<close> is 64 bits wide.
\<close>

unbundle bit_operations_syntax

named_theorems bytes_simps \<open>reading and writing byte buffers\<close>
named_theorems le_simps \<open>little-endian encodings\<close>

type_synonym u8 = "8 word"
type_synonym u16 = "16 word"
type_synonym u32 = "32 word"
type_synonym u64 = "64 word"
type_synonym usize = "64 word"
type_synonym bytes = "8 word list"

text \<open>\<^verbatim>\<open>Result<T, E>\<close> is a sum with the error on the left.\<close>

type_synonym ('e, 'a) result = "'e + 'a"

abbreviation Err :: "'e \<Rightarrow> ('e, 'a) result" where "Err \<equiv> Inl"
abbreviation Ok :: "'a \<Rightarrow> ('e, 'a) result" where "Ok \<equiv> Inr"

definition is_ok :: "('e, 'a) result \<Rightarrow> bool" where
  "is_ok r = (case r of Inl _ \<Rightarrow> False | Inr _ \<Rightarrow> True)"

lemma is_ok_simps [simp]: "is_ok (Inr x)" "\<not> is_ok (Inl e)"
  by (simp_all add: is_ok_def)

definition bind_result :: "('e, 'a) result \<Rightarrow> ('a \<Rightarrow> ('e, 'b) result) \<Rightarrow> ('e, 'b) result" where
  "bind_result r f = (case r of Inl e \<Rightarrow> Inl e | Inr x \<Rightarrow> f x)"

lemma bind_result_simps [simp]:
  "bind_result (Inl e) f = Inl e"
  "bind_result (Inr x) f = f x"
  by (simp_all add: bind_result_def)

lemma bind_result_eq_Inr:
  "bind_result r f = Inr y \<longleftrightarrow> (\<exists>x. r = Inr x \<and> f x = Inr y)"
  by (cases r) auto

section \<open>Checked and saturating arithmetic\<close>

definition checked_add :: "'a::len word \<Rightarrow> 'a word \<Rightarrow> 'a word option" where
  "checked_add a b = (if unat a + unat b < 2 ^ LENGTH('a) then Some (a + b) else None)"

definition checked_mul :: "'a::len word \<Rightarrow> 'a word \<Rightarrow> 'a word option" where
  "checked_mul a b = (if unat a * unat b < 2 ^ LENGTH('a) then Some (a * b) else None)"

definition saturating_sub :: "'a::len word \<Rightarrow> 'a word \<Rightarrow> 'a word" where
  "saturating_sub a b = (if b \<le> a then a - b else 0)"

definition saturating_add :: "'a::len word \<Rightarrow> 'a word \<Rightarrow> 'a word" where
  "saturating_add a b = (if unat a + unat b < 2 ^ LENGTH('a) then a + b else - 1)"

lemma unat_lt: "unat (w :: 'a::len word) < 2 ^ LENGTH('a)"
  by (rule unsigned_less)

lemma unat_add_no_wrap:
  "unat (a :: 'a::len word) + unat b < 2 ^ LENGTH('a) \<Longrightarrow> unat (a + b) = unat a + unat b"
  by (simp add: unat_word_ariths)

lemma unat_mult_no_wrap:
  "unat (a :: 'a::len word) * unat b < 2 ^ LENGTH('a) \<Longrightarrow> unat (a * b) = unat a * unat b"
  by (simp add: unat_word_ariths)

lemma checked_add_eq_Some:
  "checked_add (a :: 'a::len word) b = Some c \<longleftrightarrow>
     unat a + unat b < 2 ^ LENGTH('a) \<and> c = a + b"
  by (auto simp: checked_add_def)

lemma checked_add_eq_None:
  "checked_add (a :: 'a::len word) b = None \<longleftrightarrow> 2 ^ LENGTH('a) \<le> unat a + unat b"
  by (auto simp: checked_add_def)

lemma checked_mul_eq_Some:
  "checked_mul (a :: 'a::len word) b = Some c \<longleftrightarrow>
     unat a * unat b < 2 ^ LENGTH('a) \<and> c = a * b"
  by (auto simp: checked_mul_def)

lemma unat_saturating_sub: "unat (saturating_sub a b) = unat a - unat b"
  by (auto simp: saturating_sub_def unat_sub word_le_nat_alt)

lemma unat_saturating_add:
  "unat (saturating_add (a :: 'a::len word) b) = min (unat a + unat b) (2 ^ LENGTH('a) - 1)"
  by (auto simp: saturating_add_def unat_add_no_wrap unsigned_minus_1_eq_mask mask_eq_exp_minus_1 min_def)

section \<open>Association lists\<close>

text \<open>Hash maps are association lists; these are their keys after an insertion and a removal.\<close>

lemma fst_set_update: "fst ` set (AList.update k v al) = insert k (fst ` set al)"
  using dom_map_of_conv_image_fst [of "AList.update k v al"] dom_map_of_conv_image_fst [of al]
  by (simp add: update_conv')

lemma fst_set_delete: "fst ` set (AList.delete k al) = fst ` set al - {k}"
  by (induction al) auto

section \<open>Byte buffers\<close>

text \<open>
  \<open>read_at off n buf\<close> is the slice \<^verbatim>\<open>buf[off..off + n]\<close>; \<open>write_at off d buf\<close> is
  \<^verbatim>\<open>buf[off..off + d.len()].copy_from_slice(d)\<close>. Both are only called where the slice
  lies inside the buffer; the callers' bounds checks are part of their models.
\<close>

definition read_at :: "nat \<Rightarrow> nat \<Rightarrow> 'a list \<Rightarrow> 'a list" where
  "read_at off n buf = take n (drop off buf)"

definition write_at :: "nat \<Rightarrow> 'a list \<Rightarrow> 'a list \<Rightarrow> 'a list" where
  "write_at off d buf = take off buf @ d @ drop (off + length d) buf"

lemma length_write_at [simp, bytes_simps]:
  "off + length d \<le> length buf \<Longrightarrow> length (write_at off d buf) = length buf"
  by (simp add: write_at_def)

lemma length_read_at [bytes_simps]:
  "off + n \<le> length buf \<Longrightarrow> length (read_at off n buf) = n"
  by (simp add: read_at_def)

lemma nth_write_at:
  assumes "off + length d \<le> length buf" and "i < length buf"
  shows "write_at off d buf ! i =
    (if off \<le> i \<and> i < off + length d then d ! (i - off) else buf ! i)"
  using assms by (auto simp: write_at_def nth_append min_def)

lemma nth_read_at: "off + n \<le> length buf \<Longrightarrow> i < n \<Longrightarrow> read_at off n buf ! i = buf ! (off + i)"
  by (simp add: read_at_def)

lemma read_write_same [bytes_simps]:
  "off + length d \<le> length buf \<Longrightarrow> n = length d \<Longrightarrow> read_at off n (write_at off d buf) = d"
  by (simp add: read_at_def write_at_def)

lemma read_write_disjoint [bytes_simps]:
  assumes "off + length d \<le> length buf" and "o' + n \<le> length buf"
    and "o' + n \<le> off \<or> off + length d \<le> o'"
  shows "read_at o' n (write_at off d buf) = read_at o' n buf"
proof (rule nth_equalityI)
  show "length (read_at o' n (write_at off d buf)) = length (read_at o' n buf)"
    using assms by (simp add: length_read_at)
next
  fix i assume "i < length (read_at o' n (write_at off d buf))"
  then have i: "i < n" using assms by (simp add: length_read_at)
  then show "read_at o' n (write_at off d buf) ! i = read_at o' n buf ! i"
    using assms by (auto simp: nth_read_at nth_write_at)
qed

lemma write_at_Nil [simp]: "off \<le> length buf \<Longrightarrow> write_at off [] buf = buf"
  by (simp add: write_at_def)

lemma read_at_zero [simp]: "read_at off 0 buf = []"
  by (simp add: read_at_def)

section \<open>Little-endian encodings\<close>

fun le_encode :: "nat \<Rightarrow> nat \<Rightarrow> bytes" where
  "le_encode 0 x = []"
| "le_encode (Suc n) x = word_of_nat (x mod 256) # le_encode n (x div 256)"

fun le_decode :: "bytes \<Rightarrow> nat" where
  "le_decode [] = 0"
| "le_decode (b # bs) = unat b + 256 * le_decode bs"

lemma length_le_encode [simp, le_simps]: "length (le_encode n x) = n"
  by (induction n arbitrary: x) auto

lemma le_decode_encode [le_simps]: "le_decode (le_encode n x) = x mod 256 ^ n"
proof (induction n arbitrary: x)
  case 0
  then show ?case by simp
next
  case (Suc n)
  have "unat (word_of_nat (x mod 256) :: u8) = x mod 256"
    by (simp add: unat_of_nat)
  then show ?case
    using Suc by (simp add: mod_mult2_eq)
qed

lemma le_decode_bound: "le_decode bs < 256 ^ length bs"
proof (induction bs)
  case (Cons b bs)
  have "unat b < 256"
    using unat_lt [of b] by simp
  with Cons show ?case by simp
qed simp

lemma le_encode_decode [le_simps]: "length bs = n \<Longrightarrow> le_encode n (le_decode bs) = bs"
proof (induction bs arbitrary: n)
  case (Cons b bs)
  have b: "unat b < 256"
    using unat_lt [of b] by simp
  then have "(unat b + 256 * le_decode bs) mod 256 = unat b"
    and "(unat b + 256 * le_decode bs) div 256 = le_decode bs"
    by simp_all
  with Cons show ?case by auto
qed simp

definition u16_to_le_bytes :: "u16 \<Rightarrow> bytes" where "u16_to_le_bytes w = le_encode 2 (unat w)"
definition u32_to_le_bytes :: "u32 \<Rightarrow> bytes" where "u32_to_le_bytes w = le_encode 4 (unat w)"
definition u64_to_le_bytes :: "u64 \<Rightarrow> bytes" where "u64_to_le_bytes w = le_encode 8 (unat w)"
definition u16_from_le_bytes :: "bytes \<Rightarrow> u16" where "u16_from_le_bytes bs = word_of_nat (le_decode bs)"
definition u32_from_le_bytes :: "bytes \<Rightarrow> u32" where "u32_from_le_bytes bs = word_of_nat (le_decode bs)"
definition u64_from_le_bytes :: "bytes \<Rightarrow> u64" where "u64_from_le_bytes bs = word_of_nat (le_decode bs)"

lemma length_to_le_bytes [simp, le_simps]:
  "length (u16_to_le_bytes a) = 2" "length (u32_to_le_bytes b) = 4" "length (u64_to_le_bytes c) = 8"
  by (simp_all add: u16_to_le_bytes_def u32_to_le_bytes_def u64_to_le_bytes_def)

lemma unat_bounds:
  "unat (a :: u8) < 256" "unat (b :: u16) < 65536" "unat (c :: u32) < 4294967296"
  "unat (d :: u64) < 18446744073709551616"
  using unat_lt [of a] unat_lt [of b] unat_lt [of c] unat_lt [of d] by simp_all

lemma from_to_le_bytes [simp, le_simps]:
  "u16_from_le_bytes (u16_to_le_bytes a) = a"
  "u32_from_le_bytes (u32_to_le_bytes b) = b"
  "u64_from_le_bytes (u64_to_le_bytes c) = c"
  using unat_lt [of a] unat_lt [of b] unat_lt [of c]
  by (simp_all add: u16_from_le_bytes_def u16_to_le_bytes_def u32_from_le_bytes_def
      u32_to_le_bytes_def u64_from_le_bytes_def u64_to_le_bytes_def le_decode_encode)

lemma to_from_le_bytes [le_simps]:
  "length bs = 4 \<Longrightarrow> u32_to_le_bytes (u32_from_le_bytes bs) = bs"
  "length cs = 8 \<Longrightarrow> u64_to_le_bytes (u64_from_le_bytes cs) = cs"
  using le_decode_bound [of bs] le_decode_bound [of cs]
  by (simp_all add: u32_from_le_bytes_def u32_to_le_bytes_def u64_from_le_bytes_def
      u64_to_le_bytes_def unat_of_nat le_encode_decode)

section \<open>Options and lists\<close>

definition unwrap_or :: "'a option \<Rightarrow> 'a \<Rightarrow> 'a" where
  "unwrap_or x d = (case x of None \<Rightarrow> d | Some v \<Rightarrow> v)"

lemma unwrap_or_simps [simp]: "unwrap_or None d = d" "unwrap_or (Some v) d = v"
  by (simp_all add: unwrap_or_def)

lemma find_Some_mem: "List.find P xs = Some x \<Longrightarrow> x \<in> set xs \<and> P x"
  by (auto simp: find_Some_iff)

end
