(* ===== verification/Decimal.thy ===== *)
theory Decimal
  imports Prelude
begin

text \<open>
  Decimal text of unsigned integers, as the standard library prints and parses it:
  \<open>show_nat\<close> is the \<^verbatim>\<open>Display\<close> text of an unsigned integer, \<open>parse_unsigned\<close> is
  \<^verbatim>\<open>str::parse\<close> at an unsigned type of the given maximum (an optional leading \<^verbatim>\<open>+\<close>, at
  least one digit, ASCII digits only, an error on overflow). A Rust \<^verbatim>\<open>String\<close> is the list of
  its UTF-8 bytes, one \<^typ>\<open>char\<close> per byte.
\<close>

named_theorems decimal_simps \<open>printing and parsing decimal numbers\<close>

definition digit_char :: "nat \<Rightarrow> char" where
  "digit_char d = char_of (48 + d)"

definition is_ascii_digit :: "char \<Rightarrow> bool" where
  "is_ascii_digit c \<longleftrightarrow> 48 \<le> (of_char c :: nat) \<and> (of_char c :: nat) \<le> 57"

definition digit_value :: "char \<Rightarrow> nat" where
  "digit_value c = of_char c - 48"

lemma of_char_digit: "d < 10 \<Longrightarrow> (of_char (digit_char d) :: nat) = 48 + d"
  by (simp add: digit_char_def of_char_of take_bit_eq_mod flip: take_bit_eq_mod)

lemma digit_char_props [simp, decimal_simps]:
  "d < 10 \<Longrightarrow> is_ascii_digit (digit_char d)"
  "d < 10 \<Longrightarrow> digit_value (digit_char d) = d"
  by (simp_all add: is_ascii_digit_def digit_value_def of_char_digit)

fun show_nat :: "nat \<Rightarrow> string" where
  "show_nat n = (if n < 10 then [digit_char n] else show_nat (n div 10) @ [digit_char (n mod 10)])"

declare show_nat.simps [simp del]

fun digits_value :: "nat \<Rightarrow> string \<Rightarrow> nat" where
  "digits_value acc [] = acc"
| "digits_value acc (c # cs) = digits_value (10 * acc + digit_value c) cs"

lemma digits_value_append: "digits_value a (xs @ ys) = digits_value (digits_value a xs) ys"
  by (induction a xs rule: digits_value.induct) auto

lemma digits_value_show [decimal_simps]: "digits_value 0 (show_nat n) = n"
proof (induction n rule: show_nat.induct)
  case (1 n)
  show ?case
  proof (cases "n < 10")
    case True
    then show ?thesis by (simp add: show_nat.simps [of n])
  next
    case False
    with 1 show ?thesis by (simp add: show_nat.simps [of n] digits_value_append)
  qed
qed

lemma show_nat_nonempty [simp]: "show_nat n \<noteq> []"
  by (simp add: show_nat.simps [of n])

lemma show_nat_digits [decimal_simps]: "c \<in> set (show_nat n) \<Longrightarrow> is_ascii_digit c"
proof (induction n rule: show_nat.induct)
  case (1 n)
  then show ?case
    by (cases "n < 10") (auto simp: show_nat.simps [of n])
qed

lemma list_all_show_nat [simp, decimal_simps]: "list_all is_ascii_digit (show_nat n)"
  by (auto simp: list_all_iff show_nat_digits)

lemma show_nat_inj [simp]: "show_nat m = show_nat n \<longleftrightarrow> m = n"
  using digits_value_show by metis

text \<open>\<^verbatim>\<open>s.parse::<uN>()\<close> with \<^verbatim>\<open>uN::MAX = max\<close>; \<^const>\<open>None\<close> is the parse error.\<close>

definition strip_plus :: "string \<Rightarrow> string" where
  "strip_plus s = (case s of c # cs \<Rightarrow> if c = CHR ''+'' then cs else s | [] \<Rightarrow> [])"

definition parse_unsigned :: "nat \<Rightarrow> string \<Rightarrow> nat option" where
  "parse_unsigned maxv s =
     (let ds = strip_plus s in
      if ds = [] \<or> \<not> list_all is_ascii_digit ds then None
      else let v = digits_value 0 ds in if v \<le> maxv then Some v else None)"

lemma not_digit_plus: "\<not> is_ascii_digit CHR ''+''"
  by (simp add: is_ascii_digit_def)

lemma strip_plus_digits: "list_all is_ascii_digit s \<Longrightarrow> strip_plus s = s"
  by (auto simp: strip_plus_def not_digit_plus split: list.splits)

theorem parse_show_nat: "n \<le> maxv \<Longrightarrow> parse_unsigned maxv (show_nat n) = Some n"
  by (simp add: parse_unsigned_def Let_def strip_plus_digits digits_value_show)

lemma parse_show_nat_overflow: "maxv < n \<Longrightarrow> parse_unsigned maxv (show_nat n) = None"
  by (simp add: parse_unsigned_def Let_def strip_plus_digits digits_value_show)

definition parse_u32 :: "string \<Rightarrow> u32 option" where
  "parse_u32 s = map_option word_of_nat (parse_unsigned 4294967295 s)"

definition show_u32 :: "u32 \<Rightarrow> string" where "show_u32 w = show_nat (unat w)"
definition show_u64 :: "u64 \<Rightarrow> string" where "show_u64 w = show_nat (unat w)"

lemma parse_show_u32 [simp]: "parse_u32 (show_u32 w) = Some w"
  using unat_bounds(3) [of w] by (simp add: parse_u32_def show_u32_def parse_show_nat)

lemma show_u32_inj [simp]: "show_u32 a = show_u32 b \<longleftrightarrow> a = b"
  by (simp add: show_u32_def word_unat_eq_iff)

lemma list_all_show_u32 [simp]: "list_all is_ascii_digit (show_u32 w)"
  by (simp add: show_u32_def)

end
