(* ===== verification/Protocol_Types.thy ===== *)
theory Protocol_Types
  imports Decimal
begin

text \<open>
  The wire data of the debugging protocol, \<^verbatim>\<open>crates/rocket-surgeon-protocol/src/types.rs\<close>: session
  envelopes, tick positions, tensors, probes, intervention recipes, capabilities, checkpoints.
  Structs are records whose fields carry a short prefix, enums are datatypes with the source's
  variants (prefixed where two enums share a name). An \<^verbatim>\<open>f64\<close> is its IEEE 754 bit pattern.
\<close>

type_synonym f64 = "64 word"
type_synonym i32 = int
type_synonym i64 = int

section \<open>Status and actions\<close>

datatype status =
  Uninitialized | Initialized | Attaching | Stopped | Stepping | Inspecting | Modifying
  | Replaying | Detaching

datatype action_name =
  A_Initialize | A_Attach | A_Detach | A_Step | A_Inspect | A_Intervene | A_Probe | A_Checkpoint
  | A_Replay | A_Status | A_Subscribe

section \<open>Ticks\<close>

record tick_clock =
  tc_token :: u64
  tc_operator :: u64
  tc_wall_ns :: u64

datatype phase = Prefill | Decode | PrefillChunked u32 u32 u32

definition phase_default :: phase where "phase_default = Decode"

datatype step_direction = Forward | Backward

definition step_direction_default :: step_direction where "step_direction_default = Forward"

datatype tick_event = TE_Input | TE_Output

datatype tick_granularity =
  G_Layer | G_Component | G_Head | G_RouterPreTopk | G_RouterPostTopk | G_Expert | G_MoeLayer

record tick_position =
  tp_tick_id :: u64
  tp_direction :: step_direction
  tp_rank :: "u32 option"
  tp_layer :: u32
  tp_component :: string
  tp_event :: tick_event
  tp_replay_of :: "u64 option"
  tp_phase :: phase
  tp_token_position :: "u64 option"
  tp_clock :: "tick_clock option"

section \<open>Worldlines\<close>

record worldline_segment =
  seg_id :: u32
  seg_parent :: "u32 option"
  seg_branch_tick :: "u64 option"
  seg_tick_range :: "u64 \<times> u64"

record worldline_state =
  wl_current :: u32
  wl_segments :: "worldline_segment list"

definition worldline_default :: worldline_state where
  "worldline_default = \<lparr>wl_current = 0, wl_segments = []\<rparr>"

definition worldline_is_empty :: "worldline_state \<Rightarrow> bool" where
  "worldline_is_empty w \<longleftrightarrow> wl_segments w = [] \<and> wl_current w = 0"

section \<open>Checkpoints\<close>

datatype checkpoint_tier = Tier_ProbeLog | Tier_Activation | Tier_FullSnapshot

record checkpoint_ref =
  cr_id :: string
  cr_tick_id :: u64
  cr_layer_idx :: u32
  cr_tier :: checkpoint_tier
  cr_bookmark :: "string option"
  cr_created_at :: string

section \<open>The session envelope\<close>

record session_state =
  ss_session_id :: string
  ss_model_id :: "string option"
  ss_status :: status
  ss_position :: "tick_position option"
  ss_tick_id :: "u64 option"
  ss_active_probes :: "string list"
  ss_checkpoints :: "checkpoint_ref list"
  ss_available_actions :: "action_name list"
  ss_worldline :: worldline_state

datatype envelope_mode = Env_Full | Env_Position | Env_None

definition envelope_mode_default :: envelope_mode where "envelope_mode_default = Env_Full"

record 'a response_envelope =
  env_state :: session_state
  env_data :: "'a option"

record position_envelope =
  pe_status :: status
  pe_position :: "tick_position option"

section \<open>Tensors\<close>

datatype dtype =
  Float16 | Bfloat16 | Float32 | Float64 | Int8 | Int16 | Int32 | Int64 | Uint8 | DBool

definition byte_size :: "dtype \<Rightarrow> usize" where
  "byte_size d = (case d of
     Float16 \<Rightarrow> 2 | Bfloat16 \<Rightarrow> 2 | Int16 \<Rightarrow> 2 | Float32 \<Rightarrow> 4 | Int32 \<Rightarrow> 4 | Float64 \<Rightarrow> 8 | Int64 \<Rightarrow> 8
   | Int8 \<Rightarrow> 1 | Uint8 \<Rightarrow> 1 | DBool \<Rightarrow> 1)"

datatype placement_type = Shard | Replicate | Partial

record placement =
  pl_type :: placement_type
  pl_dim :: "i32 option"

record sharding_info =
  sh_mesh :: string
  sh_placements :: "placement list"
  sh_local_shape :: "u64 list"
  sh_global_shape :: "u64 list"

record histogram =
  h_bins :: u32
  h_edges :: "f64 list"
  h_counts :: "u64 list"

record tensor_stats =
  st_mean :: f64
  st_std :: f64
  st_min :: f64
  st_max :: f64
  st_abs_max :: f64
  st_sparsity :: f64
  st_l2_norm :: f64
  st_histogram :: histogram

record top_k_entry =
  tk_index :: "u64 list"
  tk_value :: f64

record tensor_summary =
  sum_tensor_id :: string
  sum_shape :: "u64 list"
  sum_dtype :: dtype
  sum_device :: string
  sum_sharding :: "sharding_info option"
  sum_stats :: tensor_stats
  sum_top_k :: "top_k_entry list"

record tensor_handle =
  th_tensor_id :: string
  th_shape :: "u64 list"
  th_dtype :: dtype

section \<open>Interventions\<close>

datatype intervention_type =
  T_Ablate | T_Scale | T_Add | T_Patch | T_Clamp | T_RouteOverride | T_AttentionMask | T_EmbedSwap
  | T_EmbedNoise

datatype ablate_mode = Ablate_Zero | Ablate_Mean | Ablate_Resample

datatype add_vector = Inline "f64 list" | TensorRef string

datatype intervention_params =
    P_Scale f64
  | P_Add add_vector
  | P_Patch string
  | P_Clamp f64 f64
  | P_RouteOverride u64 "u64 list"
  | P_AttentionMask "u64 list" "u64 list" f64
  | P_EmbedSwap u64 u64
  | P_EmbedNoise u64 f64 "u64 option"
  | P_Ablate ablate_mode "string option" "string option"

datatype composition_mode = Additive | Replace

definition default_additive :: composition_mode where "default_additive = Additive"

record intervention_recipe =
  ir_id :: "string option"
  ir_type :: intervention_type
  ir_target :: string
  ir_params :: intervention_params
  ir_condition :: "string option"
  ir_priority :: i32
  ir_mode :: composition_mode

section \<open>Probes\<close>

datatype probe_action = PA_Capture | PA_Checkpoint | PA_Trace | PA_Assert | PA_Aggregate | PA_Intervene

record probe_config =
  pc_summary :: bool
  pc_capture_tensor :: bool
  pc_filter :: "string option"
  pc_aggregate_fn :: "string option"
  pc_assertion :: "string option"
  pc_intervention :: "intervention_recipe option"

record probe_definition =
  pd_id :: string
  pd_point :: string
  pd_action :: probe_action
  pd_config :: "probe_config option"
  pd_enabled :: bool
  pd_priority :: i32

record granularity_scope =
  gs_match :: string
  gs_granularity :: tick_granularity

section \<open>Capabilities\<close>

datatype execution_mode = Eager | Compiled | Mixed
datatype parallelism = SingleGpu | Ddp | Fsdp | TensorParallel | PipelineParallel
datatype built_in_view =
  V_ResidualStreamNorm | V_AttentionPattern | V_HeadOutput | V_LogitLens | V_RoutingDecision
  | V_RoutingEntropy | V_FeatureAttribution | V_SaeActivation | V_TunedLens | V_KvCacheRibbon
  | V_KvCacheDetail | V_WorldlineDag
datatype head_granularity = Native | RequiresUnfused | Unavailable
datatype transport = Tr_Stdio | Tr_UnixSocket | Tr_Tcp | Tr_Websocket
datatype wire_format = Wf_Json | Wf_Protobuf

record capabilities =
  cap_protocol_version :: string
  cap_reverse_step :: bool
  cap_checkpointing :: bool
  cap_moe :: bool
  cap_backward :: bool
  cap_sae :: bool
  cap_execution_mode :: execution_mode
  cap_parallelism :: parallelism
  cap_tick_granularities :: "tick_granularity list"
  cap_intervention_types :: "intervention_type list"
  cap_built_in_views :: "built_in_view list"
  cap_head_granularity :: head_granularity
  cap_transports :: "transport list"
  cap_wire_formats :: "wire_format list"
  cap_max_response_bytes :: u64
  cap_model_family :: "string option"
  cap_model_id :: "string option"
  cap_num_layers :: "u32 option"
  cap_num_heads :: "u32 option"
  cap_hidden_dim :: "u32 option"
  cap_num_ranks :: "u32 option"
  cap_num_experts :: "u32 option"
  cap_top_k_experts :: "u32 option"
  cap_shared_memory :: bool

definition phase1_defaults :: capabilities where
  "phase1_defaults = \<lparr>
     cap_protocol_version = ''0.3.0'', cap_reverse_step = False, cap_checkpointing = True,
     cap_moe = False, cap_backward = False, cap_sae = False,
     cap_execution_mode = Eager, cap_parallelism = SingleGpu,
     cap_tick_granularities = [G_Layer, G_Component],
     cap_intervention_types = [T_Ablate, T_Scale, T_Add, T_Patch, T_Clamp, T_AttentionMask,
       T_EmbedSwap, T_EmbedNoise],
     cap_built_in_views = [V_ResidualStreamNorm, V_AttentionPattern, V_LogitLens, V_TunedLens,
       V_KvCacheRibbon, V_KvCacheDetail, V_WorldlineDag],
     cap_head_granularity = Unavailable,
     cap_transports = [Tr_Stdio, Tr_UnixSocket, Tr_Websocket],
     cap_wire_formats = [Wf_Json], cap_max_response_bytes = 65536,
     cap_model_family = None, cap_model_id = None, cap_num_layers = None, cap_num_heads = None,
     cap_hidden_dim = None, cap_num_ranks = None, cap_num_experts = None, cap_top_k_experts = None,
     cap_shared_memory = True\<rparr>"

section \<open>Debug text of a status\<close>

text \<open>The derived \<^verbatim>\<open>Debug\<close> output of \<^verbatim>\<open>Status\<close> and of a vector of them, used in error texts.\<close>

definition debug_status :: "status \<Rightarrow> string" where
  "debug_status s = (case s of
     Uninitialized \<Rightarrow> ''Uninitialized'' | Initialized \<Rightarrow> ''Initialized'' | Attaching \<Rightarrow> ''Attaching''
   | Stopped \<Rightarrow> ''Stopped'' | Stepping \<Rightarrow> ''Stepping'' | Inspecting \<Rightarrow> ''Inspecting''
   | Modifying \<Rightarrow> ''Modifying'' | Replaying \<Rightarrow> ''Replaying'' | Detaching \<Rightarrow> ''Detaching'')"

fun join_with :: "string \<Rightarrow> string list \<Rightarrow> string" where
  "join_with sep [] = []"
| "join_with sep [x] = x"
| "join_with sep (x # y # xs) = x @ sep @ join_with sep (y # xs)"

definition debug_statuses :: "status list \<Rightarrow> string" where
  "debug_statuses ss = ''['' @ join_with '', '' (map debug_status ss) @ '']''"

end
