(* ===== verification/Protocol_Errors.thy ===== *)
theory Protocol_Errors
  imports Protocol_Types
begin

text \<open>
  Error codes, structured error data and the JSON-RPC envelope,
  \<^verbatim>\<open>crates/rocket-surgeon-protocol/src/errors.rs\<close> and \<^verbatim>\<open>jsonrpc.rs\<close>, with the daemon's error
  constructors from \<^verbatim>\<open>crates/rocket-surgeon/src/dispatch.rs\<close>. The \<^verbatim>\<open>json!\<close> object literals that
  the daemon attaches as \<^verbatim>\<open>context\<close> are association lists over a small value type.
\<close>

datatype error_code =
    InvalidState | InvalidTarget | InvalidRecipe | ModelNotAttached | TensorNotFound
  | CheckpointNotFound | ProbeNotFound | CapabilityNotSupported | SliceOutOfBounds
  | ResponseTooLarge | HostError | GpuOom | NcclTimeout | ReplayDivergence | UnsupportedModel
  | CompiledModel | ModelAlreadyAttached | InvalidParams | DuplicateProbeId | InvalidPoint
  | ViewDataUnavailable | BackendAttachFailed | BranchNotFound | BranchMergeRefused
  | VramExhausted | CrossRequestKv | KvEvicted

datatype severity = Fatal | Recoverable

definition error_numeric_code :: "error_code \<Rightarrow> i32" where
  "error_numeric_code c = (case c of
     InvalidState \<Rightarrow> -32001 | InvalidTarget \<Rightarrow> -32002 | InvalidRecipe \<Rightarrow> -32003
   | ModelNotAttached \<Rightarrow> -32004 | TensorNotFound \<Rightarrow> -32005 | CheckpointNotFound \<Rightarrow> -32006
   | ProbeNotFound \<Rightarrow> -32007 | CapabilityNotSupported \<Rightarrow> -32008 | SliceOutOfBounds \<Rightarrow> -32009
   | ResponseTooLarge \<Rightarrow> -32010 | HostError \<Rightarrow> -32011 | GpuOom \<Rightarrow> -32012 | NcclTimeout \<Rightarrow> -32013
   | ReplayDivergence \<Rightarrow> -32014 | UnsupportedModel \<Rightarrow> -32015 | CompiledModel \<Rightarrow> -32016
   | ModelAlreadyAttached \<Rightarrow> -32017 | InvalidParams \<Rightarrow> -32602 | DuplicateProbeId \<Rightarrow> -32018
   | InvalidPoint \<Rightarrow> -32019 | ViewDataUnavailable \<Rightarrow> -32020 | BackendAttachFailed \<Rightarrow> -32021
   | BranchNotFound \<Rightarrow> -32022 | BranchMergeRefused \<Rightarrow> -32023 | VramExhausted \<Rightarrow> -32024
   | CrossRequestKv \<Rightarrow> -32025 | KvEvicted \<Rightarrow> -32026)"

definition error_severity :: "error_code \<Rightarrow> severity" where
  "error_severity c = (case c of
     HostError \<Rightarrow> Fatal | GpuOom \<Rightarrow> Fatal | NcclTimeout \<Rightarrow> Fatal | VramExhausted \<Rightarrow> Fatal
   | _ \<Rightarrow> Recoverable)"

datatype context_value =
    CNull
  | CStr string
  | CNum nat
  | CStrs "string list"
  | CNums "nat list"

type_synonym error_context = "(string \<times> context_value) list"

record error_data =
  ed_code :: error_code
  ed_numeric :: "i32 option"
  ed_current_state :: "status option"
  ed_valid_states :: "status list option"
  ed_suggestion :: string
  ed_severity :: severity
  ed_recovery_hint :: "string option"
  ed_context :: "error_context option"

definition ErrorData_new :: "error_code \<Rightarrow> string \<Rightarrow> error_data" where
  "ErrorData_new c s = \<lparr>ed_code = c, ed_numeric = Some (error_numeric_code c),
     ed_current_state = None, ed_valid_states = None, ed_suggestion = s,
     ed_severity = error_severity c, ed_recovery_hint = None, ed_context = None\<rparr>"

section \<open>JSON-RPC\<close>

definition JSONRPC_VERSION :: string where "JSONRPC_VERSION = ''2.0''"

datatype request_id = IdNumber i64 | IdString string

record rpc_error =
  re_code :: i32
  re_message :: string
  re_data :: "error_data option"

definition RpcError_from_error_data :: "error_data \<Rightarrow> rpc_error" where
  "RpcError_from_error_data d =
     \<lparr>re_code = unwrap_or (ed_numeric d) (error_numeric_code (ed_code d)),
      re_message = ed_suggestion d, re_data = Some d\<rparr>"

definition PARSE_ERROR :: i32 where "PARSE_ERROR = -32700"
definition INVALID_REQUEST :: i32 where "INVALID_REQUEST = -32600"
definition METHOD_NOT_FOUND :: i32 where "METHOD_NOT_FOUND = -32601"
definition INVALID_PARAMS :: i32 where "INVALID_PARAMS = -32602"
definition INTERNAL_ERROR :: i32 where "INTERNAL_ERROR = -32603"

record 'v request =
  rq_jsonrpc :: string
  rq_id :: request_id
  rq_method :: string
  rq_params :: "'v option"

record 'v response =
  rs_jsonrpc :: string
  rs_id :: request_id
  rs_result :: "'v option"
  rs_error :: "rpc_error option"

record 'v notification =
  nt_jsonrpc :: string
  nt_method :: string
  nt_params :: "'v option"

text \<open>\<^verbatim>\<open>Value::is_null\<close> is an argument: the JSON value type is a parameter of the model.\<close>

definition Request_new :: "('v \<Rightarrow> bool) \<Rightarrow> request_id \<Rightarrow> string \<Rightarrow> 'v \<Rightarrow> 'v request" where
  "Request_new is_null i m p =
     \<lparr>rq_jsonrpc = JSONRPC_VERSION, rq_id = i, rq_method = m,
      rq_params = (if is_null p then None else Some p)\<rparr>"

definition Notification_new :: "('v \<Rightarrow> bool) \<Rightarrow> string \<Rightarrow> 'v \<Rightarrow> 'v notification" where
  "Notification_new is_null m p =
     \<lparr>nt_jsonrpc = JSONRPC_VERSION, nt_method = m,
      nt_params = (if is_null p then None else Some p)\<rparr>"

definition Response_success :: "request_id \<Rightarrow> 'v \<Rightarrow> 'v response" where
  "Response_success i r =
     \<lparr>rs_jsonrpc = JSONRPC_VERSION, rs_id = i, rs_result = Some r, rs_error = None\<rparr>"

definition Response_error :: "request_id \<Rightarrow> rpc_error \<Rightarrow> 'v response" where
  "Response_error i e =
     \<lparr>rs_jsonrpc = JSONRPC_VERSION, rs_id = i, rs_result = None, rs_error = Some e\<rparr>"

record 'v raw_message =
  rm_jsonrpc :: string
  rm_id :: "request_id option"
  rm_method :: string
  rm_params :: "'v option"

definition is_notification :: "'v raw_message \<Rightarrow> bool" where
  "is_notification m = (rm_id m = None)"

definition into_request :: "'v raw_message \<Rightarrow> 'v request option" where
  "into_request m = map_option (\<lambda>i. \<lparr>rq_jsonrpc = rm_jsonrpc m, rq_id = i, rq_method = rm_method m,
     rq_params = rm_params m\<rparr>) (rm_id m)"

definition into_notification :: "'v raw_message \<Rightarrow> 'v notification option" where
  "into_notification m = (if rm_id m \<noteq> None then None else
     Some \<lparr>nt_jsonrpc = rm_jsonrpc m, nt_method = rm_method m, nt_params = rm_params m\<rparr>)"

lemma raw_message_partition:
  "is_notification m \<longleftrightarrow> into_request m = None" "is_notification m \<longleftrightarrow> into_notification m \<noteq> None"
  by (auto simp: is_notification_def into_request_def into_notification_def)

end
