(* ===== verification/Protocol_Messages.thy ===== *)
theory Protocol_Messages
  imports Protocol_Errors
begin

text \<open>
  Method and event names and the request, response and event bodies of the protocol,
  \<^verbatim>\<open>crates/rocket-surgeon-protocol/src/messages.rs\<close>. The type variable \<open>'v\<close> stands for
  \<^verbatim>\<open>serde_json::Value\<close>.
\<close>

section \<open>Names\<close>

definition m_INITIALIZE :: string where "m_INITIALIZE = ''initialize''"
definition m_ATTACH :: string where "m_ATTACH = ''attach''"
definition m_DETACH :: string where "m_DETACH = ''detach''"
definition m_STEP :: string where "m_STEP = ''rocket/step''"
definition m_INSPECT :: string where "m_INSPECT = ''rocket/inspect''"
definition m_INTERVENE :: string where "m_INTERVENE = ''rocket/intervene''"
definition m_PROBE :: string where "m_PROBE = ''rocket/probe''"
definition m_CHECKPOINT :: string where "m_CHECKPOINT = ''rocket/checkpoint''"
definition m_REPLAY :: string where "m_REPLAY = ''rocket/replay''"
definition m_STATUS :: string where "m_STATUS = ''rocket/status''"
definition m_SUBSCRIBE :: string where "m_SUBSCRIBE = ''rocket/subscribe''"
definition m_UNSUBSCRIBE :: string where "m_UNSUBSCRIBE = ''rocket/unsubscribe''"
definition m_VIEW :: string where "m_VIEW = ''rocket/view''"
definition m_KV_READ :: string where "m_KV_READ = ''rocket/kv.read''"
definition m_KV_INTERVENE :: string where "m_KV_INTERVENE = ''rocket/kv.intervene''"
definition m_DISCOVER :: string where "m_DISCOVER = ''rocket/discover''"
definition m_VIEW_DEFINE :: string where "m_VIEW_DEFINE = ''rocket/view.define''"
definition m_SESSION_EXPORT :: string where "m_SESSION_EXPORT = ''rocket/session.export''"

lemmas method_defs = m_INITIALIZE_def m_ATTACH_def m_DETACH_def m_STEP_def m_INSPECT_def
  m_INTERVENE_def m_PROBE_def m_CHECKPOINT_def m_REPLAY_def m_STATUS_def m_SUBSCRIBE_def
  m_UNSUBSCRIBE_def m_VIEW_def m_KV_READ_def m_KV_INTERVENE_def m_DISCOVER_def m_VIEW_DEFINE_def
  m_SESSION_EXPORT_def

definition ev_TICK_STOPPED :: string where "ev_TICK_STOPPED = ''tick.stopped''"
definition ev_TICK_HEARTBEAT :: string where "ev_TICK_HEARTBEAT = ''tick.heartbeat''"
definition ev_PROBE_FIRED :: string where "ev_PROBE_FIRED = ''probe.fired''"
definition ev_REPLAY_DIVERGENCE :: string where "ev_REPLAY_DIVERGENCE = ''replay.divergence''"
definition ev_ERROR :: string where "ev_ERROR = ''error''"
definition ev_KV_UPDATE :: string where "ev_KV_UPDATE = ''kv.update''"
definition ev_KV_EVICTED :: string where "ev_KV_EVICTED = ''kv.evicted''"

section \<open>Session setup\<close>

record 'v initialize_request =
  ini_client_name :: string
  ini_protocol_version :: string
  ini_client_version :: "string option"
  ini_client_capabilities :: "'v option"

record initialize_response =
  inr_capabilities :: capabilities

record 'v attach_request =
  at_model_path :: string
  at_model_family :: string
  at_device :: string
  at_dtype :: "dtype option"
  at_num_ranks :: u32
  at_config :: "'v option"

record component_entry =
  ce_canonical :: string
  ce_event :: string
  ce_tensor_shape :: "u64 list"
  ce_category :: string

record alias_entry =
  al_canonical :: string
  al_aliases :: "string list"

record tick_layer_info =
  tl_layer :: u32
  tl_components :: "string list"
  tl_tick_count :: u32

record tick_map_entry =
  tm_granularity :: tick_granularity
  tm_ticks_per_layer :: "tick_layer_info list"

record attach_response =
  ar_model_id :: string
  ar_model_family :: string
  ar_num_layers :: u32
  ar_num_heads :: u32
  ar_hidden_dim :: u32
  ar_num_ranks :: u32
  ar_capabilities :: capabilities
  ar_component_vocabulary :: "component_entry list"
  ar_module_tree :: "string list"
  ar_alias_table :: "alias_entry list"
  ar_tick_map :: "tick_map_entry list"

record detach_response =
  dr_detached_model_id :: string

section \<open>Stepping and inspecting\<close>

record step_request =
  sr_direction :: step_direction
  sr_count :: u32
  sr_granularity :: "tick_granularity option"
  sr_envelope :: envelope_mode
  sr_run_to :: "string option"
  sr_tokens :: "u64 list option"

record step_response =
  sp_ticks_executed :: u32
  sp_stopped_at :: tick_position
  sp_fired_interventions :: "string list"

datatype inspect_detail = Detail_Summary | Detail_Slice | Detail_Full

record inspect_request =
  iq_target :: string
  iq_detail :: inspect_detail
  iq_slices :: "(u64 \<times> u64) list option"
  iq_format :: "dtype option"
  iq_view :: "built_in_view option"
  iq_envelope :: envelope_mode

record 'v inspect_response =
  ip_tensors :: "tensor_summary list"
  ip_view_result :: "'v option"
  ip_slice_data :: "string option"

section \<open>Interventions and probes\<close>

datatype intervene_request = Intervene_Set intervention_recipe | Intervene_Clear string | Intervene_List

record intervene_response =
  iv_active :: "intervention_recipe list"
  iv_applied :: "bool option"

datatype probe_request =
    Probe_Define probe_definition
  | Probe_List
  | Probe_Enable string
  | Probe_Disable string
  | Probe_Remove string
  | Probe_SetGranularity "granularity_scope list"

record probe_response =
  pr_probes :: "probe_definition list"
  pr_probe_id :: "string option"

section \<open>Checkpoints and replay\<close>

datatype create_checkpoint_tier = Create_Activation | Create_FullSnapshot

datatype checkpoint_request =
    Ckpt_Create "create_checkpoint_tier option"
  | Ckpt_Restore string
  | Ckpt_List
  | Ckpt_Delete string
  | Ckpt_Bookmark u64 string

record checkpoint_response =
  cp_checkpoints :: "checkpoint_ref list"
  cp_checkpoint_id :: "string option"
  cp_restored_to :: "tick_position option"

record replay_stop_at =
  rsa_layer :: u32
  rsa_component :: string

record replay_request =
  rp_from_checkpoint :: string
  rp_interventions :: "intervention_recipe list option"
  rp_stop_at :: "replay_stop_at option"
  rp_verify :: bool
  rp_envelope :: envelope_mode
  rp_deterministic :: "bool option"
  rp_cosine_threshold :: "f64 option"
  rp_mre_threshold :: "f64 option"

record divergence =
  dv_tick_id :: u64
  dv_original_tick_id :: u64
  dv_probe_point :: string
  dv_cosine :: f64
  dv_max_relative_error :: f64
  dv_message :: string

record replay_response =
  rr_ticks_replayed :: u32
  rr_stopped_at :: tick_position
  rr_divergences :: "divergence list"
  rr_verified :: bool

section \<open>Status, subscriptions, views\<close>

record memory_usage =
  mu_gpu_mb :: f64
  mu_cpu_mb :: f64

record status_response =
  sx_uptime_seconds :: f64
  sx_connected_clients :: u32
  sx_memory_usage :: memory_usage
  sx_pending_interventions :: u32
  sx_trace_events_recorded :: u64

datatype event_type = Ev_TickStopped | Ev_TickHeartbeat | Ev_ProbeFired | Ev_ReplayDivergence | Ev_Error

record subscribe_filter =
  sf_events :: "event_type list option"
  sf_layers :: "u32 list option"
  sf_components :: "string list option"

record subscribe_request =
  sq_filter :: "subscribe_filter option"

record subscribe_response =
  sb_available_events :: "event_type list"
  sb_status :: status

record unsubscribe_response =
  ub_status :: status

record 'v view_request =
  vq_view :: built_in_view
  vq_params :: "'v option"
  vq_envelope :: envelope_mode

record 'v view_response =
  vr_view :: built_in_view
  vr_data :: 'v

record 'v view_define_request =
  vd_name :: string
  vd_spec :: 'v

record view_define_response =
  vn_name :: string
  vn_registered :: bool

record discover_request =
  dq_pattern :: string

record discover_match =
  dm_canonical :: string
  dm_tensor_shape :: "u64 list"
  dm_aliases :: "string list"

record discover_response =
  ds_matches :: "discover_match list"
  ds_suggestions :: "string list"

section \<open>KV cache\<close>

datatype kv_slot = Slot_K | Slot_V | Slot_Both
datatype kv_metric = Metric_L2Norm | Metric_Mean | Metric_AbsMax

record kv_read_request =
  kq_layers :: "u32 list option"
  kq_positions :: "u64 list option"
  kq_heads :: "u32 list option"
  kq_slot :: kv_slot
  kq_metric :: kv_metric

datatype kv_overlay = Ov_Sink | Ov_HeavyHitter | Ov_Evicted | Ov_Quantized | Ov_PageBoundary | Ov_SharedPrefix

record kv_cache_entry =
  ke_layer :: u32
  ke_position :: u64
  ke_head :: u32
  ke_k_metric :: "f64 option"
  ke_v_metric :: "f64 option"
  ke_overlay :: "kv_overlay option"

record kv_read_response =
  kr_entries :: "kv_cache_entry list"

datatype kv_intervene_op = Op_Zero | Op_Scale f64 | Op_Evict | Op_Pin

record kv_intervene_request =
  ki_layers :: "u32 list"
  ki_positions :: "u64 list"
  ki_heads :: "u32 list option"
  ki_slot :: kv_slot
  ki_operation :: kv_intervene_op

record kv_intervene_response =
  kx_slots_modified :: u64
  kx_applied_op :: string

section \<open>Events\<close>

record tick_stopped_event =
  ts_position :: tick_position
  ts_state :: status

datatype rank_activity = Rank_Idle | Rank_Stopped | Rank_Waiting | Rank_Processing

record rank_status =
  rk_rank :: u32
  rk_status :: rank_activity
  rk_gpu_memory_used_mb :: f64
  rk_gpu_memory_total_mb :: f64

record tick_heartbeat_event =
  hb_position :: tick_position
  hb_uptime_seconds :: f64
  hb_elapsed_stopped_sec :: f64
  hb_per_rank_status :: "rank_status list"

record probe_fired_event =
  fe_probe_id :: string
  fe_point :: string
  fe_tick_id :: u64
  fe_tensor_summary :: "tensor_summary option"
  fe_action :: probe_action
  fe_timestamp :: string
  fe_rank :: u32

record kv_update_event =
  ku_layer :: u32
  ku_new_positions :: "u64 list"
  ku_total_positions :: u64

record kv_evicted_event =
  kv_layer :: u32
  kv_evicted_positions :: "u64 list"
  kv_reason :: string

section \<open>Host messages\<close>

record host_attach_response =
  ha_model_handle :: u64
  ha_num_layers :: u32
  ha_num_heads :: u32
  ha_hidden_dim :: u32
  ha_module_tree :: "string list"
  ha_model_type :: string
  ha_component_vocabulary :: "string list"
  ha_shm_name :: "string option"
  ha_worker_pid :: "u32 option"

record host_step_response =
  hs_position :: tick_position
  hs_events :: "probe_fired_event list"
  hs_forward_complete :: bool
  hs_events_truncated :: bool
  hs_fired_interventions :: "string list"

record captured_tensor =
  ct_module_path :: string
  ct_canonical :: string
  ct_layer :: u32
  ct_shape :: "u64 list"
  ct_dtype :: string
  ct_device :: string
  ct_tensor_id :: string
  ct_shm_name :: "string option"
  ct_shm_offset :: "u64 option"
  ct_byte_length :: "u64 option"
  ct_data_base64 :: "string option"

record host_inspect_response =
  hi_tensors :: "captured_tensor list"

record 'v host_view_response =
  hv_view :: built_in_view
  hv_data :: 'v

datatype host_checkpoint_request =
    HostCkpt_Create u64 string create_checkpoint_tier u64 u32
  | HostCkpt_Restore u64 string

record host_checkpoint_response =
  hc_checkpoint_id :: string
  hc_tier :: checkpoint_tier
  hc_restored_to :: "tick_position option"
  hc_bytes_captured :: "u64 option"

record host_replay_response =
  hr_ticks_replayed :: u32
  hr_stopped_at :: tick_position
  hr_divergences :: "divergence list"
  hr_verified :: bool

record kv_eviction_info =
  kei_position :: u64
  kei_evicted_at_tick :: u64

record host_kv_read_response =
  hk_entries :: "kv_cache_entry list"
  hk_evicted :: "kv_eviction_info list"

record host_kv_intervene_response =
  hx_slots_modified :: u64
  hx_applied_op :: string

end
