(* ===== verification/Request_Contract.thy ===== *)
theory Request_Contract
  imports Protocol_Errors
begin

text \<open>
  What a client may rely on of any component that answers JSON-RPC requests over a state: one reply
  per request, carrying its identifier and either a result or an error, a structured error that
  tells the client how to recover and that means nothing was changed, and an invariant kept.
\<close>

text \<open>
  A structured error carries the numeric code and severity of its error code and a recovery hint; an
  error without data is a protocol-level one.
\<close>

definition actionable :: "error_data \<Rightarrow> bool" where
  "actionable d \<longleftrightarrow> ed_numeric d = Some (error_numeric_code (ed_code d))
     \<and> ed_severity d = error_severity (ed_code d)
     \<and> (\<exists>h. ed_recovery_hint d = Some h \<and> h \<noteq> [])"

definition rpc_error_ok :: "rpc_error \<Rightarrow> bool" where
  "rpc_error_ok e = (case re_data e of
     None \<Rightarrow> re_code e \<in> {INTERNAL_ERROR, METHOD_NOT_FOUND}
   | Some d \<Rightarrow> actionable d \<and> re_code e = error_numeric_code (ed_code d))"

text \<open>The shape of a reply, its error being one that \<open>err_ok\<close> accepts.\<close>

definition reply_with :: "(rpc_error \<Rightarrow> bool) \<Rightarrow> 'v request \<Rightarrow> 'v response \<Rightarrow> bool" where
  "reply_with err_ok rq r \<longleftrightarrow> rs_jsonrpc r = JSONRPC_VERSION \<and> rs_id r = rq_id rq
     \<and> (rs_result r = None \<longleftrightarrow> rs_error r \<noteq> None)
     \<and> (\<forall>e. rs_error r = Some e \<longrightarrow> err_ok e)"

abbreviation reply_ok :: "'v request \<Rightarrow> 'v response \<Rightarrow> bool" where
  "reply_ok \<equiv> reply_with rpc_error_ok"

text \<open>A request is refused when it is answered with a structured error.\<close>

definition refused :: "'v response \<Rightarrow> bool" where
  "refused r \<longleftrightarrow> (\<exists>e. rs_error r = Some e \<and> re_data e \<noteq> None)"

locale request_handler =
  fixes handle :: "'e \<Rightarrow> 's \<Rightarrow> 'v request \<Rightarrow> 'v response \<times> 's"
    and inv :: "'s \<Rightarrow> bool"
    and err_ok :: "rpc_error \<Rightarrow> bool"
  assumes keeps_inv: "inv s \<Longrightarrow> inv (snd (handle e s rq))"
    and replies: "inv s \<Longrightarrow> reply_with err_ok rq (fst (handle e s rq))"
begin

text \<open>Serving requests one after the other, each in the environment of its moment.\<close>

fun serve :: "'s \<Rightarrow> ('e \<times> 'v request) list \<Rightarrow> 'v response list \<times> 's" where
  "serve s [] = ([], s)"
| "serve s ((e, rq) # rest) =
     (case handle e s rq of (r, s') \<Rightarrow> (case serve s' rest of (rs, s'') \<Rightarrow> (r # rs, s'')))"

lemma serve_inv: "inv s \<Longrightarrow> inv (snd (serve s calls))"
proof (induction calls arbitrary: s)
  case (Cons c calls)
  then show ?case using keeps_inv [of s "fst c" "snd c"] by (cases c) (simp add: split_beta)
qed simp

lemma serve_replies:
  "inv s \<Longrightarrow> list_all2 (\<lambda>c r. reply_with err_ok (snd c) r) calls (fst (serve s calls))"
proof (induction calls arbitrary: s)
  case (Cons c calls)
  then show ?case
    using keeps_inv [of s "fst c" "snd c"] replies [of s "snd c" "fst c"]
    by (cases c) (simp add: split_beta)
qed simp

end

text \<open>A handler that changes nothing when it refuses.\<close>

locale atomic_handler = request_handler handle inv err_ok
  for handle :: "'e \<Rightarrow> 's \<Rightarrow> 'v request \<Rightarrow> 'v response \<times> 's" and inv err_ok +
  assumes refusal: "inv s \<Longrightarrow> refused (fst (handle e s rq)) \<Longrightarrow> snd (handle e s rq) = s"
begin

text \<open>The state reached is the one reached by the calls that were not refused.\<close>

fun accepted :: "'s \<Rightarrow> ('e \<times> 'v request) list \<Rightarrow> ('e \<times> 'v request) list" where
  "accepted s [] = []"
| "accepted s ((e, rq) # rest) =
     (case handle e s rq of (r, s') \<Rightarrow> (if refused r then [] else [(e, rq)]) @ accepted s' rest)"

lemma serve_accepted: "inv s \<Longrightarrow> snd (serve s (accepted s calls)) = snd (serve s calls)"
proof (induction calls arbitrary: s)
  case (Cons c calls)
  obtain e rq r s' where c: "c = (e, rq)" and h: "handle e s rq = (r, s')" by (cases c) force
  have "inv s'" using keeps_inv [of s e rq] Cons.prems h by simp
  moreover have "s' = s" if "refused r" using refusal [of s e rq] Cons.prems h that by simp
  ultimately show ?case
    using Cons.IH [of s'] h c by (auto split: prod.splits)
qed simp

end

end
