(* ===== verification/Error_Hints.thy ===== *)
theory Error_Hints
  imports Protocol_Messages Request_Contract
begin

text \<open>
  The daemon's error constructors, from the head of \<^verbatim>\<open>crates/rocket-surgeon/src/dispatch.rs\<close>: every
  error it reports carries the numeric code and severity of its code and a recovery hint.
\<close>

definition recovery_hint_for :: "error_code \<Rightarrow> string" where
  "recovery_hint_for c = (case c of
     InvalidState \<Rightarrow> ''Check `state.status` and `valid_states`, then issue an action allowed from the current state.''
   | InvalidTarget \<Rightarrow> ''Pick a target from `context.nearest_matches` or `context.valid_components_at_layer`.''
   | InvalidRecipe \<Rightarrow> ''Fix the recipe params and resubmit the intervention.''
   | ModelNotAttached \<Rightarrow> ''Call `rocket/attach` with a valid model before retrying.''
   | BackendAttachFailed \<Rightarrow> ''Call `rocket/attach` with a valid model before retrying.''
   | ModelAlreadyAttached \<Rightarrow> ''Call `rocket/detach` first, then attach the new model.''
   | TensorNotFound \<Rightarrow> ''Run `rocket/step` to advance the forward pass so the tensor is captured, then retry.''
   | CheckpointNotFound \<Rightarrow> ''List checkpoints with `rocket/checkpoint action=list` and use an id that exists.''
   | ProbeNotFound \<Rightarrow> ''List probes with `rocket/probe action=list` and use a known id.''
   | CapabilityNotSupported \<Rightarrow> ''Check `initialize` capabilities; this build does not support the requested feature.''
   | SliceOutOfBounds \<Rightarrow> ''Inspect with `detail=summary` to read the tensor shape, then request an in-bounds slice.''
   | ResponseTooLarge \<Rightarrow> ''Narrow the target or request a slice instead of the full tensor.''
   | HostError \<Rightarrow> ''Inspect the daemon logs; the host worker hit an unrecoverable fault.''
   | GpuOom \<Rightarrow> ''Free GPU memory or attach a smaller model, then retry.''
   | NcclTimeout \<Rightarrow> ''Check inter-rank connectivity; restart the session if ranks are unreachable.''
   | ReplayDivergence \<Rightarrow> ''Re-capture from a fresh checkpoint; the replay diverged from the recorded run.''
   | UnsupportedModel \<Rightarrow> ''Attach a model from a supported family (see `suggestion`).''
   | CompiledModel \<Rightarrow> ''Remove the torch.compile() wrapper and re-export the model in eager mode.''
   | InvalidParams \<Rightarrow> ''Fix the request params to match the method schema and retry.''
   | DuplicateProbeId \<Rightarrow> ''Choose a unique probe id, or remove the existing probe first.''
   | InvalidPoint \<Rightarrow> ''Fix the probe point grammar (family:rank:layer:component:slot:event).''
   | ViewDataUnavailable \<Rightarrow> ''Step the forward pass so view data is computed, then retry the view.''
   | BranchNotFound \<Rightarrow> ''List branches and target one that exists.''
   | BranchMergeRefused \<Rightarrow> ''Resolve the divergence before merging, or merge into a compatible branch.''
   | VramExhausted \<Rightarrow> ''Drop branches or checkpoints to reclaim VRAM (see `context.recommendation`).''
   | CrossRequestKv \<Rightarrow> ''Scope KV access to the originating request; cross-request KV reads are not allowed.''
   | KvEvicted \<Rightarrow> ''Re-run the prefill; the KV-cache entry was evicted.'')"

definition error_with_hint :: "error_code \<Rightarrow> string \<Rightarrow> error_data" where
  "error_with_hint c s = (ErrorData_new c s)\<lparr>ed_recovery_hint := Some (recovery_hint_for c)\<rparr>"

definition error_with_context :: "error_code \<Rightarrow> string \<Rightarrow> error_context \<Rightarrow> error_data" where
  "error_with_context c s ctx = (error_with_hint c s)\<lparr>ed_context := Some ctx\<rparr>"

lemma recovery_hint_nonempty [simp]: "recovery_hint_for c \<noteq> []"
  by (cases c) (simp_all add: recovery_hint_for_def)

lemma actionable_error_with_hint [simp, intro]: "actionable (error_with_hint c s)"
  by (simp add: actionable_def error_with_hint_def ErrorData_new_def)

lemma actionable_error_with_context [simp, intro]: "actionable (error_with_context c s ctx)"
  by (simp add: actionable_def error_with_context_def error_with_hint_def ErrorData_new_def)

lemma error_numeric_code_inj: "error_numeric_code c = error_numeric_code d \<longleftrightarrow> c = d"
  by (cases c; cases d) (simp_all add: error_numeric_code_def)

end
