(* ===== verification/Text.thy ===== *)
theory Text
  imports Prelude
begin

text \<open>
  The string operations of the standard library that the code uses, on UTF-8 byte strings:
  \<^verbatim>\<open>split\<close> on an ASCII separator, joining, the Unicode white-space test behind \<^verbatim>\<open>trim().is_empty()\<close>,
  and the decoding behind \<^verbatim>\<open>chars()\<close>.
\<close>

named_theorems text_simps \<open>splitting and joining text\<close>

section \<open>Splitting and joining\<close>

fun split_on :: "'a \<Rightarrow> 'a list \<Rightarrow> 'a list list" where
  "split_on c [] = [[]]"
| "split_on c (x # xs) =
     (if x = c then [] # split_on c xs
      else (case split_on c xs of [] \<Rightarrow> [[x]] | s # ss \<Rightarrow> (x # s) # ss))"

fun join_on :: "'a \<Rightarrow> 'a list list \<Rightarrow> 'a list" where
  "join_on c [] = []"
| "join_on c [s] = s"
| "join_on c (s # t # ss) = s @ c # join_on c (t # ss)"

lemma split_on_nonempty [simp]: "split_on c s \<noteq> []"
  by (cases s) (auto split: list.splits)

lemma split_on_no_sep: "c \<notin> set s \<Longrightarrow> split_on c s = [s]"
  by (induction s) auto

lemma split_on_append_sep: "c \<notin> set s \<Longrightarrow> split_on c (s @ c # t) = s # split_on c t"
  by (induction s) auto

lemma split_join [text_simps]:
  "segs \<noteq> [] \<Longrightarrow> (\<forall>s \<in> set segs. c \<notin> set s) \<Longrightarrow> split_on c (join_on c segs) = segs"
  by (induction c segs rule: join_on.induct) (simp_all add: split_on_no_sep split_on_append_sep)

lemma join_split [text_simps]: "join_on c (split_on c s) = s"
proof (induction s)
  case (Cons x xs)
  obtain s ss where split: "split_on c xs = s # ss"
    by (cases "split_on c xs") auto
  with Cons show ?case by (cases ss) auto
qed simp

lemma split_on_no_seps: "t \<in> set (split_on c s) \<Longrightarrow> c \<notin> set t"
proof (induction s arbitrary: t)
  case (Cons x xs)
  then show ?case by (auto split: if_splits list.splits)
qed simp

lemma length_split_on: "length (split_on c s) = Suc (count_list s c)"
proof (induction s)
  case (Cons x xs)
  then show ?case by (cases "split_on c xs") auto
qed simp

lemma split_on_inj: "split_on c s = split_on c t \<longleftrightarrow> s = t"
  using join_split by metis

text \<open>\<^verbatim>\<open>s.contains(t)\<close>, \<^verbatim>\<open>s.starts_with(p)\<close> and \<^verbatim>\<open>s.find(c)\<close> for an ASCII character.\<close>

definition str_contains :: "string \<Rightarrow> string \<Rightarrow> bool" where
  "str_contains s t \<longleftrightarrow> list_ex (\<lambda>i. take (length t) (drop i s) = t) [0..<Suc (length s)]"

definition starts_with :: "string \<Rightarrow> string \<Rightarrow> bool" where
  "starts_with p s \<longleftrightarrow> take (length p) s = p"

fun find_char :: "char \<Rightarrow> string \<Rightarrow> nat option" where
  "find_char c [] = None"
| "find_char c (x # xs) = (if x = c then Some 0 else map_option Suc (find_char c xs))"

section \<open>White space\<close>

definition ascii_ws :: "nat \<Rightarrow> bool" where
  "ascii_ws b \<longleftrightarrow> b = 32 \<or> (9 \<le> b \<and> b \<le> 13)"

fun bytes_ws :: "nat list \<Rightarrow> bool" where
  "bytes_ws [] = True"
| "bytes_ws (a # bs) =
     (if ascii_ws a then bytes_ws bs
      else case bs of
        b # cs \<Rightarrow>
          if a = 0xC2 \<and> (b = 0x85 \<or> b = 0xA0) then bytes_ws cs
          else (case cs of
            c # ds \<Rightarrow>
              if (a = 0xE1 \<and> b = 0x9A \<and> c = 0x80)
                \<or> (a = 0xE2 \<and> b = 0x80 \<and> (0x80 \<le> c \<and> c \<le> 0x8A \<or> c = 0xA8 \<or> c = 0xA9 \<or> c = 0xAF))
                \<or> (a = 0xE2 \<and> b = 0x81 \<and> c = 0x9F) \<or> (a = 0xE3 \<and> b = 0x80 \<and> c = 0x80)
              then bytes_ws ds else False
          | [] \<Rightarrow> False)
      | [] \<Rightarrow> False)"

text \<open>\<^verbatim>\<open>s.trim().is_empty()\<close>\<close>

definition trim_is_empty :: "string \<Rightarrow> bool" where
  "trim_is_empty s = bytes_ws (map of_char s)"

lemma trim_is_empty_Nil [simp]: "trim_is_empty []"
  by (simp add: trim_is_empty_def)

section \<open>Characters\<close>

text \<open>
  \<^verbatim>\<open>s.chars()\<close> on the bytes of a valid UTF-8 string: the code points, by the length class of the
  leading byte.
\<close>

definition continuation :: "nat \<Rightarrow> nat" where "continuation b = b mod 64"

fun decode_utf8 :: "nat list \<Rightarrow> nat list" where
  "decode_utf8 (a # bs) =
     (if a < 0x80 then a # decode_utf8 bs
      else if a < 0xE0 then
        (case bs of b # r \<Rightarrow> (64 * (a mod 32) + continuation b) # decode_utf8 r | _ \<Rightarrow> [])
      else if a < 0xF0 then
        (case bs of b # c # r \<Rightarrow>
           (4096 * (a mod 16) + 64 * continuation b + continuation c) # decode_utf8 r | _ \<Rightarrow> [])
      else
        (case bs of b # c # d # r \<Rightarrow>
           (262144 * (a mod 8) + 4096 * continuation b + 64 * continuation c + continuation d) # decode_utf8 r
         | _ \<Rightarrow> []))"
| "decode_utf8 [] = []"

definition chars :: "string \<Rightarrow> nat list" where
  "chars s = decode_utf8 (map of_char s)"

lemma decode_utf8_ascii: "\<forall>b \<in> set bs. b < 0x80 \<Longrightarrow> decode_utf8 bs = bs"
  by (induction bs) auto

end
