(* ===== verification/Session.thy ===== *)
theory Session
  imports Error_Hints Text "HOL-Library.AList" "HOL-Library.Char_ord" "HOL-Library.List_Lexorder"
    "HOL-Library.Product_Lexorder"
begin

text \<open>
  The daemon's session, \<^verbatim>\<open>crates/rocket-surgeon/src/session.rs\<close>: the debugging state machine, the
  checkpoint registry, worldline segments, discovery, views and the intervention registry. An
  operation that takes \<^verbatim>\<open>&mut self\<close> returns the new session beside its result. Fresh identifiers
  (\<^verbatim>\<open>uuid::Uuid::new_v4\<close>), the wall clock in seconds and the uptime are arguments. A \<^verbatim>\<open>HashMap\<close> is
  an association list with distinct keys whose order is one of the iteration orders the map may have.
\<close>

section \<open>Errors\<close>

datatype session_error =
    SE_InvalidState error_data
  | SE_ModelAlreadyAttached error_data
  | SE_ModelNotAttached error_data
  | SE_UnsupportedModel error_data
  | SE_CompiledModel error_data
  | SE_CapabilityNotSupported error_data
  | SE_InvalidParams error_data
  | SE_CheckpointNotFound error_data

fun session_error_data :: "session_error \<Rightarrow> error_data" where
  "session_error_data (SE_InvalidState d) = d"
| "session_error_data (SE_ModelAlreadyAttached d) = d"
| "session_error_data (SE_ModelNotAttached d) = d"
| "session_error_data (SE_UnsupportedModel d) = d"
| "session_error_data (SE_CompiledModel d) = d"
| "session_error_data (SE_CapabilityNotSupported d) = d"
| "session_error_data (SE_InvalidParams d) = d"
| "session_error_data (SE_CheckpointNotFound d) = d"

abbreviation sq :: string where "sq \<equiv> [CHR 0x27]"

section \<open>Timestamps\<close>

text \<open>
  The civil date of a day count since 1970-01-01. All quantities are within \<^verbatim>\<open>i64\<close> for any
  \<^verbatim>\<open>u64\<close> number of seconds, so they are integers here.
\<close>

definition civil_from_days :: "int \<Rightarrow> int \<times> int \<times> int" where
  "civil_from_days days =
     (let z = days + 719468;
          era = z div 146097;
          doe = z - era * 146097;
          yoe = (doe - doe div 1460 + doe div 36524 - doe div 146096) div 365;
          doy = doe - (365 * yoe + yoe div 4 - yoe div 100);
          mp = (5 * doy + 2) div 153;
          day = doy - (153 * mp + 2) div 5 + 1;
          month = (if mp < 10 then mp + 3 else mp - 9);
          year = yoe + era * 400 + (if month \<le> 2 then 1 else 0)
      in (year, month, day))"

definition pad_num :: "nat \<Rightarrow> int \<Rightarrow> string" where
  "pad_num w n = (let s = show_nat (nat n) in replicate (w - length s) CHR ''0'' @ s)"

definition rfc3339 :: "u64 \<Rightarrow> string" where
  "rfc3339 secs =
     (let days = uint secs div 86400; rem = uint secs mod 86400;
          hour = rem div 3600; mins = (rem mod 3600) div 60; sec = rem mod 60
      in case civil_from_days days of (year, month, day) \<Rightarrow>
        pad_num 4 year @ ''-'' @ pad_num 2 month @ ''-'' @ pad_num 2 day @ ''T''
          @ pad_num 2 hour @ '':'' @ pad_num 2 mins @ '':'' @ pad_num 2 sec @ ''Z'')"

section \<open>Discovery\<close>

definition SUPPORTED_FAMILIES :: "string list" where
  "SUPPORTED_FAMILIES = [''llama'', ''mixtral'', ''gpt-neox'', ''gpt2'']"

definition PROTOCOL_VERSION :: string where "PROTOCOL_VERSION = ''0.3.0''"

record probe_point_entry =
  pp_family :: string
  pp_layer :: u32
  pp_canonical :: string
  pp_event :: string
  pp_tensor_shape :: "u64 list"
  pp_aliases :: "string list"

datatype pattern_seg = Wild | Lit string

definition PatternSeg_parse :: "string \<Rightarrow> pattern_seg" where
  "PatternSeg_parse raw = (if raw = ''*'' then Wild else Lit raw)"

fun PatternSeg_matches :: "pattern_seg \<Rightarrow> string \<Rightarrow> bool" where
  "PatternSeg_matches Wild target = True"
| "PatternSeg_matches (Lit lit) target = (lit = target)"

record discover_pattern =
  dp_family :: pattern_seg
  dp_layer :: pattern_seg
  dp_component :: pattern_seg
  dp_event :: pattern_seg

definition DiscoverPattern_parse :: "string \<Rightarrow> discover_pattern option" where
  "DiscoverPattern_parse pattern =
     (let segs = split_on CHR '':'' pattern in
      if length segs \<noteq> 5 \<or> [] \<in> set segs then None
      else Some \<lparr>dp_family = PatternSeg_parse (segs ! 0), dp_layer = PatternSeg_parse (segs ! 2),
                 dp_component = PatternSeg_parse (segs ! 3), dp_event = PatternSeg_parse (segs ! 4)\<rparr>)"

definition DiscoverPattern_matches :: "discover_pattern \<Rightarrow> probe_point_entry \<Rightarrow> bool" where
  "DiscoverPattern_matches p e \<longleftrightarrow>
     PatternSeg_matches (dp_family p) (pp_family e)
     \<and> PatternSeg_matches (dp_layer p) (show_u32 (pp_layer e))
     \<and> PatternSeg_matches (dp_component p) (pp_canonical e)
     \<and> PatternSeg_matches (dp_event p) (pp_event e)"

definition catalog_components :: "u32 \<Rightarrow> u32 \<Rightarrow> (string \<times> string \<times> u64 list \<times> string) list" where
  "catalog_components num_heads hidden_dim =
     (let hidden = ucast hidden_dim; heads = ucast num_heads in
      [(''attn.q_proj'', ''output'', [1, hidden], ''attn.hook_q''),
       (''attn.k_proj'', ''output'', [1, hidden], ''attn.hook_k''),
       (''attn.v_proj'', ''output'', [1, hidden], ''attn.hook_v''),
       (''attn.o_proj'', ''output'', [1, hidden], ''attn.hook_z''),
       (''attn.scores'', ''output'', [1, heads, 1, 1], ''attn.hook_pattern''),
       (''mlp'', ''output'', [1, hidden], ''hook_mlp_out''),
       (''residual_post'', ''output'', [1, hidden], ''hook_resid_post'')])"

definition default_catalog :: "string \<Rightarrow> u32 \<Rightarrow> u32 \<Rightarrow> u32 \<Rightarrow> probe_point_entry list" where
  "default_catalog family num_layers num_heads hidden_dim =
     concat (map (\<lambda>l. map (\<lambda>(canonical, event, shape, alias_suffix).
         \<lparr>pp_family = family, pp_layer = word_of_nat l, pp_canonical = canonical, pp_event = event,
          pp_tensor_shape = shape,
          pp_aliases = [''blocks.'' @ show_nat l @ ''.'' @ alias_suffix]\<rparr>)
        (catalog_components num_heads hidden_dim)) [0..<unat num_layers])
     @ [\<lparr>pp_family = family, pp_layer = 0, pp_canonical = ''lm_head'', pp_event = ''output'',
         pp_tensor_shape = [1, ucast hidden_dim], pp_aliases = [''lm_head'']\<rparr>]"

section \<open>The session\<close>

record 'v session =
  s_state :: session_state
  s_detached_model_id :: "string option"
  s_catalog :: "probe_point_entry list"
  s_defined_views :: "(string \<times> 'v) list"
  s_event_filter :: "subscribe_filter option"
  s_checkpoint_positions :: "(string \<times> tick_position) list"
  s_interventions :: "intervention_recipe list"
  s_auto_checkpoint_layers :: "u32 list"
  s_arena_utilization :: f64

definition Session_new :: "'v session" where
  "Session_new = \<lparr>
     s_state = \<lparr>ss_session_id = [], ss_model_id = None, ss_status = Uninitialized,
       ss_position = None, ss_tick_id = None, ss_active_probes = [], ss_checkpoints = [],
       ss_available_actions = [], ss_worldline = worldline_default\<rparr>,
     s_detached_model_id = None, s_catalog = [], s_defined_views = [], s_event_filter = None,
     s_checkpoint_positions = [], s_interventions = [], s_auto_checkpoint_layers = [],
     s_arena_utilization = 0\<rparr>"

abbreviation map_state :: "(session_state \<Rightarrow> session_state) \<Rightarrow> 'v session \<Rightarrow> 'v session" where
  "map_state f s \<equiv> s\<lparr>s_state := f (s_state s)\<rparr>"

definition set_event_filter :: "subscribe_filter option \<Rightarrow> 'v session \<Rightarrow> 'v session" where
  "set_event_filter f s = s\<lparr>s_event_filter := f\<rparr>"

definition envelope :: "'v session \<Rightarrow> 'a \<Rightarrow> 'a response_envelope" where
  "envelope s d = \<lparr>env_state = s_state s, env_data = Some d\<rparr>"

text \<open>The three wire shapes of a response body that honours the requested envelope mode.\<close>

datatype 'a moded_body =
    Body_Full "'a response_envelope"
  | Body_Position position_envelope 'a
  | Body_None 'a

definition envelope_with_mode :: "'v session \<Rightarrow> envelope_mode \<Rightarrow> 'a \<Rightarrow> 'a moded_body" where
  "envelope_with_mode s mode d = (case mode of
     Env_Full \<Rightarrow> Body_Full (envelope s d)
   | Env_Position \<Rightarrow>
       Body_Position \<lparr>pe_status = ss_status (s_state s), pe_position = ss_position (s_state s)\<rparr> d
   | Env_None \<Rightarrow> Body_None d)"

definition actions_for :: "status \<Rightarrow> action_name list" where
  "actions_for st = (case st of
     Initialized \<Rightarrow> [A_Attach]
   | Stopped \<Rightarrow> [A_Step, A_Inspect, A_Intervene, A_Probe, A_Checkpoint, A_Replay, A_Detach, A_Status,
       A_Subscribe]
   | _ \<Rightarrow> [])"

definition update_available_actions :: "'v session \<Rightarrow> 'v session" where
  "update_available_actions =
     map_state (\<lambda>st. st\<lparr>ss_available_actions := actions_for (ss_status st)\<rparr>)"

definition invalid_state_error :: "'v session \<Rightarrow> string \<Rightarrow> status list \<Rightarrow> session_error" where
  "invalid_state_error s method valid =
     (let suggestion =
        (if length valid = 1
         then ''The session must be in '' @ debug_status (valid ! 0) @ '' state to call '' @ method
         else ''The session must be in one of '' @ debug_statuses valid @ '' to call '' @ method)
      in SE_InvalidState \<lparr>ed_code = InvalidState, ed_numeric = Some (error_numeric_code InvalidState),
           ed_current_state = Some (ss_status (s_state s)), ed_valid_states = Some valid,
           ed_suggestion = suggestion, ed_severity = Recoverable,
           ed_recovery_hint = Some (recovery_hint_for InvalidState), ed_context = None\<rparr>)"

text \<open>
  The record literal that most session errors share: recoverable, with the current status.
\<close>

definition session_error_record ::
  "'v session \<Rightarrow> error_code \<Rightarrow> string \<Rightarrow> status list option \<Rightarrow> string \<Rightarrow> error_context option \<Rightarrow> error_data" where
  "session_error_record s c suggestion valid hint ctx =
     \<lparr>ed_code = c, ed_numeric = Some (error_numeric_code c),
      ed_current_state = Some (ss_status (s_state s)), ed_valid_states = valid,
      ed_suggestion = suggestion, ed_severity = Recoverable,
      ed_recovery_hint = Some hint, ed_context = ctx\<rparr>"

definition initialize ::
  "string \<Rightarrow> 'v initialize_request \<Rightarrow> 'w session
   \<Rightarrow> (session_error, initialize_response response_envelope) result \<times> 'w session" where
  "initialize uuid req s =
     (if ss_status (s_state s) \<noteq> Uninitialized then
        (Err (invalid_state_error s ''initialize'' [Uninitialized]), s)
      else if ini_protocol_version req \<noteq> PROTOCOL_VERSION then
        (Err (SE_InvalidParams (session_error_record s InvalidParams
           (''Unsupported protocol version '' @ sq @ ini_protocol_version req @ sq
              @ '', server supports '' @ sq @ PROTOCOL_VERSION @ sq)
           None (''Reconnect with protocol_version '' @ sq @ PROTOCOL_VERSION @ sq @ ''.'')
           (Some [(''requested_version'', CStr (ini_protocol_version req)),
                  (''supported_version'', CStr PROTOCOL_VERSION)]))), s)
      else
        let s' = update_available_actions
          (map_state (\<lambda>st. st\<lparr>ss_session_id := uuid, ss_status := Initialized\<rparr>) s)
        in (Ok (envelope s' \<lparr>inr_capabilities = phase1_defaults\<rparr>), s'))"

text \<open>
  Reading a JSON value: \<^verbatim>\<open>Value::get\<close> with a key and \<^verbatim>\<open>Value::as_str\<close>.
\<close>

record 'v json_ops =
  json_get :: "'v \<Rightarrow> string \<Rightarrow> 'v option"
  json_as_str :: "'v \<Rightarrow> string option"

definition wants_compiled :: "'v json_ops \<Rightarrow> 'v option \<Rightarrow> bool" where
  "wants_compiled ops config = (case config of
     None \<Rightarrow> False
   | Some v \<Rightarrow> (case json_get ops v ''execution_mode'' of
       None \<Rightarrow> False
     | Some mode \<Rightarrow> json_as_str ops mode = Some ''compiled''))"

definition validate_attach ::
  "'v json_ops \<Rightarrow> 'w session \<Rightarrow> 'v attach_request \<Rightarrow> (session_error, unit) result" where
  "validate_attach ops s req =
     (if ss_status (s_state s) = Stopped \<or> ss_model_id (s_state s) \<noteq> None then
        Err (SE_ModelAlreadyAttached (session_error_record s ModelAlreadyAttached
          ''Detach the current model before attaching a new one'' None
          (recovery_hint_for ModelAlreadyAttached) None))
      else if ss_status (s_state s) \<noteq> Initialized then
        Err (invalid_state_error s ''attach'' [Initialized])
      else if wants_compiled ops (at_config req) then
        Err (SE_CompiledModel (session_error_record s CompiledModel
          ''rocket_surgeon requires eager-mode models. Remove torch.compile() wrapper before attaching''
          None (recovery_hint_for CompiledModel) None))
      else if at_model_family req \<notin> set SUPPORTED_FAMILIES then
        Err (SE_UnsupportedModel (session_error_record s UnsupportedModel
          (''Supported model families: '' @ join_with '', '' SUPPORTED_FAMILIES) None
          (recovery_hint_for UnsupportedModel)
          (Some [(''attempted_family'', CStr (at_model_family req)),
                 (''supported_families'', CStrs SUPPORTED_FAMILIES)])))
      else Ok ())"

definition commit_attach ::
  "string \<Rightarrow> 'v attach_request \<Rightarrow> string \<Rightarrow> u32 \<Rightarrow> u32 \<Rightarrow> u32 \<Rightarrow> 'w session
   \<Rightarrow> attach_response response_envelope \<times> 'w session" where
  "commit_attach uuid req worker_model_type num_layers num_heads hidden_dim s =
     (let model_id = ''model-'' @ uuid;
          s' = map_state (\<lambda>st. st\<lparr>ss_model_id := Some model_id, ss_status := Stopped,
                 ss_position := None, ss_tick_id := None\<rparr>) s;
          s' = s'\<lparr>s_catalog := default_catalog worker_model_type num_layers num_heads hidden_dim\<rparr>;
          s' = update_available_actions s'
      in (envelope s' \<lparr>ar_model_id = model_id, ar_model_family = worker_model_type,
            ar_num_layers = num_layers, ar_num_heads = num_heads, ar_hidden_dim = hidden_dim,
            ar_num_ranks = at_num_ranks req, ar_capabilities = phase1_defaults,
            ar_component_vocabulary = [], ar_module_tree = [], ar_alias_table = [],
            ar_tick_map = []\<rparr>, s'))"

definition detach ::
  "'v session \<Rightarrow> (session_error, detach_response response_envelope) result \<times> 'v session" where
  "detach s =
     (if ss_status (s_state s) = Initialized \<or> ss_model_id (s_state s) = None then
        (Err (SE_ModelNotAttached (session_error_record s ModelNotAttached
          ''No model is currently attached'' None (recovery_hint_for ModelNotAttached) None)), s)
      else if ss_status (s_state s) \<noteq> Stopped then
        (Err (invalid_state_error s ''detach'' [Stopped]), s)
      else
        let detached_id = unwrap_or (ss_model_id (s_state s)) [];
            s' = map_state (\<lambda>st. st\<lparr>ss_model_id := None, ss_status := Initialized, ss_position := None,
                   ss_tick_id := None, ss_active_probes := [], ss_checkpoints := []\<rparr>) s;
            s' = s'\<lparr>s_detached_model_id := Some detached_id, s_checkpoint_positions := [],
                   s_catalog := [], s_defined_views := [], s_interventions := [],
                   s_auto_checkpoint_layers := []\<rparr>;
            s' = update_available_actions s'
        in (Ok (envelope s' \<lparr>dr_detached_model_id = detached_id\<rparr>), s'))"

definition session_status ::
  "f64 \<Rightarrow> 'v session \<Rightarrow> (session_error, status_response response_envelope) result" where
  "session_status uptime s =
     (if ss_status (s_state s) = Uninitialized then
        Err (invalid_state_error s ''status'' [Initialized, Stopped])
      else Ok (envelope s \<lparr>sx_uptime_seconds = uptime, sx_connected_clients = 1,
             sx_memory_usage = \<lparr>mu_gpu_mb = 0, mu_cpu_mb = 0\<rparr>, sx_pending_interventions = 0,
             sx_trace_events_recorded = 0\<rparr>))"

definition require_stopped :: "'v session \<Rightarrow> string \<Rightarrow> (session_error, unit) result" where
  "require_stopped s method = (case ss_status (s_state s) of
     Stopped \<Rightarrow> Ok ()
   | Uninitialized \<Rightarrow> Err (SE_ModelNotAttached (session_error_record s ModelNotAttached
       ''Attach a model before calling this method'' (Some [Stopped])
       (recovery_hint_for ModelNotAttached) None))
   | Initialized \<Rightarrow> Err (SE_ModelNotAttached (session_error_record s ModelNotAttached
       ''Attach a model before calling this method'' (Some [Stopped])
       (recovery_hint_for ModelNotAttached) None))
   | _ \<Rightarrow> Err (invalid_state_error s method [Stopped]))"

definition capability_not_supported_error :: "'v session \<Rightarrow> string \<Rightarrow> session_error" where
  "capability_not_supported_error s cap =
     SE_CapabilityNotSupported (session_error_record s CapabilityNotSupported
       (''The '' @ cap @ '' capability is not supported in this build'') None
       (recovery_hint_for CapabilityNotSupported) (Some [(''capability'', CStr cap)]))"

definition check_capability :: "'v session \<Rightarrow> string \<Rightarrow> (session_error, unit) result" where
  "check_capability s cap =
     (if cap \<in> {''supports_reverse_step'', ''supports_backward'', ''supports_moe'', ''supports_sae''}
      then Err (capability_not_supported_error s cap) else Ok ())"

end
