(* ===== verification/Session_Checkpoints.thy ===== *)
theory Session_Checkpoints
  imports Session
begin

text \<open>
  Checkpoint registry, stepping, replay and worldline bookkeeping of
  \<^verbatim>\<open>crates/rocket-surgeon/src/session.rs\<close>.
\<close>

section \<open>Checkpoints\<close>

definition checkpoint_envelope ::
  "'v session \<Rightarrow> string option \<Rightarrow> tick_position option \<Rightarrow> checkpoint_response response_envelope" where
  "checkpoint_envelope s cid restored = envelope s \<lparr>cp_checkpoints = ss_checkpoints (s_state s),
     cp_checkpoint_id = cid, cp_restored_to = restored\<rparr>"

definition position_layer :: "session_state \<Rightarrow> u32" where
  "position_layer st = (case ss_position st of None \<Rightarrow> 0 | Some p \<Rightarrow> tp_layer p)"

definition checkpoint_create_with_id ::
  "string \<Rightarrow> u64 \<Rightarrow> create_checkpoint_tier option \<Rightarrow> string option \<Rightarrow> 'v session
   \<Rightarrow> checkpoint_response response_envelope \<times> 'v session" where
  "checkpoint_create_with_id uuid now tier explicit_id s =
     (let checkpoint_id = unwrap_or explicit_id uuid;
          tier' = (case unwrap_or tier Create_Activation of
                     Create_Activation \<Rightarrow> Tier_Activation | Create_FullSnapshot \<Rightarrow> Tier_FullSnapshot);
          cref = \<lparr>cr_id = checkpoint_id, cr_tick_id = unwrap_or (ss_tick_id (s_state s)) 0,
                  cr_layer_idx = position_layer (s_state s), cr_tier = tier', cr_bookmark = None,
                  cr_created_at = rfc3339 now\<rparr>;
          s' = map_state (\<lambda>st. st\<lparr>ss_checkpoints := ss_checkpoints st @ [cref]\<rparr>) s;
          s' = (case ss_position (s_state s') of
                  None \<Rightarrow> s'
                | Some pos \<Rightarrow> s'\<lparr>s_checkpoint_positions :=
                    AList.update checkpoint_id pos (s_checkpoint_positions s')\<rparr>)
      in (checkpoint_envelope s' (Some checkpoint_id) None, s'))"

definition checkpoint_create ::
  "string \<Rightarrow> u64 \<Rightarrow> create_checkpoint_tier option \<Rightarrow> 'v session
   \<Rightarrow> checkpoint_response response_envelope \<times> 'v session" where
  "checkpoint_create uuid now tier s = checkpoint_create_with_id uuid now tier None s"

definition checkpoint_list :: "'v session \<Rightarrow> checkpoint_response response_envelope" where
  "checkpoint_list s = checkpoint_envelope s None None"

definition checkpoint_not_found_error :: "'v session \<Rightarrow> string \<Rightarrow> session_error" where
  "checkpoint_not_found_error s cid =
     SE_CheckpointNotFound (session_error_record s CheckpointNotFound
       (''Checkpoint '' @ sq @ cid @ sq
          @ '' does not exist; call `rocket/checkpoint action=list` to see valid ids'')
       None (recovery_hint_for CheckpointNotFound)
       (Some [(''checkpoint_id'', CStr cid),
              (''available_ids'', CStrs (map cr_id (ss_checkpoints (s_state s))))]))"

definition find_checkpoint :: "'v session \<Rightarrow> string \<Rightarrow> checkpoint_ref option" where
  "find_checkpoint s cid = List.find (\<lambda>c. cr_id c = cid) (ss_checkpoints (s_state s))"

text \<open>The forward-only position reconstructed from a bare checkpoint reference.\<close>

definition ref_position :: "checkpoint_ref \<Rightarrow> tick_position" where
  "ref_position c = \<lparr>tp_tick_id = cr_tick_id c, tp_direction = Forward, tp_rank = None,
     tp_layer = cr_layer_idx c, tp_component = [], tp_event = TE_Output, tp_replay_of = None,
     tp_phase = phase_default, tp_token_position = None, tp_clock = None\<rparr>"

definition checkpoint_position :: "'v session \<Rightarrow> string \<Rightarrow> checkpoint_ref \<Rightarrow> tick_position" where
  "checkpoint_position s cid c = unwrap_or (map_of (s_checkpoint_positions s) cid) (ref_position c)"

definition checkpoint_restore ::
  "string \<Rightarrow> 'v session \<Rightarrow> (session_error, checkpoint_response response_envelope) result \<times> 'v session" where
  "checkpoint_restore cid s = (case find_checkpoint s cid of
     None \<Rightarrow> (Err (checkpoint_not_found_error s cid), s)
   | Some c \<Rightarrow>
       let position = checkpoint_position s cid c;
           s' = map_state (\<lambda>st. st\<lparr>ss_tick_id := Some (tp_tick_id position),
                  ss_position := Some position\<rparr>) s
       in (Ok (checkpoint_envelope s' (Some cid) (Some position)), s'))"

definition checkpoint_delete ::
  "string \<Rightarrow> 'v session \<Rightarrow> (session_error, checkpoint_response response_envelope) result \<times> 'v session" where
  "checkpoint_delete cid s =
     (let before = length (ss_checkpoints (s_state s));
          s' = map_state (\<lambda>st. st\<lparr>ss_checkpoints := filter (\<lambda>c. cr_id c \<noteq> cid) (ss_checkpoints st)\<rparr>) s
      in if length (ss_checkpoints (s_state s')) = before
         then (Err (checkpoint_not_found_error s' cid), s')
         else let s' = s'\<lparr>s_checkpoint_positions := AList.delete cid (s_checkpoint_positions s')\<rparr>
              in (Ok (checkpoint_envelope s' None None), s'))"

text \<open>\<^verbatim>\<open>iter_mut().find(..)\<close> followed by an assignment updates the first match in place.\<close>

fun update_first :: "('a \<Rightarrow> bool) \<Rightarrow> ('a \<Rightarrow> 'a) \<Rightarrow> 'a list \<Rightarrow> 'a list" where
  "update_first P f [] = []"
| "update_first P f (x # xs) = (if P x then f x # xs else x # update_first P f xs)"

definition checkpoint_bookmark ::
  "string \<Rightarrow> u64 \<Rightarrow> u64 \<Rightarrow> string \<Rightarrow> 'v session \<Rightarrow> checkpoint_response response_envelope \<times> 'v session" where
  "checkpoint_bookmark uuid now tick name s =
     (let cs = ss_checkpoints (s_state s);
          cs' = (if \<exists>c \<in> set cs. cr_tick_id c = tick
                 then update_first (\<lambda>c. cr_tick_id c = tick) (\<lambda>c. c\<lparr>cr_bookmark := Some name\<rparr>) cs
                 else cs @ [\<lparr>cr_id = uuid, cr_tick_id = tick, cr_layer_idx = position_layer (s_state s),
                     cr_tier = Tier_ProbeLog, cr_bookmark = Some name, cr_created_at = rfc3339 now\<rparr>]);
          s' = map_state (\<lambda>st. st\<lparr>ss_checkpoints := cs'\<rparr>) s
      in (checkpoint_envelope s' None None, s'))"

section \<open>Worldlines\<close>

text \<open>The end of the current segment's tick range moves when the session moves.\<close>

definition extend_segment :: "u64 \<Rightarrow> worldline_state \<Rightarrow> worldline_state" where
  "extend_segment tick w =
     (let i = unat (wl_current w) in
      if i < length (wl_segments w)
      then w\<lparr>wl_segments := (wl_segments w)[i := (wl_segments w ! i)
               \<lparr>seg_tick_range := (fst (seg_tick_range (wl_segments w ! i)), tick)\<rparr>]\<rparr>
      else w)"

definition advance_worldline :: "u64 \<Rightarrow> worldline_state \<Rightarrow> worldline_state" where
  "advance_worldline branch_tick w =
     (let is_root = (wl_segments w = []);
          w' = extend_segment branch_tick w;
          new_id = word_of_nat (length (wl_segments w'));
          seg = \<lparr>seg_id = new_id,
                 seg_parent = (if \<not> is_root then Some (wl_current w') else None),
                 seg_branch_tick = (if \<not> is_root then Some branch_tick else None),
                 seg_tick_range = (branch_tick, 0)\<rparr>
      in w'\<lparr>wl_segments := wl_segments w' @ [seg], wl_current := new_id\<rparr>)"

definition advance_worldline_segment :: "u64 \<Rightarrow> 'v session \<Rightarrow> 'v session" where
  "advance_worldline_segment branch_tick =
     map_state (\<lambda>st. st\<lparr>ss_worldline := advance_worldline branch_tick (ss_worldline st)\<rparr>)"

section \<open>Stepping and replaying\<close>

text \<open>The part of \<^verbatim>\<open>step\<close> and \<^verbatim>\<open>replay\<close> that seats the session at a position.\<close>

definition seat_at :: "tick_position \<Rightarrow> 'v session \<Rightarrow> 'v session" where
  "seat_at pos s = update_available_actions (map_state (\<lambda>st. st\<lparr>ss_tick_id := Some (tp_tick_id pos),
     ss_position := Some pos, ss_worldline := extend_segment (tp_tick_id pos) (ss_worldline st)\<rparr>) s)"

definition session_step ::
  "step_request \<Rightarrow> tick_position \<Rightarrow> bool \<Rightarrow> string list \<Rightarrow> 'v session
   \<Rightarrow> (session_error, step_response moded_body) result \<times> 'v session" where
  "session_step req host_position forward_complete fired s =
     (case require_stopped s ''rocket/step'' of
        Inl e \<Rightarrow> (Err e, s)
      | Inr _ \<Rightarrow>
          let s' = seat_at host_position s;
              data = \<lparr>sp_ticks_executed = sr_count req, sp_stopped_at = host_position,
                      sp_fired_interventions = fired\<rparr>
          in (Ok (envelope_with_mode s' (sr_envelope req) data), s'))"

definition session_inspect ::
  "tensor_summary list \<Rightarrow> string option \<Rightarrow> envelope_mode \<Rightarrow> 'v session
   \<Rightarrow> (session_error, 'v inspect_response moded_body) result" where
  "session_inspect tensors slice_data mode s =
     bind_result (require_stopped s ''rocket/inspect'') (\<lambda>_.
       Ok (envelope_with_mode s mode \<lparr>ip_tensors = tensors, ip_view_result = None,
             ip_slice_data = slice_data\<rparr>))"

text \<open>
  The metadata-only replay used when there is no host: a fresh tick past the current one, marked as a
  replay of it.
\<close>

definition synthetic_replay ::
  "'v session \<Rightarrow> replay_request \<Rightarrow> checkpoint_ref \<Rightarrow> u32 \<times> tick_position" where
  "synthetic_replay s req c =
     (let origin = checkpoint_position s (rp_from_checkpoint req) c;
          current_tick = unwrap_or (ss_tick_id (s_state s)) (tp_tick_id origin);
          current = ss_position (s_state s);
          ticks = max (saturating_sub current_tick (tp_tick_id origin)) 1;
          sa = \<lparr>tp_tick_id = current_tick + ticks, tp_direction = Forward,
                tp_rank = Option.bind current tp_rank,
                tp_layer = (case rp_stop_at req of
                    None \<Rightarrow> (case current of None \<Rightarrow> tp_layer origin | Some p \<Rightarrow> tp_layer p)
                  | Some st \<Rightarrow> rsa_layer st),
                tp_component = (case rp_stop_at req of
                    None \<Rightarrow> (case current of None \<Rightarrow> [] | Some p \<Rightarrow> tp_component p)
                  | Some st \<Rightarrow> rsa_component st),
                tp_event = TE_Output, tp_replay_of = Some current_tick,
                tp_phase = (case current of None \<Rightarrow> phase_default | Some p \<Rightarrow> tp_phase p),
                tp_token_position = Option.bind current tp_token_position,
                tp_clock = Option.bind current tp_clock\<rparr>;
          t = (if unat ticks < 2 ^ 32 then ucast ticks else - 1)
      in (t, sa))"

definition session_replay ::
  "replay_request \<Rightarrow> host_replay_response option \<Rightarrow> 'v session
   \<Rightarrow> (session_error, replay_response moded_body) result \<times> 'v session" where
  "session_replay req host_response s =
     (case require_stopped s ''rocket/replay'' of
        Inl e \<Rightarrow> (Err e, s)
      | Inr _ \<Rightarrow>
         (case find_checkpoint s (rp_from_checkpoint req) of
            None \<Rightarrow> (Err (checkpoint_not_found_error s (rp_from_checkpoint req)), s)
          | Some c \<Rightarrow>
             let (ticks_replayed, stopped_at, divs, ver) =
                   (case host_response of
                      Some h \<Rightarrow> (hr_ticks_replayed h, hr_stopped_at h, hr_divergences h, hr_verified h)
                    | None \<Rightarrow> (case synthetic_replay s req c of (t, sa) \<Rightarrow> (t, sa, [], True)));
                 s' = seat_at stopped_at s;
                 data = \<lparr>rr_ticks_replayed = ticks_replayed, rr_stopped_at = stopped_at,
                         rr_divergences = divs, rr_verified = ver\<rparr>
             in (Ok (envelope_with_mode s' (rp_envelope req) data), s')))"

text \<open>The latest captured checkpoint strictly before a tick, over the map's iteration order.\<close>

fun best_before :: "u64 \<Rightarrow> (string \<times> tick_position) list \<Rightarrow> (string \<times> u64) option \<Rightarrow> (string \<times> u64) option" where
  "best_before target [] best = best"
| "best_before target ((cid, pos) # rest) best =
     best_before target rest
       (if tp_tick_id pos < target \<and> (case best of None \<Rightarrow> True | Some (_, t) \<Rightarrow> tp_tick_id pos > t)
        then Some (cid, tp_tick_id pos) else best)"

definition find_checkpoint_before :: "u64 \<Rightarrow> 'v session \<Rightarrow> string option" where
  "find_checkpoint_before target s = map_option fst (best_before target (s_checkpoint_positions s) None)"

end
