(* ===== verification/Session_Registry.thy ===== *)
theory Session_Registry
  imports Session_Checkpoints
begin

text \<open>
  Discovery queries, named views, the intervention registry and the remaining setters of
  \<^verbatim>\<open>crates/rocket-surgeon/src/session.rs\<close>.
\<close>

section \<open>Discovery\<close>

definition collect_canonicals :: "'v session \<Rightarrow> discover_pattern \<Rightarrow> string list \<Rightarrow> bool \<Rightarrow> string list" where
  "collect_canonicals s parsed segs respect_layer =
     (let canonicals = map pp_canonical (filter (\<lambda>e.
            PatternSeg_matches (dp_family parsed) (pp_family e)
            \<and> (\<not> respect_layer \<or> PatternSeg_matches (dp_layer parsed) (show_u32 (pp_layer e)))
            \<and> PatternSeg_matches (dp_event parsed) (pp_event e)) (s_catalog s))
      in map (\<lambda>canonical. segs ! 0 @ '':'' @ segs ! 1 @ '':'' @ segs ! 2 @ '':'' @ canonical @ '':'' @ segs ! 4)
           (remdups_adj (sort canonicals)))"

definition suggest_patterns :: "'v session \<Rightarrow> string \<Rightarrow> discover_pattern \<Rightarrow> string list" where
  "suggest_patterns s pattern parsed =
     (let segs = split_on CHR '':'' pattern;
          strict = collect_canonicals s parsed segs True
      in if strict = [] then collect_canonicals s parsed segs False else strict)"

definition discover ::
  "'v session \<Rightarrow> string \<Rightarrow> (session_error, discover_response response_envelope) result" where
  "discover s pattern =
     bind_result (require_stopped s ''rocket/discover'') (\<lambda>_.
       case DiscoverPattern_parse pattern of
         None \<Rightarrow> Err (SE_InvalidParams (session_error_record s InvalidParams
           (''Discover pattern '' @ sq @ pattern @ sq @ '' is not a 5-segment '' @ sq
              @ ''family:rank:layer:component:event'' @ sq @ '' string'')
           None (''Use a pattern like '' @ sq @ ''llama:*:12:*:output'' @ sq @ ''; segments may be '' @ sq
              @ ''*'' @ sq) None))
       | Some parsed \<Rightarrow>
           let entries = sort_key (\<lambda>e. (pp_layer e, pp_canonical e))
                 (filter (DiscoverPattern_matches parsed) (s_catalog s));
               ms = map (\<lambda>e. \<lparr>dm_canonical = pp_canonical e, dm_tensor_shape = pp_tensor_shape e,
                                 dm_aliases = pp_aliases e\<rparr>) entries;
               sugg = (if ms = [] then suggest_patterns s pattern parsed else [])
           in Ok (envelope s \<lparr>ds_matches = ms, ds_suggestions = sugg\<rparr>))"

section \<open>Views\<close>

definition define_view ::
  "string \<Rightarrow> 'v \<Rightarrow> 'v session \<Rightarrow> (session_error, view_define_response response_envelope) result \<times> 'v session" where
  "define_view name spec s =
     (case require_stopped s ''rocket/view.define'' of
        Inl e \<Rightarrow> (Err e, s)
      | Inr _ \<Rightarrow>
         if trim_is_empty name then
           (Err (SE_InvalidParams (session_error_record s InvalidParams
              ''View name must be a non-empty string'' None
              (''Provide a '' @ sq @ ''name'' @ sq @ '' field identifying the view, e.g. ''
                 @ [CHR 0x22] @ ''my_view'' @ [CHR 0x22]) None)), s)
         else let s' = s\<lparr>s_defined_views := AList.update name spec (s_defined_views s)\<rparr>
              in (Ok (envelope s' \<lparr>vn_name = name, vn_registered = True\<rparr>), s'))"

definition defined_view :: "'v session \<Rightarrow> string \<Rightarrow> 'v option" where
  "defined_view s name = map_of (s_defined_views s) name"

section \<open>Interventions\<close>

definition set_intervention :: "intervention_recipe \<Rightarrow> 'v session \<Rightarrow> 'v session" where
  "set_intervention recipe s = s\<lparr>s_interventions :=
     (if \<exists>r \<in> set (s_interventions s). ir_id r = ir_id recipe
      then update_first (\<lambda>r. ir_id r = ir_id recipe) (\<lambda>_. recipe) (s_interventions s)
      else s_interventions s @ [recipe])\<rparr>"

definition clear_intervention :: "string \<Rightarrow> 'v session \<Rightarrow> bool \<times> 'v session" where
  "clear_intervention i s =
     (let s' = s\<lparr>s_interventions := filter (\<lambda>r. ir_id r \<noteq> Some i) (s_interventions s)\<rparr>
      in (length (s_interventions s') \<noteq> length (s_interventions s), s'))"

section \<open>Setters\<close>

definition set_auto_checkpoint_layers :: "u32 list \<Rightarrow> 'v session \<Rightarrow> 'v session" where
  "set_auto_checkpoint_layers layers s = s\<lparr>s_auto_checkpoint_layers := layers\<rparr>"

text \<open>IEEE 754 double arithmetic is a parameter, on bit patterns.\<close>

record f64_ops =
  f64_of_u64 :: "u64 \<Rightarrow> f64"
  f64_add :: "f64 \<Rightarrow> f64 \<Rightarrow> f64"
  f64_div :: "f64 \<Rightarrow> f64 \<Rightarrow> f64"
  f64_min :: "f64 \<Rightarrow> f64 \<Rightarrow> f64"

definition update_arena_utilization :: "f64_ops \<Rightarrow> u64 option \<Rightarrow> 'v session \<Rightarrow> 'v session" where
  "update_arena_utilization F bytes_captured s = (case bytes_captured of
     None \<Rightarrow> s
   | Some b \<Rightarrow> s\<lparr>s_arena_utilization := f64_min F
       (f64_add F (s_arena_utilization s) (f64_div F (f64_of_u64 F b) (f64_of_u64 F 268435456)))
       (f64_of_u64 F 1)\<rparr>)"

end
