(* ===== verification/Combinators.thy ===== *)
theory Combinators
  imports Decimal
begin

text \<open>
  The parser combinators that the probe grammars use, at their documented meaning. A parser takes the
  remaining input and either yields a value with the input left over, or fails: with \<open>Backtrack\<close>, after
  which an enclosing \<open>alt\<close>, \<open>opt\<close> or \<open>separated\<close> goes on from where it stood, or with \<open>Cut\<close>, which no
  combinator recovers from.
\<close>

datatype 'a presult = POk 'a string | Backtrack | Cut

type_synonym 'a parser = "string \<Rightarrow> 'a presult"

fun pbind :: "'a presult \<Rightarrow> ('a \<Rightarrow> string \<Rightarrow> 'b presult) \<Rightarrow> 'b presult" where
  "pbind (POk x rest) f = f x rest"
| "pbind Backtrack f = Backtrack"
| "pbind Cut f = Cut"

fun pmap :: "('a \<Rightarrow> 'b) \<Rightarrow> 'a presult \<Rightarrow> 'b presult" where
  "pmap f (POk x rest) = POk (f x) rest"
| "pmap f Backtrack = Backtrack"
| "pmap f Cut = Cut"

definition alt2 :: "'a parser \<Rightarrow> 'a parser \<Rightarrow> 'a parser" where
  "alt2 p q s = (case p s of Backtrack \<Rightarrow> q s | r \<Rightarrow> r)"

definition opt :: "'a parser \<Rightarrow> 'a option parser" where
  "opt p s = (case p s of POk x rest \<Rightarrow> POk (Some x) rest | Backtrack \<Rightarrow> POk None s | Cut \<Rightarrow> Cut)"

definition lit_char :: "char \<Rightarrow> unit parser" where
  "lit_char c s = (case s of x # rest \<Rightarrow> if x = c then POk () rest else Backtrack | [] \<Rightarrow> Backtrack)"

definition take_while1 :: "(char \<Rightarrow> bool) \<Rightarrow> string parser" where
  "take_while1 P s = (let t = takeWhile P s in if t = [] then Backtrack else POk t (drop (length t) s))"

definition take_while0 :: "(char \<Rightarrow> bool) \<Rightarrow> string parser" where
  "take_while0 P s = POk (takeWhile P s) (dropWhile P s)"

definition is_ascii_alphabetic :: "char \<Rightarrow> bool" where
  "is_ascii_alphabetic c \<longleftrightarrow> (let n = of_char c :: nat in 65 \<le> n \<and> n \<le> 90 \<or> 97 \<le> n \<and> n \<le> 122)"

definition is_ascii_alphanumeric :: "char \<Rightarrow> bool" where
  "is_ascii_alphanumeric c \<longleftrightarrow> is_ascii_alphabetic c \<or> is_ascii_digit c"

definition alpha1 :: "string parser" where "alpha1 = take_while1 is_ascii_alphabetic"
definition digit1 :: "string parser" where "digit1 = take_while1 is_ascii_digit"

text \<open>
  \<^verbatim>\<open>separated(1.., p, sep)\<close> after its first item: as long as a separator and an item follow, take
  them; stop before a separator that no item follows. The fuel is the input length: every round
  consumes the separator.
\<close>

fun separated_tail :: "nat \<Rightarrow> 'a parser \<Rightarrow> char \<Rightarrow> 'a list parser" where
  "separated_tail 0 p sep s = POk [] s"
| "separated_tail (Suc n) p sep s = (case lit_char sep s of
     POk _ s1 \<Rightarrow>
       (case p s1 of
          POk x s2 \<Rightarrow> pmap (\<lambda>xs. x # xs) (separated_tail n p sep s2)
        | Backtrack \<Rightarrow> POk [] s
        | Cut \<Rightarrow> Cut)
   | _ \<Rightarrow> POk [] s)"

definition separated1 :: "'a parser \<Rightarrow> char \<Rightarrow> 'a list parser" where
  "separated1 p sep s = pbind (p s) (\<lambda>x s1. pmap (\<lambda>xs. x # xs) (separated_tail (length s1) p sep s1))"

text \<open>\<^verbatim>\<open>Parser::parse\<close>: the whole input has to be consumed.\<close>

definition parse_all :: "'a parser \<Rightarrow> string \<Rightarrow> 'a option" where
  "parse_all p s = (case p s of POk x [] \<Rightarrow> Some x | _ \<Rightarrow> None)"

section \<open>Lemmas\<close>

named_theorems parser_simps \<open>running the primitive parsers\<close>

lemma lit_char_simps [simp, parser_simps]:
  "lit_char c (c # rest) = POk () rest" "lit_char c [] = Backtrack"
  "x \<noteq> c \<Longrightarrow> lit_char c (x # rest) = Backtrack"
  by (simp_all add: lit_char_def)

lemma lit_char_eq_POk: "lit_char c s = POk u r \<longleftrightarrow> s = c # r"
  by (cases s) (auto simp: lit_char_def)

definition stops :: "(char \<Rightarrow> bool) \<Rightarrow> string \<Rightarrow> bool" where
  "stops P s \<longleftrightarrow> (case s of [] \<Rightarrow> True | c # _ \<Rightarrow> \<not> P c)"

lemma stops_simps [simp]: "stops P []" "stops P (c # s) \<longleftrightarrow> \<not> P c"
  by (simp_all add: stops_def)

lemma takeWhile_stops: "list_all P t \<Longrightarrow> stops P rest \<Longrightarrow> takeWhile P (t @ rest) = t"
  by (induction t) (auto simp: stops_def split: list.splits)

lemma take_while1_append [parser_simps]:
  "list_all P t \<Longrightarrow> t \<noteq> [] \<Longrightarrow> stops P rest \<Longrightarrow> take_while1 P (t @ rest) = POk t rest"
  by (simp add: take_while1_def Let_def takeWhile_stops)

lemma take_while1_eq_POk:
  "take_while1 P s = POk t r \<longleftrightarrow> t \<noteq> [] \<and> list_all P t \<and> s = t @ r \<and> stops P r"
proof
  assume "take_while1 P s = POk t r"
  then have t: "t = takeWhile P s" "t \<noteq> []" "r = drop (length t) s"
    by (auto simp: take_while1_def Let_def split: if_splits)
  moreover have "s = takeWhile P s @ dropWhile P s" by simp
  ultimately have s: "s = t @ r" by (metis append_eq_conv_conj)
  have "list_all P t" using t(1) by (auto simp: list_all_iff dest: set_takeWhileD)
  moreover have "dropWhile P s = r" using s t(1) by (metis same_append_eq takeWhile_dropWhile_id)
  then have "stops P r" by (cases r) (auto simp: dropWhile_eq_Cons_conv)
  ultimately show "t \<noteq> [] \<and> list_all P t \<and> s = t @ r \<and> stops P r" using s t(2) by simp
qed (auto simp: take_while1_append)

lemma pbind_eq_POk: "pbind r f = POk y s \<longleftrightarrow> (\<exists>x s1. r = POk x s1 \<and> f x s1 = POk y s)"
  by (cases r) auto

lemma pmap_eq_POk: "pmap f r = POk y s \<longleftrightarrow> (\<exists>x. r = POk x s \<and> y = f x)"
  by (cases r) auto

lemma separated_tail_print:
  assumes step: "\<And>x rest. x \<in> set xs \<Longrightarrow> ok rest \<Longrightarrow> p (pr x @ rest) = POk x rest"
    and sep: "\<And>rest. ok (sep # rest)" and last: "ok rest" "stops ((=) sep) rest"
    and n: "length xs \<le> n"
  shows "separated_tail n p sep (concat (map (\<lambda>x. sep # pr x) xs) @ rest) = POk xs rest"
  using step n
proof (induction xs arbitrary: n)
  case Nil
  then show ?case using last(2) by (cases n; cases rest) auto
next
  case (Cons x xs)
  then obtain m where n: "n = Suc m" by (cases n) auto
  let ?tl = "concat (map (\<lambda>x. sep # pr x) xs) @ rest"
  have "ok ?tl" using sep last(1) by (cases xs) auto
  then have "p (pr x @ ?tl) = POk x ?tl" using Cons.prems(1) by simp
  moreover have "separated_tail m p sep ?tl = POk xs rest"
    using Cons n by simp
  ultimately show ?case by (simp add: n)
qed

end
