(* ===== verification/Probe_Grammar.thy ===== *)
theory Probe_Grammar
  imports Combinators
begin

text \<open>
  Probe points, \<^verbatim>\<open>crates/rocket-surgeon-probes/src/grammar.rs\<close>: the six-segment coordinate
  \<^verbatim>\<open>model:rank:layer:component:call_index:event\<close> with wildcards, its printer, its parser and the
  pattern match. The text and offset of a parse error are rendered by the parser library; they are
  an argument of \<open>ProbePoint_parse\<close>.
\<close>

datatype name_or_wild = NameWild | Name string
datatype num_or_wild = NumWild | Num u32
datatype component_seg = Named string | Indexed string u32
datatype component_or_wild = CompWild | Path "component_seg list"

record probe_point =
  pt_model :: name_or_wild
  pt_rank :: num_or_wild
  pt_layer :: num_or_wild
  pt_component :: component_or_wild
  pt_call_index :: num_or_wild
  pt_event :: name_or_wild

record parse_error =
  pe_message :: string
  pe_offset :: usize

section \<open>Matching\<close>

fun name_matches :: "name_or_wild \<Rightarrow> name_or_wild \<Rightarrow> bool" where
  "name_matches NameWild _ = True"
| "name_matches _ NameWild = True"
| "name_matches (Name a) (Name b) = (a = b)"

fun num_matches :: "num_or_wild \<Rightarrow> num_or_wild \<Rightarrow> bool" where
  "num_matches NumWild _ = True"
| "num_matches _ NumWild = True"
| "num_matches (Num a) (Num b) = (a = b)"

fun component_matches :: "component_or_wild \<Rightarrow> component_or_wild \<Rightarrow> bool" where
  "component_matches CompWild _ = True"
| "component_matches _ CompWild = True"
| "component_matches (Path a) (Path b) = (a = b)"

definition ProbePoint_matches :: "probe_point \<Rightarrow> probe_point \<Rightarrow> bool" where
  "ProbePoint_matches p q \<longleftrightarrow>
     name_matches (pt_model p) (pt_model q) \<and> num_matches (pt_rank p) (pt_rank q)
     \<and> num_matches (pt_layer p) (pt_layer q) \<and> component_matches (pt_component p) (pt_component q)
     \<and> num_matches (pt_call_index p) (pt_call_index q) \<and> name_matches (pt_event p) (pt_event q)"

section \<open>Printing\<close>

fun show_name :: "name_or_wild \<Rightarrow> string" where
  "show_name NameWild = ''*''"
| "show_name (Name n) = n"

fun show_num :: "num_or_wild \<Rightarrow> string" where
  "show_num NumWild = ''*''"
| "show_num (Num n) = show_u32 n"

fun show_seg :: "component_seg \<Rightarrow> string" where
  "show_seg (Named n) = n"
| "show_seg (Indexed n i) = n @ ''['' @ show_u32 i @ '']''"

fun show_path :: "component_seg list \<Rightarrow> string" where
  "show_path [] = []"
| "show_path [s] = show_seg s"
| "show_path (s # t # ss) = show_seg s @ ''.'' @ show_path (t # ss)"

fun show_component :: "component_or_wild \<Rightarrow> string" where
  "show_component CompWild = ''*''"
| "show_component (Path segs) = show_path segs"

definition show_point :: "probe_point \<Rightarrow> string" where
  "show_point p = show_name (pt_model p) @ '':'' @ show_num (pt_rank p) @ '':'' @ show_num (pt_layer p)
     @ '':'' @ show_component (pt_component p) @ '':'' @ show_num (pt_call_index p) @ '':''
     @ show_name (pt_event p)"

section \<open>Parsing\<close>

definition ident_char :: "char \<Rightarrow> bool" where
  "ident_char c \<longleftrightarrow> is_ascii_alphanumeric c \<or> c = CHR ''_'' \<or> c = CHR ''-''"

definition identifier_p :: "string parser" where
  "identifier_p s = pbind (alpha1 s) (\<lambda>first s1. pmap (\<lambda>rest. first @ rest) (take_while0 ident_char s1))"

definition non_neg_integer :: "u32 parser" where
  "non_neg_integer s = pbind (digit1 s) (\<lambda>digits s1.
     case parse_u32 digits of Some n \<Rightarrow> POk n s1 | None \<Rightarrow> Cut)"

definition wildcard :: "unit parser" where "wildcard = lit_char CHR ''*''"

definition name_or_wild_p :: "name_or_wild parser" where
  "name_or_wild_p = alt2 (\<lambda>s. pmap (\<lambda>_. NameWild) (wildcard s)) (\<lambda>s. pmap Name (identifier_p s))"

definition num_or_wild_p :: "num_or_wild parser" where
  "num_or_wild_p = alt2 (\<lambda>s. pmap (\<lambda>_. NumWild) (wildcard s)) (\<lambda>s. pmap Num (non_neg_integer s))"

definition bracketed_index :: "u32 parser" where
  "bracketed_index s = pbind (lit_char CHR ''['' s) (\<lambda>_ s1.
     pbind (non_neg_integer s1) (\<lambda>n s2. pmap (\<lambda>_. n) (lit_char CHR '']'' s2)))"

definition component_seg_p :: "component_seg parser" where
  "component_seg_p s = pbind (identifier_p s) (\<lambda>name s1.
     pmap (\<lambda>idx. case idx of Some index \<Rightarrow> Indexed name index | None \<Rightarrow> Named name)
       (opt bracketed_index s1))"

definition component_or_wild_p :: "component_or_wild parser" where
  "component_or_wild_p = alt2 (\<lambda>s. pmap (\<lambda>_. CompWild) (wildcard s))
     (\<lambda>s. pmap Path (separated1 component_seg_p CHR ''.'' s))"

definition colon :: "unit parser" where "colon = lit_char CHR '':''"

definition probe_point_parser :: "probe_point parser" where
  "probe_point_parser s =
     pbind (name_or_wild_p s) (\<lambda>model s. pbind (colon s) (\<lambda>_ s.
     pbind (num_or_wild_p s) (\<lambda>rank s. pbind (colon s) (\<lambda>_ s.
     pbind (num_or_wild_p s) (\<lambda>layer s. pbind (colon s) (\<lambda>_ s.
     pbind (component_or_wild_p s) (\<lambda>component s. pbind (colon s) (\<lambda>_ s.
     pbind (num_or_wild_p s) (\<lambda>call_index s. pbind (colon s) (\<lambda>_ s.
     pmap (\<lambda>event. \<lparr>pt_model = model, pt_rank = rank, pt_layer = layer, pt_component = component,
                      pt_call_index = call_index, pt_event = event\<rparr>) (name_or_wild_p s)))))))))))"

definition ProbePoint_parse :: "(string \<Rightarrow> parse_error) \<Rightarrow> string \<Rightarrow> (parse_error, probe_point) result" where
  "ProbePoint_parse render s = (case parse_all probe_point_parser s of
     Some p \<Rightarrow> Ok p | None \<Rightarrow> Err (render s))"

section \<open>Well-formed points\<close>

definition is_identifier :: "string \<Rightarrow> bool" where
  "is_identifier s \<longleftrightarrow> (case s of [] \<Rightarrow> False | c # cs \<Rightarrow> is_ascii_alphabetic c \<and> list_all ident_char cs)"

fun seg_ok :: "component_seg \<Rightarrow> bool" where
  "seg_ok (Named n) = is_identifier n"
| "seg_ok (Indexed n i) = is_identifier n"

fun name_ok :: "name_or_wild \<Rightarrow> bool" where
  "name_ok NameWild = True"
| "name_ok (Name n) = is_identifier n"

fun component_ok :: "component_or_wild \<Rightarrow> bool" where
  "component_ok CompWild = True"
| "component_ok (Path segs) = (segs \<noteq> [] \<and> list_all seg_ok segs)"

definition point_ok :: "probe_point \<Rightarrow> bool" where
  "point_ok p \<longleftrightarrow> name_ok (pt_model p) \<and> component_ok (pt_component p) \<and> name_ok (pt_event p)"

section \<open>Parsing what was printed\<close>

lemma char_class_colon [simp]:
  "\<not> ident_char CHR '':''" "\<not> ident_char CHR ''['' " "\<not> ident_char CHR ''.''" "\<not> ident_char CHR ''*''"
  "\<not> is_ascii_digit CHR '':''" "\<not> is_ascii_digit CHR '']''" "\<not> is_ascii_alphabetic CHR ''*''"
  by (simp_all add: ident_char_def is_ascii_alphanumeric_def is_ascii_alphabetic_def is_ascii_digit_def)

lemma alphabetic_ident: "is_ascii_alphabetic c \<Longrightarrow> ident_char c"
  by (simp add: ident_char_def is_ascii_alphanumeric_def)

lemma identifier_ident_chars: "is_identifier s \<Longrightarrow> list_all ident_char s"
  by (auto simp: is_identifier_def alphabetic_ident split: list.splits)

lemma identifier_print:
  assumes "is_identifier n" "stops ident_char rest"
  shows "identifier_p (n @ rest) = POk n rest"
proof -
  let ?f = "takeWhile is_ascii_alphabetic n" and ?r = "dropWhile is_ascii_alphabetic n"
  have ne: "?f \<noteq> []" using assms(1) by (auto simp: is_identifier_def split: list.splits)
  have idc: "list_all ident_char n" by (rule identifier_ident_chars [OF assms(1)])
  have r: "list_all ident_char ?r" using idc by (auto simp: list_all_iff dest: set_dropWhileD)
  have n: "n @ rest = ?f @ (?r @ rest)" by simp
  have "stops is_ascii_alphabetic (?r @ rest)"
  proof (cases ?r)
    case Nil
    show ?thesis unfolding Nil append_Nil using assms(2) alphabetic_ident by (cases rest) auto
  next
    case (Cons c cs)
    then have "\<not> is_ascii_alphabetic c" by (simp add: dropWhile_eq_Cons_conv)
    then show ?thesis unfolding Cons by simp
  qed
  then have "alpha1 (n @ rest) = POk ?f (?r @ rest)"
    unfolding alpha1_def n using ne
    by (intro take_while1_append) (auto simp: list_all_iff dest: set_takeWhileD)
  moreover have "take_while0 ident_char (?r @ rest) = POk ?r rest"
  proof -
    have tw: "takeWhile ident_char (?r @ rest) = ?r" by (rule takeWhile_stops [OF r assms(2)])
    then have "dropWhile ident_char (?r @ rest) = rest"
      by (metis append_eq_append_conv2 takeWhile_dropWhile_id append_same_eq same_append_eq)
    with tw show ?thesis by (simp add: take_while0_def)
  qed
  ultimately show ?thesis by (simp add: identifier_p_def)
qed

lemma non_neg_integer_print:
  "stops is_ascii_digit rest \<Longrightarrow> non_neg_integer (show_u32 n @ rest) = POk n rest"
  by (simp add: non_neg_integer_def digit1_def take_while1_append show_u32_def
      parse_show_u32 [unfolded show_u32_def])

lemma alt2_left: "p s = POk x r \<Longrightarrow> alt2 p q s = POk x r"
  by (simp add: alt2_def)

lemma alt2_right: "p s = Backtrack \<Longrightarrow> alt2 p q s = q s"
  by (simp add: alt2_def)

lemma wildcard_star [simp]: "wildcard (CHR ''*'' # rest) = POk () rest"
  by (simp add: wildcard_def)

lemma wildcard_fails: "stops ((=) CHR ''*'') s \<Longrightarrow> wildcard s = Backtrack"
  by (cases s) (auto simp: wildcard_def)

lemma identifier_not_star: "is_identifier n \<Longrightarrow> stops ((=) CHR ''*'') (n @ rest)"
  by (auto simp: is_identifier_def split: list.splits)

lemma digits_not_star: "stops ((=) CHR ''*'') (show_u32 n @ rest)"
proof -
  have "CHR ''*'' \<notin> set (show_u32 n)"
    using list_all_show_u32 [of n] by (auto simp: list_all_iff is_ascii_digit_def)
  then show ?thesis by (cases "show_u32 n") (auto simp: show_u32_def)
qed

lemma name_print:
  "name_ok x \<Longrightarrow> stops ident_char rest \<Longrightarrow> name_or_wild_p (show_name x @ rest) = POk x rest"
  by (cases x) (simp_all add: name_or_wild_p_def alt2_left alt2_right wildcard_fails identifier_not_star
      identifier_print)

lemma num_print: "stops is_ascii_digit rest \<Longrightarrow> num_or_wild_p (show_num x @ rest) = POk x rest"
  by (cases x) (simp_all add: num_or_wild_p_def alt2_left alt2_right wildcard_fails digits_not_star
      non_neg_integer_print)

definition after_seg :: "string \<Rightarrow> bool" where
  "after_seg rest \<longleftrightarrow> stops (\<lambda>c. ident_char c \<or> c = CHR ''['') rest"

lemma seg_print: "seg_ok x \<Longrightarrow> after_seg rest \<Longrightarrow> component_seg_p (show_seg x @ rest) = POk x rest"
proof (cases x)
  case (Named n)
  assume ok: "seg_ok x" and rest: "after_seg rest"
  then have "bracketed_index rest = Backtrack" "stops ident_char rest"
    by (cases rest; auto simp: after_seg_def bracketed_index_def)+
  then show ?thesis using ok Named by (simp add: component_seg_p_def identifier_print opt_def)
next
  case (Indexed n i)
  assume ok: "seg_ok x" and rest: "after_seg rest"
  have "bracketed_index (''['' @ show_u32 i @ '']'' @ rest) = POk i rest"
    by (simp add: bracketed_index_def non_neg_integer_print)
  then show ?thesis using ok Indexed by (simp add: component_seg_p_def identifier_print opt_def)
qed

lemma show_path_Cons: "show_path (x # xs) = show_seg x @ concat (map (\<lambda>x. CHR ''.'' # show_seg x) xs)"
  by (induction xs arbitrary: x) auto

lemma path_print:
  assumes "list_all seg_ok (x # xs)" "stops (\<lambda>c. ident_char c \<or> c = CHR ''['' \<or> c = CHR ''.'') rest"
  shows "separated1 component_seg_p CHR ''.'' (show_path (x # xs) @ rest) = POk (x # xs) rest"
proof -
  let ?tl = "concat (map (\<lambda>x. CHR ''.'' # show_seg x) xs) @ rest"
  have rest: "after_seg rest" "stops ((=) CHR ''.'') rest"
    using assms(2) by (cases rest; auto simp: after_seg_def)+
  then have "after_seg ?tl" by (cases xs) (auto simp: after_seg_def)
  then have "component_seg_p (show_path (x # xs) @ rest) = POk x ?tl"
    using assms(1) by (simp add: show_path_Cons seg_print)
  moreover have "length xs \<le> length ?tl" by (induction xs) auto
  then have "separated_tail (length ?tl) component_seg_p CHR ''.'' ?tl = POk xs rest"
    using assms(1) rest
    by (intro separated_tail_print [where ok = after_seg]) (auto simp: list_all_iff seg_print after_seg_def)
  ultimately show ?thesis by (simp add: separated1_def)
qed

lemma seg_head: "seg_ok x \<Longrightarrow> stops ((=) CHR ''*'') (show_seg x @ rest)"
  by (cases x) (simp_all add: identifier_not_star)

lemma component_print:
  assumes "component_ok x" "stops (\<lambda>c. ident_char c \<or> c = CHR ''['' \<or> c = CHR ''.'') rest"
  shows "component_or_wild_p (show_component x @ rest) = POk x rest"
proof (cases x)
  case CompWild
  then show ?thesis by (simp add: component_or_wild_p_def alt2_left)
next
  case (Path segs)
  with assms(1) obtain y ys where segs: "segs = y # ys" by (cases segs) auto
  have "stops ((=) CHR ''*'') (show_path segs @ rest)"
    using assms(1) Path segs by (simp add: show_path_Cons seg_head)
  then show ?thesis
    using path_print [of y ys rest] assms Path segs
    by (simp add: component_or_wild_p_def alt2_right wildcard_fails)
qed

lemma point_print: "point_ok p \<Longrightarrow> probe_point_parser (show_point p) = POk p []"
  by (cases p) (simp add: probe_point_parser_def show_point_def point_ok_def name_print num_print
      component_print colon_def name_print [where rest = "[]", simplified])

section \<open>Everything parsed is well formed\<close>

lemma identifier_sound: "identifier_p s = POk n r \<Longrightarrow> is_identifier n"
proof -
  assume "identifier_p s = POk n r"
  then obtain f s1 t where f: "alpha1 s = POk f s1" "take_while0 ident_char s1 = POk t r" "n = f @ t"
    by (auto simp: identifier_p_def pbind_eq_POk pmap_eq_POk)
  then have "f \<noteq> []" "list_all is_ascii_alphabetic f" "list_all ident_char t"
    by (auto simp: alpha1_def take_while1_eq_POk take_while0_def list_all_iff dest: set_takeWhileD)
  then show "is_identifier n"
    using f(3) by (cases f) (auto simp: is_identifier_def list_all_iff alphabetic_ident)
qed

lemma name_sound: "name_or_wild_p s = POk x r \<Longrightarrow> name_ok x"
  by (auto simp: name_or_wild_p_def alt2_def pmap_eq_POk split: presult.splits dest: identifier_sound)

lemma seg_sound: "component_seg_p s = POk x r \<Longrightarrow> seg_ok x"
  by (auto simp: component_seg_p_def pbind_eq_POk pmap_eq_POk split: option.splits dest: identifier_sound)

lemma separated_tail_sound:
  assumes "\<And>s x r. p s = POk x r \<Longrightarrow> P x"
  shows "separated_tail n p sep s = POk xs r \<Longrightarrow> list_all P xs"
proof (induction n arbitrary: s xs)
  case (Suc n)
  then show ?case by (auto simp: pmap_eq_POk dest: assms split: presult.splits)
qed simp

lemma component_sound: "component_or_wild_p s = POk x r \<Longrightarrow> component_ok x"
  by (auto simp: component_or_wild_p_def alt2_def pmap_eq_POk separated1_def pbind_eq_POk
      split: presult.splits intro: seg_sound separated_tail_sound [OF seg_sound])

lemma point_sound: "probe_point_parser s = POk p r \<Longrightarrow> point_ok p"
  by (auto simp: probe_point_parser_def pbind_eq_POk pmap_eq_POk point_ok_def
      dest: name_sound component_sound)

section \<open>The meaning of a match\<close>

text \<open>A pattern covers a point when it agrees with it wherever it is not a wildcard.\<close>

fun name_covers :: "name_or_wild \<Rightarrow> string \<Rightarrow> bool" where
  "name_covers NameWild n = True"
| "name_covers (Name m) n = (m = n)"

fun num_covers :: "num_or_wild \<Rightarrow> u32 \<Rightarrow> bool" where
  "num_covers NumWild n = True"
| "num_covers (Num m) n = (m = n)"

fun component_covers :: "component_or_wild \<Rightarrow> component_seg list \<Rightarrow> bool" where
  "component_covers CompWild p = True"
| "component_covers (Path q) p = (q = p)"

type_synonym concrete_point = "string \<times> u32 \<times> u32 \<times> component_seg list \<times> u32 \<times> string"

definition covers :: "probe_point \<Rightarrow> concrete_point \<Rightarrow> bool" where
  "covers p c = (case c of (model, rank, layer, path, call, event) \<Rightarrow>
     name_covers (pt_model p) model \<and> num_covers (pt_rank p) rank \<and> num_covers (pt_layer p) layer
     \<and> component_covers (pt_component p) path \<and> num_covers (pt_call_index p) call
     \<and> name_covers (pt_event p) event)"

lemma name_matches_overlap: "name_matches a b \<longleftrightarrow> (\<exists>n. name_covers a n \<and> name_covers b n)"
  by (cases a; cases b) auto

lemma num_matches_overlap: "num_matches a b \<longleftrightarrow> (\<exists>n. num_covers a n \<and> num_covers b n)"
  by (cases a; cases b) auto

lemma component_matches_overlap:
  "component_matches a b \<longleftrightarrow> (\<exists>n. component_covers a n \<and> component_covers b n)"
  by (cases a; cases b) auto

section \<open>Properties\<close>

text \<open>C3: Printing a well-formed probe point and parsing the text gives the point back, whatever the
  names, indices and wildcards in its six segments.\<close>

theorem probe_point_roundtrip:
  assumes "point_ok p"
  shows "ProbePoint_parse render (show_point p) = Ok p"
  by (simp add: ProbePoint_parse_def parse_all_def point_print [OF assms])

definition demo_point :: probe_point where
  "demo_point = \<lparr>pt_model = Name ''llama'', pt_rank = NumWild, pt_layer = Num 12,
     pt_component = Path [Named ''attn'', Indexed ''o_proj'' 7], pt_call_index = Num 0,
     pt_event = Name ''output''\<rparr>"

theorem probe_point_roundtrip_witness:
  "show_point demo_point = ''llama:*:12:attn.o_proj[7]:0:output'' \<and>
   ProbePoint_parse (\<lambda>s. \<lparr>pe_message = s, pe_offset = 0\<rparr>) ''llama:*:12:attn.o_proj[7]:0:output'' = Ok demo_point"
proof -
  have sp: "show_point demo_point = ''llama:*:12:attn.o_proj[7]:0:output''"
    by code_simp
  have "point_ok demo_point"
    by (simp add: demo_point_def point_ok_def is_identifier_def ident_char_def
        is_ascii_alphanumeric_def is_ascii_alphabetic_def)
  from probe_point_roundtrip [OF this, of "\<lambda>s. \<lparr>pe_message = s, pe_offset = 0\<rparr>"] show ?thesis
    by (simp add: sp)
qed

text \<open>C4: Every point the parser accepts is well formed, and its printed form parses to the same point:
  the canonical text is a fixed point of parsing and printing.\<close>

theorem probe_point_canonical:
  assumes "ProbePoint_parse render s = Ok p"
  shows "point_ok p \<and> ProbePoint_parse render (show_point p) = Ok p"
proof -
  have "probe_point_parser s = POk p []"
    using assms by (auto simp: ProbePoint_parse_def parse_all_def split: option.splits presult.splits list.splits)
  then have ok: "point_ok p" by (rule point_sound)
  then show ?thesis by (simp add: ProbePoint_parse_def parse_all_def point_print)
qed

theorem probe_point_canonical_witness:
  "point_ok demo_point \<and>
   ProbePoint_parse (\<lambda>s. \<lparr>pe_message = s, pe_offset = 0\<rparr>) (show_point demo_point) = Ok demo_point"
proof -
  have "point_ok demo_point"
    by (simp add: demo_point_def point_ok_def is_identifier_def ident_char_def
        is_ascii_alphanumeric_def is_ascii_alphabetic_def)
  then have "ProbePoint_parse (\<lambda>s. \<lparr>pe_message = s, pe_offset = 0\<rparr>) (show_point demo_point) = Ok demo_point"
    by (simp add: ProbePoint_parse_def parse_all_def point_print)
  from probe_point_canonical [OF this] show ?thesis .
qed

text \<open>C5: Two probe points match exactly when some concrete coordinate is covered by both: the match test
  decides whether the two patterns overlap, in either order.\<close>

theorem matches_iff_overlap:
  "ProbePoint_matches p q \<longleftrightarrow> (\<exists>c. covers p c \<and> covers q c)"
  by (simp add: ProbePoint_matches_def covers_def name_matches_overlap num_matches_overlap
      component_matches_overlap) blast

end
