(* ===== verification/Lru_Spec.thy ===== *)
theory Lru_Spec
  imports Main "HOL-Library.Multiset"
begin

text \<open>
  The contract of the tensor cache. \<open>lru_insert\<close> and \<open>lru_access\<close> describe a least-recently-used
  cache as a list of entries, oldest first; the locale \<open>content_store\<close> states what a client of any
  such cache may assume about lookups after insertions, and proves what follows for whole histories.
\<close>

section \<open>A cache as a list, oldest entry first\<close>

definition lru_lookup :: "('k \<times> 'd) list \<Rightarrow> 'k \<Rightarrow> 'd option" where
  "lru_lookup xs k = map_of xs k"

definition lru_access :: "'k \<Rightarrow> ('k \<times> 'd) list \<Rightarrow> ('k \<times> 'd) list" where
  "lru_access k xs = (case map_of xs k of
     None \<Rightarrow> xs | Some d \<Rightarrow> filter (\<lambda>x. fst x \<noteq> k) xs @ [(k, d)])"

fun lru_room :: "nat \<Rightarrow> nat \<Rightarrow> nat \<Rightarrow> ('k \<times> 'd list) list \<Rightarrow> ('k \<times> 'd list) list" where
  "lru_room max_n max_b len [] = []"
| "lru_room max_n max_b len (x # xs) =
     (if max_n \<le> length (x # xs) \<or> max_b < (\<Sum>y\<leftarrow>x # xs. length (snd y)) + len
      then lru_room max_n max_b len xs else x # xs)"

definition lru_insert :: "nat \<Rightarrow> nat \<Rightarrow> 'k \<Rightarrow> 'd list \<Rightarrow> ('k \<times> 'd list) list \<Rightarrow> ('k \<times> 'd list) list" where
  "lru_insert max_n max_b k d xs = (case map_of xs k of
     Some _ \<Rightarrow> lru_access k xs
   | None \<Rightarrow> lru_room max_n max_b (length d) xs @ [(k, d)])"

text \<open>Making room drops a prefix: only the oldest entries go.\<close>

lemma lru_room_suffix: "\<exists>ys. xs = ys @ lru_room max_n max_b len xs"
proof (induction xs)
  case (Cons x xs)
  then obtain ys where "xs = ys @ lru_room max_n max_b len xs" by blast
  then have "x # xs = (x # ys) @ lru_room max_n max_b len xs" by simp
  then show ?case by (metis append_Nil lru_room.simps(2))
qed simp

lemma lru_room_bounds:
  "lru_room max_n max_b len xs \<noteq> [] \<Longrightarrow>
   length (lru_room max_n max_b len xs) < max_n
   \<and> (\<Sum>y\<leftarrow>lru_room max_n max_b len xs. length (snd y)) + len \<le> max_b"
  by (induction xs) (auto split: if_splits)

section \<open>Sorting by distinct keys\<close>

lemma filter_eq_replicate_count: "filter (\<lambda>x. k = x) xs = replicate (count (mset xs) k) k"
  by (induction xs) auto

lemma sort_key_unique:
  assumes "mset ys = mset xs" "sorted (map f ys)" "inj_on f (set xs)"
  shows "sort_key f xs = ys"
proof (rule properties_for_sort_key [OF assms(1) _ assms(2)])
  fix k assume k: "k \<in> set ys"
  have sets: "set ys = set xs" using assms(1) by (metis set_mset_mset)
  have "filter (\<lambda>x. f k = f x) zs = filter (\<lambda>x. k = x) zs" if "set zs \<subseteq> set xs" for zs
    using that assms(3) k sets by (intro filter_cong) (auto dest: inj_onD)
  then show "filter (\<lambda>x. f k = f x) ys = filter (\<lambda>x. f k = f x) xs"
    using assms(1) sets by (simp add: filter_eq_replicate_count)
qed

section \<open>The client's contract\<close>

locale content_store =
  fixes inv :: "'s \<Rightarrow> bool"
    and fits :: "'d \<Rightarrow> bool"
    and lookup :: "'s \<Rightarrow> 'k \<Rightarrow> 'd option"
    and insert :: "'k \<Rightarrow> 'd \<Rightarrow> 's \<Rightarrow> 's"
  assumes insert_inv: "inv s \<Longrightarrow> fits d \<Longrightarrow> inv (insert k d s)"
    and insert_same: "inv s \<Longrightarrow> fits d \<Longrightarrow>
      lookup (insert k d s) k = Some (case lookup s k of None \<Rightarrow> d | Some d' \<Rightarrow> d')"
    and insert_other: "inv s \<Longrightarrow> fits d \<Longrightarrow> j \<noteq> k \<Longrightarrow>
      lookup (insert k d s) j = lookup s j \<or> lookup (insert k d s) j = None"
begin

fun insert_all :: "('k \<times> 'd) list \<Rightarrow> 's \<Rightarrow> 's" where
  "insert_all [] s = s"
| "insert_all ((k, d) # ops) s = insert_all ops (insert k d s)"

lemma insert_all_inv: "inv s \<Longrightarrow> \<forall>(k, d) \<in> set ops. fits d \<Longrightarrow> inv (insert_all ops s)"
  by (induction ops s rule: insert_all.induct) (auto intro: insert_inv)

text \<open>Whatever is found under a key was there before or was inserted under that very key.\<close>

lemma insert_all_provenance:
  "inv s \<Longrightarrow> \<forall>(k, d) \<in> set ops. fits d \<Longrightarrow> lookup (insert_all ops s) j = Some x \<Longrightarrow>
   lookup s j = Some x \<or> (j, x) \<in> set ops"
proof (induction ops s rule: insert_all.induct)
  case (2 k d ops s)
  then have inv': "inv (insert k d s)" and fit: "fits d" by (auto intro: insert_inv)
  with 2 have "lookup (insert k d s) j = Some x \<or> (j, x) \<in> set ops" by simp
  then show ?case
  proof
    assume *: "lookup (insert k d s) j = Some x"
    show ?thesis
    proof (cases "j = k")
      case True
      then show ?thesis using * insert_same [OF 2(2) fit, of k] by (auto split: option.splits)
    next
      case False
      then show ?thesis using * insert_other [OF 2(2) fit False] by auto
    qed
  qed simp
qed simp

text \<open>A property of key and content that every insertion respects holds of everything found.\<close>

corollary insert_all_integrity:
  assumes "inv s" "\<forall>(k, d) \<in> set ops. fits d" "\<forall>(k, d) \<in> set ops. P k d"
    and "\<And>j x. lookup s j = Some x \<Longrightarrow> P j x" "lookup (insert_all ops s) j = Some x"
  shows "P j x"
  using insert_all_provenance [OF assms(1,2,5)] assms(3,4) by auto

end

end
