(* ===== verification/Probe_Registry.thy ===== *)
theory Probe_Registry
  imports Probe_Grammar Protocol_Types Lru_Spec "HOL-Library.AList" "HOL-Library.Product_Lexorder"
begin

text \<open>
  The probe registry, \<^verbatim>\<open>crates/rocket-surgeon-probes/src/registry.rs\<close>. The hash map of stored probes is
  an association list with distinct keys in some iteration order; the order in which probes are listed
  and matched does not depend on it.
\<close>

datatype registry_error =
    RegNotFound string
  | RegDuplicateId string
  | RegInvalidPoint parse_error

record stored_probe =
  sp_definition :: probe_definition
  sp_point :: probe_point
  sp_seq :: u64

record probe_registry =
  pg_probes :: "(string \<times> stored_probe) list"
  pg_next_seq :: u64

definition ProbeRegistry_new :: probe_registry where
  "ProbeRegistry_new = \<lparr>pg_probes = [], pg_next_seq = 0\<rparr>"

definition registry_define ::
  "(string \<Rightarrow> parse_error) \<Rightarrow> probe_definition \<Rightarrow> probe_registry
   \<Rightarrow> (registry_error, string) result \<times> probe_registry" where
  "registry_define render probe g =
     (if map_of (pg_probes g) (pd_id probe) \<noteq> None then (Err (RegDuplicateId (pd_id probe)), g)
      else case ProbePoint_parse render (pd_point probe) of
        Inl e \<Rightarrow> (Err (RegInvalidPoint e), g)
      | Inr pt \<Rightarrow> (Ok (pd_id probe),
          g\<lparr>pg_next_seq := pg_next_seq g + 1,
            pg_probes := AList.update (pd_id probe)
              \<lparr>sp_definition = probe, sp_point = pt, sp_seq = pg_next_seq g\<rparr> (pg_probes g)\<rparr>))"

definition registry_get :: "string \<Rightarrow> probe_registry \<Rightarrow> probe_definition option" where
  "registry_get i g = map_option sp_definition (map_of (pg_probes g) i)"

definition probe_rank :: "stored_probe \<Rightarrow> int \<times> u64" where
  "probe_rank s = (pd_priority (sp_definition s), sp_seq s)"

definition sorted_definitions :: "stored_probe list \<Rightarrow> probe_definition list" where
  "sorted_definitions ss = map sp_definition (sort_key probe_rank ss)"

definition registry_list :: "probe_registry \<Rightarrow> probe_definition list" where
  "registry_list g = sorted_definitions (map snd (pg_probes g))"

text \<open>\<^verbatim>\<open>get_mut\<close> on a key and assignment of the enabled flag.\<close>

definition set_enabled :: "bool \<Rightarrow> string \<Rightarrow> probe_registry \<Rightarrow> probe_registry" where
  "set_enabled b i g = g\<lparr>pg_probes := map (\<lambda>(k, s).
     (k, if k = i then s\<lparr>sp_definition := (sp_definition s)\<lparr>pd_enabled := b\<rparr>\<rparr> else s)) (pg_probes g)\<rparr>"

definition registry_enable ::
  "string \<Rightarrow> probe_registry \<Rightarrow> (registry_error, probe_definition) result \<times> probe_registry" where
  "registry_enable i g = (case map_of (pg_probes g) i of
     None \<Rightarrow> (Err (RegNotFound i), g)
   | Some s \<Rightarrow> (Ok ((sp_definition s)\<lparr>pd_enabled := True\<rparr>), set_enabled True i g))"

definition registry_disable ::
  "string \<Rightarrow> probe_registry \<Rightarrow> (registry_error, probe_definition) result \<times> probe_registry" where
  "registry_disable i g = (case map_of (pg_probes g) i of
     None \<Rightarrow> (Err (RegNotFound i), g)
   | Some s \<Rightarrow> (Ok ((sp_definition s)\<lparr>pd_enabled := False\<rparr>), set_enabled False i g))"

definition registry_remove ::
  "string \<Rightarrow> probe_registry \<Rightarrow> (registry_error, probe_definition) result \<times> probe_registry" where
  "registry_remove i g = (case map_of (pg_probes g) i of
     None \<Rightarrow> (Err (RegNotFound i), g)
   | Some s \<Rightarrow> (Ok (sp_definition s), g\<lparr>pg_probes := AList.delete i (pg_probes g)\<rparr>))"

definition registry_matching :: "probe_point \<Rightarrow> probe_registry \<Rightarrow> probe_definition list" where
  "registry_matching target g = sorted_definitions
     (filter (\<lambda>s. ProbePoint_matches (sp_point s) target) (map snd (pg_probes g)))"

definition registry_matching_enabled :: "probe_point \<Rightarrow> probe_registry \<Rightarrow> probe_definition list" where
  "registry_matching_enabled target g = sorted_definitions
     (filter (\<lambda>s. pd_enabled (sp_definition s) \<and> ProbePoint_matches (sp_point s) target)
        (map snd (pg_probes g)))"

definition active_probe_ids :: "probe_registry \<Rightarrow> string list" where
  "active_probe_ids g = map (\<lambda>s. pd_id (sp_definition s))
     (filter (\<lambda>s. pd_enabled (sp_definition s)) (map snd (pg_probes g)))"

section \<open>Invariant\<close>

definition registry_inv :: "probe_registry \<Rightarrow> bool" where
  "registry_inv g \<longleftrightarrow> distinct (map fst (pg_probes g)) \<and> distinct (map (sp_seq \<circ> snd) (pg_probes g))
     \<and> (\<forall>(k, s) \<in> set (pg_probes g). pd_id (sp_definition s) = k \<and> sp_seq s < pg_next_seq g
          \<and> point_ok (sp_point s))"

lemma registry_inv_new: "registry_inv ProbeRegistry_new"
  by (simp add: registry_inv_def ProbeRegistry_new_def)

lemma update_absent: "map_of al k = None \<Longrightarrow> AList.update k v al = al @ [(k, v)]"
  by (induction al) auto

lemma registry_define_inv:
  assumes inv: "registry_inv g" and room: "unat (pg_next_seq g) + 1 < 2 ^ 64"
  shows "registry_inv (snd (registry_define render probe g))"
proof (cases "map_of (pg_probes g) (pd_id probe)")
  case None
  then have fresh: "pd_id probe \<notin> fst ` set (pg_probes g)" by (simp add: map_of_eq_None_iff)
  show ?thesis
  proof (cases "ProbePoint_parse render (pd_point probe)")
    case (Inr pt)
    let ?s = "\<lparr>sp_definition = probe, sp_point = pt, sp_seq = pg_next_seq g\<rparr>"
    have ok: "point_ok pt"
      using Inr point_sound by (auto simp: ProbePoint_parse_def parse_all_def
          split: option.splits presult.splits list.splits)
    have nxt: "pg_next_seq g < pg_next_seq g + 1"
      using room by (simp add: word_less_nat_alt unat_add_no_wrap)
    have old: "sp_seq s < pg_next_seq g" if "(k, s) \<in> set (pg_probes g)" for k s
      using inv that by (auto simp: registry_inv_def)
    then have "pg_next_seq g \<notin> (sp_seq \<circ> snd) ` set (pg_probes g)" by fastforce
    moreover have "sp_seq s < pg_next_seq g + 1" if "(k, s) \<in> set (pg_probes g)" for k s
      using old [OF that] nxt by (rule less_trans)
    ultimately show ?thesis
      using inv fresh nxt ok
      by (auto simp: registry_define_def None Inr registry_inv_def update_absent)
  qed (simp add: registry_define_def None inv)
qed (simp add: registry_define_def inv)

lemma set_enabled_inv:
  assumes "registry_inv g"
  shows "registry_inv (set_enabled b i g)"
proof -
  let ?up = "\<lambda>(k, s). (k, if k = i then s\<lparr>sp_definition := (sp_definition s)\<lparr>pd_enabled := b\<rparr>\<rparr> else s)"
  have up: "fst (?up x) = fst x" "sp_seq (snd (?up x)) = sp_seq (snd x)"
    "pd_id (sp_definition (snd (?up x))) = pd_id (sp_definition (snd x))"
    "sp_point (snd (?up x)) = sp_point (snd x)" for x :: "string \<times> stored_probe"
    by (cases x; simp)+
  have pr: "pg_probes (set_enabled b i g) = map ?up (pg_probes g)" "pg_next_seq (set_enabled b i g) = pg_next_seq g"
    by (simp_all add: set_enabled_def)
  show ?thesis
    using assms unfolding registry_inv_def pr case_prod_beta' map_map set_map ball_simps
    by (simp only: comp_def up [unfolded case_prod_beta']) simp
qed

lemma delete_probe_inv:
  "registry_inv g \<Longrightarrow> registry_inv (g\<lparr>pg_probes := AList.delete i (pg_probes g)\<rparr>)"
  by (auto simp: registry_inv_def AList.delete_eq distinct_map intro: inj_on_subset)

lemma map_of_set_enabled:
  "map_of (pg_probes (set_enabled b i g)) j =
     (if j = i then map_option (\<lambda>s. s\<lparr>sp_definition := (sp_definition s)\<lparr>pd_enabled := b\<rparr>\<rparr>)
        (map_of (pg_probes g) j) else map_of (pg_probes g) j)"
proof -
  have "map_of (map (\<lambda>(k, s). (k, if k = i then s\<lparr>sp_definition := (sp_definition s)\<lparr>pd_enabled := b\<rparr>\<rparr> else s)) es) j =
    (if j = i then map_option (\<lambda>s. s\<lparr>sp_definition := (sp_definition s)\<lparr>pd_enabled := b\<rparr>\<rparr>) (map_of es j)
     else map_of es j)" for es :: "(string \<times> stored_probe) list"
    by (induction es) auto
  then show ?thesis by (simp add: set_enabled_def)
qed

section \<open>The registry as a map\<close>

text \<open>
  What the dispatcher relies on: seen through \<open>get\<close>, the registry is a partial map from ids to
  definitions, and each operation is the corresponding map update.
\<close>

datatype 'd reg_op = Define 'd | Toggle bool string | Remove string

locale keyed_registry =
  fixes get :: "'s \<Rightarrow> string \<rightharpoonup> 'd"
    and define_op :: "'d \<Rightarrow> 's \<Rightarrow> 's"
    and toggle_op :: "bool \<Rightarrow> string \<Rightarrow> 's \<Rightarrow> 's"
    and remove_op :: "string \<Rightarrow> 's \<Rightarrow> 's"
    and key :: "'d \<Rightarrow> string"
    and valid :: "'d \<Rightarrow> bool"
    and with_flag :: "bool \<Rightarrow> 'd \<Rightarrow> 'd"
  assumes get_define: "get (define_op d s) = (if get s (key d) = None \<and> valid d then (get s)(key d \<mapsto> d) else get s)"
    and get_toggle: "get (toggle_op b i s) = (get s)(i := map_option (with_flag b) (get s i))"
    and get_remove: "get (remove_op i s) = (get s)(i := None)"
begin

fun run_ops :: "'d reg_op list \<Rightarrow> 's \<Rightarrow> 's" where
  "run_ops [] s = s"
| "run_ops (Define d # ops) s = run_ops ops (define_op d s)"
| "run_ops (Toggle b i # ops) s = run_ops ops (toggle_op b i s)"
| "run_ops (Remove i # ops) s = run_ops ops (remove_op i s)"

fun spec_ops :: "'d reg_op list \<Rightarrow> (string \<rightharpoonup> 'd) \<Rightarrow> (string \<rightharpoonup> 'd)" where
  "spec_ops [] m = m"
| "spec_ops (Define d # ops) m = spec_ops ops (if m (key d) = None \<and> valid d then m(key d \<mapsto> d) else m)"
| "spec_ops (Toggle b i # ops) m = spec_ops ops (m(i := map_option (with_flag b) (m i)))"
| "spec_ops (Remove i # ops) m = spec_ops ops (m(i := None))"

lemma run_refines: "get (run_ops ops s) = spec_ops ops (get s)"
  by (induction ops s rule: run_ops.induct) (simp_all add: get_define get_toggle get_remove fun_upd_def)

lemma define_remove: "get s (key d) = None \<Longrightarrow> get (remove_op (key d) (define_op d s)) = get s"
  by (auto simp: get_define get_remove fun_eq_iff)

end

definition probe_define :: "probe_definition \<Rightarrow> probe_registry \<Rightarrow> probe_registry" where
  "probe_define d g = snd (registry_define (\<lambda>s. \<lparr>pe_message = s, pe_offset = 0\<rparr>) d g)"

definition probe_toggle :: "bool \<Rightarrow> string \<Rightarrow> probe_registry \<Rightarrow> probe_registry" where
  "probe_toggle b i g = snd (if b then registry_enable i g else registry_disable i g)"

definition probe_remove :: "string \<Rightarrow> probe_registry \<Rightarrow> probe_registry" where
  "probe_remove i g = snd (registry_remove i g)"

definition registry_view :: "probe_registry \<Rightarrow> string \<rightharpoonup> probe_definition" where
  "registry_view g = (\<lambda>i. registry_get i g)"

definition probe_valid :: "probe_definition \<Rightarrow> bool" where
  "probe_valid d \<longleftrightarrow> parse_all probe_point_parser (pd_point d) \<noteq> None"

interpretation probes: keyed_registry registry_view probe_define probe_toggle probe_remove pd_id
  probe_valid "\<lambda>b d. d\<lparr>pd_enabled := b\<rparr>"
proof
  fix d :: probe_definition and s :: probe_registry and b :: bool and i :: string
  show "registry_view (probe_define d s) =
      (if registry_view s (pd_id d) = None \<and> probe_valid d then (registry_view s)(pd_id d \<mapsto> d) else registry_view s)"
    by (auto simp: registry_view_def probe_define_def registry_define_def registry_get_def probe_valid_def
        ProbePoint_parse_def update_conv' fun_eq_iff split: option.splits)
  show "registry_view (probe_toggle b i s) =
      (registry_view s)(i := map_option (\<lambda>d. d\<lparr>pd_enabled := b\<rparr>) (registry_view s i))"
    by (auto simp: registry_view_def probe_toggle_def registry_enable_def registry_disable_def
        registry_get_def map_of_set_enabled fun_eq_iff split: option.splits)
  show "registry_view (probe_remove i s) = (registry_view s)(i := None)"
    by (auto simp: registry_view_def probe_remove_def registry_remove_def registry_get_def
        AList.delete_conv' fun_eq_iff split: option.splits)
qed

text \<open>The same histories over the model's operations.\<close>

fun registry_run :: "probe_definition reg_op list \<Rightarrow> probe_registry \<Rightarrow> probe_registry" where
  "registry_run [] g = g"
| "registry_run (Define d # ops) g = registry_run ops (probe_define d g)"
| "registry_run (Toggle b i # ops) g = registry_run ops (probe_toggle b i g)"
| "registry_run (Remove i # ops) g = registry_run ops (probe_remove i g)"

fun registry_spec :: "probe_definition reg_op list \<Rightarrow> (string \<rightharpoonup> probe_definition) \<Rightarrow> (string \<rightharpoonup> probe_definition)" where
  "registry_spec [] m = m"
| "registry_spec (Define d # ops) m =
     registry_spec ops (if m (pd_id d) = None \<and> probe_valid d then m(pd_id d \<mapsto> d) else m)"
| "registry_spec (Toggle b i # ops) m = registry_spec ops (m(i := map_option (\<lambda>d. d\<lparr>pd_enabled := b\<rparr>) (m i)))"
| "registry_spec (Remove i # ops) m = registry_spec ops (m(i := None))"

lemma registry_run_eq: "registry_run ops g = probes.run_ops ops g"
  by (induction ops g rule: registry_run.induct) simp_all

lemma registry_spec_eq: "registry_spec ops m = probes.spec_ops ops m"
  by (induction ops m rule: registry_spec.induct) (simp_all add: fun_upd_def)

section \<open>Listing order\<close>

lemma sorted_map_fst_lex:
  fixes xs :: "('a::linorder \<times> 'b::linorder) list"
  shows "sorted xs \<Longrightarrow> sorted (map fst xs)"
  by (induction xs) (auto simp: less_eq_prod_def less_imp_le)

lemma inj_probe_rank:
  assumes "registry_inv g"
  shows "inj_on probe_rank (set (map snd (pg_probes g)))"
proof (rule inj_onI)
  fix x y assume xy: "x \<in> set (map snd (pg_probes g))" "y \<in> set (map snd (pg_probes g))" "probe_rank x = probe_rank y"
  then have "sp_seq x = sp_seq y" by (simp add: probe_rank_def)
  moreover have "distinct (map sp_seq (map snd (pg_probes g)))"
    using assms by (simp add: registry_inv_def)
  ultimately show "x = y" using xy(1,2) by (metis distinct_map inj_onD)
qed

section \<open>Properties\<close>

text \<open>C6: Seen through \<^verbatim>\<open>get\<close>, the registry after any sequence of define, enable, disable and remove calls
  is the map those calls describe: duplicates and unparsable points are refused and change nothing,
  enabling and disabling touch only their probe, and removing forgets it.\<close>

theorem registry_refines_map:
  "registry_view (registry_run ops ProbeRegistry_new) = registry_spec ops Map.empty"
proof -
  have "registry_view ProbeRegistry_new = Map.empty"
    by (simp add: registry_view_def registry_get_def ProbeRegistry_new_def)
  then show ?thesis by (simp add: registry_run_eq registry_spec_eq probes.run_refines)
qed

text \<open>C7: The probes that fire at a point, in the order they fire, depend only on the probes registered and
  not on the hash map's iteration order: for every permutation of the entries the enabled matches
  are the same list, sorted by priority and then by registration order.\<close>

theorem matching_enabled_deterministic:
  assumes "registry_inv g" "mset (pg_probes g') = mset (pg_probes g)"
  shows "registry_matching_enabled target g' = registry_matching_enabled target g
    \<and> sorted (map pd_priority (registry_matching_enabled target g))
    \<and> set (registry_matching_enabled target g) =
        {sp_definition s | k s. (k, s) \<in> set (pg_probes g) \<and> pd_enabled (sp_definition s)
           \<and> ProbePoint_matches (sp_point s) target}"
proof -
  let ?P = "\<lambda>s. pd_enabled (sp_definition s) \<and> ProbePoint_matches (sp_point s) target"
  let ?xs = "filter ?P (map snd (pg_probes g))" and ?ys = "filter ?P (map snd (pg_probes g'))"
  have m: "mset ?ys = mset ?xs" using arg_cong [OF assms(2), of "image_mset snd"] by simp
  have "inj_on probe_rank (set ?xs)"
    using inj_probe_rank [OF assms(1)] by (rule inj_on_subset) auto
  then have "sort_key probe_rank ?xs = sort_key probe_rank ?ys"
    using m by (intro sort_key_unique) simp_all
  moreover have "sorted (map pd_priority (map sp_definition (sort_key probe_rank ?xs)))"
  proof -
    have "sorted (map probe_rank (sort_key probe_rank ?xs))" by simp
    then have "sorted (map fst (map probe_rank (sort_key probe_rank ?xs)))"
      by (rule sorted_map_fst_lex)
    then show ?thesis by (simp add: comp_def probe_rank_def)
  qed
  moreover have "set (map sp_definition (sort_key probe_rank ?xs)) =
      {sp_definition s | k s. (k, s) \<in> set (pg_probes g) \<and> ?P s}" by force
  ultimately show ?thesis by (simp add: registry_matching_enabled_def sorted_definitions_def)
qed

definition demo_probe :: "string \<Rightarrow> int \<Rightarrow> stored_probe" where
  "demo_probe i prio = \<lparr>sp_definition = \<lparr>pd_id = i, pd_point = show_point demo_point, pd_action = PA_Capture,
     pd_config = None, pd_enabled = True, pd_priority = prio\<rparr>, sp_point = demo_point,
     sp_seq = (if i = ''a'' then 0 else 1)\<rparr>"

definition demo_registry :: "bool \<Rightarrow> probe_registry" where
  "demo_registry swapped = \<lparr>pg_probes = (let a = (''a'', demo_probe ''a'' 5); b = (''b'', demo_probe ''b'' 1)
     in if swapped then [b, a] else [a, b]), pg_next_seq = 2\<rparr>"

theorem matching_enabled_deterministic_witness:
  "registry_matching_enabled demo_point (demo_registry True) =
   registry_matching_enabled demo_point (demo_registry False)"
proof -
  have "point_ok demo_point"
    by (simp add: demo_point_def point_ok_def is_identifier_def ident_char_def
        is_ascii_alphanumeric_def is_ascii_alphabetic_def)
  then have "registry_inv (demo_registry False)"
    by (simp add: registry_inv_def demo_registry_def demo_probe_def)
  moreover have "mset (pg_probes (demo_registry True)) = mset (pg_probes (demo_registry False))"
    by (simp add: demo_registry_def Let_def)
  ultimately show ?thesis using matching_enabled_deterministic by blast
qed

end
