(* ===== verification/Edit_Distance.thy ===== *)
theory Edit_Distance
  imports Text
begin

text \<open>
  \<^verbatim>\<open>edit_distance\<close> of \<^verbatim>\<open>crates/rocket-surgeon/src/dispatch.rs\<close>: the two-row dynamic program over the
  characters of two strings, and its meaning: the cost of the cheapest alignment of the two.
\<close>

section \<open>The dynamic program\<close>

text \<open>
  \<open>fill_cell\<close> is the body of the inner loop, \<open>fill_row\<close> the inner loop with the assignment before it,
  and one round of the outer loop fills the spare row and swaps the two.
\<close>

definition fill_cell :: "nat \<Rightarrow> nat list \<Rightarrow> nat list \<Rightarrow> nat \<Rightarrow> nat list \<Rightarrow> nat list" where
  "fill_cell ca b prev j cur =
     (let cost = (if ca \<noteq> b ! j then 1 else 0)
      in cur[j + 1 := min (min (prev ! (j + 1) + 1) (cur ! j + 1)) (prev ! j + cost)])"

definition fill_row :: "nat \<Rightarrow> nat \<Rightarrow> nat list \<Rightarrow> nat list \<Rightarrow> nat list \<Rightarrow> nat list" where
  "fill_row i ca b prev cur = fold (fill_cell ca b prev) [0..<length b] (cur[0 := i + 1])"

definition next_rows :: "nat list \<Rightarrow> nat list \<Rightarrow> nat \<Rightarrow> nat list \<times> nat list \<Rightarrow> nat list \<times> nat list" where
  "next_rows a b i rows = (case rows of (prev, cur) \<Rightarrow> (fill_row i (a ! i) b prev cur, prev))"

definition edit_rows :: "nat list \<Rightarrow> nat list \<Rightarrow> nat list \<times> nat list" where
  "edit_rows a b = fold (next_rows a b) [0..<length a]
     ([0..<length b + 1], replicate (length b + 1) 0)"

definition edit_distance :: "string \<Rightarrow> string \<Rightarrow> nat" where
  "edit_distance s t = (let a = chars s; b = chars t in fst (edit_rows a b) ! length b)"

section \<open>Alignments\<close>

text \<open>
  \<open>alignment xs ys n\<close>: the two strings can be aligned with \<open>n\<close> deletions, insertions and replacements.
\<close>

inductive alignment :: "'a list \<Rightarrow> 'a list \<Rightarrow> nat \<Rightarrow> bool" where
  align_nil: "alignment [] [] 0"
| align_delete: "alignment xs ys n \<Longrightarrow> alignment (xs @ [x]) ys (Suc n)"
| align_insert: "alignment xs ys n \<Longrightarrow> alignment xs (ys @ [y]) (Suc n)"
| align_pair: "alignment xs ys n \<Longrightarrow> alignment (xs @ [x]) (ys @ [y]) (n + (if x \<noteq> y then 1 else 0))"

text \<open>The recurrence the table satisfies.\<close>

fun lev :: "'a list \<Rightarrow> 'a list \<Rightarrow> nat \<Rightarrow> nat \<Rightarrow> nat" where
  "lev a b 0 j = j"
| "lev a b (Suc i) 0 = Suc i"
| "lev a b (Suc i) (Suc j) =
     min (min (lev a b i (Suc j) + 1) (lev a b (Suc i) j + 1)) (lev a b i j + (if a ! i \<noteq> b ! j then 1 else 0))"

lemma lev_0_right [simp]: "lev a b i 0 = i"
  by (cases i) simp_all

lemma alignment_nil_left: "alignment [] ys (length ys)"
  by (induction ys rule: rev_induct) (auto intro: alignment.intros)

lemma alignment_nil_right: "alignment xs [] (length xs)"
  by (induction xs rule: rev_induct) (auto intro: alignment.intros)

lemma lev_attained: "i \<le> length a \<Longrightarrow> j \<le> length b \<Longrightarrow> alignment (take i a) (take j b) (lev a b i j)"
proof (induction a b i j rule: lev.induct)
  case (1 a b j)
  then show ?case using alignment_nil_left [of "take j b"] by simp
next
  case (2 a b i)
  then show ?case using alignment_nil_right [of "take (Suc i) a"] by simp
next
  case (3 a b i j)
  let ?x = "a ! i" and ?y = "b ! j"
  have tk: "take (Suc i) a = take i a @ [?x]" "take (Suc j) b = take j b @ [?y]"
    using 3 by (simp_all add: take_Suc_conv_app_nth)
  have d: "alignment (take (Suc i) a) (take (Suc j) b) (lev a b i (Suc j) + 1)"
    using align_delete [OF 3(1), of ?x] 3 by (simp add: tk(1))
  have ins: "alignment (take (Suc i) a) (take (Suc j) b) (lev a b (Suc i) j + 1)"
    using align_insert [OF 3(2), of ?y] 3 by (simp add: tk(2))
  have pr: "alignment (take (Suc i) a) (take (Suc j) b) (lev a b i j + (if ?x \<noteq> ?y then 1 else 0))"
    unfolding tk using 3 by (intro align_pair) auto
  show ?case using d ins pr by (auto simp: min_def)
qed

lemma snoc_eq_take:
  assumes "xs @ [x] = take i a" "i \<le> length a"
  shows "\<exists>i'. i = Suc i' \<and> xs = take i' a \<and> x = a ! i'"
proof -
  obtain i' where i: "i = Suc i'" using assms by (cases i) auto
  have "take i a = take i' a @ [a ! i']" using assms(2) i by (simp add: take_Suc_conv_app_nth)
  with assms(1) i show ?thesis by simp
qed

lemma lev_minimal:
  "alignment xs ys n \<Longrightarrow> xs = take i a \<Longrightarrow> ys = take j b \<Longrightarrow> i \<le> length a \<Longrightarrow> j \<le> length b \<Longrightarrow> lev a b i j \<le> n"
proof (induction xs ys n arbitrary: i j rule: alignment.induct)
  case align_nil
  then show ?case by auto
next
  case (align_delete xs ys n x)
  obtain i' where i: "i = Suc i'" "xs = take i' a" using snoc_eq_take align_delete.prems by metis
  then have "lev a b i' j \<le> n" using align_delete by auto
  then show ?case using i by (cases j) (auto simp: min_def)
next
  case (align_insert xs ys n y)
  obtain j' where j: "j = Suc j'" "ys = take j' b" using snoc_eq_take align_insert.prems by metis
  then have "lev a b i j' \<le> n" using align_insert by auto
  then show ?case using j by (cases i) (auto simp: min_def)
next
  case (align_pair xs ys n x y)
  obtain i' where i: "i = Suc i'" "xs = take i' a" "x = a ! i'" using snoc_eq_take align_pair.prems by metis
  obtain j' where j: "j = Suc j'" "ys = take j' b" "y = b ! j'" using snoc_eq_take align_pair.prems by metis
  have "lev a b i' j' \<le> n" using i j align_pair by auto
  then show ?case using i j by (auto simp: min_def)
qed

section \<open>The table\<close>

lemma fill_cells:
  assumes "prev = map (lev a b i) [0..<length b + 1]" "length cur = length b + 1" "cur ! 0 = i + 1" "n \<le> length b"
  shows "length (fold (fill_cell (a ! i) b prev) [0..<n] cur) = length b + 1
    \<and> (\<forall>j \<le> n. fold (fill_cell (a ! i) b prev) [0..<n] cur ! j = lev a b (Suc i) j)"
  using assms(4)
proof (induction n)
  case 0
  then show ?case using assms(2,3) by simp
next
  case (Suc n)
  let ?c = "fold (fill_cell (a ! i) b prev) [0..<n] cur"
  have len: "length ?c = length b + 1" and cells: "\<forall>j \<le> n. ?c ! j = lev a b (Suc i) j"
    using Suc by auto
  have "prev ! n = lev a b i n" "prev ! Suc n = lev a b i (Suc n)"
    using assms(1) Suc.prems by (simp_all del: upt_Suc)
  then have "fold (fill_cell (a ! i) b prev) [0..<Suc n] cur = ?c[Suc n := lev a b (Suc i) (Suc n)]"
    using cells by (simp add: fill_cell_def Let_def)
  then show ?case
    using len cells Suc.prems by (auto simp: nth_list_update le_Suc_eq)
qed

lemma fill_row_lev:
  assumes "prev = map (lev a b i) [0..<length b + 1]" "length cur = length b + 1"
  shows "fill_row i (a ! i) b prev cur = map (lev a b (Suc i)) [0..<length b + 1]"
proof -
  have "length (cur[0 := i + 1]) = length b + 1" "cur[0 := i + 1] ! 0 = i + 1"
    using assms(2) by simp_all
  from fill_cells [OF assms(1) this order_refl] show ?thesis
    by (intro nth_equalityI) (simp_all add: fill_row_def del: upt_Suc)
qed

lemma edit_rows_lev:
  "n \<le> length a \<Longrightarrow>
   fst (fold (next_rows a b) [0..<n] ([0..<length b + 1], replicate (length b + 1) 0)) =
     map (lev a b n) [0..<length b + 1]
   \<and> length (snd (fold (next_rows a b) [0..<n] ([0..<length b + 1], replicate (length b + 1) 0))) = length b + 1"
proof (induction n)
  case 0
  have "map (lev a b 0) [0..<length b + 1] = [0..<length b + 1]" by (simp add: map_idI del: upt_Suc)
  then show ?case by (simp del: upt_Suc)
next
  case (Suc n)
  obtain prev cur where r: "fold (next_rows a b) [0..<n] ([0..<length b + 1], replicate (length b + 1) 0) = (prev, cur)"
    by fastforce
  then have p: "prev = map (lev a b n) [0..<length b + 1]" "length cur = length b + 1" using Suc by auto
  have "fold (next_rows a b) [0..<Suc n] ([0..<length b + 1], replicate (length b + 1) 0) =
      (fill_row n (a ! n) b prev cur, prev)"
    using r by (simp add: next_rows_def del: upt_Suc add: upt_Suc_append)
  then show ?case using fill_row_lev [OF p] p(1) by (simp del: upt_Suc)
qed

section \<open>Properties\<close>

text \<open>C8: The edit distance that ranks spelling suggestions is the cost of the cheapest alignment of the two
  strings' characters: some alignment attains it and none is cheaper.\<close>

theorem edit_distance_minimal:
  "alignment (chars s) (chars t) (edit_distance s t)
   \<and> edit_distance s t = (LEAST n. alignment (chars s) (chars t) n)"
proof -
  let ?a = "chars s" and ?b = "chars t"
  have "fst (edit_rows ?a ?b) = map (lev ?a ?b (length ?a)) [0..<length ?b + 1]"
    unfolding edit_rows_def using edit_rows_lev [of "length ?a" ?a ?b] by simp
  then have "edit_distance s t = lev ?a ?b (length ?a) (length ?b)"
    by (simp add: edit_distance_def Let_def del: upt_Suc)
  then have att: "alignment ?a ?b (edit_distance s t)"
    using lev_attained [of "length ?a" ?a "length ?b" ?b] by simp
  have "edit_distance s t \<le> n" if "alignment ?a ?b n" for n
    using lev_minimal [OF that, of "length ?a" ?a "length ?b" ?b] \<open>edit_distance s t = _\<close> by simp
  with att show ?thesis by (simp add: Least_equality)
qed

end
