(* ===== verification/Dispatch.thy ===== *)
theory Dispatch
  imports Session_Registry Probe_Registry Edit_Distance
begin

text \<open>
  The request handlers of the daemon, \<^verbatim>\<open>crates/rocket-surgeon/src/dispatch.rs\<close>. Deserializing the
  parameters of a request and serializing a response body (\<^verbatim>\<open>serde_json\<close>) are arguments, collected in
  the record \<open>serde\<close>; a handler returns its response together with the session it leaves. A handler
  that also talks to the orchestrator returns the host requests it sends.
\<close>

section \<open>Response bodies and serialization\<close>

datatype 'v payload =
    PL_Initialize "initialize_response response_envelope"
  | PL_Attach "attach_response response_envelope"
  | PL_Detach "detach_response response_envelope"
  | PL_Status "status_response response_envelope"
  | PL_Step "step_response moded_body"
  | PL_Inspect "'v inspect_response moded_body"
  | PL_Probe "probe_response response_envelope"
  | PL_Checkpoint "checkpoint_response response_envelope"
  | PL_Subscribe "subscribe_response response_envelope"
  | PL_Unsubscribe "unsubscribe_response response_envelope"
  | PL_View "'v view_response moded_body"
  | PL_KvRead "kv_read_response response_envelope"
  | PL_KvIntervene "kv_intervene_response response_envelope"
  | PL_Discover "discover_response response_envelope"
  | PL_ViewDefine "view_define_response response_envelope"
  | PL_Replay "replay_response moded_body"
  | PL_Intervene "intervene_response response_envelope"

record 'v serde =
  empty_object :: 'v
  null_value :: 'v
  de_initialize :: "'v \<Rightarrow> (string, 'v initialize_request) result"
  de_attach :: "'v \<Rightarrow> (string, 'v attach_request) result"
  de_step :: "'v \<Rightarrow> (string, step_request) result"
  de_inspect :: "'v \<Rightarrow> (string, inspect_request) result"
  de_checkpoint :: "'v \<Rightarrow> (string, checkpoint_request) result"
  de_probe :: "'v \<Rightarrow> (string, probe_request) result"
  de_subscribe :: "'v \<Rightarrow> (string, subscribe_request) result"
  de_unsubscribe :: "'v \<Rightarrow> (string, unit) result"
  de_view :: "'v \<Rightarrow> (string, 'v view_request) result"
  de_kv_read :: "'v \<Rightarrow> (string, kv_read_request) result"
  de_kv_intervene :: "'v \<Rightarrow> (string, kv_intervene_request) result"
  de_discover :: "'v \<Rightarrow> (string, discover_request) result"
  de_view_define :: "'v \<Rightarrow> (string, 'v view_define_request) result"
  de_replay :: "'v \<Rightarrow> (string, replay_request) result"
  de_intervene :: "'v \<Rightarrow> (string, intervene_request) result"
  to_value :: "'v payload \<Rightarrow> (string, 'v) result"
  json :: "'v json_ops"

text \<open>What a call reads from its surroundings: fresh identifiers, the clock, the uptime.\<close>

record call_env =
  ce_uuid :: string
  ce_now :: u64
  ce_uptime :: f64

definition parse_params :: "'v serde \<Rightarrow> ('v \<Rightarrow> (string, 'r) result) \<Rightarrow> 'v request \<Rightarrow> (string, 'r) result" where
  "parse_params S de rq = de (unwrap_or (rq_params rq) (empty_object S))"

definition data_response :: "request_id \<Rightarrow> error_data \<Rightarrow> 'v response" where
  "data_response i d = Response_error i (RpcError_from_error_data d)"

definition bare_error :: "request_id \<Rightarrow> i32 \<Rightarrow> string \<Rightarrow> 'v response" where
  "bare_error i c m = Response_error i \<lparr>re_code = c, re_message = m, re_data = None\<rparr>"

definition invalid_params_response :: "request_id \<Rightarrow> string \<Rightarrow> 'v response" where
  "invalid_params_response i err = data_response i (error_with_context InvalidParams
     (''Invalid params: '' @ err) [(''parse_error'', CStr err)])"

definition session_error_to_response :: "request_id \<Rightarrow> session_error \<Rightarrow> 'v response" where
  "session_error_to_response i e = data_response i (session_error_data e)"

text \<open>
  A body that honours an envelope mode is made a value by \<^verbatim>\<open>envelope_with_mode\<close> already, with null where that fails; in
  the position mode a failure would be a panic of the \<^verbatim>\<open>json!\<close> macro, which is left out. All other bodies
  are serialized here.
\<close>

fun honours_mode :: "'v payload \<Rightarrow> bool" where
  "honours_mode (PL_Step _) = True"
| "honours_mode (PL_Inspect _) = True"
| "honours_mode (PL_View _) = True"
| "honours_mode (PL_Replay _) = True"
| "honours_mode _ = False"

definition serialize_envelope :: "'v serde \<Rightarrow> request_id \<Rightarrow> 'v payload \<Rightarrow> 'v response" where
  "serialize_envelope S i body = (case to_value S body of
     Inr v \<Rightarrow> Response_success i v
   | Inl e \<Rightarrow> if honours_mode body then Response_success i (null_value S)
       else bare_error i INTERNAL_ERROR (''Internal serialization error: '' @ e))"

definition finish :: "'v serde \<Rightarrow> request_id \<Rightarrow> ('a \<Rightarrow> 'v payload) \<Rightarrow> (session_error, 'a) result \<Rightarrow> 'v response" where
  "finish S i wrap r = (case r of
     Inr body \<Rightarrow> serialize_envelope S i (wrap body)
   | Inl e \<Rightarrow> session_error_to_response i e)"

section \<open>Targets\<close>

definition CANONICAL_COMPONENTS :: "string list" where
  "CANONICAL_COMPONENTS = [''embed'', ''q_proj'', ''k_proj'', ''v_proj'', ''o_proj'', ''scores'', ''mlp'',
     ''gate_proj'', ''up_proj'', ''down_proj'', ''router'', ''residual_pre'', ''residual_post'', ''ln1'',
     ''ln2'', ''ln_final'', ''lm_head'']"

definition component_leaf :: "string \<Rightarrow> string" where
  "component_leaf component = takeWhile (\<lambda>c. c \<noteq> CHR ''['') (last (split_on CHR ''.'' component))"

definition target_component :: "string \<Rightarrow> string option" where
  "target_component target =
     (let parts = split_on CHR '':'' target;
          idx = (if length parts = 4 then 2 else 3)
      in if idx < length parts \<and> parts ! idx \<noteq> [] then Some (parts ! idx) else None)"

definition nearest_components :: "string \<Rightarrow> string list" where
  "nearest_components attempted =
     (let scored = sort_key (\<lambda>x. x) (map (\<lambda>c. (edit_distance attempted c, c)) CANONICAL_COMPONENTS);
          best = fst (hd scored)
      in map snd (take 5 (filter (\<lambda>(dist, _). dist \<le> best + 2) scored)))"

text \<open>The dash in the suggestion is U+2014.\<close>

definition invalid_target_error :: "string \<Rightarrow> error_data" where
  "invalid_target_error target =
     (let attempted = unwrap_or (target_component target) target;
          nearest = nearest_components (component_leaf attempted);
          suggestion = (case nearest of
              best # _ \<Rightarrow> ''Unknown component '' @ sq @ attempted @ sq @ '' in target ''
                 @ [CHR 0xE2, CHR 0x80, CHR 0x94] @ '' did you mean '' @ sq @ best @ sq @ ''?''
            | [] \<Rightarrow> ''Unknown component '' @ sq @ attempted @ sq @ '' in target'')
      in error_with_context InvalidTarget suggestion
           [(''attempted'', CStr attempted), (''nearest_matches'', CStrs nearest),
            (''valid_components_at_layer'', CStrs CANONICAL_COMPONENTS)])"

definition target_ok :: "string \<Rightarrow> bool" where
  "target_ok target = (case target_component target of
     None \<Rightarrow> True
   | Some component \<Rightarrow> component = ''*'' \<or> component_leaf component \<in> set CANONICAL_COMPONENTS)"

section \<open>Handlers\<close>

definition handle_initialize ::
  "call_env \<Rightarrow> 'v serde \<Rightarrow> 'v session \<Rightarrow> 'v request \<Rightarrow> 'v response \<times> 'v session" where
  "handle_initialize E S s rq = (case parse_params S (de_initialize S) rq of
     Inl e \<Rightarrow> (invalid_params_response (rq_id rq) e, s)
   | Inr req \<Rightarrow> (case initialize (ce_uuid E) req s of
       (r, s') \<Rightarrow> (finish S (rq_id rq) PL_Initialize r, s')))"

definition metadata_text :: "host_attach_response \<Rightarrow> string" where
  "metadata_text host = ''worker returned invalid metadata: num_layers='' @ show_u32 (ha_num_layers host)
     @ '', num_heads='' @ show_u32 (ha_num_heads host) @ '', hidden_dim='' @ show_u32 (ha_hidden_dim host)"

definition handle_attach ::
  "call_env \<Rightarrow> 'v serde \<Rightarrow> (string, host_attach_response) result \<Rightarrow> 'v session \<Rightarrow> 'v request
   \<Rightarrow> 'v response \<times> 'v session" where
  "handle_attach E S backend_result s rq = (case parse_params S (de_attach S) rq of
     Inl e \<Rightarrow> (invalid_params_response (rq_id rq) e, s)
   | Inr req \<Rightarrow>
      (case backend_result of
         Inl message \<Rightarrow> (data_response (rq_id rq) (error_with_context BackendAttachFailed message
           [(''backend_error'', CStr message)]), s)
       | Inr host \<Rightarrow>
          if ha_num_layers host = 0 \<or> ha_num_heads host = 0 \<or> ha_hidden_dim host = 0 then
            (data_response (rq_id rq) (error_with_context BackendAttachFailed (metadata_text host)
               [(''backend_error'', CStr (metadata_text host)),
                (''num_layers'', CNum (unat (ha_num_layers host))),
                (''num_heads'', CNum (unat (ha_num_heads host))),
                (''hidden_dim'', CNum (unat (ha_hidden_dim host)))]), s)
          else (case validate_attach (json S) s req of
            Inl e \<Rightarrow> (session_error_to_response (rq_id rq) e, s)
          | Inr _ \<Rightarrow>
             (case commit_attach (ce_uuid E) req (ha_model_type host) (ha_num_layers host)
                     (ha_num_heads host) (ha_hidden_dim host) s of
                (env, s') \<Rightarrow> (serialize_envelope S (rq_id rq) (PL_Attach env), s')))))"

definition handle_detach :: "'v serde \<Rightarrow> 'v session \<Rightarrow> 'v request \<Rightarrow> 'v response \<times> 'v session" where
  "handle_detach S s rq = (case detach s of (r, s') \<Rightarrow> (finish S (rq_id rq) PL_Detach r, s'))"

definition handle_status :: "call_env \<Rightarrow> 'v serde \<Rightarrow> 'v session \<Rightarrow> 'v request \<Rightarrow> 'v response" where
  "handle_status E S s rq = finish S (rq_id rq) PL_Status (session_status (ce_uptime E) s)"

definition synthetic_step :: "'v session \<Rightarrow> step_request \<Rightarrow> tick_position" where
  "synthetic_step s req =
     \<lparr>tp_tick_id = unwrap_or (ss_tick_id (s_state s)) 0 + ucast (sr_count req),
      tp_direction = Forward, tp_rank = Some 0, tp_layer = 0, tp_component = [], tp_event = TE_Output,
      tp_replay_of = None, tp_phase = Decode, tp_token_position = None, tp_clock = None\<rparr>"

definition handle_step ::
  "'v serde \<Rightarrow> host_step_response option \<Rightarrow> 'v session \<Rightarrow> 'v request \<Rightarrow> 'v response \<times> 'v session" where
  "handle_step S host_response s rq = (case parse_params S (de_step S) rq of
     Inl e \<Rightarrow> (invalid_params_response (rq_id rq) e, s)
   | Inr req \<Rightarrow>
      let (position, forward_complete, fired) = (case host_response of
            Some hr \<Rightarrow> (hs_position hr, hs_forward_complete hr, hs_fired_interventions hr)
          | None \<Rightarrow> (synthetic_step s req, False, []))
      in (case session_step req position forward_complete fired s of
            (r, s') \<Rightarrow> (finish S (rq_id rq) PL_Step r, s')))"

definition handle_inspect_no_store :: "'v session \<Rightarrow> 'v request \<Rightarrow> 'v response" where
  "handle_inspect_no_store s rq = (case require_stopped s (rq_method rq) of
     Inl e \<Rightarrow> session_error_to_response (rq_id rq) e
   | Inr _ \<Rightarrow> data_response (rq_id rq) (error_with_hint TensorNotFound
       ''No orchestrator available to capture tensors''))"

text \<open>
  \<open>orch\<close> is the model handle when an orchestrator is attached; the outcome of the host call is only
  logged, so what matters is the request sent.
\<close>

definition handle_checkpoint ::
  "call_env \<Rightarrow> 'v serde \<Rightarrow> u64 option \<Rightarrow> 'v session \<Rightarrow> 'v request
   \<Rightarrow> 'v response \<times> 'v session \<times> host_checkpoint_request list" where
  "handle_checkpoint E S orch s rq = (case parse_params S (de_checkpoint S) rq of
     Inl e \<Rightarrow> (invalid_params_response (rq_id rq) e, s, [])
   | Inr req \<Rightarrow>
     (case require_stopped s ''rocket/checkpoint'' of
        Inl e \<Rightarrow> (session_error_to_response (rq_id rq) e, s, [])
      | Inr _ \<Rightarrow>
        (case req of
           Ckpt_Create tier \<Rightarrow>
             (case orch of
                Some mh \<Rightarrow>
                  let host_req = HostCkpt_Create mh (ce_uuid E) (unwrap_or tier Create_Activation)
                        (unwrap_or (ss_tick_id (s_state s)) 0) (position_layer (s_state s))
                  in (case checkpoint_create_with_id (ce_uuid E) (ce_now E) tier (Some (ce_uuid E)) s of
                        (env, s') \<Rightarrow> (serialize_envelope S (rq_id rq) (PL_Checkpoint env), s', [host_req]))
              | None \<Rightarrow>
                  (case checkpoint_create (ce_uuid E) (ce_now E) tier s of
                     (env, s') \<Rightarrow> (serialize_envelope S (rq_id rq) (PL_Checkpoint env), s', [])))
         | Ckpt_List \<Rightarrow> (serialize_envelope S (rq_id rq) (PL_Checkpoint (checkpoint_list s)), s, [])
         | Ckpt_Restore cid \<Rightarrow>
             (case checkpoint_restore cid s of
                (r, s') \<Rightarrow> (finish S (rq_id rq) PL_Checkpoint r, s',
                   case orch of Some mh \<Rightarrow> [HostCkpt_Restore mh cid] | None \<Rightarrow> []))
         | Ckpt_Delete cid \<Rightarrow>
             (case checkpoint_delete cid s of
                (r, s') \<Rightarrow> (finish S (rq_id rq) PL_Checkpoint r, s', []))
         | Ckpt_Bookmark tick name \<Rightarrow>
             (case checkpoint_bookmark (ce_uuid E) (ce_now E) tick name s of
                (env, s') \<Rightarrow> (serialize_envelope S (rq_id rq) (PL_Checkpoint env), s', [])))))"

definition probe_success ::
  "'v serde \<Rightarrow> 'v session \<Rightarrow> request_id \<Rightarrow> probe_registry \<Rightarrow> string option \<Rightarrow> 'v response" where
  "probe_success S s i registry probe_id = serialize_envelope S i (PL_Probe (envelope s
     \<lparr>pr_probes = registry_list registry, pr_probe_id = probe_id\<rparr>))"

definition registry_error_to_response :: "request_id \<Rightarrow> registry_error \<Rightarrow> 'v response" where
  "registry_error_to_response i err = (case err of
     RegDuplicateId pid \<Rightarrow> data_response i (error_with_context DuplicateProbeId
       (''Probe with id '' @ sq @ pid @ sq @ '' already exists'') [(''probe_id'', CStr pid)])
   | RegInvalidPoint e \<Rightarrow>
       let txt = ''invalid probe point: '' @ pe_message e in
       data_response i (error_with_context InvalidPoint
         (''Invalid probe point: '' @ txt) [(''parse_error'', CStr txt)])
   | RegNotFound pid \<Rightarrow> data_response i (error_with_context ProbeNotFound
       (''Probe '' @ sq @ pid @ sq @ '' not found'') [(''probe_id'', CStr pid)]))"

definition registry_outcome ::
  "'v serde \<Rightarrow> 'v session \<Rightarrow> request_id \<Rightarrow> string \<Rightarrow> (registry_error, 'a) result \<times> probe_registry
   \<Rightarrow> 'v response \<times> probe_registry" where
  "registry_outcome S s i pid r = (case r of
     (Inr _, registry) \<Rightarrow> (probe_success S s i registry (Some pid), registry)
   | (Inl e, registry) \<Rightarrow> (registry_error_to_response i e, registry))"

definition handle_probe ::
  "'v serde \<Rightarrow> (string \<Rightarrow> parse_error) \<Rightarrow> 'v session \<Rightarrow> 'v request \<Rightarrow> probe_registry
   \<Rightarrow> 'v response \<times> probe_registry" where
  "handle_probe S render s rq registry = (case require_stopped s ''rocket/probe'' of
     Inl e \<Rightarrow> (session_error_to_response (rq_id rq) e, registry)
   | Inr _ \<Rightarrow>
     (case parse_params S (de_probe S) rq of
        Inl e \<Rightarrow> (invalid_params_response (rq_id rq) e, registry)
      | Inr req \<Rightarrow>
        (case req of
           Probe_Define probe \<Rightarrow>
             registry_outcome S s (rq_id rq) (pd_id probe) (registry_define render probe registry)
         | Probe_List \<Rightarrow> (probe_success S s (rq_id rq) registry None, registry)
         | Probe_SetGranularity _ \<Rightarrow> (probe_success S s (rq_id rq) registry None, registry)
         | Probe_Enable pid \<Rightarrow> registry_outcome S s (rq_id rq) pid (registry_enable pid registry)
         | Probe_Disable pid \<Rightarrow> registry_outcome S s (rq_id rq) pid (registry_disable pid registry)
         | Probe_Remove pid \<Rightarrow> registry_outcome S s (rq_id rq) pid (registry_remove pid registry))))"

definition handle_subscribe :: "'v serde \<Rightarrow> 'v session \<Rightarrow> 'v request \<Rightarrow> 'v response \<times> 'v session" where
  "handle_subscribe S s rq = (case parse_params S (de_subscribe S) rq of
     Inl e \<Rightarrow> (invalid_params_response (rq_id rq) e, s)
   | Inr req \<Rightarrow>
     (case require_stopped s ''rocket/subscribe'' of
        Inl e \<Rightarrow> (session_error_to_response (rq_id rq) e, s)
      | Inr _ \<Rightarrow>
        let s' = set_event_filter (sq_filter req) s in
        (serialize_envelope S (rq_id rq) (PL_Subscribe (envelope s'
           \<lparr>sb_available_events = [Ev_TickStopped, Ev_TickHeartbeat, Ev_ProbeFired],
            sb_status = ss_status (s_state s')\<rparr>)), s')))"

definition handle_unsubscribe :: "'v serde \<Rightarrow> 'v session \<Rightarrow> 'v request \<Rightarrow> 'v response" where
  "handle_unsubscribe S s rq = (case parse_params S (de_unsubscribe S) rq of
     Inl e \<Rightarrow> invalid_params_response (rq_id rq) e
   | Inr _ \<Rightarrow> serialize_envelope S (rq_id rq)
       (PL_Unsubscribe (envelope s \<lparr>ub_status = ss_status (s_state s)\<rparr>)))"

definition handle_view ::
  "'v serde \<Rightarrow> 'v host_view_response option \<Rightarrow> 'v session \<Rightarrow> 'v request \<Rightarrow> 'v response" where
  "handle_view S host_response s rq = (case parse_params S (de_view S) rq of
     Inl e \<Rightarrow> invalid_params_response (rq_id rq) e
   | Inr req \<Rightarrow>
     (case require_stopped s ''rocket/view'' of
        Inl e \<Rightarrow> session_error_to_response (rq_id rq) e
      | Inr _ \<Rightarrow>
        (case host_response of
           None \<Rightarrow> data_response (rq_id rq) (error_with_hint ViewDataUnavailable
             ''No orchestrator available to compute view'')
         | Some hr \<Rightarrow> serialize_envelope S (rq_id rq) (PL_View
             (envelope_with_mode s (vq_envelope req) \<lparr>vr_view = hv_view hr, vr_data = hv_data hr\<rparr>)))))"

text \<open>\<^verbatim>\<open>max_by_key\<close> yields the last of several maximal elements.\<close>

fun last_max :: "('a \<Rightarrow> u64) \<Rightarrow> 'a option \<Rightarrow> 'a list \<Rightarrow> 'a option" where
  "last_max key best [] = best"
| "last_max key best (x # xs) = last_max key
     (case best of None \<Rightarrow> Some x | Some b \<Rightarrow> if key b \<le> key x then Some x else Some b) xs"

definition nearest_checkpoint :: "'v session \<Rightarrow> u64 \<Rightarrow> checkpoint_ref option" where
  "nearest_checkpoint s tick = last_max cr_tick_id None
     (filter (\<lambda>c. cr_tick_id c \<le> tick) (ss_checkpoints (s_state s)))"

definition kv_evicted_error :: "'v session \<Rightarrow> kv_read_request \<Rightarrow> kv_eviction_info \<Rightarrow> error_data" where
  "kv_evicted_error s req eviction = error_with_context KvEvicted
     (''KV-cache position '' @ show_u64 (kei_position eviction) @ '' was evicted at tick ''
        @ show_u64 (kei_evicted_at_tick eviction))
     [(''position'', CNum (unat (kei_position eviction))),
      (''evicted_at_tick'', CNum (unat (kei_evicted_at_tick eviction))),
      (''nearest_checkpoint'', case nearest_checkpoint s (kei_evicted_at_tick eviction) of
         None \<Rightarrow> CNull | Some c \<Rightarrow> CStr (cr_id c)),
      (''requested_positions'', case kq_positions req of
         None \<Rightarrow> CNull | Some ps \<Rightarrow> CNums (map unat ps))]"

definition handle_kv_read ::
  "'v serde \<Rightarrow> host_kv_read_response option \<Rightarrow> 'v session \<Rightarrow> 'v request \<Rightarrow> 'v response" where
  "handle_kv_read S host_response s rq = (case parse_params S (de_kv_read S) rq of
     Inl e \<Rightarrow> invalid_params_response (rq_id rq) e
   | Inr req \<Rightarrow>
     (case require_stopped s ''rocket/kv.read'' of
        Inl e \<Rightarrow> session_error_to_response (rq_id rq) e
      | Inr _ \<Rightarrow>
        (case host_response of
           None \<Rightarrow> data_response (rq_id rq) (error_with_hint HostError
             ''No orchestrator available to read the KV cache'')
         | Some hr \<Rightarrow>
           (case hk_evicted hr of
              eviction # _ \<Rightarrow> data_response (rq_id rq) (kv_evicted_error s req eviction)
            | [] \<Rightarrow> serialize_envelope S (rq_id rq)
                (PL_KvRead (envelope s \<lparr>kr_entries = hk_entries hr\<rparr>))))))"

definition handle_kv_intervene ::
  "'v serde \<Rightarrow> host_kv_intervene_response option \<Rightarrow> 'v session \<Rightarrow> 'v request \<Rightarrow> 'v response" where
  "handle_kv_intervene S host_response s rq = (case parse_params S (de_kv_intervene S) rq of
     Inl e \<Rightarrow> invalid_params_response (rq_id rq) e
   | Inr req \<Rightarrow>
     (case require_stopped s ''rocket/kv.intervene'' of
        Inl e \<Rightarrow> session_error_to_response (rq_id rq) e
      | Inr _ \<Rightarrow>
        if ki_layers req = [] \<or> ki_positions req = [] then
          data_response (rq_id rq) (error_with_hint InvalidParams
            ''kv.intervene requires non-empty `layers` and `positions`'')
        else (case host_response of
           None \<Rightarrow> data_response (rq_id rq) (error_with_hint HostError
             ''No orchestrator available to apply the KV-cache intervention'')
         | Some hr \<Rightarrow> serialize_envelope S (rq_id rq) (PL_KvIntervene (envelope s
             \<lparr>kx_slots_modified = hx_slots_modified hr, kx_applied_op = hx_applied_op hr\<rparr>)))))"

definition handle_discover :: "'v serde \<Rightarrow> 'v session \<Rightarrow> 'v request \<Rightarrow> 'v response" where
  "handle_discover S s rq = (case parse_params S (de_discover S) rq of
     Inl e \<Rightarrow> invalid_params_response (rq_id rq) e
   | Inr req \<Rightarrow> finish S (rq_id rq) PL_Discover (discover s (dq_pattern req)))"

definition handle_view_define :: "'v serde \<Rightarrow> 'v session \<Rightarrow> 'v request \<Rightarrow> 'v response \<times> 'v session" where
  "handle_view_define S s rq = (case parse_params S (de_view_define S) rq of
     Inl e \<Rightarrow> (invalid_params_response (rq_id rq) e, s)
   | Inr req \<Rightarrow> (case define_view (vd_name req) (vd_spec req) s of
       (r, s') \<Rightarrow> (finish S (rq_id rq) PL_ViewDefine r, s')))"

definition handle_replay ::
  "'v serde \<Rightarrow> host_replay_response option \<Rightarrow> 'v session \<Rightarrow> 'v request \<Rightarrow> 'v response \<times> 'v session" where
  "handle_replay S host_response s rq = (case parse_params S (de_replay S) rq of
     Inl e \<Rightarrow> (invalid_params_response (rq_id rq) e, s)
   | Inr req \<Rightarrow> (case session_replay req host_response s of
       (r, s') \<Rightarrow> (finish S (rq_id rq) PL_Replay r, s')))"

section \<open>Interventions\<close>

definition recipe_type_matches_params :: "intervention_recipe \<Rightarrow> bool" where
  "recipe_type_matches_params r = (case (ir_type r, ir_params r) of
     (T_Ablate, P_Ablate _ _ _) \<Rightarrow> True
   | (T_Scale, P_Scale _) \<Rightarrow> True
   | (T_Add, P_Add _) \<Rightarrow> True
   | (T_Patch, P_Patch _) \<Rightarrow> True
   | (T_Clamp, P_Clamp _ _) \<Rightarrow> True
   | (T_RouteOverride, P_RouteOverride _ _) \<Rightarrow> True
   | (T_AttentionMask, P_AttentionMask _ _ _) \<Rightarrow> True
   | (T_EmbedSwap, P_EmbedSwap _ _) \<Rightarrow> True
   | (T_EmbedNoise, P_EmbedNoise _ _ _) \<Rightarrow> True
   | _ \<Rightarrow> False)"

definition validate_recipe :: "intervention_recipe \<Rightarrow> (error_data, unit) result" where
  "validate_recipe r =
     (if ir_id r = None \<or> ir_id r = Some [] then
        Err (error_with_hint InvalidRecipe
          (''Intervention recipe must carry a non-empty '' @ sq @ ''id'' @ sq))
      else if \<not> target_ok (ir_target r) then Err (invalid_target_error (ir_target r))
      else if \<not> recipe_type_matches_params r then
        Err (error_with_hint InvalidRecipe
          (''Recipe params do not match the declared intervention '' @ sq @ ''type'' @ sq))
      else Ok ())"

definition intervene_reply :: "'v serde \<Rightarrow> request_id \<Rightarrow> bool option \<Rightarrow> 'v session \<Rightarrow> 'v response" where
  "intervene_reply S i applied s = serialize_envelope S i (PL_Intervene (envelope s
     \<lparr>iv_active = s_interventions s, iv_applied = applied\<rparr>))"

definition handle_intervene :: "'v serde \<Rightarrow> 'v session \<Rightarrow> 'v request \<Rightarrow> 'v response \<times> 'v session" where
  "handle_intervene S s rq = (case parse_params S (de_intervene S) rq of
     Inl e \<Rightarrow> (invalid_params_response (rq_id rq) e, s)
   | Inr req \<Rightarrow>
     (case require_stopped s ''rocket/intervene'' of
        Inl e \<Rightarrow> (session_error_to_response (rq_id rq) e, s)
      | Inr _ \<Rightarrow>
        (case req of
           Intervene_Set recipe \<Rightarrow>
             (case validate_recipe recipe of
                Inl d \<Rightarrow> (data_response (rq_id rq) d, s)
              | Inr _ \<Rightarrow> let s' = set_intervention recipe s
                  in (intervene_reply S (rq_id rq) (Some True) s', s'))
         | Intervene_Clear i \<Rightarrow> let s' = snd (clear_intervention i s)
             in (intervene_reply S (rq_id rq) None s', s')
         | Intervene_List \<Rightarrow> (intervene_reply S (rq_id rq) None s, s))))"

section \<open>Routing\<close>

definition dispatch ::
  "call_env \<Rightarrow> 'v serde \<Rightarrow> 'v session \<Rightarrow> 'v request \<Rightarrow> 'v response \<times> 'v session" where
  "dispatch E S s rq =
     (let m = rq_method rq in
      if m = m_INITIALIZE then handle_initialize E S s rq
      else if m = m_ATTACH then
        (bare_error (rq_id rq) INTERNAL_ERROR ''attach must be dispatched via main loop'', s)
      else if m = m_DETACH then handle_detach S s rq
      else if m = m_STATUS then (handle_status E S s rq, s)
      else if m = m_STEP then handle_step S None s rq
      else if m = m_INSPECT then (handle_inspect_no_store s rq, s)
      else if m = m_SUBSCRIBE then handle_subscribe S s rq
      else if m = m_UNSUBSCRIBE then (handle_unsubscribe S s rq, s)
      else if m = m_VIEW then (handle_view S None s rq, s)
      else if m = m_DISCOVER then (handle_discover S s rq, s)
      else if m = m_VIEW_DEFINE then handle_view_define S s rq
      else if m = m_CHECKPOINT then
        (case handle_checkpoint E S None s rq of (r, s', _) \<Rightarrow> (r, s'))
      else if m = m_KV_READ then (handle_kv_read S None s rq, s)
      else if m = m_KV_INTERVENE then (handle_kv_intervene S None s rq, s)
      else if m = m_INTERVENE then handle_intervene S s rq
      else if m = m_REPLAY then handle_replay S None s rq
      else (bare_error (rq_id rq) METHOD_NOT_FOUND (''Method not found: '' @ m), s))"

end
