(* ===== verification/Byte_Layout.thy ===== *)
theory Byte_Layout
  imports Prelude
begin

text \<open>
  Fixed binary layouts. The code writes its records field by field, left to right, into a
  zero-filled buffer, and reads each field back from its offset. \<open>write_gap\<close> turns a chain of such
  writes into one concatenation of fields and zero padding; the \<open>read_at\<close> rules pick a field out of
  a concatenation. \<open>write_words\<close> / \<open>read_words\<close> are the loops over an array of fixed-width values.
\<close>

named_theorems layout_simps \<open>closed forms of field-by-field writes and reads\<close>

lemma write_gap [layout_simps]:
  assumes "length pre \<le> off" "off + length d \<le> length pre + m"
  shows "write_at off d (pre @ replicate m z) =
    pre @ replicate (off - length pre) z @ d @ replicate (length pre + m - (off + length d)) z"
  using assms by (auto simp: write_at_def take_replicate drop_replicate min_def add.commute)

text \<open>The two shapes of the chain: a field right after what is written, and one after a gap.\<close>

lemma write_field:
  "off = length pre \<Longrightarrow> length d \<le> m \<Longrightarrow>
   write_at off d (pre @ replicate m z) = (pre @ d) @ replicate (m - length d) z"
  by (simp add: write_gap)

lemma write_field_gap:
  "off = length pre + g \<Longrightarrow> g + length d \<le> m \<Longrightarrow>
   write_at off d (pre @ replicate m z) = (pre @ replicate g z @ d) @ replicate (m - (g + length d)) z"
  by (simp add: write_gap)

lemma update_field:
  "off = length pre \<Longrightarrow> 0 < m \<Longrightarrow> (pre @ replicate m z)[off := v] = (pre @ [v]) @ replicate (m - 1) z"
  by (cases m) simp_all

lemma read_at_left [layout_simps]: "off + n \<le> length xs \<Longrightarrow> read_at off n (xs @ ys) = read_at off n xs"
  by (simp add: read_at_def)

lemma read_at_right [layout_simps]:
  "length xs \<le> off \<Longrightarrow> read_at off n (xs @ ys) = read_at (off - length xs) n ys"
  by (simp add: read_at_def)

lemma read_at_all [layout_simps]: "length xs = n \<Longrightarrow> read_at 0 n xs = xs"
  by (simp add: read_at_def)

lemma read_at_replicate [layout_simps]:
  "off + n \<le> m \<Longrightarrow> read_at off n (replicate m z) = replicate n z"
  by (simp add: read_at_def take_replicate drop_replicate min_def)

lemma list_update_gap [layout_simps]:
  "length pre \<le> i \<Longrightarrow> i < length pre + m \<Longrightarrow>
   (pre @ replicate m z)[i := v] = pre @ replicate (i - length pre) z @ [v] @ replicate (length pre + m - Suc i) z"
  by (rule nth_equalityI) (auto simp: nth_append nth_list_update nth_Cons split: nat.splits)

fun write_words :: "('a \<Rightarrow> 'b list) \<Rightarrow> nat \<Rightarrow> nat \<Rightarrow> 'a list \<Rightarrow> 'b list \<Rightarrow> 'b list" where
  "write_words enc w start [] buf = buf"
| "write_words enc w start (x # xs) buf = write_words enc w (start + w) xs (write_at start (enc x) buf)"

definition read_words :: "('b list \<Rightarrow> 'a) \<Rightarrow> nat \<Rightarrow> nat \<Rightarrow> nat \<Rightarrow> 'b list \<Rightarrow> 'a list" where
  "read_words dec w start n buf = map (\<lambda>i. dec (read_at (start + i * w) w buf)) [0..<n]"

lemma read_words_left:
  assumes "start + n * w \<le> length xs"
  shows "read_words dec w start n (xs @ ys) = read_words dec w start n xs"
proof -
  have "start + i * w + w \<le> length xs" if "i < n" for i
    using assms mult_le_mono1 [of "Suc i" n w] that by simp
  then show ?thesis by (simp add: read_words_def read_at_left)
qed

lemma length_concat_words:
  "(\<And>x. length (enc x) = w) \<Longrightarrow> length (concat (map enc xs)) = w * length xs"
  by (induction xs) auto

lemma write_words_gap [layout_simps]:
  assumes "\<And>x. length (enc x) = w"
  shows "length pre = start \<Longrightarrow> w * length xs \<le> m \<Longrightarrow>
    write_words enc w start xs (pre @ replicate m z) =
    pre @ concat (map enc xs) @ replicate (m - w * length xs) z"
proof (induction xs arbitrary: pre start m)
  case Nil
  then show ?case by simp
next
  case (Cons x xs)
  have "write_at start (enc x) (pre @ replicate m z) = (pre @ enc x) @ replicate (m - w) z"
    using Cons.prems assms by (simp add: write_gap)
  moreover have "write_words enc w (start + w) xs ((pre @ enc x) @ replicate (m - w) z) =
      (pre @ enc x) @ concat (map enc xs) @ replicate (m - w - w * length xs) z"
    using Cons.prems assms by (intro Cons.IH) auto
  ultimately show ?case by (simp add: algebra_simps)
qed

lemma read_concat_nth:
  assumes "\<forall>x \<in> set xss. length x = w" and "i < length xss"
  shows "read_at (i * w) w (concat xss) = xss ! i"
  using assms
proof (induction xss arbitrary: i)
  case (Cons x xs)
  then show ?case
    by (cases i) (auto simp: read_at_left read_at_right read_at_all)
qed simp

lemma read_word_concat:
  assumes "\<And>x. length (enc x) = w" and "i < length xs"
  shows "read_at (i * w) w (concat (map enc xs)) = enc (xs ! i)"
  using read_concat_nth [of "map enc xs" w i] assms by simp

lemma read_words_concat [layout_simps]:
  assumes enc: "\<And>x. length (enc x) = w" and dec: "\<And>x. dec (enc x) = x"
    and "length pre = start" and "length xs = n"
  shows "read_words dec w start n (pre @ concat (map enc xs) @ post) = xs"
proof (rule nth_equalityI)
  show "length (read_words dec w start n (pre @ concat (map enc xs) @ post)) = length xs"
    using assms(4) by (simp add: read_words_def)
next
  fix i assume "i < length (read_words dec w start n (pre @ concat (map enc xs) @ post))"
  then have i: "i < length xs" using assms(4) by (simp add: read_words_def)
  then have "i * w + w \<le> w * length xs" using mult_le_mono2 [of "Suc i" "length xs" w]
    by (simp add: algebra_simps)
  then have "read_at (start + i * w) w (pre @ concat (map enc xs) @ post) = enc (xs ! i)"
    using assms(3) length_concat_words [of enc w xs, OF enc] read_word_concat [OF enc i]
    by (simp add: read_at_left read_at_right)
  then show "read_words dec w start n (pre @ concat (map enc xs) @ post) ! i = xs ! i"
    using i assms(4) dec by (simp add: read_words_def)
qed

end
