(* ===== verification/Shm_Config.thy ===== *)
theory Shm_Config
  imports Decimal Byte_Layout
begin

text \<open>
  The layout of the shared-memory data plane, \<^verbatim>\<open>crates/rocket-surgeon-shm/src/lib.rs\<close>: the
  control block and frame offsets, the errors, \<^verbatim>\<open>RingConfig\<close> with its validation and its slot
  arithmetic, and the 128-byte probe frame header.
\<close>

section \<open>Constants\<close>

definition CONTROL_SIZE :: usize where "CONTROL_SIZE = 4096"
definition MAGIC :: bytes where "MAGIC = [68, 79, 79, 77, 82, 73, 78, 71]"
definition VERSION :: u32 where "VERSION = 1"
definition MAGIC_OFFSET :: usize where "MAGIC_OFFSET = 0"
definition VERSION_OFFSET :: usize where "VERSION_OFFSET = 8"
definition SLOT_COUNT_OFFSET :: usize where "SLOT_COUNT_OFFSET = 12"
definition SLOT_SIZE_OFFSET :: usize where "SLOT_SIZE_OFFSET = 16"
definition REGION_SIZE_OFFSET :: usize where "REGION_SIZE_OFFSET = 24"
definition MAKETIC_OFFSET :: usize where "MAKETIC_OFFSET = 128"
definition NETTICS_OFFSET :: usize where "NETTICS_OFFSET = 256"
definition PROBE_FRAME_HEADER_SIZE :: usize where "PROBE_FRAME_HEADER_SIZE = 128"

definition FRAME_OFFSET_RANK :: nat where "FRAME_OFFSET_RANK = 0"
definition FRAME_OFFSET_LAYER :: nat where "FRAME_OFFSET_LAYER = 4"
definition FRAME_OFFSET_COMP_ID :: nat where "FRAME_OFFSET_COMP_ID = 8"
definition FRAME_OFFSET_DTYPE :: nat where "FRAME_OFFSET_DTYPE = 10"
definition FRAME_OFFSET_NDIM :: nat where "FRAME_OFFSET_NDIM = 11"
definition FRAME_OFFSET_SHAPE :: nat where "FRAME_OFFSET_SHAPE = 12"
definition FRAME_OFFSET_TICK_ID :: nat where "FRAME_OFFSET_TICK_ID = 48"
definition FRAME_OFFSET_DATA_OFF :: nat where "FRAME_OFFSET_DATA_OFF = 56"
definition FRAME_OFFSET_SIZE :: nat where "FRAME_OFFSET_SIZE = 64"
definition FRAME_OFFSET_FLAGS :: nat where "FRAME_OFFSET_FLAGS = 72"
definition FRAME_OFFSET_GENERATION :: nat where "FRAME_OFFSET_GENERATION = 76"

lemmas control_defs = CONTROL_SIZE_def MAGIC_OFFSET_def VERSION_OFFSET_def SLOT_COUNT_OFFSET_def
  SLOT_SIZE_OFFSET_def REGION_SIZE_OFFSET_def MAKETIC_OFFSET_def NETTICS_OFFSET_def
  PROBE_FRAME_HEADER_SIZE_def

lemmas frame_defs = FRAME_OFFSET_RANK_def FRAME_OFFSET_LAYER_def FRAME_OFFSET_COMP_ID_def
  FRAME_OFFSET_DTYPE_def FRAME_OFFSET_NDIM_def FRAME_OFFSET_SHAPE_def FRAME_OFFSET_TICK_ID_def
  FRAME_OFFSET_DATA_OFF_def FRAME_OFFSET_SIZE_def FRAME_OFFSET_FLAGS_def FRAME_OFFSET_GENERATION_def

lemma length_MAGIC [simp]: "length MAGIC = 8"
  by (simp add: MAGIC_def)

lemma unat_PROBE_FRAME_HEADER_SIZE [simp]: "unat PROBE_FRAME_HEADER_SIZE = 128"
  by (simp add: PROBE_FRAME_HEADER_SIZE_def)

section \<open>Errors\<close>

text \<open>
  \<^verbatim>\<open>ShmError\<close>. The operating-system causes (\<^verbatim>\<open>std::io::Error\<close>) carried by \<^verbatim>\<open>Open\<close>, \<^verbatim>\<open>Mmap\<close>,
  \<^verbatim>\<open>Truncate\<close> and \<^verbatim>\<open>Unlink\<close> are represented by their raw error number.
\<close>

datatype shm_error =
    NotPowerOfTwo u32
  | InvalidConfig string
  | OpenError string int
  | MmapError int
  | TruncateError int
  | UnlinkError string int
  | OutOfBounds usize usize usize
  | ReadOutOfBounds usize usize usize
  | Unaligned usize usize
  | BadMagic bytes
  | BadVersion u32 u32
  | RingFull u64 u64 u32
  | TensorTooLarge usize usize
  | NameTooLong string usize
  | RegionTooSmall usize usize
  | StaleSlot u32 u32

section \<open>RingConfig\<close>

record ring_config =
  backuptics :: u32
  slot_size :: u64

definition RingConfig_new :: "u32 \<Rightarrow> u64 \<Rightarrow> (shm_error, ring_config) result" where
  "RingConfig_new bt ss =
     (if bt = 0 \<or> (bt AND (bt - 1)) \<noteq> 0 then Err (NotPowerOfTwo bt)
      else if ss < PROBE_FRAME_HEADER_SIZE then
        Err (InvalidConfig (''slot_size ('' @ show_u64 ss
               @ '') must be >= PROBE_FRAME_HEADER_SIZE ('' @ show_u64 PROBE_FRAME_HEADER_SIZE @ '')''))
      else case Option.bind (checked_mul (ucast bt) ss) (\<lambda>v. checked_add v CONTROL_SIZE) of
        None \<Rightarrow> Err (InvalidConfig ''region_size overflows u64'')
      | Some slot_total \<Rightarrow>
          if slot_total > (- 1 :: usize) then Err (InvalidConfig ''region_size exceeds addressable memory'')
          else Ok \<lparr>backuptics = bt, slot_size = ss\<rparr>)"

definition region_size :: "ring_config \<Rightarrow> usize" where
  "region_size c = CONTROL_SIZE + ucast (backuptics c) * slot_size c"

definition slot_offset :: "ring_config \<Rightarrow> u64 \<Rightarrow> usize" where
  "slot_offset c maketic =
     (let slot_index = maketic AND (ucast (backuptics c) - 1)
      in CONTROL_SIZE + slot_index * slot_size c)"

definition slot_data_capacity :: "ring_config \<Rightarrow> usize" where
  "slot_data_capacity c = slot_size c - PROBE_FRAME_HEADER_SIZE"

definition ring_mask :: "ring_config \<Rightarrow> u64" where
  "ring_mask c = ucast (backuptics c) - 1"

section \<open>Probe frame headers\<close>

text \<open>The dimensions are written one by one, four bytes each, from \<^const>\<open>FRAME_OFFSET_SHAPE\<close> on.\<close>

definition serialize_probe_frame ::
  "u32 \<Rightarrow> u32 \<Rightarrow> u16 \<Rightarrow> u8 \<Rightarrow> u8 \<Rightarrow> u32 list \<Rightarrow> u64 \<Rightarrow> u64 \<Rightarrow> u64 \<Rightarrow> u32 \<Rightarrow> u32 \<Rightarrow> bytes" where
  "serialize_probe_frame rank layer comp_id dtype ndim shape tick_id data_off sz flags generation =
     (let buf = replicate (unat PROBE_FRAME_HEADER_SIZE) 0;
          buf = write_at FRAME_OFFSET_RANK (u32_to_le_bytes rank) buf;
          buf = write_at FRAME_OFFSET_LAYER (u32_to_le_bytes layer) buf;
          buf = write_at FRAME_OFFSET_COMP_ID (u16_to_le_bytes comp_id) buf;
          buf = buf[FRAME_OFFSET_DTYPE := dtype];
          buf = buf[FRAME_OFFSET_NDIM := ndim];
          buf = write_words u32_to_le_bytes 4 FRAME_OFFSET_SHAPE shape buf;
          buf = write_at FRAME_OFFSET_TICK_ID (u64_to_le_bytes tick_id) buf;
          buf = write_at FRAME_OFFSET_DATA_OFF (u64_to_le_bytes data_off) buf;
          buf = write_at FRAME_OFFSET_SIZE (u64_to_le_bytes sz) buf;
          buf = write_at FRAME_OFFSET_FLAGS (u32_to_le_bytes flags) buf;
          buf = write_at FRAME_OFFSET_GENERATION (u32_to_le_bytes generation) buf
      in buf)"

text \<open>The two fields that the consumer reads back.\<close>

definition header_size :: "bytes \<Rightarrow> u64" where
  "header_size h = u64_from_le_bytes (read_at FRAME_OFFSET_SIZE 8 h)"

definition header_generation :: "bytes \<Rightarrow> u32" where
  "header_generation h = u32_from_le_bytes (read_at FRAME_OFFSET_GENERATION 4 h)"

section \<open>Slot arithmetic\<close>

lemma nat_and_pred_zero_iff_power:
  "0 < n \<Longrightarrow> n AND (n - 1) = (0::nat) \<longleftrightarrow> (\<exists>k. n = 2 ^ k)"
proof (induction n rule: less_induct)
  case (less n)
  show ?case
  proof (cases "even n")
    case True
    then obtain m where n: "n = 2 * m" by blast
    with less.prems have m: "0 < m" "m < n" by auto
    have half: "(n - 1) div 2 = m - 1" using n m(1) by presburger
    have "n AND (n - 1) = 2 * (m AND (m - 1))"
      using m n half by (subst and_rec) auto
    moreover have "(\<exists>k. n = 2 ^ k) \<longleftrightarrow> (\<exists>k. m = 2 ^ k)"
    proof
      assume "\<exists>k. n = 2 ^ k"
      then obtain k where k: "n = 2 ^ k" by blast
      with n m have "k \<noteq> 0" by (intro notI) auto
      then obtain j where "k = Suc j" by (cases k) auto
      with k n show "\<exists>k. m = 2 ^ k" by auto
    next
      assume "\<exists>k. m = 2 ^ k"
      then obtain k where "m = 2 ^ k" by blast
      with n have "n = 2 ^ Suc k" by simp
      then show "\<exists>k. n = 2 ^ k" by blast
    qed
    ultimately show ?thesis using less.IH [OF m(2) m(1)] by simp
  next
    case False
    then obtain m where n: "n = Suc (2 * m)" by (auto elim: oddE)
    have "n AND (n - 1) = 2 * m"
      using n by (subst and_rec) auto
    moreover have "(\<exists>k. n = 2 ^ k) \<longleftrightarrow> m = 0"
    proof
      assume "\<exists>k. n = 2 ^ k"
      then obtain k where k: "n = 2 ^ k" by blast
      with False have "k = 0" by (cases k) auto
      with k n show "m = 0" by simp
    next
      assume "m = 0"
      with n have "n = 2 ^ 0" by simp
      then show "\<exists>k. n = 2 ^ k" by blast
    qed
    ultimately show ?thesis by simp
  qed
qed

lemma word_and_pred_zero_iff_power:
  fixes w :: "'a::len word"
  assumes "w \<noteq> 0"
  shows "w AND (w - 1) = 0 \<longleftrightarrow> (\<exists>k. unat w = 2 ^ k)"
proof -
  have pos: "0 < unat w" using assms by (simp add: unat_gt_0)
  have "w AND (w - 1) = 0 \<longleftrightarrow> unat (w AND (w - 1)) = 0"
    by (simp add: unsigned_eq_0_iff)
  also have "unat (w AND (w - 1)) = unat w AND (unat w - 1)"
    using assms by (simp add: unsigned_and_eq unat_minus_one)
  finally show ?thesis using nat_and_pred_zero_iff_power [OF pos] by simp
qed

text \<open>
  The configurations that \<^verbatim>\<open>RingConfig::new\<close> admits: a power-of-two slot count, room for a
  frame header in each slot, and a region size that fits in 64 bits.
\<close>

definition config_ok :: "ring_config \<Rightarrow> bool" where
  "config_ok c \<longleftrightarrow> (\<exists>k. unat (backuptics c) = 2 ^ k) \<and> 128 \<le> unat (slot_size c)
     \<and> 4096 + unat (backuptics c) * unat (slot_size c) < 2 ^ 64"

abbreviation slots :: "ring_config \<Rightarrow> nat" where "slots c \<equiv> unat (backuptics c)"
abbreviation slot_bytes :: "ring_config \<Rightarrow> nat" where "slot_bytes c \<equiv> unat (slot_size c)"

lemma unat_ucast_u32 [simp]: "unat (ucast (b :: u32) :: u64) = unat b"
  by (simp add: unsigned_ucast_eq take_bit_nat_eq_self_iff less_le_trans [OF unat_bounds(3)])

lemma region_total_checked:
  "Option.bind (checked_mul (ucast (bt :: u32)) ss) (\<lambda>v. checked_add v CONTROL_SIZE) =
     (if 4096 + unat bt * unat ss < 2 ^ 64 then Some (ucast bt * ss + CONTROL_SIZE) else None)"
  by (auto simp: checked_mul_def checked_add_def CONTROL_SIZE_def unat_word_ariths)

lemma RingConfig_new_Ok_iff:
  "RingConfig_new bt ss = Ok c \<longleftrightarrow> c = \<lparr>backuptics = bt, slot_size = ss\<rparr> \<and> config_ok c"
proof -
  have pow: "bt \<noteq> 0 \<and> bt AND (bt - 1) = 0 \<longleftrightarrow> (\<exists>k. unat bt = 2 ^ k)"
    using word_and_pred_zero_iff_power [of bt] by (cases "bt = 0") auto
  have hdr: "ss < PROBE_FRAME_HEADER_SIZE \<longleftrightarrow> unat ss < 128"
    by (simp add: PROBE_FRAME_HEADER_SIZE_def word_less_nat_alt)
  have top: "\<not> (x :: u64) > - 1" for x
    by (simp add: not_less)
  show ?thesis
    unfolding RingConfig_new_def region_total_checked config_ok_def
    using pow hdr top by (auto simp: not_less)
qed

lemma config_okD:
  assumes "config_ok c"
  shows "0 < slots c" "128 \<le> slot_bytes c" "4096 + slots c * slot_bytes c < 2 ^ 64"
  using assms by (auto simp: config_ok_def)

lemma unat_region_size:
  assumes "config_ok c"
  shows "unat (region_size c) = 4096 + slots c * slot_bytes c"
proof -
  have "slots c * slot_bytes c < 2 ^ 64" using config_okD(3) [OF assms] by simp
  then have "unat (ucast (backuptics c) * slot_size c) = slots c * slot_bytes c"
    by (subst unat_mult_no_wrap) simp_all
  then show ?thesis
    using config_okD(3) [OF assms]
    by (simp add: region_size_def CONTROL_SIZE_def unat_add_no_wrap)
qed

lemma unat_ring_index:
  assumes "config_ok c"
  shows "unat (m AND (ucast (backuptics c) - 1) :: u64) = unat m mod slots c"
proof -
  obtain k where k: "slots c = 2 ^ k" using assms by (auto simp: config_ok_def)
  have pos: "(ucast (backuptics c) :: u64) \<noteq> 0"
    using config_okD(1) [OF assms] unat_ucast_u32 [of "backuptics c"] by (metis less_irrefl unsigned_0)
  then have "unat (ucast (backuptics c) - 1 :: u64) = mask k"
    by (simp add: unat_minus_one k mask_eq_exp_minus_1)
  then show ?thesis
    by (simp add: unsigned_and_eq k take_bit_eq_mask flip: take_bit_eq_mod)
qed

lemma ring_index_less:
  "config_ok c \<Longrightarrow> unat (m :: u64) mod slots c < slots c"
  using config_okD(1) by simp

lemma unat_slot_offset:
  assumes "config_ok c"
  shows "unat (slot_offset c m) = 4096 + (unat m mod slots c) * slot_bytes c"
proof -
  let ?i = "unat m mod slots c"
  have "?i * slot_bytes c \<le> slots c * slot_bytes c"
    using ring_index_less [OF assms, of m] by (intro mult_le_mono1) simp
  then have bound: "4096 + ?i * slot_bytes c < 2 ^ 64"
    using config_okD(3) [OF assms] by linarith
  then have "unat ((m AND (ucast (backuptics c) - 1)) * slot_size c) = ?i * slot_bytes c"
    by (subst unat_mult_no_wrap) (simp_all add: unat_ring_index [OF assms])
  then show ?thesis
    using bound by (simp add: slot_offset_def CONTROL_SIZE_def unat_add_no_wrap)
qed

lemma slot_within_region:
  assumes "config_ok c"
  shows "unat (slot_offset c m) + slot_bytes c \<le> unat (region_size c)"
proof -
  have "Suc (unat m mod slots c) * slot_bytes c \<le> slots c * slot_bytes c"
    using ring_index_less [OF assms, of m] by (intro mult_le_mono1) simp
  then show ?thesis
    by (simp add: unat_slot_offset [OF assms] unat_region_size [OF assms])
qed

lemma slots_disjoint:
  assumes "config_ok c" and "unat m mod slots c \<noteq> unat n mod slots c"
  shows "unat (slot_offset c m) + slot_bytes c \<le> unat (slot_offset c n)
       \<or> unat (slot_offset c n) + slot_bytes c \<le> unat (slot_offset c m)"
proof -
  have step: "4096 + i * slot_bytes c + slot_bytes c \<le> 4096 + j * slot_bytes c" if "i < j" for i j
    using mult_le_mono1 [OF Suc_leI [OF that], of "slot_bytes c"] by simp
  show ?thesis
    using assms(2) step
    by (auto simp: unat_slot_offset [OF assms(1)] neq_iff)
qed

lemma unat_slot_data_capacity:
  "config_ok c \<Longrightarrow> unat (slot_data_capacity c) = slot_bytes c - 128"
  using config_okD(2)
  by (simp add: slot_data_capacity_def PROBE_FRAME_HEADER_SIZE_def unat_sub word_le_nat_alt)

end
