(* ===== verification/Shm_Region.thy ===== *)
theory Shm_Region
  imports Shm_Config
begin

text \<open>
  Mapped shared-memory regions, \<^verbatim>\<open>crates/rocket-surgeon-shm/src/region.rs\<close>. The bytes behind a
  mapping are explicit state, a list that the producer and the consumer share. The POSIX namespace
  of shared-memory objects is a map from names to contents. The outcome of each system call that
  may fail is an argument (\<open>os_env\<close>: \<^const>\<open>None\<close> for success, \<open>Some errno\<close> for a failure);
  what the code relies on is that a fresh object is zero-filled by \<^verbatim>\<open>ftruncate\<close>, that
  \<^verbatim>\<open>O_CREAT|O_EXCL\<close> fails on an existing name and that opening a missing name fails. A panic
  (\<^verbatim>\<open>CString::new(..).expect(..)\<close> on a name with a NUL byte) is \<^const>\<open>None\<close>.
\<close>

record shm_region =
  reg_name :: string
  reg_len :: usize

type_synonym shm_objects = "string \<rightharpoonup> bytes"

record os_env =
  os_shm_open :: "int option"
  os_ftruncate :: "int option"
  os_fstat :: "int option"
  os_mmap :: "int option"
  os_unlink :: "int option"

definition os_fine :: os_env where
  "os_fine = \<lparr>os_shm_open = None, os_ftruncate = None, os_fstat = None, os_mmap = None,
     os_unlink = None\<rparr>"

definition PSHMNAMLEN_MAX :: usize where "PSHMNAMLEN_MAX = 255"
definition EEXIST :: int where "EEXIST = 17"
definition ENOENT :: int where "ENOENT = 2"

definition validate_name :: "string \<Rightarrow> (shm_error, unit) result" where
  "validate_name name =
     (if length name > unat PSHMNAMLEN_MAX then Err (NameTooLong name PSHMNAMLEN_MAX) else Ok ())"

definition ShmRegion_create ::
  "os_env \<Rightarrow> string \<Rightarrow> usize \<Rightarrow> shm_objects \<Rightarrow> ((shm_error, shm_region) result \<times> shm_objects) option" where
  "ShmRegion_create os name sz objs =
     (if sz = 0 then Some (Err (InvalidConfig ''region size must be non-zero''), objs)
      else case validate_name name of
        Inl e \<Rightarrow> Some (Err e, objs)
      | Inr _ \<Rightarrow>
        if CHR 0x00 \<in> set name then None
        else if objs name \<noteq> None then Some (Err (OpenError name EEXIST), objs)
        else case os_shm_open os of
          Some e \<Rightarrow> Some (Err (OpenError name e), objs)
        | None \<Rightarrow>
          (case os_ftruncate os of
            Some e \<Rightarrow> Some (Err (TruncateError e), objs)
          | None \<Rightarrow>
            (case os_mmap os of
              Some e \<Rightarrow> Some (Err (MmapError e), objs)
            | None \<Rightarrow> Some (Ok \<lparr>reg_name = name, reg_len = sz\<rparr>,
                            objs(name \<mapsto> replicate (unat sz) 0)))))"

definition ShmRegion_open ::
  "os_env \<Rightarrow> string \<Rightarrow> usize \<Rightarrow> shm_objects \<Rightarrow> (shm_error, shm_region) result option" where
  "ShmRegion_open os name sz objs =
     (if sz = 0 then Some (Err (InvalidConfig ''region size must be non-zero''))
      else case validate_name name of
        Inl e \<Rightarrow> Some (Err e)
      | Inr _ \<Rightarrow>
        if CHR 0x00 \<in> set name then None
        else case os_shm_open os of
          Some e \<Rightarrow> Some (Err (OpenError name e))
        | None \<Rightarrow>
          (case objs name of
            None \<Rightarrow> Some (Err (OpenError name ENOENT))
          | Some mem \<Rightarrow>
            (case os_fstat os of
              Some e \<Rightarrow> Some (Err (OpenError name e))
            | None \<Rightarrow>
              if length mem < unat sz then Some (Err (RegionTooSmall sz (word_of_nat (length mem))))
              else (case os_mmap os of
                  Some e \<Rightarrow> Some (Err (MmapError e))
                | None \<Rightarrow> Some (Ok \<lparr>reg_name = name, reg_len = sz\<rparr>)))))"

definition ShmRegion_unlink ::
  "os_env \<Rightarrow> string \<Rightarrow> shm_objects \<Rightarrow> ((shm_error, unit) result \<times> shm_objects) option" where
  "ShmRegion_unlink os name objs =
     (if CHR 0x00 \<in> set name then None
      else case os_unlink os of
        Some e \<Rightarrow> Some (Err (UnlinkError name e), objs)
      | None \<Rightarrow>
        (case objs name of
          None \<Rightarrow> Some (Err (UnlinkError name ENOENT), objs)
        | Some _ \<Rightarrow> Some (Ok (), objs(name := None))))"

section \<open>Bounds-checked access\<close>

text \<open>
  Slice lengths are natural numbers; \<^verbatim>\<open>offset.checked_add(length)\<close> is written out with its
  overflow test.
\<close>

definition bounds_check :: "shm_region \<Rightarrow> usize \<Rightarrow> nat \<Rightarrow> (shm_error, unit) result" where
  "bounds_check r off n =
     (if 2 ^ 64 \<le> unat off + n \<or> unat (reg_len r) < unat off + n
      then Err (OutOfBounds off (word_of_nat n) (reg_len r)) else Ok ())"

definition alignment_check :: "usize \<Rightarrow> usize \<Rightarrow> (shm_error, unit) result" where
  "alignment_check off alignment =
     (if off mod alignment \<noteq> 0 then Err (Unaligned off alignment) else Ok ())"

definition write_bytes :: "shm_region \<Rightarrow> usize \<Rightarrow> bytes \<Rightarrow> bytes \<Rightarrow> (shm_error, bytes) result" where
  "write_bytes r off d mem =
     bind_result (bounds_check r off (length d)) (\<lambda>_. Ok (write_at (unat off) d mem))"

definition read_bytes :: "shm_region \<Rightarrow> usize \<Rightarrow> nat \<Rightarrow> bytes \<Rightarrow> (shm_error, bytes) result" where
  "read_bytes r off n mem =
     bind_result (bounds_check r off n) (\<lambda>_. Ok (read_at (unat off) n mem))"

definition atomic_store_u64 :: "shm_region \<Rightarrow> usize \<Rightarrow> u64 \<Rightarrow> bytes \<Rightarrow> (shm_error, bytes) result" where
  "atomic_store_u64 r off v mem =
     bind_result (alignment_check off 8) (\<lambda>_.
     bind_result (bounds_check r off 8) (\<lambda>_.
     Ok (write_at (unat off) (u64_to_le_bytes v) mem)))"

definition atomic_load_u64 :: "shm_region \<Rightarrow> usize \<Rightarrow> bytes \<Rightarrow> (shm_error, u64) result" where
  "atomic_load_u64 r off mem =
     bind_result (alignment_check off 8) (\<lambda>_.
     bind_result (bounds_check r off 8) (\<lambda>_.
     Ok (u64_from_le_bytes (read_at (unat off) 8 mem))))"

definition write_magic :: "shm_region \<Rightarrow> bytes \<Rightarrow> (shm_error, bytes) result" where
  "write_magic r mem =
     bind_result (bounds_check r MAGIC_OFFSET (length MAGIC))
       (\<lambda>_. Ok (write_at (unat MAGIC_OFFSET) MAGIC mem))"

section \<open>Access lemmas\<close>

named_theorems region_simps \<open>bounds-checked region accesses that succeed\<close>

lemma bounds_check_ok [region_simps]:
  "unat off + n \<le> unat (reg_len r) \<Longrightarrow> bounds_check r off n = Ok ()"
  using unat_lt [of "reg_len r"] by (simp add: bounds_check_def)

lemma bounds_check_Err_iff:
  "bounds_check r off n = Err e \<longleftrightarrow>
     unat (reg_len r) < unat off + n \<and> e = OutOfBounds off (word_of_nat n) (reg_len r)"
  using unat_lt [of "reg_len r"] by (auto simp: bounds_check_def)

lemma write_bytes_ok [region_simps]:
  "unat off + length d \<le> unat (reg_len r) \<Longrightarrow> write_bytes r off d mem = Ok (write_at (unat off) d mem)"
  by (simp add: write_bytes_def bounds_check_ok)

lemma read_bytes_ok [region_simps]:
  "unat off + n \<le> unat (reg_len r) \<Longrightarrow> read_bytes r off n mem = Ok (read_at (unat off) n mem)"
  by (simp add: read_bytes_def bounds_check_ok)

lemma atomic_store_ok [region_simps]:
  "off mod 8 = 0 \<Longrightarrow> unat off + 8 \<le> unat (reg_len r) \<Longrightarrow>
   atomic_store_u64 r off v mem = Ok (write_at (unat off) (u64_to_le_bytes v) mem)"
  by (simp add: atomic_store_u64_def alignment_check_def bounds_check_ok)

lemma atomic_load_ok [region_simps]:
  "off mod 8 = 0 \<Longrightarrow> unat off + 8 \<le> unat (reg_len r) \<Longrightarrow>
   atomic_load_u64 r off mem = Ok (u64_from_le_bytes (read_at (unat off) 8 mem))"
  by (simp add: atomic_load_u64_def alignment_check_def bounds_check_ok)

lemma write_bytes_within:
  "write_bytes r off d mem = Ok mem' \<Longrightarrow>
   unat off + length d \<le> unat (reg_len r) \<and> mem' = write_at (unat off) d mem"
  by (auto simp: write_bytes_def bounds_check_def bind_result_eq_Inr split: if_splits)

lemma read_bytes_within:
  "read_bytes r off n mem = Ok d \<Longrightarrow>
   unat off + n \<le> unat (reg_len r) \<and> d = read_at (unat off) n mem"
  by (auto simp: read_bytes_def bounds_check_def bind_result_eq_Inr split: if_splits)

end
