(* ===== verification/Shm_Ring.thy ===== *)
theory Shm_Ring
  imports Shm_Region
begin

text \<open>
  The single-producer single-consumer ring, \<^verbatim>\<open>crates/rocket-surgeon-shm/src/ring.rs\<close>. The two ends
  keep their own cursor (\<^verbatim>\<open>maketic\<close>, \<^verbatim>\<open>nettics\<close>) and share the mapped bytes, which are passed
  explicitly. An operation that fails part-way returns its error together with the state it left.
\<close>

section \<open>The producer\<close>

record producer =
  p_region :: shm_region
  p_config :: ring_config
  p_maketic :: u64

text \<open>A sequence of fallible writes, stopping at the first error with what was written so far.\<close>

fun run_writes :: "(bytes \<Rightarrow> (shm_error, bytes) result) list \<Rightarrow> bytes \<Rightarrow> (shm_error, unit) result \<times> bytes" where
  "run_writes [] mem = (Ok (), mem)"
| "run_writes (w # ws) mem = (case w mem of Inl e \<Rightarrow> (Err e, mem) | Inr mem' \<Rightarrow> run_writes ws mem')"

definition producer_init_bytes :: "shm_region \<Rightarrow> ring_config \<Rightarrow> bytes \<Rightarrow> (shm_error, unit) result \<times> bytes" where
  "producer_init_bytes r c = run_writes
     [write_bytes r VERSION_OFFSET (u32_to_le_bytes VERSION),
      write_bytes r SLOT_COUNT_OFFSET (u32_to_le_bytes (backuptics c)),
      write_bytes r SLOT_SIZE_OFFSET (u64_to_le_bytes (slot_size c)),
      write_bytes r REGION_SIZE_OFFSET (u64_to_le_bytes (region_size c)),
      atomic_store_u64 r MAKETIC_OFFSET 0,
      atomic_store_u64 r NETTICS_OFFSET 0,
      write_magic r]"

definition DoomRingProducer_create ::
  "os_env \<Rightarrow> string \<Rightarrow> ring_config \<Rightarrow> shm_objects \<Rightarrow> ((shm_error, producer) result \<times> shm_objects) option" where
  "DoomRingProducer_create os name c objs =
     (case ShmRegion_create os name (region_size c) objs of
        None \<Rightarrow> None
      | Some (Inl e, objs) \<Rightarrow> Some (Err e, objs)
      | Some (Inr r, objs) \<Rightarrow>
          (case producer_init_bytes r c (unwrap_or (objs name) []) of
            (Inl e, mem) \<Rightarrow> Some (Err e, objs(name \<mapsto> mem))
          | (Inr _, mem) \<Rightarrow>
              Some (Ok \<lparr>p_region = r, p_config = c, p_maketic = 0\<rparr>, objs(name \<mapsto> mem))))"

definition publish ::
  "bytes \<Rightarrow> bytes \<Rightarrow> producer \<Rightarrow> bytes \<Rightarrow> ((shm_error, u64) result \<times> producer \<times> bytes) option" where
  "publish header d p mem =
     (if length header \<noteq> unat PROBE_FRAME_HEADER_SIZE then None
      else Some (
        if length d > unat (slot_data_capacity (p_config p)) then
          (Err (TensorTooLarge (word_of_nat (length d)) (slot_data_capacity (p_config p))), p, mem)
        else case atomic_load_u64 (p_region p) NETTICS_OFFSET mem of
          Inl e \<Rightarrow> (Err e, p, mem)
        | Inr nettics \<Rightarrow>
          if p_maketic p - nettics \<ge> ucast (backuptics (p_config p)) then
            (Err (RingFull (p_maketic p) nettics (backuptics (p_config p))), p, mem)
          else let so = slot_offset (p_config p) (p_maketic p) in
            case write_bytes (p_region p) so header mem of
              Inl e \<Rightarrow> (Err e, p, mem)
            | Inr mem1 \<Rightarrow>
              (case write_bytes (p_region p) (so + PROBE_FRAME_HEADER_SIZE) d mem1 of
                Inl e \<Rightarrow> (Err e, p, mem1)
              | Inr mem2 \<Rightarrow>
                let p' = p\<lparr>p_maketic := p_maketic p + 1\<rparr> in
                case atomic_store_u64 (p_region p) MAKETIC_OFFSET (p_maketic p') mem2 of
                  Inl e \<Rightarrow> (Err e, p', mem2)
                | Inr mem3 \<Rightarrow> (Ok (p_maketic p' - 1), p', mem3))))"

definition is_full :: "producer \<Rightarrow> bytes \<Rightarrow> bool" where
  "is_full p mem =
     (let nettics = (case atomic_load_u64 (p_region p) NETTICS_OFFSET mem of Inl _ \<Rightarrow> 0 | Inr n \<Rightarrow> n)
      in p_maketic p - nettics \<ge> ucast (backuptics (p_config p)))"

section \<open>The consumer\<close>

record consumer =
  c_region :: shm_region
  c_config :: ring_config
  c_nettics :: u64

definition consumer_read_config :: "shm_region \<Rightarrow> bytes \<Rightarrow> (shm_error, ring_config) result" where
  "consumer_read_config r mem =
     bind_result (read_bytes r 0 8 mem) (\<lambda>magic.
     if magic \<noteq> MAGIC then Err (BadMagic magic) else
     bind_result (read_bytes r VERSION_OFFSET 4 mem) (\<lambda>vb.
     let version = u32_from_le_bytes vb in
     if version \<noteq> VERSION then Err (BadVersion VERSION version) else
     bind_result (read_bytes r SLOT_COUNT_OFFSET 4 mem) (\<lambda>cb.
     bind_result (read_bytes r SLOT_SIZE_OFFSET 8 mem) (\<lambda>sb.
     RingConfig_new (u32_from_le_bytes cb) (u64_from_le_bytes sb)))))"

definition DoomRingConsumer_open ::
  "os_env \<Rightarrow> os_env \<Rightarrow> string \<Rightarrow> shm_objects \<Rightarrow> (shm_error, consumer) result option" where
  "DoomRingConsumer_open os os' name objs =
     (let mem = unwrap_or (objs name) [] in
      case ShmRegion_open os name CONTROL_SIZE objs of
        None \<Rightarrow> None
      | Some (Inl e) \<Rightarrow> Some (Err e)
      | Some (Inr probe_region) \<Rightarrow>
        (case consumer_read_config probe_region mem of
          Inl e \<Rightarrow> Some (Err e)
        | Inr c \<Rightarrow>
          (case ShmRegion_open os' name (region_size c) objs of
            None \<Rightarrow> None
          | Some (Inl e) \<Rightarrow> Some (Err e)
          | Some (Inr r) \<Rightarrow>
            Some (bind_result (atomic_load_u64 r NETTICS_OFFSET mem) (\<lambda>n.
              Ok \<lparr>c_region = r, c_config = c, c_nettics = n\<rparr>)))))"

type_synonym frame = "bytes \<times> bytes"

definition expected_generation :: "u64 \<Rightarrow> u32" where
  "expected_generation tic = ucast (tic AND 0xFFFFFFFF)"

definition try_consume :: "consumer \<Rightarrow> bytes \<Rightarrow> (shm_error, frame option) result" where
  "try_consume co mem =
     bind_result (atomic_load_u64 (c_region co) MAKETIC_OFFSET mem) (\<lambda>maketic.
     if maketic = c_nettics co then Ok None else
     let so = slot_offset (c_config co) (c_nettics co) in
     bind_result (read_bytes (c_region co) so (unat PROBE_FRAME_HEADER_SIZE) mem) (\<lambda>header.
     let sz = header_size header; cap = slot_data_capacity (c_config co) in
     if sz > cap then Err (ReadOutOfBounds PROBE_FRAME_HEADER_SIZE sz cap) else
     let generation = header_generation header; expected = expected_generation (c_nettics co) in
     if generation \<noteq> expected then Err (StaleSlot expected generation) else
     bind_result (read_bytes (c_region co) (so + PROBE_FRAME_HEADER_SIZE) (unat sz) mem) (\<lambda>d.
     Ok (Some (header, d)))))"

definition advance_by :: "u64 \<Rightarrow> consumer \<Rightarrow> bytes \<Rightarrow> (shm_error, bytes) result \<times> consumer" where
  "advance_by count co mem =
     (let co' = co\<lparr>c_nettics := c_nettics co + count\<rparr>
      in (atomic_store_u64 (c_region co') NETTICS_OFFSET (c_nettics co') mem, co'))"

definition advance :: "consumer \<Rightarrow> bytes \<Rightarrow> (shm_error, bytes) result \<times> consumer" where
  "advance co mem = advance_by 1 co mem"

definition read_slot_bytes :: "consumer \<Rightarrow> u64 \<Rightarrow> usize \<Rightarrow> nat \<Rightarrow> bytes \<Rightarrow> (shm_error, bytes) result" where
  "read_slot_bytes co slot_maketic offset_in_slot n mem =
     read_bytes (c_region co) (slot_offset (c_config co) slot_maketic + offset_in_slot) n mem"

definition read_absolute :: "consumer \<Rightarrow> usize \<Rightarrow> nat \<Rightarrow> bytes \<Rightarrow> (shm_error, bytes) result" where
  "read_absolute co off n mem = read_bytes (c_region co) off n mem"

section \<open>The ring as a queue of frames\<close>

text \<open>
  The state of a ring in use is the two ends and the shared bytes. Its contents are read off the
  slots between the two cursors.
\<close>

type_synonym ring = "producer \<times> consumer \<times> bytes"

definition frame_at :: "ring_config \<Rightarrow> bytes \<Rightarrow> u64 \<Rightarrow> frame" where
  "frame_at c mem tic =
     (let so = unat (slot_offset c tic); h = read_at so 128 mem
      in (h, read_at (so + 128) (unat (header_size h)) mem))"

definition ring_pending :: "ring \<Rightarrow> nat" where
  "ring_pending s = (case s of (p, co, mem) \<Rightarrow> unat (p_maketic p - c_nettics co))"

definition ring_contents :: "ring \<Rightarrow> frame list" where
  "ring_contents s = (case s of (p, co, mem) \<Rightarrow>
     map (\<lambda>i. frame_at (p_config p) mem (c_nettics co + word_of_nat i)) [0..<ring_pending s])"

definition ring_capacity :: "ring \<Rightarrow> nat" where
  "ring_capacity s = (case s of (p, co, mem) \<Rightarrow> slots (p_config p))"

text \<open>A frame that the consumer will accept at cursor \<open>tic\<close>.\<close>

definition frame_ok :: "ring_config \<Rightarrow> u64 \<Rightarrow> frame \<Rightarrow> bool" where
  "frame_ok c tic f \<longleftrightarrow> length (fst f) = 128 \<and> unat (header_size (fst f)) = length (snd f)
     \<and> length (snd f) \<le> slot_bytes c - 128 \<and> header_generation (fst f) = expected_generation tic"

definition cursors_ok :: "ring \<Rightarrow> bool" where
  "cursors_ok s \<longleftrightarrow> (case s of (p, co, mem) \<Rightarrow>
     config_ok (p_config p) \<and> c_config co = p_config p
     \<and> reg_len (p_region p) = region_size (p_config p) \<and> reg_len (c_region co) = region_size (p_config p)
     \<and> length mem = unat (region_size (p_config p))
     \<and> u64_from_le_bytes (read_at 128 8 mem) = p_maketic p
     \<and> u64_from_le_bytes (read_at 256 8 mem) = c_nettics co
     \<and> ring_pending s \<le> slots (p_config p))"

definition ring_inv :: "ring \<Rightarrow> bool" where
  "ring_inv s \<longleftrightarrow> cursors_ok s \<and> (case s of (p, co, mem) \<Rightarrow>
     \<forall>i < ring_pending s. frame_ok (p_config p) (c_nettics co + word_of_nat i)
       (frame_at (p_config p) mem (c_nettics co + word_of_nat i)))"

section \<open>Cursor arithmetic\<close>

lemma ring_index_add:
  assumes "config_ok c"
  shows "unat (n + word_of_nat i :: u64) mod slots c = (unat n + i) mod slots c"
proof -
  obtain k where k: "slots c = 2 ^ k" using assms by (auto simp: config_ok_def)
  have "slots c < 2 ^ 32" using unat_bounds(3) [of "backuptics c"] by simp
  with k have "(2::nat) ^ k < 2 ^ 32" by simp
  then have "k < 32" by (rule power_less_imp_less_exp [rotated]) simp
  then have "k \<le> 64" by simp
  then have dvd: "slots c dvd 2 ^ 64" unfolding k by (rule le_imp_power_dvd)
  have "unat (n + word_of_nat i :: u64) = (unat n + i) mod 2 ^ 64"
    by (simp add: unat_word_ariths unat_of_nat mod_simps)
  then show ?thesis using dvd by (simp add: mod_mod_cancel)
qed

lemma ring_index_distinct:
  assumes c: "config_ok c" and "i < slots c" "j < slots c" "i \<noteq> j"
  shows "unat (n + word_of_nat i :: u64) mod slots c \<noteq> unat (n + word_of_nat j :: u64) mod slots c"
proof -
  have aux: False if "a < b" "b < slots c" "(unat n + a) mod slots c = (unat n + b) mod slots c" for a b
  proof -
    have "slots c dvd (unat n + b) - (unat n + a)"
      using that mod_eq_dvd_iff_nat [where m = "unat n + b" and n = "unat n + a" and q = "slots c"]
      by simp
    then have "slots c dvd b - a" by simp
    with that have "slots c \<le> b - a" by (intro dvd_imp_le) auto
    with that show False by linarith
  qed
  show ?thesis
    using assms aux [of i j] aux [of j i]
    by (cases i j rule: linorder_cases) (auto simp: ring_index_add [OF c] dest: sym)
qed

lemma pending_word:
  assumes "cursors_ok (p, co, mem)"
  shows "p_maketic p = c_nettics co + word_of_nat (ring_pending (p, co, mem))"
  by (simp add: ring_pending_def)

lemma pending_bound: "cursors_ok (p, co, mem) \<Longrightarrow> ring_pending (p, co, mem) \<le> slots (p_config p)"
  by (simp add: cursors_ok_def)

lemma slots_bound: "slots c < 4294967296"
  by (rule unat_bounds(3))

lemma region_min: "config_ok c \<Longrightarrow> 4096 + slot_bytes c \<le> unat (region_size c)"
  using config_okD(1) [of c] by (simp add: unat_region_size Suc_le_eq)

lemma slot_offset_ge: "config_ok c \<Longrightarrow> 4096 \<le> unat (slot_offset c tic)"
  by (simp add: unat_slot_offset)

lemma unat_slot_data_offset:
  assumes "config_ok c"
  shows "unat (slot_offset c tic + PROBE_FRAME_HEADER_SIZE) = unat (slot_offset c tic) + 128"
proof -
  have "unat (slot_offset c tic) + 128 \<le> unat (region_size c)"
    using slot_within_region [OF assms, of tic] config_okD(2) [OF assms] by linarith
  then show ?thesis
    using unat_lt [of "region_size c"] unat_add_no_wrap [of "slot_offset c tic" PROBE_FRAME_HEADER_SIZE]
    by (simp add: PROBE_FRAME_HEADER_SIZE_def)
qed

section \<open>Frames survive writes elsewhere\<close>

lemma frame_at_write_control:
  assumes c: "config_ok c" and len: "length mem = unat (region_size c)"
    and off: "off + length d \<le> 4096" and ok: "frame_ok c tic (frame_at c mem tic)"
  shows "frame_at c (write_at off d mem) tic = frame_at c mem tic"
proof -
  let ?so = "unat (slot_offset c tic)"
  note bounds = slot_offset_ge [OF c, of tic] slot_within_region [OF c, of tic] config_okD(2) [OF c] len off
  have h: "read_at ?so 128 (write_at off d mem) = read_at ?so 128 mem"
    using bounds by (intro read_write_disjoint) auto
  let ?n = "unat (header_size (read_at ?so 128 mem))"
  have "?n \<le> slot_bytes c - 128" using ok by (auto simp: frame_ok_def frame_at_def Let_def)
  then have "read_at (?so + 128) ?n (write_at off d mem) = read_at (?so + 128) ?n mem"
    using bounds by (intro read_write_disjoint) auto
  with h show ?thesis by (simp add: frame_at_def Let_def)
qed

lemma frame_at_write_slot:
  assumes c: "config_ok c" and len: "length mem = unat (region_size c)"
    and ne: "unat tic mod slots c \<noteq> unat tic' mod slots c"
    and off: "unat (slot_offset c tic') \<le> off" "off + length d \<le> unat (slot_offset c tic') + slot_bytes c"
    and ok: "frame_ok c tic (frame_at c mem tic)"
  shows "frame_at c (write_at off d mem) tic = frame_at c mem tic"
proof -
  let ?so = "unat (slot_offset c tic)"
  note bounds = slot_within_region [OF c, of tic] slot_within_region [OF c, of tic'] config_okD(2) [OF c]
    len off slots_disjoint [OF c ne]
  have h: "read_at ?so 128 (write_at off d mem) = read_at ?so 128 mem"
    using bounds by (intro read_write_disjoint) auto
  let ?n = "unat (header_size (read_at ?so 128 mem))"
  have "?n \<le> slot_bytes c - 128" using ok by (auto simp: frame_ok_def frame_at_def Let_def)
  then have "read_at (?so + 128) ?n (write_at off d mem) = read_at (?so + 128) ?n mem"
    using bounds by (intro read_write_disjoint) auto
  with h show ?thesis by (simp add: frame_at_def Let_def)
qed

section \<open>Publishing\<close>

text \<open>The bytes after a successful publish.\<close>

definition published :: "ring_config \<Rightarrow> u64 \<Rightarrow> frame \<Rightarrow> bytes \<Rightarrow> bytes" where
  "published c tic f mem =
     (let so = unat (slot_offset c tic)
      in write_at 128 (u64_to_le_bytes (tic + 1)) (write_at (so + 128) (snd f) (write_at so (fst f) mem)))"

lemma slot_write_bounds:
  assumes c: "config_ok c" and len: "length mem = unat (region_size c)" and f: "frame_ok c tic f"
  defines "so \<equiv> unat (slot_offset c tic)"
  shows "so + length (fst f) \<le> length mem" "so + 128 + length (snd f) \<le> length mem"
    "so + 128 + length (snd f) \<le> so + slot_bytes c" "4096 \<le> so"
  using slot_within_region [OF c, of tic] config_okD(2) [OF c] len f slot_offset_ge [OF c, of tic]
  by (auto simp: so_def frame_ok_def)

lemma length_published:
  assumes "config_ok c" "length mem = unat (region_size c)" "frame_ok c tic f"
  shows "length (published c tic f mem) = length mem"
  using slot_write_bounds [OF assms] assms(2) region_min [OF assms(1)]
  by (simp add: published_def Let_def)

lemma publish_eq:
  assumes inv: "cursors_ok (p, co, mem)" and space: "ring_pending (p, co, mem) < slots (p_config p)"
    and f: "frame_ok (p_config p) (p_maketic p) f"
  shows "publish (fst f) (snd f) p mem =
    Some (Ok (p_maketic p), p\<lparr>p_maketic := p_maketic p + 1\<rparr>, published (p_config p) (p_maketic p) f mem)"
proof -
  let ?c = "p_config p" and ?tic = "p_maketic p"
  have c: "config_ok ?c" and len: "length mem = unat (region_size ?c)"
    and rl: "reg_len (p_region p) = region_size ?c"
    and net: "u64_from_le_bytes (read_at 256 8 mem) = c_nettics co"
    using inv by (auto simp: cursors_ok_def)
  note sb = slot_write_bounds [OF c len f]
  have room: "\<not> ucast (backuptics ?c) \<le> ?tic - c_nettics co"
    using space by (simp add: word_le_nat_alt ring_pending_def not_le)
  have min: "4096 \<le> unat (region_size ?c)" using region_min [OF c] by simp
  have load: "atomic_load_u64 (p_region p) NETTICS_OFFSET mem = Ok (c_nettics co)"
    using min net by (subst atomic_load_ok) (simp_all add: NETTICS_OFFSET_def rl)
  have w1: "write_bytes (p_region p) (slot_offset ?c ?tic) (fst f) mem =
      Ok (write_at (unat (slot_offset ?c ?tic)) (fst f) mem)"
    using sb(1) len by (subst write_bytes_ok) (simp_all add: rl)
  have w2: "write_bytes (p_region p) (slot_offset ?c ?tic + PROBE_FRAME_HEADER_SIZE) (snd f) m =
      Ok (write_at (unat (slot_offset ?c ?tic) + 128) (snd f) m)" for m
    using sb(2) len by (subst write_bytes_ok) (simp_all add: rl unat_slot_data_offset [OF c])
  have w3: "atomic_store_u64 (p_region p) MAKETIC_OFFSET v m = Ok (write_at 128 (u64_to_le_bytes v) m)"
    for v m using min by (subst atomic_store_ok) (simp_all add: MAKETIC_OFFSET_def rl)
  have cap: "length (snd f) \<le> unat (slot_data_capacity ?c)"
    using f by (simp add: frame_ok_def unat_slot_data_capacity [OF c])
  have "length (fst f) = 128" using f by (simp add: frame_ok_def)
  with cap room show ?thesis
    by (simp add: publish_def load w1 w2 w3 Let_def published_def)
qed

lemma frame_at_published_same:
  assumes c: "config_ok c" and len: "length mem = unat (region_size c)" and f: "frame_ok c tic f"
  shows "frame_at c (published c tic f mem) tic = f"
proof -
  let ?so = "unat (slot_offset c tic)"
  note sb = slot_write_bounds [OF c len f]
  have hl: "length (fst f) = 128" and sz: "unat (header_size (fst f)) = length (snd f)"
    using f by (auto simp: frame_ok_def)
  let ?m1 = "write_at ?so (fst f) mem"
  let ?m2 = "write_at (?so + 128) (snd f) ?m1"
  have l: "length ?m1 = length mem" "length ?m2 = length mem" using sb hl by simp_all
  have "read_at ?so 128 (published c tic f mem) = read_at ?so 128 ?m2"
    unfolding published_def Let_def using sb hl l by (intro read_write_disjoint) auto
  also have "\<dots> = read_at ?so 128 ?m1"
    using sb hl l by (intro read_write_disjoint) auto
  also have "\<dots> = fst f" using sb hl by (intro read_write_same) auto
  finally have h: "read_at ?so 128 (published c tic f mem) = fst f" .
  have "read_at (?so + 128) (length (snd f)) (published c tic f mem)
      = read_at (?so + 128) (length (snd f)) ?m2"
    unfolding published_def Let_def using sb hl l by (intro read_write_disjoint) auto
  also have "\<dots> = snd f" using sb hl l by (intro read_write_same) auto
  finally show ?thesis using h sz by (simp add: frame_at_def Let_def)
qed

lemma frame_at_published_other:
  assumes c: "config_ok c" and len: "length mem = unat (region_size c)" and f: "frame_ok c tic' f"
    and ne: "unat tic mod slots c \<noteq> unat tic' mod slots c" and ok: "frame_ok c tic (frame_at c mem tic)"
  shows "frame_at c (published c tic' f mem) tic = frame_at c mem tic"
proof -
  let ?so = "unat (slot_offset c tic')"
  note sb = slot_write_bounds [OF c len f]
  have hl: "length (fst f) = 128" using f by (simp add: frame_ok_def)
  let ?m1 = "write_at ?so (fst f) mem"
  let ?m2 = "write_at (?so + 128) (snd f) ?m1"
  have l: "length ?m1 = length mem" "length ?m2 = length mem" using sb hl by simp_all
  have 1: "frame_at c ?m1 tic = frame_at c mem tic"
    using sb hl config_okD(2) [OF c] by (intro frame_at_write_slot [OF c len ne _ _ ok]) auto
  have 2: "frame_at c ?m2 tic = frame_at c ?m1 tic"
    using sb l len ok by (intro frame_at_write_slot [OF c _ ne]) (auto simp: 1)
  have "frame_at c (published c tic' f mem) tic = frame_at c ?m2 tic"
    unfolding published_def Let_def using l len ok
    by (intro frame_at_write_control [OF c]) (auto simp: 1 2)
  with 1 2 show ?thesis by simp
qed

lemma published_cursor:
  assumes c: "config_ok c" and len: "length mem = unat (region_size c)" and f: "frame_ok c tic f"
  shows "read_at 128 8 (published c tic f mem) = u64_to_le_bytes (tic + 1)"
    and "read_at 256 8 (published c tic f mem) = read_at 256 8 mem"
proof -
  let ?so = "unat (slot_offset c tic)"
  note sb = slot_write_bounds [OF c len f]
  have hl: "length (fst f) = 128" using f by (simp add: frame_ok_def)
  let ?m1 = "write_at ?so (fst f) mem"
  let ?m2 = "write_at (?so + 128) (snd f) ?m1"
  have l: "length ?m1 = length mem" "length ?m2 = length mem" using sb hl by simp_all
  have min: "4096 \<le> length mem" using region_min [OF c] len by simp
  show "read_at 128 8 (published c tic f mem) = u64_to_le_bytes (tic + 1)"
    unfolding published_def Let_def using l min by (intro read_write_same) auto
  have "read_at 256 8 (published c tic f mem) = read_at 256 8 ?m2"
    unfolding published_def Let_def using l min by (intro read_write_disjoint) auto
  also have "\<dots> = read_at 256 8 ?m1" using sb l min by (intro read_write_disjoint) auto
  also have "\<dots> = read_at 256 8 mem" using sb hl min by (intro read_write_disjoint) auto
  finally show "read_at 256 8 (published c tic f mem) = read_at 256 8 mem" .
qed

lemma ring_contents_nth:
  "i < ring_pending (p, co, mem) \<Longrightarrow>
   ring_contents (p, co, mem) ! i = frame_at (p_config p) mem (c_nettics co + word_of_nat i)"
  by (simp add: ring_contents_def)

lemma length_ring_contents [simp]: "length (ring_contents s) = ring_pending s"
  by (cases s) (simp add: ring_contents_def)

lemma ring_pending_Suc:
  assumes "cursors_ok (p, co, mem)" and "ring_pending (p, co, mem) < slots (p_config p)"
  shows "ring_pending (p\<lparr>p_maketic := p_maketic p + 1\<rparr>, co, mem') = Suc (ring_pending (p, co, mem))"
proof -
  let ?d = "p_maketic p - c_nettics co"
  have "unat ?d + 1 < 2 ^ 64"
    using assms slots_bound [of "p_config p"] by (simp add: ring_pending_def)
  then have "unat (?d + 1) = unat ?d + 1" using unat_add_no_wrap [of ?d 1] by simp
  then have "unat (p_maketic p + 1 - c_nettics co) = Suc (unat ?d)"
    by (simp only: diff_add_eq Suc_eq_plus1)
  then show ?thesis by (simp add: ring_pending_def)
qed

lemma publish_ring:
  assumes inv: "ring_inv (p, co, mem)" and space: "ring_pending (p, co, mem) < slots (p_config p)"
    and f: "frame_ok (p_config p) (p_maketic p) f"
  defines "s' \<equiv> (p\<lparr>p_maketic := p_maketic p + 1\<rparr>, co, published (p_config p) (p_maketic p) f mem)"
  shows "ring_inv s'" and "ring_contents s' = ring_contents (p, co, mem) @ [f]"
proof -
  let ?c = "p_config p" and ?tic = "p_maketic p" and ?net = "c_nettics co"
  let ?n = "ring_pending (p, co, mem)" and ?mem = "published ?c ?tic f mem"
  have cur: "cursors_ok (p, co, mem)" using inv by (simp add: ring_inv_def)
  have c: "config_ok ?c" and len: "length mem = unat (region_size ?c)"
    and net: "u64_from_le_bytes (read_at 256 8 mem) = ?net"
    using cur by (auto simp: cursors_ok_def)
  have ok: "frame_ok ?c (?net + word_of_nat i) (frame_at ?c mem (?net + word_of_nat i))" if "i < ?n" for i
    using inv that by (auto simp: ring_inv_def)
  have tic: "?tic = ?net + word_of_nat ?n" by (rule pending_word [OF cur])
  have n': "ring_pending s' = Suc ?n"
    unfolding s'_def by (rule ring_pending_Suc [OF cur space])
  have old: "frame_at ?c ?mem (?net + word_of_nat i) = frame_at ?c mem (?net + word_of_nat i)"
    if "i < ?n" for i
  proof (rule frame_at_published_other [OF c len f _ ok [OF that]])
    have "i < slots ?c" "i \<noteq> ?n" using that space by auto
    then show "unat (?net + word_of_nat i) mod slots ?c \<noteq> unat ?tic mod slots ?c"
      unfolding tic by (intro ring_index_distinct [OF c _ space]) auto
  qed
  have new: "frame_at ?c ?mem (?net + word_of_nat ?n) = f"
    using frame_at_published_same [OF c len f] tic by simp
  have "cursors_ok s'"
    using cur space n' length_published [OF c len f] published_cursor [OF c len f]
    by (simp add: cursors_ok_def s'_def)
  moreover have "frame_ok ?c (?net + word_of_nat i) (frame_at ?c ?mem (?net + word_of_nat i))"
    if "i < Suc ?n" for i
    using that old [of i] ok [of i] new f tic by (cases "i = ?n") auto
  ultimately show "ring_inv s'" using n' by (simp add: ring_inv_def s'_def)
  have "ring_contents s' = map (\<lambda>i. frame_at ?c ?mem (?net + word_of_nat i)) [0..<Suc ?n]"
    using n' by (simp add: ring_contents_def s'_def)
  also have "\<dots> = ring_contents (p, co, mem) @ [f]"
    using old new by (simp add: ring_contents_def)
  finally show "ring_contents s' = ring_contents (p, co, mem) @ [f]" .
qed

lemma publish_full:
  assumes inv: "cursors_ok (p, co, mem)" and full: "ring_pending (p, co, mem) = slots (p_config p)"
    and hl: "length h = 128" and cap: "length d \<le> slot_bytes (p_config p) - 128"
  shows "publish h d p mem =
    Some (Err (RingFull (p_maketic p) (c_nettics co) (backuptics (p_config p))), p, mem)"
proof -
  let ?c = "p_config p"
  have c: "config_ok ?c" and rl: "reg_len (p_region p) = region_size ?c"
    and net: "u64_from_le_bytes (read_at 256 8 mem) = c_nettics co"
    using inv by (auto simp: cursors_ok_def)
  have "4096 \<le> unat (region_size ?c)" using region_min [OF c] by simp
  then have "atomic_load_u64 (p_region p) NETTICS_OFFSET mem = Ok (c_nettics co)"
    using net by (subst atomic_load_ok) (simp_all add: NETTICS_OFFSET_def rl)
  moreover have "ucast (backuptics ?c) \<le> p_maketic p - c_nettics co"
    using full by (simp add: word_le_nat_alt ring_pending_def)
  ultimately show ?thesis
    using hl cap by (simp add: publish_def unat_slot_data_capacity [OF c])
qed

section \<open>Consuming\<close>

lemma try_consume_empty:
  assumes inv: "cursors_ok (p, co, mem)" and "ring_pending (p, co, mem) = 0"
  shows "try_consume co mem = Ok None"
proof -
  have c: "config_ok (p_config p)" and rl: "reg_len (c_region co) = region_size (p_config p)"
    and mk: "u64_from_le_bytes (read_at 128 8 mem) = p_maketic p"
    using inv by (auto simp: cursors_ok_def)
  have "p_maketic p = c_nettics co" using pending_word [OF inv] assms(2) by simp
  moreover have "atomic_load_u64 (c_region co) MAKETIC_OFFSET mem = Ok (p_maketic p)"
    using region_min [OF c] mk by (subst atomic_load_ok) (simp_all add: MAKETIC_OFFSET_def rl)
  ultimately show ?thesis by (simp add: try_consume_def)
qed

lemma try_consume_first:
  assumes inv: "ring_inv (p, co, mem)" and ne: "0 < ring_pending (p, co, mem)"
  shows "try_consume co mem = Ok (Some (frame_at (p_config p) mem (c_nettics co)))"
proof -
  let ?c = "p_config p" and ?net = "c_nettics co"
  have cur: "cursors_ok (p, co, mem)" using inv by (simp add: ring_inv_def)
  have c: "config_ok ?c" and rl: "reg_len (c_region co) = region_size ?c" and cc: "c_config co = ?c"
    and mk: "u64_from_le_bytes (read_at 128 8 mem) = p_maketic p"
    using cur by (auto simp: cursors_ok_def)
  have ok: "frame_ok ?c ?net (frame_at ?c mem ?net)"
    using inv ne by (auto simp: ring_inv_def dest: spec [of _ 0])
  let ?so = "unat (slot_offset ?c ?net)"
  let ?h = "read_at ?so 128 mem"
  have sz: "unat (header_size ?h) \<le> slot_bytes ?c - 128" and gen: "header_generation ?h = expected_generation ?net"
    using ok by (auto simp: frame_ok_def frame_at_def Let_def)
  have in_slot: "?so + slot_bytes ?c \<le> unat (region_size ?c)" "128 \<le> slot_bytes ?c"
    using slot_within_region [OF c] config_okD(2) [OF c] by auto
  have neq: "p_maketic p \<noteq> ?net" using ne by (auto simp: ring_pending_def)
  have load: "atomic_load_u64 (c_region co) MAKETIC_OFFSET mem = Ok (p_maketic p)"
    using region_min [OF c] mk by (subst atomic_load_ok) (simp_all add: MAKETIC_OFFSET_def rl)
  have r1: "read_bytes (c_region co) (slot_offset ?c ?net) 128 mem = Ok ?h"
    using in_slot by (subst read_bytes_ok) (simp_all add: rl)
  have r2: "read_bytes (c_region co) (slot_offset ?c ?net + PROBE_FRAME_HEADER_SIZE)
      (unat (header_size ?h)) mem = Ok (read_at (?so + 128) (unat (header_size ?h)) mem)"
    using in_slot sz by (subst read_bytes_ok) (simp_all add: rl unat_slot_data_offset [OF c])
  have "\<not> header_size ?h > slot_data_capacity ?c"
    using sz by (simp add: word_less_nat_alt unat_slot_data_capacity [OF c])
  with neq gen show ?thesis
    by (simp add: try_consume_def load cc r1 r2 Let_def frame_at_def)
qed

definition advanced :: "consumer \<Rightarrow> nat \<Rightarrow> consumer" where
  "advanced co k = co\<lparr>c_nettics := c_nettics co + word_of_nat k\<rparr>"

definition advanced_bytes :: "consumer \<Rightarrow> nat \<Rightarrow> bytes \<Rightarrow> bytes" where
  "advanced_bytes co k mem = write_at 256 (u64_to_le_bytes (c_nettics co + word_of_nat k)) mem"

lemma advance_by_eq:
  assumes "cursors_ok (p, co, mem)"
  shows "advance_by (word_of_nat k) co mem = (Ok (advanced_bytes co k mem), advanced co k)"
proof -
  have c: "config_ok (p_config p)" and rl: "reg_len (c_region co) = region_size (p_config p)"
    using assms by (auto simp: cursors_ok_def)
  show ?thesis
    using region_min [OF c]
    by (simp add: advance_by_def Let_def advanced_def advanced_bytes_def atomic_store_ok
        NETTICS_OFFSET_def rl)
qed

lemma ring_pending_advanced:
  assumes "k \<le> ring_pending (p, co, mem)"
  shows "ring_pending (p, advanced co k, mem') = ring_pending (p, co, mem) - k"
proof -
  let ?d = "p_maketic p - c_nettics co"
  have k: "k \<le> unat ?d" using assms by (simp add: ring_pending_def)
  then have uk: "unat (word_of_nat k :: u64) = k"
    using unat_lt [of ?d] by (simp add: unat_of_nat)
  have "unat (?d - word_of_nat k) = unat ?d - k"
    using k uk by (subst unat_sub) (simp_all add: word_le_nat_alt)
  then have "unat (p_maketic p - (c_nettics co + word_of_nat k)) = unat ?d - k"
    by (simp only: diff_diff_eq)
  then show ?thesis by (simp add: ring_pending_def advanced_def)
qed

lemma advance_ring:
  assumes inv: "ring_inv (p, co, mem)" and k: "k \<le> ring_pending (p, co, mem)"
  defines "s' \<equiv> (p, advanced co k, advanced_bytes co k mem)"
  shows "ring_inv s'" and "ring_contents s' = drop k (ring_contents (p, co, mem))"
proof -
  let ?c = "p_config p" and ?net = "c_nettics co"
  let ?n = "ring_pending (p, co, mem)" and ?mem = "advanced_bytes co k mem"
  have cur: "cursors_ok (p, co, mem)" using inv by (simp add: ring_inv_def)
  have c: "config_ok ?c" and len: "length mem = unat (region_size ?c)"
    using cur by (auto simp: cursors_ok_def)
  have min: "4096 \<le> length mem" using region_min [OF c] len by simp
  have n': "ring_pending s' = ?n - k" unfolding s'_def by (rule ring_pending_advanced [OF k])
  have ok: "frame_ok ?c (?net + word_of_nat i) (frame_at ?c mem (?net + word_of_nat i))" if "i < ?n" for i
    using inv that by (auto simp: ring_inv_def)
  have same: "frame_at ?c ?mem (?net + word_of_nat i) = frame_at ?c mem (?net + word_of_nat i)"
    if "i < ?n" for i
    unfolding advanced_bytes_def by (rule frame_at_write_control [OF c len _ ok [OF that]]) simp
  have shift: "c_nettics (advanced co k) + word_of_nat i = ?net + word_of_nat (k + i)" for i
    by (simp add: advanced_def)
  have r: "read_at 128 8 ?mem = read_at 128 8 mem"
      "read_at 256 8 ?mem = u64_to_le_bytes (?net + word_of_nat k)" "length ?mem = length mem"
    using min by (simp_all add: advanced_bytes_def read_write_disjoint read_write_same)
  have "cursors_ok s'"
    using cur n' r by (auto simp: cursors_ok_def s'_def advanced_def)
  moreover have "frame_ok ?c (c_nettics (advanced co k) + word_of_nat i)
      (frame_at ?c ?mem (c_nettics (advanced co k) + word_of_nat i))" if "i < ?n - k" for i
    unfolding shift using that same [of "k + i"] ok [of "k + i"] by simp
  ultimately show "ring_inv s'" using n' by (simp add: ring_inv_def s'_def)
  show "ring_contents s' = drop k (ring_contents (p, co, mem))"
  proof (rule nth_equalityI)
    show "length (ring_contents s') = length (drop k (ring_contents (p, co, mem)))"
      using n' by simp
  next
    fix i assume "i < length (ring_contents s')"
    then have i: "k + i < ?n" "i < ring_pending s'" using n' by auto
    have "ring_contents s' ! i = frame_at ?c ?mem (c_nettics (advanced co k) + word_of_nat i)"
      using i(2) unfolding s'_def by (rule ring_contents_nth)
    also have "\<dots> = frame_at ?c mem (?net + word_of_nat (k + i))"
      unfolding shift using same [OF i(1)] by simp
    finally show "ring_contents s' ! i = drop k (ring_contents (p, co, mem)) ! i"
      using i(1) by (simp add: ring_contents_nth)
  qed
qed

end
