(* ===== verification/Probe_Frame.thy ===== *)
theory Probe_Frame
  imports Shm_Config
begin

text \<open>
  The parsing side of the frame header, \<^verbatim>\<open>crates/rocket-surgeon-python/src/probe_frame.rs\<close>, and the
  byte layout both serializers produce. The two crates declare the layout independently; the
  lemmas of this theory show that they agree and that parsing inverts serializing. The fixed-size
  array \<^verbatim>\<open>[u32; 8]\<close> is a list with the side condition that its length is 8.
\<close>

definition HEADER_SIZE :: nat where "HEADER_SIZE = 128"
definition MAX_DIMS :: nat where "MAX_DIMS = 8"
definition OFFSET_RANK :: nat where "OFFSET_RANK = 0"
definition OFFSET_LAYER :: nat where "OFFSET_LAYER = 4"
definition OFFSET_COMP_ID :: nat where "OFFSET_COMP_ID = 8"
definition OFFSET_DTYPE :: nat where "OFFSET_DTYPE = 10"
definition OFFSET_NDIM :: nat where "OFFSET_NDIM = 11"
definition OFFSET_SHAPE :: nat where "OFFSET_SHAPE = 12"
definition OFFSET_TICK_ID :: nat where "OFFSET_TICK_ID = 48"
definition OFFSET_DATA_OFF :: nat where "OFFSET_DATA_OFF = 56"
definition OFFSET_SIZE :: nat where "OFFSET_SIZE = 64"
definition OFFSET_FLAGS :: nat where "OFFSET_FLAGS = 72"
definition OFFSET_GENERATION :: nat where "OFFSET_GENERATION = 76"

lemmas header_defs = HEADER_SIZE_def MAX_DIMS_def OFFSET_RANK_def OFFSET_LAYER_def
  OFFSET_COMP_ID_def OFFSET_DTYPE_def OFFSET_NDIM_def OFFSET_SHAPE_def OFFSET_TICK_ID_def
  OFFSET_DATA_OFF_def OFFSET_SIZE_def OFFSET_FLAGS_def OFFSET_GENERATION_def

record ProbeFrameHeader =
  pf_rank :: u32
  pf_layer :: u32
  pf_comp_id :: u16
  pf_dtype :: u8
  pf_ndim :: u8
  pf_shape :: "u32 list"
  pf_tick_id :: u64
  pf_data_off :: u64
  pf_frame_size :: u64
  pf_flags :: u32
  pf_generation :: u32

datatype ProbeFrameError = BufferTooSmall nat nat

definition ProbeFrameHeader_serialize :: "ProbeFrameHeader \<Rightarrow> bytes" where
  "ProbeFrameHeader_serialize h =
     (let buf = replicate HEADER_SIZE 0;
          buf = write_at OFFSET_RANK (u32_to_le_bytes (pf_rank h)) buf;
          buf = write_at OFFSET_LAYER (u32_to_le_bytes (pf_layer h)) buf;
          buf = write_at OFFSET_COMP_ID (u16_to_le_bytes (pf_comp_id h)) buf;
          buf = buf[OFFSET_DTYPE := pf_dtype h];
          buf = buf[OFFSET_NDIM := pf_ndim h];
          buf = write_words u32_to_le_bytes 4 OFFSET_SHAPE (pf_shape h) buf;
          buf = write_at OFFSET_TICK_ID (u64_to_le_bytes (pf_tick_id h)) buf;
          buf = write_at OFFSET_DATA_OFF (u64_to_le_bytes (pf_data_off h)) buf;
          buf = write_at OFFSET_SIZE (u64_to_le_bytes (pf_frame_size h)) buf;
          buf = write_at OFFSET_FLAGS (u32_to_le_bytes (pf_flags h)) buf;
          buf = write_at OFFSET_GENERATION (u32_to_le_bytes (pf_generation h)) buf
      in buf)"

definition ProbeFrameHeader_parse :: "bytes \<Rightarrow> (ProbeFrameError, ProbeFrameHeader) result" where
  "ProbeFrameHeader_parse d =
     (if length d < HEADER_SIZE then Err (BufferTooSmall HEADER_SIZE (length d))
      else Ok \<lparr>pf_rank = u32_from_le_bytes (read_at OFFSET_RANK 4 d),
               pf_layer = u32_from_le_bytes (read_at OFFSET_LAYER 4 d),
               pf_comp_id = u16_from_le_bytes (read_at OFFSET_COMP_ID 2 d),
               pf_dtype = d ! OFFSET_DTYPE,
               pf_ndim = d ! OFFSET_NDIM,
               pf_shape = read_words u32_from_le_bytes 4 OFFSET_SHAPE MAX_DIMS d,
               pf_tick_id = u64_from_le_bytes (read_at OFFSET_TICK_ID 8 d),
               pf_data_off = u64_from_le_bytes (read_at OFFSET_DATA_OFF 8 d),
               pf_frame_size = u64_from_le_bytes (read_at OFFSET_SIZE 8 d),
               pf_flags = u32_from_le_bytes (read_at OFFSET_FLAGS 4 d),
               pf_generation = u32_from_le_bytes (read_at OFFSET_GENERATION 4 d)\<rparr>)"

section \<open>The layout\<close>

text \<open>
  The header as one concatenation of its fields: \<open>header_front\<close> up to the shape, the shape array,
  four bytes of padding, \<open>header_back\<close> and 48 reserved bytes.
\<close>

definition header_front :: "u32 \<Rightarrow> u32 \<Rightarrow> u16 \<Rightarrow> u8 \<Rightarrow> u8 \<Rightarrow> bytes" where
  "header_front rk ly ci dt nd = u32_to_le_bytes rk @ u32_to_le_bytes ly @ u16_to_le_bytes ci @ [dt] @ [nd]"

definition header_back :: "u64 \<Rightarrow> u64 \<Rightarrow> u64 \<Rightarrow> u32 \<Rightarrow> u32 \<Rightarrow> bytes" where
  "header_back tk off sz fl gen =
     u64_to_le_bytes tk @ u64_to_le_bytes off @ u64_to_le_bytes sz @ u32_to_le_bytes fl @ u32_to_le_bytes gen"

definition header_layout ::
  "u32 \<Rightarrow> u32 \<Rightarrow> u16 \<Rightarrow> u8 \<Rightarrow> u8 \<Rightarrow> u32 list \<Rightarrow> u64 \<Rightarrow> u64 \<Rightarrow> u64 \<Rightarrow> u32 \<Rightarrow> u32 \<Rightarrow> bytes" where
  "header_layout rk ly ci dt nd sh tk off sz fl gen =
     header_front rk ly ci dt nd @ concat (map u32_to_le_bytes sh) @ replicate 4 0
       @ header_back tk off sz fl gen @ replicate 48 0"

lemma length_header_parts [simp]:
  "length (header_front rk ly ci dt nd) = 12" "length (header_back tk off sz fl gen) = 32"
  by (simp_all add: header_front_def header_back_def)

lemma length_shape_bytes: "length sh = 8 \<Longrightarrow> length (concat (map u32_to_le_bytes sh)) = 32"
  by (simp add: length_concat_words [where w = 4])

lemma length_header_layout [simp]:
  "length sh = 8 \<Longrightarrow> length (header_layout rk ly ci dt nd sh tk off sz fl gen) = 128"
  by (simp add: header_layout_def length_shape_bytes)

lemma header_writes:
  assumes "length sh = 8"
  shows "write_at 76 (u32_to_le_bytes gen) (write_at 72 (u32_to_le_bytes fl)
    (write_at 64 (u64_to_le_bytes sz) (write_at 56 (u64_to_le_bytes off)
    (write_at 48 (u64_to_le_bytes tk) (write_words u32_to_le_bytes 4 12 sh
    ((write_at 8 (u16_to_le_bytes ci) (write_at 4 (u32_to_le_bytes ly)
    (write_at 0 (u32_to_le_bytes rk) (replicate 128 0))))[10 := dt, 11 := nd])))))) =
    header_layout rk ly ci dt nd sh tk off sz fl gen"
proof -
  let ?front = "header_front rk ly ci dt nd" and ?sh = "concat (map u32_to_le_bytes sh)"
  have w1: "write_at 0 (u32_to_le_bytes rk) (replicate 128 0) = u32_to_le_bytes rk @ replicate 124 0"
    using write_field [of 0 "[]" "u32_to_le_bytes rk" 128 0] by simp
  have w2: "write_at 4 (u32_to_le_bytes ly) (u32_to_le_bytes rk @ replicate 124 0) =
      (u32_to_le_bytes rk @ u32_to_le_bytes ly) @ replicate 120 0"
    by (subst write_field) simp_all
  have w3: "write_at 8 (u16_to_le_bytes ci) ((u32_to_le_bytes rk @ u32_to_le_bytes ly) @ replicate 120 0) =
      (u32_to_le_bytes rk @ u32_to_le_bytes ly @ u16_to_le_bytes ci) @ replicate 118 0"
    by (subst write_field) simp_all
  have w4: "((u32_to_le_bytes rk @ u32_to_le_bytes ly @ u16_to_le_bytes ci) @ replicate 118 0)[10 := dt, 11 := nd]
      = ?front @ replicate 116 0"
    by (subst update_field, simp, simp, subst update_field) (simp_all add: header_front_def)
  have w5: "write_words u32_to_le_bytes 4 12 sh (?front @ replicate 116 0) = (?front @ ?sh) @ replicate 84 0"
    using assms by (subst write_words_gap) simp_all
  have w6: "write_at 48 (u64_to_le_bytes tk) ((?front @ ?sh) @ replicate 84 0) =
      (?front @ ?sh @ replicate 4 0 @ u64_to_le_bytes tk) @ replicate 72 0"
    using length_shape_bytes [OF assms] by (subst write_field_gap [where g = 4]) simp_all
  let ?pre = "?front @ ?sh @ replicate 4 0"
  have len: "length ?pre = 48" using length_shape_bytes [OF assms] by simp
  have w7: "write_at 56 (u64_to_le_bytes off) ((?pre @ u64_to_le_bytes tk) @ replicate 72 0) =
      (?pre @ u64_to_le_bytes tk @ u64_to_le_bytes off) @ replicate 64 0"
    using len by (subst write_field) simp_all
  have w8: "write_at 64 (u64_to_le_bytes sz) ((?pre @ u64_to_le_bytes tk @ u64_to_le_bytes off) @ replicate 64 0)
      = (?pre @ u64_to_le_bytes tk @ u64_to_le_bytes off @ u64_to_le_bytes sz) @ replicate 56 0"
    using len by (subst write_field) simp_all
  have w9: "write_at 76 (u32_to_le_bytes gen) (write_at 72 (u32_to_le_bytes fl)
      ((?pre @ u64_to_le_bytes tk @ u64_to_le_bytes off @ u64_to_le_bytes sz) @ replicate 56 0))
      = (?pre @ header_back tk off sz fl gen) @ replicate 48 0"
    using len by (subst write_field, simp, simp, subst write_field) (simp_all add: header_back_def)
  show ?thesis
    using w1 w2 w3 w4 w5 w6 w7 w8 w9 by (simp add: header_layout_def)
qed

lemma serialize_probe_frame_layout:
  "length sh = 8 \<Longrightarrow> serialize_probe_frame rk ly ci dt nd sh tk off sz fl gen =
     header_layout rk ly ci dt nd sh tk off sz fl gen"
  by (simp add: serialize_probe_frame_def frame_defs header_writes Let_def)

lemma ProbeFrameHeader_serialize_layout:
  "length (pf_shape h) = 8 \<Longrightarrow> ProbeFrameHeader_serialize h =
     header_layout (pf_rank h) (pf_layer h) (pf_comp_id h) (pf_dtype h) (pf_ndim h) (pf_shape h) (pf_tick_id h)
       (pf_data_off h) (pf_frame_size h) (pf_flags h) (pf_generation h)"
  by (simp add: ProbeFrameHeader_serialize_def header_defs header_writes Let_def)

lemma length_serialize_probe_frame [simp]:
  "length sh = 8 \<Longrightarrow> length (serialize_probe_frame rk ly ci dt nd sh tk off sz fl gen) = 128"
  by (simp add: serialize_probe_frame_layout)

section \<open>Reading fields back\<close>

lemma layout_reads:
  fixes rk ly fl gen :: u32 and ci :: u16 and dt nd :: u8 and tk off sz :: u64
  assumes "length sh = 8"
  defines "d \<equiv> header_layout rk ly ci dt nd sh tk off sz fl gen"
  shows "read_at 0 4 d = u32_to_le_bytes rk" "read_at 4 4 d = u32_to_le_bytes ly"
    "read_at 8 2 d = u16_to_le_bytes ci" "d ! 10 = dt" "d ! 11 = nd"
    "read_words u32_from_le_bytes 4 12 8 d = sh"
    "read_at 48 8 d = u64_to_le_bytes tk" "read_at 56 8 d = u64_to_le_bytes off"
    "read_at 64 8 d = u64_to_le_bytes sz" "read_at 72 4 d = u32_to_le_bytes fl"
    "read_at 76 4 d = u32_to_le_bytes gen"
proof -
  note ls = length_shape_bytes [OF assms(1)]
  let ?front = "header_front rk ly ci dt nd" and ?tail = "header_back tk off sz fl gen"
  let ?rest = "concat (map u32_to_le_bytes sh) @ replicate 4 0 @ ?tail @ replicate 48 0"
  have left: "read_at o1 n d = read_at o1 n ?front" if "o1 + n \<le> 12" for o1 n
    using that by (simp add: d_def header_layout_def read_at_left)
  have right: "read_at (48 + o1) n d = read_at o1 n ?tail" if "o1 + n \<le> 32" for o1 n
    using that ls by (simp add: d_def header_layout_def read_at_left read_at_right)
  show "read_at 0 4 d = u32_to_le_bytes rk" "read_at 4 4 d = u32_to_le_bytes ly"
    "read_at 8 2 d = u16_to_le_bytes ci"
    by (simp_all add: left) (simp_all add: header_front_def read_at_left read_at_right read_at_all)
  show "d ! 10 = dt" "d ! 11 = nd"
    by (simp_all add: d_def header_layout_def header_front_def nth_append)
  show "read_words u32_from_le_bytes 4 12 8 d = sh"
    unfolding d_def header_layout_def using assms(1) by (intro read_words_concat) simp_all
  show "read_at 48 8 d = u64_to_le_bytes tk" "read_at 56 8 d = u64_to_le_bytes off"
    "read_at 64 8 d = u64_to_le_bytes sz" "read_at 72 4 d = u32_to_le_bytes fl"
    "read_at 76 4 d = u32_to_le_bytes gen"
    using right [of 0 8] right [of 8 8] right [of 16 8] right [of 24 4] right [of 28 4]
    by (simp_all add: header_back_def read_at_left read_at_right read_at_all)
qed

lemma header_fields [simp]:
  assumes "length sh = 8"
  shows "header_size (serialize_probe_frame rk ly ci dt nd sh tk off sz fl gen) = sz"
    and "header_generation (serialize_probe_frame rk ly ci dt nd sh tk off sz fl gen) = gen"
  using assms
  by (simp_all add: header_size_def header_generation_def frame_defs serialize_probe_frame_layout layout_reads)

lemma parse_layout:
  "length sh = 8 \<Longrightarrow> ProbeFrameHeader_parse (header_layout rk ly ci dt nd sh tk off sz fl gen @ post) =
     Ok \<lparr>pf_rank = rk, pf_layer = ly, pf_comp_id = ci, pf_dtype = dt, pf_ndim = nd, pf_shape = sh, pf_tick_id = tk,
        pf_data_off = off, pf_frame_size = sz, pf_flags = fl, pf_generation = gen\<rparr>"
  by (simp add: ProbeFrameHeader_parse_def header_defs read_at_left nth_append read_words_left
      layout_reads)

end
