(* ===== verification/Fifo_Spec.thy ===== *)
theory Fifo_Spec
  imports Main
begin

text \<open>
  What a bounded first-in first-out channel promises its two ends. A payload is stamped into a
  frame against the current state (the ring writes its cursor into the frame header), offered with
  \<open>put\<close>, which is refused exactly when the channel is full, and taken with \<open>get\<close>, which yields the
  oldest frame. The lemmas of the clients are about whole schedules of the two ends.
\<close>

datatype 'a fifo_op = Put 'a | Get

locale bounded_fifo =
  fixes inv :: "'s \<Rightarrow> bool"
    and contents :: "'s \<Rightarrow> 'f list"
    and capacity :: "'s \<Rightarrow> nat"
    and fits :: "'s \<Rightarrow> 'a \<Rightarrow> bool"
    and stamp :: "'s \<Rightarrow> 'a \<Rightarrow> 'f"
    and put :: "'f \<Rightarrow> 's \<Rightarrow> 's option"
    and get :: "'s \<Rightarrow> ('f \<times> 's) option"
  assumes bounded: "inv s \<Longrightarrow> length (contents s) \<le> capacity s"
    and put_room: "inv s \<Longrightarrow> fits s a \<Longrightarrow> length (contents s) < capacity s \<Longrightarrow>
      \<exists>s'. put (stamp s a) s = Some s' \<and> inv s' \<and> contents s' = contents s @ [stamp s a]
         \<and> capacity s' = capacity s \<and> (\<forall>b. fits s' b = fits s b)"
    and put_full: "inv s \<Longrightarrow> fits s a \<Longrightarrow> length (contents s) = capacity s \<Longrightarrow> put (stamp s a) s = None"
    and get_empty: "inv s \<Longrightarrow> contents s = [] \<Longrightarrow> get s = None"
    and get_first: "inv s \<Longrightarrow> contents s = f # fs \<Longrightarrow>
      \<exists>s'. get s = Some (f, s') \<and> inv s' \<and> contents s' = fs
         \<and> capacity s' = capacity s \<and> (\<forall>b. fits s' b = fits s b)"
begin

text \<open>A schedule of the two ends: the frames accepted, the frames received, the final state.\<close>

fun run :: "'a fifo_op list \<Rightarrow> 's \<Rightarrow> 'f list \<times> 'f list \<times> 's" where
  "run [] s = ([], [], s)"
| "run (Put a # ops) s =
     (case put (stamp s a) s of
        None \<Rightarrow> run ops s
      | Some s' \<Rightarrow> (case run ops s' of (ins, outs, t) \<Rightarrow> (stamp s a # ins, outs, t)))"
| "run (Get # ops) s =
     (case get s of
        None \<Rightarrow> run ops s
      | Some (f, s') \<Rightarrow> (case run ops s' of (ins, outs, t) \<Rightarrow> (ins, f # outs, t)))"

definition admissible :: "'a fifo_op list \<Rightarrow> 's \<Rightarrow> bool" where
  "admissible ops s \<longleftrightarrow> (\<forall>a. Put a \<in> set ops \<longrightarrow> fits s a)"

lemma put_cases:
  assumes "inv s" "fits s a"
  obtains (full) "length (contents s) = capacity s" "put (stamp s a) s = None"
  | (room) s' where "put (stamp s a) s = Some s'" "inv s'" "contents s' = contents s @ [stamp s a]"
      "capacity s' = capacity s" "\<And>b. fits s' b = fits s b"
proof (cases "length (contents s) < capacity s")
  case True
  then show ?thesis using put_room [OF assms True] room by blast
next
  case False
  then have "length (contents s) = capacity s" using bounded [OF assms(1)] by simp
  then show ?thesis using put_full [OF assms] full by blast
qed

lemma run_fifo:
  assumes "inv s" "admissible ops s" "run ops s = (ins, outs, t)"
  shows "contents s @ ins = outs @ contents t \<and> inv t \<and> capacity t = capacity s"
  using assms
proof (induction ops arbitrary: s ins outs)
  case Nil
  then show ?case by auto
next
  case (Cons op ops)
  have adm: "admissible ops s" using Cons.prems(2) by (auto simp: admissible_def)
  show ?case
  proof (cases op)
    case (Put a)
    then have fit: "fits s a" using Cons.prems(2) by (auto simp: admissible_def)
    show ?thesis
    proof (cases rule: put_cases [OF Cons.prems(1) fit, case_names full room])
      case full
      with Put Cons.prems(3) have "run ops s = (ins, outs, t)" by simp
      then show ?thesis by (rule Cons.IH [OF Cons.prems(1) adm])
    next
      case (room s')
      obtain ins' outs' where r: "run ops s' = (ins', outs', t)" "ins = stamp s a # ins'" "outs = outs'"
        using Put Cons.prems(3) room(1) by (auto split: prod.splits)
      have "admissible ops s'" using adm room(5) by (simp add: admissible_def)
      from Cons.IH [OF room(2) this r(1)] show ?thesis using room r by simp
    qed
  next
    case Get
    show ?thesis
    proof (cases "contents s")
      case Nil
      with get_empty [OF Cons.prems(1)] Get Cons.prems(3) have "run ops s = (ins, outs, t)" by simp
      then show ?thesis by (rule Cons.IH [OF Cons.prems(1) adm])
    next
      case (Cons f fs)
      then obtain s' where s': "get s = Some (f, s')" "inv s'" "contents s' = fs"
        "capacity s' = capacity s" "\<And>b. fits s' b = fits s b"
        using get_first [OF Cons.prems(1)] by blast
      obtain ins' outs' where r: "run ops s' = (ins', outs', t)" "ins = ins'" "outs = f # outs'"
        using Get Cons.prems(3) s'(1) by (auto split: prod.splits)
      have "admissible ops s'" using adm s'(5) by (simp add: admissible_def)
      from Cons.IH [OF s'(2) this r(1)] show ?thesis using s' r Cons by simp
    qed
  qed
qed

text \<open>Every frame received was accepted earlier, in the order of acceptance, none lost or repeated.\<close>

corollary run_prefix:
  assumes "inv s" "admissible ops s" "contents s = []" "run ops s = (ins, outs, t)"
  shows "ins = outs @ contents t" and "length ins \<le> length outs + capacity s"
  using run_fifo [OF assms(1,2,4)] assms(3) bounded [of t] by auto

end

end
