(* ===== verification/Ring_Channel.thy ===== *)
theory Ring_Channel
  imports Shm_Ring Probe_Frame Fifo_Spec
begin

text \<open>
  The ring in use: a freshly created producer and a consumer opened on the same object are an empty
  channel, and the pair implements the bounded FIFO contract of \<open>Fifo_Spec\<close> for frames stamped the
  way the worker stamps them (payload length and low cursor half in the header).
\<close>

section \<open>Creating and opening\<close>

lemma write_magic_ok [region_simps]:
  "8 \<le> unat (reg_len r) \<Longrightarrow> write_magic r mem = Ok (write_at 0 MAGIC mem)"
  by (simp add: write_magic_def MAGIC_OFFSET_def bounds_check_ok)

text \<open>The control block after initialization, over a zero-filled object of \<open>n\<close> bytes.\<close>

definition initial_bytes :: "ring_config \<Rightarrow> bytes" where
  "initial_bytes c =
     write_at 0 MAGIC (write_at 256 (u64_to_le_bytes 0) (write_at 128 (u64_to_le_bytes 0)
      (write_at 24 (u64_to_le_bytes (region_size c)) (write_at 16 (u64_to_le_bytes (slot_size c))
       (write_at 12 (u32_to_le_bytes (backuptics c)) (write_at 8 (u32_to_le_bytes VERSION)
        (replicate (unat (region_size c)) 0)))))))"

lemma producer_init_bytes_eq:
  assumes "config_ok c" "reg_len r = region_size c"
  shows "producer_init_bytes r c (replicate (unat (region_size c)) 0) = (Ok (), initial_bytes c)"
  using region_min [OF assms(1)] assms(2)
  by (simp add: producer_init_bytes_def region_simps control_defs initial_bytes_def)

lemma initial_bytes_props:
  assumes "config_ok c"
  shows "length (initial_bytes c) = unat (region_size c)"
    "read_at 0 8 (initial_bytes c) = MAGIC"
    "read_at 8 4 (initial_bytes c) = u32_to_le_bytes VERSION"
    "read_at 12 4 (initial_bytes c) = u32_to_le_bytes (backuptics c)"
    "read_at 16 8 (initial_bytes c) = u64_to_le_bytes (slot_size c)"
    "read_at 128 8 (initial_bytes c) = u64_to_le_bytes 0"
    "read_at 256 8 (initial_bytes c) = u64_to_le_bytes 0"
  using region_min [OF assms]
  by (simp_all add: initial_bytes_def read_write_same read_write_disjoint)

lemma config_ok_region_nonzero: "config_ok c \<Longrightarrow> region_size c \<noteq> 0"
  using region_min [of c] by (auto simp: unsigned_eq_0_iff)

lemma ShmRegion_create_fine:
  assumes "sz \<noteq> 0" "length name \<le> 255" "CHR 0x00 \<notin> set name" "objs name = None"
  shows "ShmRegion_create os_fine name sz objs =
    Some (Ok \<lparr>reg_name = name, reg_len = sz\<rparr>, objs(name \<mapsto> replicate (unat sz) 0))"
  using assms by (simp add: ShmRegion_create_def os_fine_def validate_name_def PSHMNAMLEN_MAX_def)

lemma ShmRegion_open_fine:
  assumes "sz \<noteq> 0" "length name \<le> 255" "CHR 0x00 \<notin> set name" "objs name = Some mem" "unat sz \<le> length mem"
  shows "ShmRegion_open os_fine name sz objs = Some (Ok \<lparr>reg_name = name, reg_len = sz\<rparr>)"
  using assms by (simp add: ShmRegion_open_def os_fine_def validate_name_def PSHMNAMLEN_MAX_def)

definition fresh_producer :: "string \<Rightarrow> ring_config \<Rightarrow> producer" where
  "fresh_producer name c =
     \<lparr>p_region = \<lparr>reg_name = name, reg_len = region_size c\<rparr>, p_config = c, p_maketic = 0\<rparr>"

definition fresh_consumer :: "string \<Rightarrow> ring_config \<Rightarrow> consumer" where
  "fresh_consumer name c =
     \<lparr>c_region = \<lparr>reg_name = name, reg_len = region_size c\<rparr>, c_config = c, c_nettics = 0\<rparr>"

lemma create_fine:
  assumes "config_ok c" "length name \<le> 255" "CHR 0x00 \<notin> set name" "objs name = None"
  shows "DoomRingProducer_create os_fine name c objs =
    Some (Ok (fresh_producer name c), objs(name \<mapsto> initial_bytes c))"
  using assms
  by (simp add: DoomRingProducer_create_def ShmRegion_create_fine config_ok_region_nonzero
      producer_init_bytes_eq fresh_producer_def)

lemma consumer_read_config_initial:
  assumes "config_ok c" "reg_len r = CONTROL_SIZE"
  shows "consumer_read_config r (initial_bytes c) = Ok c"
proof -
  have "RingConfig_new (backuptics c) (slot_size c) = Ok c"
    using assms(1) by (simp add: RingConfig_new_Ok_iff)
  then show ?thesis
    using assms initial_bytes_props [OF assms(1)]
    by (simp add: consumer_read_config_def read_bytes_ok control_defs)
qed

lemma open_fine:
  assumes "config_ok c" "length name \<le> 255" "CHR 0x00 \<notin> set name" "objs name = Some (initial_bytes c)"
  shows "DoomRingConsumer_open os_fine os_fine name objs = Some (Ok (fresh_consumer name c))"
proof -
  have len: "length (initial_bytes c) = unat (region_size c)" "4096 \<le> unat (region_size c)"
    using initial_bytes_props(1) [OF assms(1)] region_min [OF assms(1)] by auto
  then have o1: "ShmRegion_open os_fine name CONTROL_SIZE objs =
      Some (Ok \<lparr>reg_name = name, reg_len = CONTROL_SIZE\<rparr>)"
    using assms by (intro ShmRegion_open_fine) (auto simp: CONTROL_SIZE_def)
  have o2: "ShmRegion_open os_fine name (region_size c) objs =
      Some (Ok \<lparr>reg_name = name, reg_len = region_size c\<rparr>)"
    using assms len config_ok_region_nonzero by (intro ShmRegion_open_fine) auto
  show ?thesis
    using len initial_bytes_props(7) [OF assms(1)] assms(4)
    by (simp add: DoomRingConsumer_open_def o1 o2 consumer_read_config_initial [OF assms(1)]
        atomic_load_ok NETTICS_OFFSET_def fresh_consumer_def)
qed

text \<open>
  A successful creation, whatever the system calls did on the way, leaves exactly this producer and
  these bytes; a successful opening of that object, exactly this consumer.
\<close>

lemma create_OkD:
  assumes c: "config_ok c" and ok: "DoomRingProducer_create os name c objs = Some (Ok p, objs')"
  shows "p = fresh_producer name c" "objs' = objs(name \<mapsto> initial_bytes c)"
proof -
  obtain r o1 where r: "ShmRegion_create os name (region_size c) objs = Some (Ok r, o1)"
    using ok by (auto simp: DoomRingProducer_create_def split: option.splits sum.splits)
  then have rv: "r = \<lparr>reg_name = name, reg_len = region_size c\<rparr>"
    "o1 = objs(name \<mapsto> replicate (unat (region_size c)) 0)"
    by (auto simp: ShmRegion_create_def split: if_splits option.splits sum.splits)
  then show "p = fresh_producer name c" "objs' = objs(name \<mapsto> initial_bytes c)"
    using ok producer_init_bytes_eq [OF c, of r]
    by (auto simp: DoomRingProducer_create_def r fresh_producer_def)
qed

lemma ShmRegion_open_OkD:
  "ShmRegion_open os name sz objs = Some (Ok r) \<Longrightarrow> r = \<lparr>reg_name = name, reg_len = sz\<rparr>"
  by (auto simp: ShmRegion_open_def split: if_splits option.splits sum.splits)

lemma open_OkD:
  assumes c: "config_ok c" and mem: "objs name = Some (initial_bytes c)"
    and ok: "DoomRingConsumer_open os os' name objs = Some (Ok co)"
  shows "co = fresh_consumer name c"
proof -
  have len: "length (initial_bytes c) = unat (region_size c)" "4096 \<le> unat (region_size c)"
    using initial_bytes_props(1) [OF c] region_min [OF c] by auto
  obtain r1 where r1: "ShmRegion_open os name CONTROL_SIZE objs = Some (Ok r1)"
    using ok by (auto simp: DoomRingConsumer_open_def Let_def split: option.splits sum.splits)
  then have cfg: "consumer_read_config r1 (initial_bytes c) = Ok c"
    using consumer_read_config_initial [OF c] ShmRegion_open_OkD by fastforce
  obtain r2 where r2: "ShmRegion_open os' name (region_size c) objs = Some (Ok r2)"
    using ok r1 cfg mem by (auto simp: DoomRingConsumer_open_def Let_def split: option.splits sum.splits)
  then show ?thesis
    using ok r1 cfg mem len initial_bytes_props(7) [OF c] ShmRegion_open_OkD [OF r2]
    by (simp add: DoomRingConsumer_open_def Let_def atomic_load_ok NETTICS_OFFSET_def fresh_consumer_def)
qed

definition fresh_ring :: "string \<Rightarrow> ring_config \<Rightarrow> ring" where
  "fresh_ring name c = (fresh_producer name c, fresh_consumer name c, initial_bytes c)"

lemma fresh_ring_inv:
  assumes "config_ok c"
  shows "ring_inv (fresh_ring name c)" "ring_contents (fresh_ring name c) = []"
    "ring_capacity (fresh_ring name c) = slots c"
  using assms initial_bytes_props [OF assms]
  by (simp_all add: fresh_ring_def ring_inv_def cursors_ok_def fresh_producer_def fresh_consumer_def
      ring_pending_def ring_contents_def ring_capacity_def)

section \<open>The channel operations\<close>

text \<open>The descriptive header fields a payload carries besides its length and generation.\<close>

record payload =
  pl_layer :: u32
  pl_ndim :: u8
  pl_shape :: "u32 list"
  pl_data :: bytes

definition ring_fits :: "ring \<Rightarrow> payload \<Rightarrow> bool" where
  "ring_fits s a = (case s of (p, co, mem) \<Rightarrow>
     length (pl_shape a) = 8 \<and> length (pl_data a) \<le> unat (slot_data_capacity (p_config p)))"

definition ring_stamp :: "ring \<Rightarrow> payload \<Rightarrow> frame" where
  "ring_stamp s a = (case s of (p, co, mem) \<Rightarrow>
     (serialize_probe_frame 0 (pl_layer a) 0 0 (pl_ndim a) (pl_shape a) 0 0
        (word_of_nat (length (pl_data a))) 0 (ucast (p_maketic p AND 0xFFFFFFFF)), pl_data a))"

definition ring_put :: "frame \<Rightarrow> ring \<Rightarrow> ring option" where
  "ring_put f s = (case s of (p, co, mem) \<Rightarrow>
     (case publish (fst f) (snd f) p mem of
        Some (Inr _, p', mem') \<Rightarrow> Some (p', co, mem')
      | _ \<Rightarrow> None))"

definition ring_get :: "ring \<Rightarrow> (frame \<times> ring) option" where
  "ring_get s = (case s of (p, co, mem) \<Rightarrow>
     (case try_consume co mem of
        Inr (Some f) \<Rightarrow>
          (case advance co mem of (Inr mem', co') \<Rightarrow> Some (f, (p, co', mem')) | _ \<Rightarrow> None)
      | _ \<Rightarrow> None))"

lemma ring_stamp_frame_ok:
  assumes "ring_inv (p, co, mem)" "ring_fits (p, co, mem) a"
  shows "frame_ok (p_config p) (p_maketic p) (ring_stamp (p, co, mem) a)"
proof -
  have c: "config_ok (p_config p)" using assms(1) by (simp add: ring_inv_def cursors_ok_def)
  have cap: "length (pl_data a) \<le> slot_bytes (p_config p) - 128" and sh: "length (pl_shape a) = 8"
    using assms(2) by (auto simp: ring_fits_def unat_slot_data_capacity [OF c])
  then have "length (pl_data a) < 2 ^ 64"
    using unat_lt [of "slot_size (p_config p)"] by simp
  then show ?thesis
    using cap sh by (simp add: frame_ok_def ring_stamp_def expected_generation_def unat_of_nat)
qed

lemma ring_fits_cong: "p_config p' = p_config p \<Longrightarrow> ring_fits (p', co', mem') = ring_fits (p, co, mem)"
  by (simp add: ring_fits_def fun_eq_iff)

lemma ring_put_room:
  assumes inv: "ring_inv s" and fit: "ring_fits s a" and room: "length (ring_contents s) < ring_capacity s"
  shows "\<exists>s'. ring_put (ring_stamp s a) s = Some s' \<and> ring_inv s'
    \<and> ring_contents s' = ring_contents s @ [ring_stamp s a]
    \<and> ring_capacity s' = ring_capacity s \<and> (\<forall>b. ring_fits s' b = ring_fits s b)"
proof -
  obtain p co mem where s: "s = (p, co, mem)" by (cases s)
  let ?f = "ring_stamp s a"
  let ?s' = "(p\<lparr>p_maketic := p_maketic p + 1\<rparr>, co, published (p_config p) (p_maketic p) ?f mem)"
  have ok: "frame_ok (p_config p) (p_maketic p) ?f" and cur: "cursors_ok (p, co, mem)"
    and space: "ring_pending (p, co, mem) < slots (p_config p)"
    using ring_stamp_frame_ok inv fit room by (auto simp: s ring_capacity_def ring_inv_def)
  have "ring_put ?f s = Some ?s'"
    using publish_eq [OF cur space ok] by (simp add: ring_put_def s)
  moreover have "ring_inv ?s'" "ring_contents ?s' = ring_contents s @ [?f]"
    using publish_ring [OF _ space ok] inv by (simp_all add: s)
  moreover have "ring_capacity ?s' = ring_capacity s" "\<forall>b. ring_fits ?s' b = ring_fits s b"
    by (simp_all add: s ring_capacity_def ring_fits_def)
  ultimately show ?thesis by blast
qed

lemma ring_put_full:
  assumes "ring_inv s" "ring_fits s a" "length (ring_contents s) = ring_capacity s"
  shows "ring_put (ring_stamp s a) s = None"
proof -
  obtain p co mem where s: "s = (p, co, mem)" by (cases s)
  let ?f = "ring_stamp s a"
  have ok: "frame_ok (p_config p) (p_maketic p) ?f"
    using ring_stamp_frame_ok assms by (simp add: s)
  have "publish (fst ?f) (snd ?f) p mem =
      Some (Err (RingFull (p_maketic p) (c_nettics co) (backuptics (p_config p))), p, mem)"
    using assms ok by (intro publish_full) (simp_all add: s ring_inv_def ring_capacity_def frame_ok_def)
  then show ?thesis by (simp add: ring_put_def s)
qed

lemma ring_get_empty: "ring_inv s \<Longrightarrow> ring_contents s = [] \<Longrightarrow> ring_get s = None"
  by (cases s) (auto simp: ring_get_def ring_inv_def try_consume_empty simp flip: length_0_conv)

lemma ring_get_first:
  assumes inv: "ring_inv s" and ne: "ring_contents s = f # fs"
  shows "\<exists>s'. ring_get s = Some (f, s') \<and> ring_inv s' \<and> ring_contents s' = fs
    \<and> ring_capacity s' = ring_capacity s \<and> (\<forall>b. ring_fits s' b = ring_fits s b)"
proof -
  obtain p co mem where s: "s = (p, co, mem)" by (cases s)
  have pend: "0 < ring_pending (p, co, mem)"
    using ne length_ring_contents [of s] by (simp add: s)
  let ?s' = "(p, advanced co 1, advanced_bytes co 1 mem)"
  have "f = frame_at (p_config p) mem (c_nettics co)"
    using ne ring_contents_nth [OF pend] by (simp add: s)
  then have "try_consume co mem = Ok (Some f)"
    using try_consume_first [of p co mem] inv pend by (simp add: s)
  moreover have "advance co mem = (Ok (advanced_bytes co 1 mem), advanced co 1)"
    using advance_by_eq [of p co mem 1] inv by (simp add: advance_def ring_inv_def s)
  ultimately have "ring_get s = Some (f, ?s')" by (simp add: ring_get_def s)
  moreover have "ring_inv ?s'" "ring_contents ?s' = fs"
    using advance_ring [of p co mem 1] inv pend ne by (simp_all add: s)
  moreover have "ring_capacity ?s' = ring_capacity s" "\<forall>b. ring_fits ?s' b = ring_fits s b"
    by (simp_all add: s ring_capacity_def ring_fits_def)
  ultimately show ?thesis by blast
qed

interpretation shm: bounded_fifo ring_inv ring_contents ring_capacity ring_fits ring_stamp ring_put ring_get
proof
  fix s assume "ring_inv s"
  then show "length (ring_contents s) \<le> ring_capacity s"
    by (cases s) (simp add: ring_inv_def cursors_ok_def ring_capacity_def)
qed (fact ring_put_room ring_put_full ring_get_empty ring_get_first)+

text \<open>
  A schedule of the two ends over the ring: the frames whose publish succeeded, the frames consumed,
  and the ring afterwards. Refused publishes and empty polls leave the ring unchanged.
\<close>

fun ring_run :: "payload fifo_op list \<Rightarrow> ring \<Rightarrow> frame list \<times> frame list \<times> ring" where
  "ring_run [] s = ([], [], s)"
| "ring_run (Put a # ops) s =
     (case ring_put (ring_stamp s a) s of
        None \<Rightarrow> ring_run ops s
      | Some s' \<Rightarrow> (case ring_run ops s' of (ins, outs, t) \<Rightarrow> (ring_stamp s a # ins, outs, t)))"
| "ring_run (Get # ops) s =
     (case ring_get s of
        None \<Rightarrow> ring_run ops s
      | Some (f, s') \<Rightarrow> (case ring_run ops s' of (ins, outs, t) \<Rightarrow> (ins, f # outs, t)))"

lemma ring_run_eq: "ring_run ops s = shm.run ops s"
  by (induction ops s rule: ring_run.induct) (auto split: option.splits)

section \<open>Properties\<close>

text \<open>C1: Take any accepted ring configuration, create the producer, open the consumer on the same
  object, and let the two ends publish and consume in any order. The frames the consumer receives are
  then exactly the accepted frames in the order of acceptance, less the ones still in the ring: none is
  lost, repeated, reordered or corrupted, across any number of slot reuses and cursor wrap-around.\<close>

theorem ring_schedule_fifo:
  assumes "RingConfig_new bt ss = Ok c"
    and "DoomRingProducer_create os name c objs = Some (Ok p, objs')"
    and "DoomRingConsumer_open os1 os2 name objs' = Some (Ok co)"
    and "\<forall>a. Put a \<in> set ops \<longrightarrow> ring_fits (p, co, mem) a"
    and "objs' name = Some mem"
  shows "case ring_run ops (p, co, mem) of (ins, outs, t) \<Rightarrow>
    ins = outs @ ring_contents t \<and> length ins \<le> length outs + unat bt"
proof -
  have c: "config_ok c" and bt: "slots c = unat bt"
    using assms(1) by (auto simp: RingConfig_new_Ok_iff)
  have "objs' name = Some (initial_bytes c)" and p: "p = fresh_producer name c"
    using create_OkD [OF c assms(2)] by simp_all
  then have s: "(p, co, mem) = fresh_ring name c"
    using open_OkD [OF c _ assms(3)] assms(5) by (simp add: fresh_ring_def)
  note inv = fresh_ring_inv [OF c, of name]
  show ?thesis
    using shm.run_prefix [OF inv(1) _ inv(2), of ops] assms(4) inv(3) bt
    by (simp add: shm.admissible_def ring_run_eq s split: prod.splits)
qed

definition demo_config :: ring_config where "demo_config = \<lparr>backuptics = 2, slot_size = 136\<rparr>"

definition demo_payload :: payload where
  "demo_payload = \<lparr>pl_layer = 3, pl_ndim = 1, pl_shape = [4, 0, 0, 0, 0, 0, 0, 0], pl_data = [9, 8, 7, 6]\<rparr>"

lemma demo_config_new: "RingConfig_new 2 136 = Ok demo_config"
  by (simp add: RingConfig_new_Ok_iff demo_config_def config_ok_def exI [of _ 1])

lemma demo_config_ok: "config_ok demo_config"
  using demo_config_new by (simp add: RingConfig_new_Ok_iff)

theorem ring_schedule_fifo_witness:
  "case ring_run [Put demo_payload, Get, Put demo_payload, Put demo_payload, Put demo_payload, Get]
      (fresh_ring ''/rs'' demo_config) of (ins, outs, t) \<Rightarrow>
    ins = outs @ ring_contents t \<and> length ins \<le> length outs + 2"
proof -
  let ?mem = "initial_bytes demo_config"
  note create = create_fine [OF demo_config_ok, of "''/rs''" Map.empty, simplified]
  note opened = open_fine [OF demo_config_ok, of "''/rs''" "Map.empty(''/rs'' \<mapsto> ?mem)", simplified]
  have fits: "\<forall>a. Put a \<in> set [Put demo_payload, Get, Put demo_payload, Put demo_payload, Put demo_payload, Get]
      \<longrightarrow> ring_fits (fresh_producer ''/rs'' demo_config, fresh_consumer ''/rs'' demo_config, ?mem) a"
    by (simp add: ring_fits_def demo_payload_def fresh_producer_def demo_config_def
        slot_data_capacity_def PROBE_FRAME_HEADER_SIZE_def)
  from ring_schedule_fifo [OF demo_config_new create opened fits] show ?thesis
    by (simp add: fresh_ring_def)
qed

text \<open>C10: \<^verbatim>\<open>RingConfig::new\<close> accepts a configuration exactly when its slot count is a power of two, its slots hold
  a frame header and its region size fits in 64 bits, keeps the values it was given, and
  refuses any other slot count for that reason. In an accepted configuration every slot lies inside the mapped region behind the
  control block, and slots with different ring indices never overlap.\<close>

theorem RingConfig_slots_sound:
  "((\<exists>c. RingConfig_new bt ss = Ok c) \<longleftrightarrow>
      (\<exists>k. unat bt = 2 ^ k) \<and> 128 \<le> unat ss \<and> 4096 + unat bt * unat ss < 2 ^ 64) \<and>
   (RingConfig_new bt ss = Err (NotPowerOfTwo bt) \<longleftrightarrow> (\<nexists>k. unat bt = 2 ^ k)) \<and>
   (\<forall>c. RingConfig_new bt ss = Ok c \<longrightarrow>
      backuptics c = bt \<and> slot_size c = ss \<and> unat (region_size c) = 4096 + unat bt * unat ss \<and>
      (\<forall>m. 4096 \<le> unat (slot_offset c m) \<and> unat (slot_offset c m) + unat ss \<le> unat (region_size c)) \<and>
      (\<forall>m n. unat m mod unat bt \<noteq> unat n mod unat bt \<longrightarrow>
         unat (slot_offset c m) + unat ss \<le> unat (slot_offset c n)
         \<or> unat (slot_offset c n) + unat ss \<le> unat (slot_offset c m)))"
proof (intro conjI allI impI)
  show "(\<exists>c. RingConfig_new bt ss = Ok c) \<longleftrightarrow>
      (\<exists>k. unat bt = 2 ^ k) \<and> 128 \<le> unat ss \<and> 4096 + unat bt * unat ss < 2 ^ 64"
    by (simp add: RingConfig_new_Ok_iff config_ok_def)
  show "RingConfig_new bt ss = Err (NotPowerOfTwo bt) \<longleftrightarrow> (\<nexists>k. unat bt = 2 ^ k)"
  proof -
    have "RingConfig_new bt ss = Err (NotPowerOfTwo bt) \<longleftrightarrow> bt = 0 \<or> bt AND (bt - 1) \<noteq> 0"
      by (auto simp: RingConfig_new_def split: option.split)
    then show ?thesis using word_and_pred_zero_iff_power [of bt] by (cases "bt = 0") auto
  qed
next
  fix c assume new: "RingConfig_new bt ss = Ok c"
  then have c: "config_ok c" "backuptics c = bt" "slot_size c = ss" by (auto simp: RingConfig_new_Ok_iff)
  show "backuptics c = bt" "slot_size c = ss" by (rule c)+
  show "unat (region_size c) = 4096 + unat bt * unat ss"
    using unat_region_size [OF c(1)] by (simp add: c(2,3))
  show "4096 \<le> unat (slot_offset c m)" "unat (slot_offset c m) + unat ss \<le> unat (region_size c)" for m
    using slot_offset_ge [OF c(1), of m] slot_within_region [OF c(1), of m] by (simp_all add: c(2,3))
  show "unat (slot_offset c m) + unat ss \<le> unat (slot_offset c n) \<or> unat (slot_offset c n) + unat ss \<le> unat (slot_offset c m)"
    if "unat m mod unat bt \<noteq> unat n mod unat bt" for m n
    using slots_disjoint [OF c(1), of m n] that by (simp add: c(2,3))
qed

theorem RingConfig_slots_sound_witness:
  "unat (region_size demo_config) = 4368 \<and> RingConfig_new 3 136 = Err (NotPowerOfTwo 3)"
proof
  show "unat (region_size demo_config) = 4368"
    using RingConfig_slots_sound [of 2 136] demo_config_new by simp
  have "\<nexists>k. unat (3 :: u32) = 2 ^ k"
  proof
    assume "\<exists>k. unat (3 :: u32) = 2 ^ k"
    then obtain k where k: "(3 :: nat) = 2 ^ k" by auto
    then have "k \<noteq> 0" by (cases "k = 0") auto
    then have "even ((2 :: nat) ^ k)" by simp
    then show False unfolding k [symmetric] by simp
  qed
  then show "RingConfig_new 3 136 = Err (NotPowerOfTwo 3)" using RingConfig_slots_sound [of 3 136] by blast
qed

text \<open>C11: The frame header written by the shared-memory crate and the one written by the Python binding
  crate, which declares the layout on its own, are the same 128 bytes, and the binding's parser
  recovers every field from them, whatever payload bytes follow.\<close>

theorem probe_frame_roundtrip:
  assumes "length (pf_shape h) = MAX_DIMS"
  shows "ProbeFrameHeader_serialize h = serialize_probe_frame (pf_rank h) (pf_layer h) (pf_comp_id h) (pf_dtype h)
      (pf_ndim h) (pf_shape h) (pf_tick_id h) (pf_data_off h) (pf_frame_size h) (pf_flags h) (pf_generation h)
    \<and> length (ProbeFrameHeader_serialize h) = HEADER_SIZE
    \<and> ProbeFrameHeader_parse (ProbeFrameHeader_serialize h @ rest) = Ok h"
  using assms
  by (simp add: MAX_DIMS_def HEADER_SIZE_def ProbeFrameHeader_serialize_layout
      serialize_probe_frame_layout parse_layout)

definition demo_header :: ProbeFrameHeader where
  "demo_header = \<lparr>pf_rank = 1, pf_layer = 2, pf_comp_id = 3, pf_dtype = 4, pf_ndim = 2,
     pf_shape = [5, 6, 0, 0, 0, 0, 0, 0], pf_tick_id = 7, pf_data_off = 8, pf_frame_size = 9, pf_flags = 10,
     pf_generation = 11\<rparr>"

theorem probe_frame_roundtrip_witness:
  "ProbeFrameHeader_parse (ProbeFrameHeader_serialize demo_header @ [255]) = Ok demo_header"
proof -
  have "length (pf_shape demo_header) = MAX_DIMS" by (simp add: MAX_DIMS_def demo_header_def)
  from probe_frame_roundtrip [OF this] show ?thesis by blast
qed

end
