(* ===== verification/Binary_Heap.thy ===== *)
theory Binary_Heap
  imports Main "HOL-Library.Multiset"
begin

text \<open>
  The binary heap of the Rust standard library, \<^verbatim>\<open>std::collections::BinaryHeap\<close>, as the tensor statistics use
  it: a list in which every element is at most its parent, with \<^verbatim>\<open>push\<close>, \<^verbatim>\<open>pop\<close>, \<^verbatim>\<open>peek\<close> and iteration in the order
  of the list. Moving a hole is written as swapping neighbours. The order is an argument; the locale
  \<open>heap_order\<close> asks that it be total and transitive on the elements that occur, which the order of
  floating-point numbers is only without NaN.
\<close>

definition swap_at :: "nat \<Rightarrow> nat \<Rightarrow> 'a list \<Rightarrow> 'a list" where
  "swap_at i j xs = xs[i := xs ! j, j := xs ! i]"

definition parent :: "nat \<Rightarrow> nat" where "parent i = (i - 1) div 2"

function sift_up :: "('a \<Rightarrow> 'a \<Rightarrow> bool) \<Rightarrow> nat \<Rightarrow> 'a list \<Rightarrow> 'a list" where
  "sift_up le pos xs =
     (if pos = 0 then xs
      else if le (xs ! pos) (xs ! parent pos) then xs
      else sift_up le (parent pos) (swap_at pos (parent pos) xs))"
  by pat_completeness auto
termination by (relation "measure (\<lambda>(le, pos, xs). pos)") (auto simp: parent_def)

declare sift_up.simps [simp del]

lemma length_swap_at [simp]: "length (swap_at i j xs) = length xs"
  by (simp add: swap_at_def)

lemma mset_swap_at [simp]: "i < length xs \<Longrightarrow> j < length xs \<Longrightarrow> mset (swap_at i j xs) = mset xs"
  by (simp add: swap_at_def mset_swap)

lemma nth_swap_at:
  "i < length xs \<Longrightarrow> j < length xs \<Longrightarrow> k < length xs \<Longrightarrow>
     swap_at i j xs ! k = (if k = i then xs ! j else if k = j then xs ! i else xs ! k)"
  by (auto simp: swap_at_def nth_list_update)

text \<open>Moving the hole to the bottom, along the greater children; the result holds its final position.\<close>

function sink :: "('a \<Rightarrow> 'a \<Rightarrow> bool) \<Rightarrow> nat \<Rightarrow> 'a list \<Rightarrow> 'a list \<times> nat" where
  "sink le pos xs =
     (let child = 2 * pos + 1 in
      if child + 1 < length xs then
        let child = (if le (xs ! child) (xs ! (child + 1)) then child + 1 else child)
        in sink le child (swap_at pos child xs)
      else if child + 1 = length xs then (swap_at pos child xs, child)
      else (xs, pos))"
  by pat_completeness auto
termination by (relation "measure (\<lambda>(le, pos, xs). length xs - pos)") (auto simp: Let_def)

declare sink.simps [simp del]

definition heap_push :: "('a \<Rightarrow> 'a \<Rightarrow> bool) \<Rightarrow> 'a \<Rightarrow> 'a list \<Rightarrow> 'a list" where
  "heap_push le x xs = sift_up le (length xs) (xs @ [x])"

definition heap_pop :: "('a \<Rightarrow> 'a \<Rightarrow> bool) \<Rightarrow> 'a list \<Rightarrow> 'a option \<times> 'a list" where
  "heap_pop le xs =
     (if xs = [] then (None, [])
      else if butlast xs = [] then (Some (last xs), [])
      else (Some (hd xs), case sink le 0 ((butlast xs)[0 := last xs]) of (ys, pos) \<Rightarrow> sift_up le pos ys))"

definition heap_peek :: "'a list \<Rightarrow> 'a option" where
  "heap_peek xs = (if xs = [] then None else Some (hd xs))"

section \<open>The contents\<close>

lemma mset_sift_up [simp]: "pos < length xs \<Longrightarrow> mset (sift_up le pos xs) = mset xs"
proof (induction le pos xs rule: sift_up.induct)
  case (1 le pos xs)
  have "parent pos < length xs" using 1(2) by (auto simp: parent_def)
  with 1 show ?case by (simp add: sift_up.simps [of le pos xs])
qed

lemma sink_props: "pos < length xs \<Longrightarrow> mset (fst (sink le pos xs)) = mset xs \<and> snd (sink le pos xs) < length xs"
proof (induction le pos xs rule: sink.induct)
  case (1 le pos xs)
  then show ?case
    by (subst (1 2) sink.simps) (auto simp: Let_def)
qed

lemma length_sink: "pos < length xs \<Longrightarrow> length (fst (sink le pos xs)) = length xs"
  using sink_props [of pos xs le] by (metis size_mset)

lemma mset_heap_push [simp]: "mset (heap_push le x xs) = add_mset x (mset xs)"
  by (simp add: heap_push_def)

lemma heap_pop_mset:
  assumes "xs \<noteq> []"
  shows "fst (heap_pop le xs) = Some (hd xs)" "add_mset (hd xs) (mset (snd (heap_pop le xs))) = mset xs"
proof -
  show "fst (heap_pop le xs) = Some (hd xs)"
    using assms by (cases xs rule: rev_cases) (auto simp: heap_pop_def hd_append)
  show "add_mset (hd xs) (mset (snd (heap_pop le xs))) = mset xs"
  proof (cases "butlast xs")
    case Nil
    then show ?thesis using assms by (cases xs rule: rev_cases) (simp_all add: heap_pop_def)
  next
    case (Cons y ys)
    let ?r = "(butlast xs)[0 := last xs]"
    have xs: "xs = y # ys @ [last xs]" using assms Cons by (metis append_Cons append_butlast_last_id)
    have "0 < length ?r" by (simp add: Cons)
    with sink_props [OF this, of le] have "mset (snd (heap_pop le xs)) = mset ?r"
      using assms Cons length_sink [of 0 ?r le] by (simp add: heap_pop_def split_beta)
    then show ?thesis using Cons by (subst (1 3) xs) simp
  qed
qed

section \<open>The order\<close>

definition is_heap :: "('a \<Rightarrow> 'a \<Rightarrow> bool) \<Rightarrow> 'a list \<Rightarrow> bool" where
  "is_heap le xs \<longleftrightarrow> (\<forall>i. 0 < i \<and> i < length xs \<longrightarrow> le (xs ! i) (xs ! parent i))"

text \<open>A heap but for the element at a position: too great for its parent, or too small for its children.\<close>

definition up_heap :: "('a \<Rightarrow> 'a \<Rightarrow> bool) \<Rightarrow> nat \<Rightarrow> 'a list \<Rightarrow> bool" where
  "up_heap le pos xs \<longleftrightarrow> pos < length xs \<and>
     (\<forall>i. 0 < i \<and> i < length xs \<and> i \<noteq> pos \<longrightarrow> le (xs ! i) (xs ! parent i)) \<and>
     (\<forall>i. 0 < pos \<and> 0 < i \<and> i < length xs \<and> parent i = pos \<longrightarrow> le (xs ! i) (xs ! parent pos))"

definition down_heap :: "('a \<Rightarrow> 'a \<Rightarrow> bool) \<Rightarrow> nat \<Rightarrow> 'a list \<Rightarrow> bool" where
  "down_heap le pos xs \<longleftrightarrow> pos < length xs \<and>
     (\<forall>i. 0 < i \<and> i < length xs \<and> i \<noteq> pos \<and> parent i \<noteq> pos \<longrightarrow> le (xs ! i) (xs ! parent i)) \<and>
     (\<forall>i. 0 < pos \<and> 0 < i \<and> i < length xs \<and> parent i = pos \<longrightarrow> le (xs ! i) (xs ! parent pos))"

lemma parent_less: "0 < i \<Longrightarrow> parent i < i"
  by (auto simp: parent_def)

lemma parent_child: "0 < i \<Longrightarrow> parent i = p \<longleftrightarrow> i = 2 * p + 1 \<or> i = 2 * p + 2"
  by (auto simp: parent_def)

locale heap_order =
  fixes ok :: "'a \<Rightarrow> bool" and le :: "'a \<Rightarrow> 'a \<Rightarrow> bool"
  assumes total: "ok a \<Longrightarrow> ok b \<Longrightarrow> le a b \<or> le b a"
    and trans: "ok a \<Longrightarrow> ok b \<Longrightarrow> ok c \<Longrightarrow> le a b \<Longrightarrow> le b c \<Longrightarrow> le a c"
begin

lemma le_refl: "ok a \<Longrightarrow> le a a"
  using total [of a a] by blast

lemma up_step:
  assumes "list_all ok xs" "up_heap le pos xs" "0 < pos" "\<not> le (xs ! pos) (xs ! parent pos)"
  shows "up_heap le (parent pos) (swap_at pos (parent pos) xs)"
proof -
  let ?p = "parent pos"
  let ?ys = "swap_at pos ?p xs"
  have n: "pos < length xs" "?p < pos" "?p < length xs"
    using assms(2) parent_less [OF assms(3)] by (auto simp: up_heap_def)
  have ok: "i < length xs \<Longrightarrow> ok (xs ! i)" for i using assms(1) by (simp add: list_all_length)
  have flip: "le (xs ! ?p) (xs ! pos)" using total [OF ok ok] n assms(4) by blast
  have edge: "le (xs ! i) (xs ! parent i)" if "0 < i" "i < length xs" "i \<noteq> pos" for i
    using assms(2) that by (auto simp: up_heap_def)
  have bridge: "le (xs ! i) (xs ! ?p)" if "0 < i" "i < length xs" "parent i = pos" for i
    using assms(2,3) that by (auto simp: up_heap_def)
  have y: "k < length xs \<Longrightarrow> ?ys ! k = (if k = pos then xs ! ?p else if k = ?p then xs ! pos else xs ! k)" for k
    using nth_swap_at n by blast
  have "le (?ys ! i) (?ys ! parent i)" if i: "0 < i" "i < length xs" "i \<noteq> ?p" for i
  proof -
    have pi: "parent i < length xs" using parent_less [OF i(1)] i(2) by simp
    consider "i = pos" | "i \<noteq> pos" "parent i = pos" | "i \<noteq> pos" "parent i = ?p" | "i \<noteq> pos" "parent i \<noteq> pos" "parent i \<noteq> ?p" by blast
    then show ?thesis
    proof cases
      case 3
      have "le (xs ! i) (xs ! ?p)" using edge [OF i(1,2) 3(1)] 3(2) by simp
      then have "le (xs ! i) (xs ! pos)" using trans [OF ok ok ok _ flip] i n by blast
      then show ?thesis using 3 i n by (simp add: y)
    qed (use i n pi flip edge bridge y in \<open>auto simp: y\<close>)
  qed
  moreover have "le (?ys ! i) (?ys ! parent ?p)" if i: "0 < ?p" "0 < i" "i < length xs" "parent i = ?p" for i
  proof -
    have pp: "parent ?p < ?p" using parent_less [OF i(1)] .
    have top: "le (xs ! ?p) (xs ! parent ?p)" using edge [OF i(1)] n by simp
    have i': "i \<noteq> ?p" using parent_less [OF i(2)] i(4) by simp
    have pl: "parent ?p < length xs" using pp n by simp
    have "le (xs ! i) (xs ! parent ?p)" if "i \<noteq> pos"
      using trans [OF ok ok ok _ top] edge [OF i(2,3) that] i n pl by simp
    then show ?thesis using i i' pp n top pl by (auto simp: y)
  qed
  ultimately show ?thesis using n by (auto simp: up_heap_def)
qed

lemma list_all_swap: "list_all ok xs \<Longrightarrow> i < length xs \<Longrightarrow> j < length xs \<Longrightarrow> list_all ok (swap_at i j xs)"
  by (auto simp: list_all_length nth_swap_at)

lemma sift_up_heap: "list_all ok xs \<Longrightarrow> up_heap le pos xs \<Longrightarrow> is_heap le (sift_up le pos xs)"
proof (induction pos arbitrary: xs rule: less_induct)
  case (less pos)
  show ?case
  proof (cases "pos = 0 \<or> le (xs ! pos) (xs ! parent pos)")
    case True
    then have "sift_up le pos xs = xs" by (auto simp: sift_up.simps [of le pos xs])
    moreover have "is_heap le xs"
      unfolding is_heap_def
    proof (intro allI impI)
      fix i assume "0 < i \<and> i < length xs"
      then show "le (xs ! i) (xs ! parent i)" using less.prems(2) True by (cases "i = pos") (auto simp: up_heap_def)
    qed
    ultimately show ?thesis by simp
  next
    case False
    then have p: "parent pos < pos" "pos < length xs" using parent_less [of pos] less.prems(2) by (auto simp: up_heap_def)
    have "is_heap le (sift_up le (parent pos) (swap_at pos (parent pos) xs))"
      using False p less.prems by (intro less.IH up_step list_all_swap) auto
    then show ?thesis using False by (simp add: sift_up.simps [of le pos xs])
  qed
qed

lemma down_step:
  assumes "list_all ok xs" "down_heap le pos xs" "0 < c" "c < length xs" "parent c = pos"
    and greater: "\<And>i. 0 < i \<Longrightarrow> i < length xs \<Longrightarrow> parent i = pos \<Longrightarrow> le (xs ! i) (xs ! c)"
  shows "down_heap le c (swap_at pos c xs)"
proof -
  let ?ys = "swap_at pos c xs"
  have n: "pos < c" "pos < length xs" using parent_less [OF assms(3)] assms(4,5) by auto
  have edge: "le (xs ! i) (xs ! parent i)" if "0 < i" "i < length xs" "i \<noteq> pos" "parent i \<noteq> pos" for i
    using assms(2) that by (auto simp: down_heap_def)
  have bridge: "le (xs ! i) (xs ! parent pos)" if "0 < pos" "0 < i" "i < length xs" "parent i = pos" for i
    using assms(2) that by (auto simp: down_heap_def)
  have y: "k < length xs \<Longrightarrow> ?ys ! k = (if k = pos then xs ! c else if k = c then xs ! pos else xs ! k)" for k
    using nth_swap_at n assms(4) by blast
  have "le (?ys ! i) (?ys ! parent i)" if i: "0 < i" "i < length xs" "i \<noteq> c" "parent i \<noteq> c" for i
  proof -
    have pi: "parent i < i" "parent i < length xs" using parent_less [OF i(1)] i(2) by auto
    consider "i = pos" | "i \<noteq> pos" "parent i = pos" | "i \<noteq> pos" "parent i \<noteq> pos" by blast
    then show ?thesis
    proof cases
      case 1
      then show ?thesis using bridge [OF _ assms(3,4,5)] i pi n by (simp add: y)
    qed (use i n pi edge greater y in \<open>auto simp: y\<close>)
  qed
  moreover have "le (?ys ! i) (?ys ! parent c)" if i: "0 < i" "i < length xs" "parent i = c" for i
  proof -
    have "c < i" using parent_less [OF i(1)] i(3) by simp
    then show ?thesis using edge [OF i(1,2)] i n assms(4,5) by (simp add: y)
  qed
  ultimately show ?thesis using assms(4) by (auto simp: down_heap_def)
qed

lemma down_leaf: "down_heap le pos xs \<Longrightarrow> length xs \<le> 2 * pos + 1 \<Longrightarrow> up_heap le pos xs"
  by (auto simp: down_heap_def up_heap_def parent_child)

lemma sink_heap:
  "list_all ok xs \<Longrightarrow> down_heap le pos xs \<Longrightarrow> list_all ok (fst (sink le pos xs)) \<and> up_heap le (snd (sink le pos xs)) (fst (sink le pos xs))"
proof (induction "length xs - pos" arbitrary: pos xs rule: less_induct)
  case less
  let ?c = "2 * pos + 1"
  have pos: "pos < length xs" using less.prems(2) by (simp add: down_heap_def)
  have ok: "i < length xs \<Longrightarrow> ok (xs ! i)" for i using less.prems(1) by (simp add: list_all_length)
  consider "?c + 1 < length xs" | "?c + 1 = length xs" | "length xs \<le> ?c" by linarith
  then show ?case
  proof cases
    case 1
    define c where "c = (if le (xs ! ?c) (xs ! (?c + 1)) then ?c + 1 else ?c)"
    have c: "0 < c" "c < length xs" "parent c = pos" "pos < c" using 1 by (auto simp: c_def parent_def)
    have "le (xs ! i) (xs ! c)" if "0 < i" "i < length xs" "parent i = pos" for i
      using that 1 total [OF ok [of ?c] ok [of "?c + 1"]] le_refl [OF ok [of ?c]] le_refl [OF ok [of "?c + 1"]]
      by (auto simp: c_def parent_child)
    then have "down_heap le c (swap_at pos c xs)" using down_step [OF less.prems c(1-3)] by blast
    moreover have "sink le pos xs = sink le c (swap_at pos c xs)"
      using 1 by (simp add: sink.simps [of le pos xs] Let_def c_def)
    ultimately show ?thesis
      using less.hyps [of "swap_at pos c xs" c] list_all_swap [OF less.prems(1) pos c(2)] c pos by auto
  next
    case 2
    have only: "i = ?c" if "0 < i" "i < length xs" "parent i = pos" for i
      using that 2 by (auto simp: parent_child)
    have "down_heap le ?c (swap_at pos ?c xs)"
    proof (rule down_step [OF less.prems])
      show "le (xs ! i) (xs ! ?c)" if "0 < i" "i < length xs" "parent i = pos" for i
        using only [OF that] le_refl [OF ok [OF that(2)]] by simp
    qed (use 2 in \<open>auto simp: parent_def\<close>)
    then have "up_heap le ?c (swap_at pos ?c xs)" using 2 by (intro down_leaf) auto
    then show ?thesis using 2 list_all_swap [OF less.prems(1) pos, of ?c] by (simp add: sink.simps [of le pos xs] Let_def)
  next
    case 3
    then show ?thesis using down_leaf [OF less.prems(2)] less.prems(1) by (simp add: sink.simps [of le pos xs] Let_def)
  qed
qed

lemma push_heap:
  assumes "list_all ok xs" "ok x" "is_heap le xs"
  shows "is_heap le (heap_push le x xs)"
proof -
  have "le ((xs @ [x]) ! i) ((xs @ [x]) ! parent i)" if "0 < i" "i < length xs" for i
    using assms(3) that parent_less [OF that(1)] by (simp add: is_heap_def nth_append)
  then have "up_heap le (length xs) (xs @ [x])" by (auto simp: up_heap_def parent_child)
  then show ?thesis using assms(1,2) by (simp add: heap_push_def sift_up_heap)
qed

lemma pop_heap:
  assumes "list_all ok xs" "is_heap le xs" "xs \<noteq> []"
  shows "is_heap le (snd (heap_pop le xs))"
proof (cases "butlast xs = []")
  case True
  then show ?thesis using assms(3) by (simp add: heap_pop_def is_heap_def)
next
  case False
  let ?r = "(butlast xs)[0 := last xs]"
  have "le (?r ! i) (?r ! parent i)" if "0 < i" "i < length ?r" "parent i \<noteq> 0" for i
    using assms(2) that parent_less [OF that(1)] by (simp add: is_heap_def nth_butlast)
  moreover have "0 < length ?r" using False by (cases "butlast xs") simp_all
  ultimately have "down_heap le 0 ?r" by (auto simp only: down_heap_def less_irrefl)
  moreover have "list_all ok ?r"
    unfolding list_all_length
  proof (intro allI impI)
    fix i assume "i < length ?r"
    then show "ok (?r ! i)" using assms(1,3) by (cases "i = 0") (simp_all add: list_all_length last_conv_nth nth_butlast)
  qed
  ultimately have "list_all ok (fst (sink le 0 ?r)) \<and> up_heap le (snd (sink le 0 ?r)) (fst (sink le 0 ?r))"
    by (intro sink_heap)
  then show ?thesis using False assms(3) by (simp add: heap_pop_def split_beta sift_up_heap)
qed

lemma heap_top:
  assumes "list_all ok xs" "is_heap le xs" "x \<in> set xs"
  shows "le x (hd xs)"
proof -
  have "i < length xs \<Longrightarrow> le (xs ! i) (xs ! 0)" for i
  proof (induction i rule: less_induct)
    case (less i)
    have ok: "j < length xs \<Longrightarrow> ok (xs ! j)" for j using assms(1) by (simp add: list_all_length)
    show ?case
    proof (cases "i = 0")
      case True
      then show ?thesis using le_refl ok less.prems by simp
    next
      case False
      then have p: "parent i < i" using parent_less by simp
      have "le (xs ! i) (xs ! parent i)" "le (xs ! parent i) (xs ! 0)"
        using less.IH [OF p] less.prems False p assms(2) by (auto simp: is_heap_def)
      moreover have "xs \<noteq> []" using less.prems by auto
      ultimately show ?thesis using trans [OF ok ok ok, of i "parent i" 0] less.prems p by simp
    qed
  qed
  then show ?thesis using assms(3) by (metis gr_implies_not0 hd_conv_nth in_set_conv_nth list.size(3))
qed

end

end
