(* ===== verification/Tensor_Stats.thy ===== *)
theory Tensor_Stats
  imports Protocol_Types Binary_Heap
begin

text \<open>
  The statistics of a tensor, \<^verbatim>\<open>crates/rocket-surgeon/src/tensor_stats.rs\<close>. A number is its IEEE 754 bit pattern:
  sign, class, absolute value and order are computed from the bits, the arithmetic and the conversions
  are the record \<open>f64_arith\<close>. A panic is the outer \<^const>\<open>None\<close>: the position of an element is divided by
  each dimension of the shape.
\<close>

section \<open>Numbers\<close>

definition ieee_magnitude :: "f64 \<Rightarrow> nat" where "ieee_magnitude x = unat (take_bit 63 x)"
definition f64_infinity :: f64 where "f64_infinity = 0x7FF0000000000000"
definition f64_neg_infinity :: f64 where "f64_neg_infinity = 0xFFF0000000000000"
definition f64_one :: f64 where "f64_one = 0x3FF0000000000000"

definition ieee_nan :: "f64 \<Rightarrow> bool" where "ieee_nan x \<longleftrightarrow> 0x7FF0000000000000 < ieee_magnitude x"
definition ieee_finite :: "f64 \<Rightarrow> bool" where "ieee_finite x \<longleftrightarrow> ieee_magnitude x < 0x7FF0000000000000"
definition ieee_abs :: "f64 \<Rightarrow> f64" where "ieee_abs x = take_bit 63 x"

text \<open>The order of the numbers, both zeros being equal.\<close>

definition ieee_key :: "f64 \<Rightarrow> int" where
  "ieee_key x = (if bit x 63 then - int (ieee_magnitude x) else int (ieee_magnitude x))"

definition ieee_lt :: "f64 \<Rightarrow> f64 \<Rightarrow> bool" where
  "ieee_lt x y \<longleftrightarrow> \<not> ieee_nan x \<and> \<not> ieee_nan y \<and> ieee_key x < ieee_key y"

record f64_arith =
  fa_add :: "f64 \<Rightarrow> f64 \<Rightarrow> f64"
  fa_sub :: "f64 \<Rightarrow> f64 \<Rightarrow> f64"
  fa_mul :: "f64 \<Rightarrow> f64 \<Rightarrow> f64"
  fa_div :: "f64 \<Rightarrow> f64 \<Rightarrow> f64"
  fa_mul_add :: "f64 \<Rightarrow> f64 \<Rightarrow> f64 \<Rightarrow> f64"
  fa_sqrt :: "f64 \<Rightarrow> f64"
  fa_floor :: "f64 \<Rightarrow> f64"
  fa_of_u64 :: "u64 \<Rightarrow> f64"
  fa_of_int :: "int \<Rightarrow> f64"
  fa_to_usize :: "f64 \<Rightarrow> usize"
  fa_of_f16 :: "u16 \<Rightarrow> f64"
  fa_of_bf16 :: "u16 \<Rightarrow> f64"
  fa_of_f32 :: "u32 \<Rightarrow> f64"

definition NUM_HISTOGRAM_BINS :: nat where "NUM_HISTOGRAM_BINS = 64"
definition SPARSITY_EPSILON :: f64 where "SPARSITY_EPSILON = 0x3E45798EE2308C3A"
definition DEFAULT_TOP_K :: nat where "DEFAULT_TOP_K = 10"

section \<open>The first pass\<close>

record Pass1Result =
  p1_n :: u64
  p1_mean :: f64
  p1_m2 :: f64
  p1_min :: f64
  p1_max :: f64
  p1_abs_max :: f64
  p1_sparse_count :: u64
  p1_nan_count :: u64
  p1_inf_count :: u64
  p1_l2_accum :: f64
  p1_l2_scale :: f64

definition pass1_start :: Pass1Result where
  "pass1_start = \<lparr>p1_n = 0, p1_mean = 0, p1_m2 = 0, p1_min = f64_infinity, p1_max = f64_neg_infinity, p1_abs_max = 0,
     p1_sparse_count = 0, p1_nan_count = 0, p1_inf_count = 0, p1_l2_accum = 0, p1_l2_scale = 0\<rparr>"

definition l2_rescale :: "f64_arith \<Rightarrow> f64 \<Rightarrow> f64 \<times> f64 \<Rightarrow> f64 \<times> f64" where
  "l2_rescale F ax = (\<lambda>(accum, scale).
     if ieee_lt scale ax then
       (if ieee_lt 0 scale then let ratio = fa_div F scale ax in fa_mul F (fa_mul F accum ratio) ratio else accum, ax)
     else (accum, scale))"

definition pass1_step :: "f64_arith \<Rightarrow> Pass1Result \<Rightarrow> f64 \<Rightarrow> Pass1Result" where
  "pass1_step F p x =
     (let p = p\<lparr>p1_n := p1_n p + 1\<rparr> in
      if \<not> ieee_finite x then
        (if ieee_nan x then p\<lparr>p1_nan_count := p1_nan_count p + 1\<rparr> else p\<lparr>p1_inf_count := p1_inf_count p + 1\<rparr>)
      else
        let finite = p1_n p - p1_nan_count p - p1_inf_count p;
            delta = fa_sub F x (p1_mean p);
            mean = fa_add F (p1_mean p) (fa_div F delta (fa_of_u64 F finite));
            delta2 = fa_sub F x mean;
            ax = ieee_abs x;
            (accum, scale) = l2_rescale F ax (p1_l2_accum p, p1_l2_scale p)
        in p\<lparr>p1_mean := mean,
             p1_m2 := fa_add F (p1_m2 p) (fa_mul F delta delta2),
             p1_min := (if ieee_lt x (p1_min p) then x else p1_min p),
             p1_max := (if ieee_lt (p1_max p) x then x else p1_max p),
             p1_abs_max := (if ieee_lt (p1_abs_max p) ax then ax else p1_abs_max p),
             p1_sparse_count := (if ieee_lt ax SPARSITY_EPSILON then p1_sparse_count p + 1 else p1_sparse_count p),
             p1_l2_accum := (if ieee_lt 0 scale
               then let scaled = fa_div F x scale in fa_add F accum (fa_mul F scaled scaled) else accum),
             p1_l2_scale := scale\<rparr>)"

definition compute_pass1 :: "f64_arith \<Rightarrow> f64 list \<Rightarrow> Pass1Result" where
  "compute_pass1 F values = foldl (pass1_step F) pass1_start values"

definition finite_count :: "Pass1Result \<Rightarrow> u64" where
  "finite_count p = p1_n p - p1_nan_count p - p1_inf_count p"

text \<open>\<^verbatim>\<open>f64::min\<close> and \<^verbatim>\<open>f64::max\<close> of accumulators, which are never NaN.\<close>

definition ieee_min :: "f64 \<Rightarrow> f64 \<Rightarrow> f64" where "ieee_min x y = (if ieee_lt y x then y else x)"
definition ieee_max :: "f64 \<Rightarrow> f64 \<Rightarrow> f64" where "ieee_max x y = (if ieee_lt x y then y else x)"

definition ieee_ge :: "f64 \<Rightarrow> f64 \<Rightarrow> bool" where
  "ieee_ge x y \<longleftrightarrow> \<not> ieee_nan x \<and> \<not> ieee_nan y \<and> ieee_key y \<le> ieee_key x"

definition merge_l2 :: "f64_arith \<Rightarrow> Pass1Result \<Rightarrow> Pass1Result \<Rightarrow> f64 \<times> f64" where
  "merge_l2 F a b =
     (if ieee_ge (p1_l2_scale a) (p1_l2_scale b) then
        (if ieee_lt 0 (p1_l2_scale a) \<and> ieee_lt 0 (p1_l2_scale b) then
           let ratio = fa_div F (p1_l2_scale b) (p1_l2_scale a)
           in (p1_l2_scale a, fa_mul_add F (fa_mul F (p1_l2_accum b) ratio) ratio (p1_l2_accum a))
         else (p1_l2_scale a, p1_l2_accum a))
      else if ieee_lt 0 (p1_l2_scale b) \<and> ieee_lt 0 (p1_l2_scale a) then
        let ratio = fa_div F (p1_l2_scale a) (p1_l2_scale b)
        in (p1_l2_scale b, fa_mul_add F (fa_mul F (p1_l2_accum a) ratio) ratio (p1_l2_accum b))
      else (p1_l2_scale b, p1_l2_accum b))"

definition merge_pass1 :: "f64_arith \<Rightarrow> Pass1Result \<Rightarrow> Pass1Result \<Rightarrow> Pass1Result" where
  "merge_pass1 F a b =
     (if p1_n a = 0 then b
      else if p1_n b = 0 then a
      else
        let a_finite = finite_count a; b_finite = finite_count b; total_finite = a_finite + b_finite;
            delta = fa_sub F (p1_mean b) (p1_mean a);
            (mean, m2) =
              (if total_finite = 0 then (0, 0)
               else (fa_mul_add F delta (fa_div F (fa_of_u64 F b_finite) (fa_of_u64 F total_finite)) (p1_mean a),
                     fa_mul_add F (fa_mul F delta delta)
                       (fa_div F (fa_mul F (fa_of_u64 F a_finite) (fa_of_u64 F b_finite)) (fa_of_u64 F total_finite))
                       (fa_add F (p1_m2 a) (p1_m2 b))));
            (l2_scale, l2_accum) = merge_l2 F a b
        in \<lparr>p1_n = p1_n a + p1_n b, p1_mean = mean, p1_m2 = m2, p1_min = ieee_min (p1_min a) (p1_min b),
            p1_max = ieee_max (p1_max a) (p1_max b), p1_abs_max = ieee_max (p1_abs_max a) (p1_abs_max b),
            p1_sparse_count = p1_sparse_count a + p1_sparse_count b, p1_nan_count = p1_nan_count a + p1_nan_count b,
            p1_inf_count = p1_inf_count a + p1_inf_count b, p1_l2_accum = l2_accum, p1_l2_scale = l2_scale\<rparr>)"

section \<open>The second pass\<close>

record TopKHeapEntry =
  tke_abs_value :: f64
  tke_original_value :: f64
  tke_flat_index :: u64

text \<open>The order of \<^verbatim>\<open>Reverse<TopKHeapEntry>\<close>: numbers that do not compare count as equal.\<close>

definition reverse_le :: "TopKHeapEntry \<Rightarrow> TopKHeapEntry \<Rightarrow> bool" where
  "reverse_le a b \<longleftrightarrow> \<not> ieee_lt (tke_abs_value a) (tke_abs_value b)"

definition histogram_bin :: "f64_arith \<Rightarrow> f64 \<Rightarrow> f64 \<Rightarrow> f64 \<Rightarrow> nat" where
  "histogram_bin F range_min width x =
     (if ieee_lt 0 width then
        let frac = fa_div F (fa_sub F x range_min) width;
            bin = fa_to_usize F (fa_floor F (fa_mul F frac (fa_of_u64 F (word_of_nat NUM_HISTOGRAM_BINS))))
        in min (unat bin) (NUM_HISTOGRAM_BINS - 1)
      else NUM_HISTOGRAM_BINS div 2)"

definition heap_step :: "nat \<Rightarrow> TopKHeapEntry \<Rightarrow> TopKHeapEntry list \<Rightarrow> TopKHeapEntry list" where
  "heap_step k entry heap =
     (if length heap < k then heap_push reverse_le entry heap
      else case heap_peek heap of
        None \<Rightarrow> heap
      | Some min_entry \<Rightarrow>
          if ieee_lt (tke_abs_value min_entry) (tke_abs_value entry)
          then heap_push reverse_le entry (snd (heap_pop reverse_le heap))
          else heap)"

fun pass2_loop ::
  "f64_arith \<Rightarrow> f64 \<Rightarrow> f64 \<Rightarrow> nat \<Rightarrow> nat \<Rightarrow> f64 list \<Rightarrow> u64 list \<times> TopKHeapEntry list \<Rightarrow> u64 list \<times> TopKHeapEntry list" where
  "pass2_loop F range_min width k i [] acc = acc"
| "pass2_loop F range_min width k i (x # xs) (counts, heap) =
     pass2_loop F range_min width k (i + 1) xs
       (if ieee_finite x then
          (let bin = histogram_bin F range_min width x in counts[bin := counts ! bin + 1],
           heap_step k \<lparr>tke_abs_value = ieee_abs x, tke_original_value = x, tke_flat_index = word_of_nat i\<rparr> heap)
        else (counts, heap))"

definition histogram_edges :: "f64_arith \<Rightarrow> f64 \<Rightarrow> f64 \<Rightarrow> f64 list" where
  "histogram_edges F range_min width =
     map (\<lambda>i. if ieee_lt 0 width
       then fa_mul_add F width (fa_div F (fa_of_u64 F (word_of_nat i)) (fa_of_u64 F (word_of_nat NUM_HISTOGRAM_BINS))) range_min
       else range_min) [0..<NUM_HISTOGRAM_BINS + 1]"

text \<open>The stable sort by descending absolute value; the entries are finite.\<close>

definition compute_pass2 ::
  "f64_arith \<Rightarrow> f64 list \<Rightarrow> f64 \<Rightarrow> f64 \<Rightarrow> nat \<Rightarrow> u64 list \<times> f64 list \<times> TopKHeapEntry list" where
  "compute_pass2 F values range_min range_max k =
     (let width = fa_sub F range_max range_min in
      case pass2_loop F range_min width k 0 values (replicate NUM_HISTOGRAM_BINS 0, []) of
        (counts, heap) \<Rightarrow>
          (counts, histogram_edges F range_min width, sort_key (\<lambda>e. - ieee_key (tke_abs_value e)) heap))"

section \<open>Decoding\<close>

definition chunks_exact :: "nat \<Rightarrow> bytes \<Rightarrow> bytes list" where
  "chunks_exact n bs = map (\<lambda>i. take n (drop (i * n) bs)) [0..<length bs div n]"

fun decode_values :: "f64_arith \<Rightarrow> bytes \<Rightarrow> dtype \<Rightarrow> f64 list" where
  "decode_values F bs Float16 = map (\<lambda>c. fa_of_f16 F (u16_from_le_bytes c)) (chunks_exact 2 bs)"
| "decode_values F bs Bfloat16 = map (\<lambda>c. fa_of_bf16 F (u16_from_le_bytes c)) (chunks_exact 2 bs)"
| "decode_values F bs Float32 = map (\<lambda>c. fa_of_f32 F (u32_from_le_bytes c)) (chunks_exact 4 bs)"
| "decode_values F bs Float64 = map u64_from_le_bytes (chunks_exact 8 bs)"
| "decode_values F bs Int8 = map (\<lambda>b. fa_of_int F (sint b)) bs"
| "decode_values F bs Int16 = map (\<lambda>c. fa_of_int F (sint (u16_from_le_bytes c))) (chunks_exact 2 bs)"
| "decode_values F bs Int32 = map (\<lambda>c. fa_of_int F (sint (u32_from_le_bytes c))) (chunks_exact 4 bs)"
| "decode_values F bs Int64 = map (\<lambda>c. fa_of_int F (sint (u64_from_le_bytes c))) (chunks_exact 8 bs)"
| "decode_values F bs Uint8 = map (\<lambda>b. fa_of_int F (uint b)) bs"
| "decode_values F bs DBool = map (\<lambda>b. if b \<noteq> 0 then f64_one else 0) bs"

text \<open>From the last dimension to the first; a dimension of zero panics.\<close>

definition flat_index_to_multi :: "u64 \<Rightarrow> u64 list \<Rightarrow> u64 list option" where
  "flat_index_to_multi flat shape =
     (if 0 \<in> set shape then None
      else Some (fst (foldr (\<lambda>d (indices, remaining). (remaining mod d # indices, remaining div d)) shape ([], flat))))"

section \<open>The summary\<close>

definition empty_stats :: tensor_stats where
  "empty_stats = \<lparr>st_mean = 0, st_std = 0, st_min = 0, st_max = 0, st_abs_max = 0, st_sparsity = f64_one, st_l2_norm = 0,
     st_histogram = \<lparr>h_bins = word_of_nat NUM_HISTOGRAM_BINS, h_edges = replicate (NUM_HISTOGRAM_BINS + 1) 0,
       h_counts = replicate NUM_HISTOGRAM_BINS 0\<rparr>\<rparr>"

fun top_entries :: "u64 list \<Rightarrow> TopKHeapEntry list \<Rightarrow> top_k_entry list option" where
  "top_entries shape [] = Some []"
| "top_entries shape (e # es) =
     (case flat_index_to_multi (tke_flat_index e) shape of
        None \<Rightarrow> None
      | Some index \<Rightarrow> map_option (Cons \<lparr>tk_index = index, tk_value = tke_original_value e\<rparr>) (top_entries shape es))"

definition compute_summary :: "f64_arith \<Rightarrow> bytes \<Rightarrow> dtype \<Rightarrow> u64 list \<Rightarrow> (tensor_stats \<times> top_k_entry list) option" where
  "compute_summary F bs dt shape =
     (let values = decode_values F bs dt in
      if values = [] then Some (empty_stats, [])
      else let p1 = compute_pass1 F values; n = finite_count p1 in
        if n = 0 then Some (empty_stats, [])
        else
          let variance = (if 1 < n then fa_div F (p1_m2 p1) (fa_of_u64 F n) else 0);
              sparsity = fa_div F (fa_of_u64 F (p1_sparse_count p1)) (fa_of_u64 F n);
              l2_norm = (if ieee_lt 0 (p1_l2_scale p1) then fa_mul F (p1_l2_scale p1) (fa_sqrt F (p1_l2_accum p1)) else 0)
          in case compute_pass2 F values (p1_min p1) (p1_max p1) (min DEFAULT_TOP_K (unat n)) of
               (counts, edges, top_k) \<Rightarrow>
                 map_option (\<lambda>top.
                   (\<lparr>st_mean = p1_mean p1, st_std = fa_sqrt F variance, st_min = p1_min p1, st_max = p1_max p1,
                     st_abs_max = p1_abs_max p1, st_sparsity = sparsity, st_l2_norm = l2_norm,
                     st_histogram = \<lparr>h_bins = word_of_nat NUM_HISTOGRAM_BINS, h_edges = edges, h_counts = counts\<rparr>\<rparr>, top))
                   (top_entries shape top_k))"

lemma top_entries_None: "top_entries shape ts = None \<longleftrightarrow> ts \<noteq> [] \<and> 0 \<in> set shape"
  by (induction ts) (auto simp: flat_index_to_multi_def split: option.splits)

lemma compute_summary_None: "compute_summary F bs dt shape = None \<Longrightarrow> 0 \<in> set shape"
  by (auto simp: compute_summary_def Let_def top_entries_None split: if_splits prod.splits)

end
