(* ===== verification/Tensor_Store.thy ===== *)
theory Tensor_Store
  imports Tensor_Stats "HOL-Library.AList"
begin

text \<open>
  The daemon's content-addressed tensor cache, \<^verbatim>\<open>crates/rocket-surgeon/src/tensor_store.rs\<close>: bounded
  by a number of entries and a number of bytes, evicting the least recently used tensor. The hash map
  is an association list with distinct keys in some iteration order. The BLAKE3 hash in hex is
  an argument of the operation that uses it. The \<^verbatim>\<open>Instant\<close> fields are written and never read, and are left out.
\<close>

definition DEFAULT_MAX_ENTRIES :: usize where "DEFAULT_MAX_ENTRIES = 1024"
definition DEFAULT_MAX_BYTES :: usize where "DEFAULT_MAX_BYTES = 2 * 1024 * 1024 * 1024"

datatype store_error = StoreNotFound string | StoreSliceOutOfBounds u64 u64 u64

type_synonym summary_data = "tensor_stats \<times> top_k_entry list"

record stored_tensor =
  sto_tensor_id :: string
  sto_shape :: "u64 list"
  sto_dtype :: dtype
  sto_device :: string
  sto_data :: bytes
  sto_summary :: "summary_data option"
  sto_gen :: u64

record tensor_store =
  te_entries :: "(string \<times> stored_tensor) list"
  te_generation :: u64
  te_max_entries :: usize
  te_max_bytes :: usize
  te_current_bytes :: usize

definition TensorStore_with_limits :: "usize \<Rightarrow> usize \<Rightarrow> tensor_store" where
  "TensorStore_with_limits max_entries max_bytes = \<lparr>te_entries = [], te_generation = 0,
     te_max_entries = max_entries, te_max_bytes = max_bytes, te_current_bytes = 0\<rparr>"

definition TensorStore_new :: tensor_store where
  "TensorStore_new = TensorStore_with_limits DEFAULT_MAX_ENTRIES DEFAULT_MAX_BYTES"

definition data_len :: "bytes \<Rightarrow> usize" where "data_len d = word_of_nat (length d)"

text \<open>\<^verbatim>\<open>get_mut\<close> with the access bookkeeping that every successful lookup performs.\<close>

definition touch :: "string \<Rightarrow> tensor_store \<Rightarrow> tensor_store" where
  "touch tid st = st\<lparr>
     te_entries := map (\<lambda>(k, e). (k, if k = tid then e\<lparr>sto_gen := te_generation st\<rparr> else e)) (te_entries st),
     te_generation := te_generation st + 1\<rparr>"

text \<open>\<^verbatim>\<open>min_by_key\<close> yields the first of several minimal elements.\<close>

fun oldest_id :: "(string \<times> stored_tensor) list \<Rightarrow> (string \<times> u64) option" where
  "oldest_id [] = None"
| "oldest_id ((k, e) # es) = (case oldest_id es of
     None \<Rightarrow> Some (k, sto_gen e)
   | Some (k', g) \<Rightarrow> if sto_gen e \<le> g then Some (k, sto_gen e) else Some (k', g))"

definition evict_oldest :: "tensor_store \<Rightarrow> tensor_store" where
  "evict_oldest st = (case oldest_id (te_entries st) of
     None \<Rightarrow> st
   | Some (k, _) \<Rightarrow>
      (case map_of (te_entries st) k of
         None \<Rightarrow> st
       | Some removed \<Rightarrow> st\<lparr>te_entries := AList.delete k (te_entries st),
           te_current_bytes := te_current_bytes st - data_len (sto_data removed)\<rparr>))"

definition needs_eviction :: "usize \<Rightarrow> tensor_store \<Rightarrow> bool" where
  "needs_eviction len st \<longleftrightarrow> te_entries st \<noteq> []
     \<and> (length (te_entries st) \<ge> unat (te_max_entries st)
        \<or> te_current_bytes st + len > te_max_bytes st)"

lemma map_of_oldest: "oldest_id es = Some (k, g) \<Longrightarrow> map_of es k \<noteq> None"
  by (induction es arbitrary: k g rule: oldest_id.induct)
     (auto split: option.splits if_splits)

lemma oldest_id_None: "oldest_id es = None \<longleftrightarrow> es = []"
  by (cases es rule: oldest_id.cases) (auto split: option.splits if_splits)

lemma length_delete_less: "map_of es k = Some e \<Longrightarrow> length (AList.delete k es) < length es"
proof (induction es)
  case (Cons a es)
  have "length (AList.delete k es) \<le> length es" by (rule length_delete_le)
  with Cons show ?case by (cases a) (auto split: if_splits)
qed simp

lemma evict_oldest_shrinks:
  "te_entries st \<noteq> [] \<Longrightarrow> length (te_entries (evict_oldest st)) < length (te_entries st)"
  using map_of_oldest [of "te_entries st"] oldest_id_None [of "te_entries st"] length_delete_less
  by (auto simp: evict_oldest_def split: option.splits)

function make_room :: "usize \<Rightarrow> tensor_store \<Rightarrow> tensor_store" where
  "make_room len st = (if needs_eviction len st then make_room len (evict_oldest st) else st)"
  by pat_completeness auto
termination
  by (relation "measure (\<lambda>(len, st). length (te_entries st))")
     (auto simp: needs_eviction_def evict_oldest_shrinks)

declare make_room.simps [simp del]

definition insert_with_id ::
  "string \<Rightarrow> bytes \<Rightarrow> u64 list \<Rightarrow> dtype \<Rightarrow> string \<Rightarrow> tensor_store \<Rightarrow> tensor_handle \<times> tensor_store" where
  "insert_with_id tid d sh dt device st = (case map_of (te_entries st) tid of
     Some existing \<Rightarrow>
       (\<lparr>th_tensor_id = tid, th_shape = sto_shape existing, th_dtype = sto_dtype existing\<rparr>, touch tid st)
   | None \<Rightarrow>
       let st' = make_room (data_len d) st;
           e = \<lparr>sto_tensor_id = tid, sto_shape = sh, sto_dtype = dt, sto_device = device, sto_data = d,
                sto_summary = None, sto_gen = te_generation st'\<rparr>
       in (\<lparr>th_tensor_id = tid, th_shape = sh, th_dtype = dt\<rparr>,
           st'\<lparr>te_entries := AList.update tid e (te_entries st'),
               te_generation := te_generation st' + 1,
               te_current_bytes := te_current_bytes st' + data_len d\<rparr>))"

definition store_insert ::
  "(bytes \<Rightarrow> string) \<Rightarrow> bytes \<Rightarrow> u64 list \<Rightarrow> dtype \<Rightarrow> string \<Rightarrow> tensor_store \<Rightarrow> tensor_handle \<times> tensor_store" where
  "store_insert hash_hex d sh dt device st = insert_with_id (hash_hex d) d sh dt device st"

definition store_get :: "string \<Rightarrow> tensor_store \<Rightarrow> stored_tensor option \<times> tensor_store" where
  "store_get tid st = (case map_of (te_entries st) tid of
     None \<Rightarrow> (None, st)
   | Some e \<Rightarrow> (Some (e\<lparr>sto_gen := te_generation st\<rparr>), touch tid st))"

definition store_contains :: "string \<Rightarrow> tensor_store \<Rightarrow> bool" where
  "store_contains tid st = (map_of (te_entries st) tid \<noteq> None)"

definition store_ids :: "tensor_store \<Rightarrow> string list" where "store_ids st = map fst (te_entries st)"

definition raw_data :: "string \<Rightarrow> tensor_store \<Rightarrow> bytes option \<times> tensor_store" where
  "raw_data tid st = (case map_of (te_entries st) tid of
     None \<Rightarrow> (None, st)
   | Some e \<Rightarrow> (Some (sto_data e), touch tid st))"

text \<open>A summary is computed once; computing it can panic.\<close>

definition summarize :: "f64_arith \<Rightarrow> string \<Rightarrow> tensor_store \<Rightarrow> (tensor_summary option \<times> tensor_store) option" where
  "summarize F tid st = (case map_of (te_entries st) tid of
     None \<Rightarrow> Some (None, st)
   | Some e \<Rightarrow>
      (case (case sto_summary e of None \<Rightarrow> compute_summary F (sto_data e) (sto_dtype e) (sto_shape e) | Some x \<Rightarrow> Some x) of
         None \<Rightarrow> None
       | Some sm \<Rightarrow>
           let st' = touch tid st;
               st' = st'\<lparr>te_entries :=
                       map (\<lambda>(k, e). (k, if k = tid then e\<lparr>sto_summary := Some sm\<rparr> else e)) (te_entries st')\<rparr>
           in Some (Some \<lparr>sum_tensor_id = sto_tensor_id e, sum_shape = sto_shape e, sum_dtype = sto_dtype e,
                sum_device = sto_device e, sum_sharding = None, sum_stats = fst sm, sum_top_k = snd sm\<rparr>, st')))"

definition store_slice :: "string \<Rightarrow> u64 \<Rightarrow> u64 \<Rightarrow> tensor_store \<Rightarrow> (store_error, bytes) result \<times> tensor_store" where
  "store_slice tid off len st = (case map_of (te_entries st) tid of
     None \<Rightarrow> (Err (StoreNotFound tid), st)
   | Some e \<Rightarrow>
      let st' = touch tid st; dl = data_len (sto_data e) in
      if (case checked_add off len of None \<Rightarrow> True | Some e \<Rightarrow> e > dl)
      then (Err (StoreSliceOutOfBounds off len dl), st')
      else (Ok (read_at (unat off) (unat len) (sto_data e)), st'))"

end
