(* ===== verification/Tensor_Store_Lru.thy ===== *)
theory Tensor_Store_Lru
  imports Tensor_Store Lru_Spec
begin

text \<open>
  The tensor store refines the list cache of \<open>Lru_Spec\<close>: sorted by access generation, its entries are
  that list, and every operation commutes with the abstraction. Byte lengths stay below \<open>2 ^ 63\<close>, as
  the standard library guarantees for a \<^verbatim>\<open>Vec\<close>.
\<close>

section \<open>Invariant and abstraction\<close>

definition entry_gen :: "string \<times> stored_tensor \<Rightarrow> u64" where "entry_gen x = sto_gen (snd x)"

definition by_age :: "(string \<times> stored_tensor) list \<Rightarrow> (string \<times> stored_tensor) list" where
  "by_age es = sort_key entry_gen es"

definition entry_bytes :: "(string \<times> stored_tensor) list \<Rightarrow> nat" where
  "entry_bytes es = (\<Sum>x\<leftarrow>es. length (sto_data (snd x)))"

definition store_abs :: "tensor_store \<Rightarrow> (string \<times> bytes) list" where
  "store_abs st = map (\<lambda>x. (fst x, sto_data (snd x))) (by_age (te_entries st))"

definition store_inv :: "tensor_store \<Rightarrow> bool" where
  "store_inv st \<longleftrightarrow>
     distinct (map fst (te_entries st)) \<and> distinct (map entry_gen (te_entries st))
     \<and> (\<forall>x \<in> set (te_entries st). entry_gen x < te_generation st \<and> sto_tensor_id (snd x) = fst x)
     \<and> unat (te_current_bytes st) = entry_bytes (te_entries st)
     \<and> (entry_bytes (te_entries st) \<le> unat (te_max_bytes st) \<or> length (te_entries st) \<le> 1)
     \<and> entry_bytes (te_entries st) < 2 ^ 63 \<and> unat (te_max_bytes st) < 2 ^ 63
     \<and> length (te_entries st) \<le> max (unat (te_max_entries st)) 1"

definition vec_ok :: "bytes \<Rightarrow> bool" where "vec_ok d \<longleftrightarrow> length d < 2 ^ 63"

text \<open>Accesses are counted in 64 bits; the counter has room for one more.\<close>

definition gen_room :: "tensor_store \<Rightarrow> bool" where
  "gen_room st \<longleftrightarrow> unat (te_generation st) + 1 < 2 ^ 64"

lemma store_invD:
  assumes "store_inv st"
  shows "distinct (map fst (te_entries st))" "distinct (map entry_gen (te_entries st))"
    "\<And>x. x \<in> set (te_entries st) \<Longrightarrow> entry_gen x < te_generation st"
    "\<And>x. x \<in> set (te_entries st) \<Longrightarrow> sto_tensor_id (snd x) = fst x"
    "unat (te_current_bytes st) = entry_bytes (te_entries st)"
    "entry_bytes (te_entries st) < 2 ^ 63" "unat (te_max_bytes st) < 2 ^ 63"
  using assms by (auto simp: store_inv_def)

lemma inj_on_entry_gen: "store_inv st \<Longrightarrow> inj_on entry_gen (set (te_entries st))"
  using store_invD(2) by (auto simp: distinct_map)

lemma map_of_store_abs:
  assumes "store_inv st"
  shows "map_of (store_abs st) k = map_option sto_data (map_of (te_entries st) k)"
proof -
  let ?f = "\<lambda>x :: string \<times> stored_tensor. (fst x, sto_data (snd x))"
  have m: "map_of (map ?f xs) k = map_option sto_data (map_of xs k)" for xs
    by (induction xs) auto
  have "map_of (by_age (te_entries st)) = map_of (te_entries st)"
  proof (rule map_of_inject_set [THEN iffD2])
    show "distinct (map fst (by_age (te_entries st)))"
      using store_invD(1) [OF assms] by (simp add: by_age_def distinct_map)
  qed (use store_invD(1) [OF assms] in \<open>simp_all add: by_age_def\<close>)
  then show ?thesis by (simp add: store_abs_def m)
qed

lemma length_store_abs [simp]: "length (store_abs st) = length (te_entries st)"
  by (simp add: store_abs_def by_age_def)

lemma entry_bytes_cong: "mset xs = mset ys \<Longrightarrow> entry_bytes xs = entry_bytes ys"
  by (metis entry_bytes_def mset_map sum_mset_sum_list)

lemma bytes_store_abs: "(\<Sum>y\<leftarrow>store_abs st. length (snd y)) = entry_bytes (te_entries st)"
proof -
  have "(\<Sum>y\<leftarrow>store_abs st. length (snd y)) = entry_bytes (by_age (te_entries st))"
    by (simp add: store_abs_def entry_bytes_def comp_def)
  also have "\<dots> = entry_bytes (te_entries st)"
    by (rule entry_bytes_cong) (simp add: by_age_def)
  finally show ?thesis .
qed

section \<open>Eviction\<close>

lemma oldest_id_min:
  "oldest_id es = Some (k, g) \<Longrightarrow>
   \<exists>e. (k, e) \<in> set es \<and> sto_gen e = g \<and> (\<forall>x \<in> set es. g \<le> entry_gen x)"
proof (induction es arbitrary: k g rule: oldest_id.induct)
  case (2 k1 e1 es)
  show ?case
  proof (cases "oldest_id es")
    case None
    then have "es = []" by (simp add: oldest_id_None)
    with 2(2) show ?thesis by (simp add: entry_gen_def)
  next
    case (Some a)
    obtain k' g' where a: "a = (k', g')" by (cases a)
    with 2(1) [of k' g'] Some obtain e' where e': "(k', e') \<in> set es" "sto_gen e' = g'"
      "\<forall>x \<in> set es. g' \<le> entry_gen x" by auto
    show ?thesis
    proof (cases "sto_gen e1 \<le> g'")
      case True
      then have "k = k1" "g = sto_gen e1" using 2(2) Some a by simp_all
      moreover have "g' \<le> entry_gen x" if "x \<in> set es" for x using e'(3) that by simp
      ultimately show ?thesis
        using True by (intro exI [of _ e1]) (auto simp: entry_gen_def intro: order_trans)
    next
      case False
      then have "k = k'" "g = g'" using 2(2) Some a by simp_all
      then show ?thesis using False e' by (auto simp: entry_gen_def intro: less_imp_le)
    qed
  qed
qed simp

lemma by_age_Cons_min:
  assumes "distinct (map fst es)" "inj_on entry_gen (set es)" "(k, e) \<in> set es"
    and "\<forall>x \<in> set es. sto_gen e \<le> entry_gen x"
  shows "by_age es = (k, e) # by_age (AList.delete k es)"
proof -
  have del: "AList.delete k es = filter (\<lambda>x. fst x \<noteq> k) es"
    by (auto simp: AList.delete_eq intro!: filter_cong)
  have single: "filter (\<lambda>x. fst x = k) es = [(k, e)]"
    using assms(1,3)
  proof (induction es)
    case (Cons x xs)
    show ?case
    proof (cases "fst x = k")
      case True
      then have notin: "k \<notin> fst ` set xs" using Cons.prems(1) by auto
      moreover have "(k, e) \<notin> set xs" using notin by (metis fst_conv imageI)
      ultimately have "x = (k, e)" using Cons.prems(2) by simp
      moreover have "filter (\<lambda>x. fst x = k) xs = []" using notin by (auto simp: filter_empty_conv)
      ultimately show ?thesis by simp
    next
      case False
      then show ?thesis using Cons by auto
    qed
  qed simp
  have "mset ((k, e) # by_age (AList.delete k es)) = mset (filter (\<lambda>x. fst x = k) es) + mset (filter (\<lambda>x. fst x \<noteq> k) es)"
    by (simp add: by_age_def del single)
  also have "\<dots> = mset es" using multiset_partition [of "mset es" "\<lambda>x. fst x = k"] by simp
  finally have m: "mset ((k, e) # by_age (AList.delete k es)) = mset es" .
  have "sorted (map entry_gen ((k, e) # by_age (AList.delete k es)))"
    using assms(4) by (auto simp: by_age_def del entry_gen_def)
  then show ?thesis
    unfolding by_age_def [of es] using m assms(2) by (intro sort_key_unique)
qed

lemma entry_bytes_delete:
  assumes "distinct (map fst es)" "map_of es k = Some e"
  shows "entry_bytes es = length (sto_data e) + entry_bytes (AList.delete k es)"
  using assms
proof (induction es)
  case (Cons x xs)
  then show ?case
    by (cases x) (auto simp: entry_bytes_def split: if_splits)
qed simp

lemma set_delete: "set (AList.delete k es) \<subseteq> set es"
  by (auto simp: AList.delete_eq)

lemma distinct_delete: "distinct (map f es) \<Longrightarrow> distinct (map f (AList.delete k es))"
  by (auto simp: AList.delete_eq distinct_map intro: inj_on_subset)

text \<open>One eviction removes the head of the abstract list and keeps the invariant.\<close>

lemma evict_oldest_props:
  assumes inv: "store_inv st" and ne: "te_entries st \<noteq> []"
  shows "store_inv (evict_oldest st)" "store_abs (evict_oldest st) = tl (store_abs st)"
    "te_generation (evict_oldest st) = te_generation st"
    "te_max_entries (evict_oldest st) = te_max_entries st"
    "te_max_bytes (evict_oldest st) = te_max_bytes st"
proof -
  obtain k g where old: "oldest_id (te_entries st) = Some (k, g)"
    using ne oldest_id_None by (cases "oldest_id (te_entries st)") auto
  from oldest_id_min [OF this] obtain e where e: "(k, e) \<in> set (te_entries st)" "sto_gen e = g"
    "\<forall>x \<in> set (te_entries st). sto_gen e \<le> entry_gen x" by blast
  have mo: "map_of (te_entries st) k = Some e"
    using e(1) store_invD(1) [OF inv] by (simp add: map_of_is_SomeI)
  have ev: "evict_oldest st = st\<lparr>te_entries := AList.delete k (te_entries st),
      te_current_bytes := te_current_bytes st - data_len (sto_data e)\<rparr>"
    by (simp add: evict_oldest_def old mo)
  then show "te_generation (evict_oldest st) = te_generation st"
    "te_max_entries (evict_oldest st) = te_max_entries st"
    "te_max_bytes (evict_oldest st) = te_max_bytes st" by simp_all
  have eb: "entry_bytes (te_entries st) = length (sto_data e) + entry_bytes (AList.delete k (te_entries st))"
    by (rule entry_bytes_delete [OF store_invD(1) [OF inv] mo])
  have dl: "unat (data_len (sto_data e)) = length (sto_data e)"
    using eb store_invD(6) [OF inv] by (simp add: data_len_def unat_of_nat)
  have cur: "unat (te_current_bytes st - data_len (sto_data e)) = entry_bytes (AList.delete k (te_entries st))"
    using eb store_invD(5) [OF inv] dl by (subst unat_sub) (simp_all add: word_le_nat_alt)
  have len: "length (AList.delete k (te_entries st)) < length (te_entries st)"
    by (rule length_delete_less [OF mo])
  show "store_inv (evict_oldest st)"
    using inv eb cur len set_delete [of k "te_entries st"]
    by (auto simp: store_inv_def ev distinct_delete)
  have "by_age (te_entries st) = (k, e) # by_age (AList.delete k (te_entries st))"
    using e store_invD(1) [OF inv] inj_on_entry_gen [OF inv] by (intro by_age_Cons_min) auto
  then show "store_abs (evict_oldest st) = tl (store_abs st)"
    by (simp add: store_abs_def ev)
qed

lemma needs_eviction_abs:
  assumes inv: "store_inv st" and d: "vec_ok d"
  shows "needs_eviction (data_len d) st \<longleftrightarrow> store_abs st \<noteq> []
    \<and> (unat (te_max_entries st) \<le> length (store_abs st)
       \<or> unat (te_max_bytes st) < (\<Sum>y\<leftarrow>store_abs st. length (snd y)) + length d)"
proof -
  have "unat (te_current_bytes st + data_len d) = entry_bytes (te_entries st) + length d"
    using store_invD(5,6) [OF inv] d
    by (subst unat_add_no_wrap) (auto simp: data_len_def unat_of_nat vec_ok_def)
  moreover have "store_abs st = [] \<longleftrightarrow> te_entries st = []"
    by (metis length_0_conv length_store_abs)
  ultimately show ?thesis
    by (simp add: needs_eviction_def bytes_store_abs word_less_nat_alt)
qed

lemma make_room_props:
  assumes "store_inv st" "vec_ok d"
  shows "store_inv (make_room (data_len d) st)
    \<and> store_abs (make_room (data_len d) st) =
        lru_room (unat (te_max_entries st)) (unat (te_max_bytes st)) (length d) (store_abs st)
    \<and> te_generation (make_room (data_len d) st) = te_generation st
    \<and> te_max_entries (make_room (data_len d) st) = te_max_entries st
    \<and> te_max_bytes (make_room (data_len d) st) = te_max_bytes st"
  using assms(1)
proof (induction "length (te_entries st)" arbitrary: st rule: less_induct)
  case less
  show ?case
  proof (cases "needs_eviction (data_len d) st")
    case True
    then have ne: "te_entries st \<noteq> []" by (simp add: needs_eviction_def)
    note ev = evict_oldest_props [OF less.prems ne]
    have "store_abs st \<noteq> []" using ne by (metis length_0_conv length_store_abs)
    then obtain x xs where xs: "store_abs st = x # xs" by (cases "store_abs st") auto
    have "lru_room (unat (te_max_entries st)) (unat (te_max_bytes st)) (length d) (store_abs st) =
        lru_room (unat (te_max_entries st)) (unat (te_max_bytes st)) (length d) (tl (store_abs st))"
      using True needs_eviction_abs [OF less.prems assms(2)] by (simp add: xs)
    moreover have "make_room (data_len d) st = make_room (data_len d) (evict_oldest st)"
      using True by (subst make_room.simps) simp
    ultimately show ?thesis
      using less.hyps [OF evict_oldest_shrinks [OF ne] ev(1)] ev by simp
  next
    case False
    then have "lru_room (unat (te_max_entries st)) (unat (te_max_bytes st)) (length d) (store_abs st)
        = store_abs st"
      using needs_eviction_abs [OF less.prems assms(2)] by (cases "store_abs st") auto
    moreover have "make_room (data_len d) st = st" using False by (subst make_room.simps) simp
    ultimately show ?thesis using less.prems by simp
  qed
qed

section \<open>Accesses and insertions\<close>

lemma unat_Suc_gen: "gen_room st \<Longrightarrow> unat (te_generation st + 1) = unat (te_generation st) + 1"
  by (simp add: gen_room_def unat_add_no_wrap)

lemma gen_less_Suc: "gen_room st \<Longrightarrow> g \<le> te_generation st \<Longrightarrow> g < te_generation st + 1"
  by (simp add: word_less_nat_alt word_le_nat_alt unat_Suc_gen)

lemma by_age_append_newest:
  assumes "inj_on entry_gen (set es)" "\<forall>y \<in> set es. entry_gen y < entry_gen x"
  shows "by_age (es @ [x]) = by_age es @ [x]"
  unfolding by_age_def
proof (rule sort_key_unique)
  show "sorted (map entry_gen (sort_key entry_gen es @ [x]))"
    using assms(2) by (auto simp: sorted_append intro: less_imp_le)
  show "inj_on entry_gen (set (es @ [x]))"
    using assms by (auto simp: inj_on_insert)
qed simp

lemma split_at_key:
  assumes "distinct (map fst es)" "map_of es k = Some e"
  shows "mset es = mset (filter (\<lambda>x. fst x \<noteq> k) es @ [(k, e)])"
  using assms
proof (induction es)
  case (Cons x xs)
  show ?case
  proof (cases "fst x = k")
    case True
    then have "k \<notin> fst ` set xs" using Cons.prems(1) by auto
    then have "filter (\<lambda>x. fst x \<noteq> k) xs = xs" by (auto simp: filter_id_conv)
    then show ?thesis using True Cons.prems(2) by (cases x) simp
  next
    case False
    then show ?thesis using Cons by (cases x) auto
  qed
qed simp

lemma touch_entries:
  assumes inv: "store_inv st" and mo: "map_of (te_entries st) k = Some e"
  defines "e' \<equiv> e\<lparr>sto_gen := te_generation st\<rparr>"
  shows "by_age (te_entries (touch k st)) = filter (\<lambda>x. fst x \<noteq> k) (by_age (te_entries st)) @ [(k, e')]"
    and "mset (te_entries (touch k st)) = mset (filter (\<lambda>x. fst x \<noteq> k) (te_entries st) @ [(k, e')])"
proof -
  let ?es = "te_entries st"
  let ?up = "\<lambda>(j, x). (j, if j = k then x\<lparr>sto_gen := te_generation st\<rparr> else x)"
  let ?old = "filter (\<lambda>x. fst x \<noteq> k) ?es"
  have keep: "map ?up ?old = ?old"
    by (rule map_idI) auto
  have "mset (te_entries (touch k st)) = image_mset ?up (mset (?old @ [(k, e)]))"
    by (simp only: touch_def split_at_key [OF store_invD(1) [OF inv] mo, symmetric]) simp
  also have "\<dots> = mset (map ?up ?old @ [(k, e')])" by (simp add: e'_def)
  finally show m: "mset (te_entries (touch k st)) = mset (?old @ [(k, e')])"
    unfolding keep .
  have new: "\<forall>y \<in> set ?old. entry_gen y < entry_gen (k, e')"
    using store_invD(3) [OF inv] by (auto simp: entry_gen_def e'_def)
  have inj: "inj_on entry_gen (set ?old)"
    using inj_on_entry_gen [OF inv] by (rule inj_on_subset) auto
  have "by_age (te_entries (touch k st)) = by_age (?old @ [(k, e')])"
    unfolding by_age_def
  proof (rule sort_key_unique)
    show "mset (sort_key entry_gen (?old @ [(k, e')])) = mset (te_entries (touch k st))"
      using m by simp
    have "set (te_entries (touch k st)) = set (?old @ [(k, e')])"
      using m by (metis set_mset_mset)
    then show "inj_on entry_gen (set (te_entries (touch k st)))"
      using inj new by (auto simp: inj_on_insert) (metis less_irrefl)
  qed simp
  also have "\<dots> = by_age ?old @ [(k, e')]" by (rule by_age_append_newest [OF inj new])
  also have "by_age ?old = filter (\<lambda>x. fst x \<noteq> k) (by_age ?es)"
    by (simp add: by_age_def filter_sort)
  finally show "by_age (te_entries (touch k st)) = filter (\<lambda>x. fst x \<noteq> k) (by_age ?es) @ [(k, e')]" .
qed

lemma store_abs_touch:
  assumes inv: "store_inv st" and mo: "map_of (te_entries st) k = Some e"
  shows "store_abs (touch k st) = lru_access k (store_abs st)"
proof -
  have "map_of (store_abs st) k = Some (sto_data e)" by (simp add: map_of_store_abs [OF inv] mo)
  then show ?thesis
    by (simp add: store_abs_def touch_entries(1) [OF inv mo] lru_access_def filter_map comp_def)
qed

lemma distinct_mset_cong: "mset xs = mset ys \<Longrightarrow> distinct (map f xs) \<longleftrightarrow> distinct (map f ys)"
  by (metis mset_eq_imp_distinct_iff mset_map)

lemma touch_fields:
  "te_current_bytes (touch k st) = te_current_bytes st" "te_max_bytes (touch k st) = te_max_bytes st"
  "te_max_entries (touch k st) = te_max_entries st" "te_generation (touch k st) = te_generation st + 1"
  "length (te_entries (touch k st)) = length (te_entries st)"
  "map fst (te_entries (touch k st)) = map fst (te_entries st)"
  by (simp_all add: touch_def case_prod_beta)

lemma touch_bytes: "entry_bytes (te_entries (touch k st)) = entry_bytes (te_entries st)"
proof -
  let ?up = "\<lambda>(j, y). (j, if j = k then y\<lparr>sto_gen := te_generation st\<rparr> else y)"
  have "length (sto_data (snd (?up x))) = length (sto_data (snd x))" for x :: "string \<times> stored_tensor"
    by (cases x) simp
  moreover have "te_entries (touch k st) = map ?up (te_entries st)" by (simp add: touch_def)
  ultimately show ?thesis by (simp only: entry_bytes_def map_map comp_def)
qed

lemma touch_gens:
  assumes inv: "store_inv st" and mo: "map_of (te_entries st) k = Some e"
  shows "distinct (map entry_gen (te_entries (touch k st)))"
proof -
  let ?old = "filter (\<lambda>x. fst x \<noteq> k) (te_entries st)" and ?e = "e\<lparr>sto_gen := te_generation st\<rparr>"
  have less: "entry_gen x < te_generation st" if "x \<in> set ?old" for x
    using that store_invD(3) [OF inv, of x] by simp
  have "te_generation st \<notin> entry_gen ` set ?old"
  proof
    assume "te_generation st \<in> entry_gen ` set ?old"
    then obtain x where "x \<in> set ?old" "te_generation st = entry_gen x" by (rule imageE)
    with less [of x] show False by simp
  qed
  moreover have "entry_gen (k, ?e) = te_generation st" by (simp add: entry_gen_def)
  moreover have "distinct (map entry_gen ?old)" using store_invD(2) [OF inv] by (simp add: distinct_map_filter)
  ultimately have "distinct (map entry_gen (?old @ [(k, ?e)]))"
    unfolding map_append distinct_append by simp
  then show ?thesis
    by (simp only: distinct_mset_cong [OF touch_entries(2) [OF inv mo], where f = entry_gen])
qed

lemma touch_member:
  assumes inv: "store_inv st" and mo: "map_of (te_entries st) k = Some e" and room: "gen_room st"
    and x: "x \<in> set (te_entries (touch k st))"
  shows "entry_gen x < te_generation st + 1 \<and> sto_tensor_id (snd x) = fst x"
proof -
  let ?up = "\<lambda>(j, y). (j, if j = k then y\<lparr>sto_gen := te_generation st\<rparr> else y)"
  have "te_entries (touch k st) = map ?up (te_entries st)" by (simp add: touch_def)
  then have "x \<in> ?up ` set (te_entries st)" using x by (simp only: set_map)
  then obtain j y where y: "(j, y) \<in> set (te_entries st)" "x = ?up (j, y)" by fast
  have "entry_gen x \<le> te_generation st"
    using store_invD(3) [OF inv y(1)] by (auto simp: y(2) entry_gen_def)
  moreover have "fst x = j" "sto_tensor_id (snd x) = sto_tensor_id y" by (simp_all add: y(2))
  ultimately show ?thesis using gen_less_Suc [OF room] store_invD(4) [OF inv y(1)] by simp
qed

lemma touch_inv:
  assumes inv: "store_inv st" and mo: "map_of (te_entries st) k = Some e" and room: "gen_room st"
  shows "store_inv (touch k st)"
  using inv touch_gens [OF inv mo] touch_member [OF inv mo room]
  unfolding store_inv_def touch_fields touch_bytes by simp

lemma update_fresh: "k \<notin> fst ` set al \<Longrightarrow> AList.update k v al = al @ [(k, v)]"
  by (induction al) auto

text \<open>Insertion of a tensor that is not there yet: room is made, then the newest entry is appended.\<close>

lemma insert_new:
  fixes sh :: "u64 list" and dt :: dtype and dev :: string
  assumes inv: "store_inv st" and none: "map_of (te_entries st) k = None" and d: "vec_ok d"
    and room: "gen_room st"
  defines "st' \<equiv> snd (insert_with_id k d sh dt dev st)"
  shows "store_inv st'"
    and "store_abs st' = lru_room (unat (te_max_entries st)) (unat (te_max_bytes st)) (length d) (store_abs st)
           @ [(k, d)]"
proof -
  let ?r = "make_room (data_len d) st"
  let ?e = "\<lparr>sto_tensor_id = k, sto_shape = sh, sto_dtype = dt, sto_device = dev, sto_data = d,
    sto_summary = None, sto_gen = te_generation ?r\<rparr>"
  note mr = make_room_props [OF inv d]
  have rinv: "store_inv ?r" and gen: "te_generation ?r = te_generation st" using mr by auto
  have "\<exists>ys. store_abs st = ys @ store_abs ?r"
    using mr lru_room_suffix by metis
  then have "set (store_abs ?r) \<subseteq> set (store_abs st)" by auto
  moreover have "map_of (store_abs st) k = None" using none by (simp add: map_of_store_abs [OF inv])
  ultimately have "map_of (store_abs ?r) k = None" by (auto simp: map_of_eq_None_iff)
  then have none': "map_of (te_entries ?r) k = None" by (simp add: map_of_store_abs [OF rinv])
  then have fresh: "k \<notin> fst ` set (te_entries ?r)" by (simp add: map_of_eq_None_iff)
  then have upd: "AList.update k ?e (te_entries ?r) = te_entries ?r @ [(k, ?e)]"
    by (simp add: update_fresh)
  have st': "st' = ?r\<lparr>te_entries := te_entries ?r @ [(k, ?e)], te_generation := te_generation ?r + 1,
      te_current_bytes := te_current_bytes ?r + data_len d\<rparr>"
    by (simp add: st'_def insert_with_id_def none Let_def upd)
  have newest: "\<forall>y \<in> set (te_entries ?r). entry_gen y < entry_gen (k, ?e)"
    using store_invD(3) [OF rinv] by (simp add: entry_gen_def)
  have "store_abs st' = store_abs ?r @ [(k, d)]"
    using by_age_append_newest [OF inj_on_entry_gen [OF rinv] newest] by (simp add: store_abs_def st')
  then show "store_abs st' = lru_room (unat (te_max_entries st)) (unat (te_max_bytes st)) (length d) (store_abs st)
      @ [(k, d)]" using mr by simp
  have bound: "te_entries ?r = [] \<or> length (te_entries ?r) < unat (te_max_entries st)
      \<and> entry_bytes (te_entries ?r) + length d \<le> unat (te_max_bytes st)"
    using lru_room_bounds [of "unat (te_max_entries st)" "unat (te_max_bytes st)" "length d" "store_abs st"]
      mr bytes_store_abs [of ?r] length_store_abs [of ?r] by (metis length_0_conv)
  have small: "entry_bytes (te_entries ?r) + length d < 2 ^ 63"
    using bound d store_invD(7) [OF inv] by (auto simp: vec_ok_def entry_bytes_def)
  have cur: "unat (te_current_bytes ?r + data_len d) = entry_bytes (te_entries ?r) + length d"
    using store_invD(5) [OF rinv] small
    by (subst unat_add_no_wrap) (auto simp: data_len_def unat_of_nat)
  have eb: "entry_bytes (te_entries ?r @ [(k, ?e)]) = entry_bytes (te_entries ?r) + length d"
    by (simp add: entry_bytes_def)
  have g: "entry_gen x < te_generation st + 1" if "x \<in> set (te_entries ?r @ [(k, ?e)])" for x
    using that store_invD(3) [OF rinv, of x] gen_less_Suc [OF room less_imp_le] gen_less_Suc [OF room order_refl] gen
    by (auto simp: entry_gen_def)
  have "distinct (map entry_gen (te_entries ?r @ [(k, ?e)]))"
    using store_invD(2) [OF rinv] newest by auto
  moreover have "distinct (map fst (te_entries ?r @ [(k, ?e)]))"
    using store_invD(1) [OF rinv] fresh by simp
  moreover have "length (te_entries ?r @ [(k, ?e)]) \<le> max (unat (te_max_entries st)) 1"
    "entry_bytes (te_entries ?r @ [(k, ?e)]) \<le> unat (te_max_bytes st) \<or> length (te_entries ?r @ [(k, ?e)]) \<le> 1"
    using bound eb by auto
  ultimately show "store_inv st'"
    using rinv mr eb cur small g store_invD(4) [OF rinv] by (simp add: store_inv_def st' gen)
qed

section \<open>Lookups\<close>

text \<open>
  The part of the invariant that does not depend on the access counter, and survives even its
  wrap-around: distinct keys, exact byte accounting and the two bounds.
\<close>

definition store_ok :: "tensor_store \<Rightarrow> bool" where
  "store_ok st \<longleftrightarrow> distinct (map fst (te_entries st))
     \<and> (\<forall>x \<in> set (te_entries st). sto_tensor_id (snd x) = fst x)
     \<and> unat (te_current_bytes st) = entry_bytes (te_entries st)
     \<and> (entry_bytes (te_entries st) \<le> unat (te_max_bytes st) \<or> length (te_entries st) \<le> 1)
     \<and> entry_bytes (te_entries st) < 2 ^ 63 \<and> unat (te_max_bytes st) < 2 ^ 63
     \<and> length (te_entries st) \<le> max (unat (te_max_entries st)) 1"

lemma store_inv_ok: "store_inv st \<Longrightarrow> store_ok st"
  by (simp add: store_inv_def store_ok_def)

type_synonym tensor_value = "bytes \<times> u64 list \<times> dtype \<times> string"

definition tensor_value :: "stored_tensor \<Rightarrow> tensor_value" where
  "tensor_value e = (sto_data e, sto_shape e, sto_dtype e, sto_device e)"

definition store_lookup :: "tensor_store \<Rightarrow> string \<Rightarrow> tensor_value option" where
  "store_lookup st k = map_option tensor_value (map_of (te_entries st) k)"

definition put_tensor :: "string \<Rightarrow> tensor_value \<Rightarrow> tensor_store \<Rightarrow> tensor_store" where
  "put_tensor k v st = (case v of (d, sh, dt, dev) \<Rightarrow> snd (insert_with_id k d sh dt dev st))"

lemma map_of_delete_other:
  "map_of (AList.delete k es) j = (if j = k then None else map_of es j)"
  by (simp add: AList.delete_conv')

lemma evict_oldest_ok:
  assumes ok: "store_ok st" and ne: "te_entries st \<noteq> []"
  shows "store_ok (evict_oldest st)"
    "map_of (te_entries (evict_oldest st)) j \<in> {None, map_of (te_entries st) j}"
    "te_max_bytes (evict_oldest st) = te_max_bytes st" "te_max_entries (evict_oldest st) = te_max_entries st"
proof -
  obtain k g where old: "oldest_id (te_entries st) = Some (k, g)"
    using ne oldest_id_None by (cases "oldest_id (te_entries st)") auto
  then obtain e where k: "oldest_id (te_entries st) = Some (k, g)" "map_of (te_entries st) k = Some e"
    using map_of_oldest [OF old] by auto
  then have ev: "evict_oldest st = st\<lparr>te_entries := AList.delete k (te_entries st),
      te_current_bytes := te_current_bytes st - data_len (sto_data e)\<rparr>"
    by (simp add: evict_oldest_def)
  then show "te_max_bytes (evict_oldest st) = te_max_bytes st"
    "te_max_entries (evict_oldest st) = te_max_entries st"
    "map_of (te_entries (evict_oldest st)) j \<in> {None, map_of (te_entries st) j}"
    by (simp_all add: map_of_delete_other)
  have keys: "distinct (map fst (te_entries st))" and cur: "unat (te_current_bytes st) = entry_bytes (te_entries st)"
    and small: "entry_bytes (te_entries st) < 2 ^ 63"
    using ok by (simp_all add: store_ok_def)
  note eb = entry_bytes_delete [OF keys k(2)]
  have "unat (te_current_bytes st - data_len (sto_data e)) = entry_bytes (AList.delete k (te_entries st))"
    using eb cur small by (subst unat_sub) (simp_all add: word_le_nat_alt data_len_def unat_of_nat)
  moreover have "\<forall>x \<in> set (AList.delete k (te_entries st)). sto_tensor_id (snd x) = fst x"
    using ok set_delete [of k "te_entries st"] unfolding store_ok_def by (meson subsetD)
  moreover have "entry_bytes (AList.delete k (te_entries st)) \<le> unat (te_max_bytes st)
      \<or> length (AList.delete k (te_entries st)) \<le> 1"
    "length (AList.delete k (te_entries st)) \<le> max (unat (te_max_entries st)) 1"
    using ok eb length_delete_less [OF k(2)] unfolding store_ok_def by linarith+
  ultimately show "store_ok (evict_oldest st)"
    using ok eb distinct_delete [OF keys] by (simp add: store_ok_def ev)
qed

lemma make_room_ok:
  assumes "store_ok st" "vec_ok d"
  shows "store_ok (make_room (data_len d) st)
    \<and> map_of (te_entries (make_room (data_len d) st)) j \<in> {None, map_of (te_entries st) j}
    \<and> \<not> needs_eviction (data_len d) (make_room (data_len d) st)
    \<and> te_max_bytes (make_room (data_len d) st) = te_max_bytes st
    \<and> te_max_entries (make_room (data_len d) st) = te_max_entries st"
  using assms(1)
proof (induction "length (te_entries st)" arbitrary: st rule: less_induct)
  case less
  show ?case
  proof (cases "needs_eviction (data_len d) st")
    case True
    then have ne: "te_entries st \<noteq> []" by (simp add: needs_eviction_def)
    have "make_room (data_len d) st = make_room (data_len d) (evict_oldest st)"
      using True by (subst make_room.simps) simp
    then show ?thesis
      using less.hyps [OF evict_oldest_shrinks [OF ne] evict_oldest_ok(1) [OF less.prems ne]]
        evict_oldest_ok(2) [OF less.prems ne, of j] evict_oldest_ok(3,4) [OF less.prems ne] by auto
  next
    case False
    moreover have "make_room (data_len d) st = st" using False by (subst make_room.simps) simp
    ultimately show ?thesis using less.prems by simp
  qed
qed

lemma fits_after_room:
  assumes ok: "store_ok st" and d: "vec_ok d" and no: "\<not> needs_eviction (data_len d) st"
  shows "te_entries st = [] \<or> length (te_entries st) < unat (te_max_entries st)
      \<and> entry_bytes (te_entries st) + length d \<le> unat (te_max_bytes st)"
proof -
  have "unat (te_current_bytes st + data_len d) = entry_bytes (te_entries st) + length d"
    using ok d by (subst unat_add_no_wrap) (auto simp: store_ok_def data_len_def unat_of_nat vec_ok_def)
  then show ?thesis using no by (auto simp: needs_eviction_def word_less_nat_alt)
qed

lemma insert_fresh_ok:
  assumes ok: "store_ok st" and d: "vec_ok d" and none: "map_of (te_entries st) k = None"
    and no: "\<not> needs_eviction (data_len d) st" and e: "sto_data e = d" "sto_tensor_id e = k"
  shows "store_ok (st\<lparr>te_entries := AList.update k e (te_entries st), te_generation := g,
    te_current_bytes := te_current_bytes st + data_len d\<rparr>)"
proof -
  have fresh: "k \<notin> fst ` set (te_entries st)" using none by (simp add: map_of_eq_None_iff)
  note fit = fits_after_room [OF ok d no]
  have eb: "entry_bytes (te_entries st @ [(k, e)]) = entry_bytes (te_entries st) + length d"
    by (simp add: entry_bytes_def e)
  have small: "entry_bytes (te_entries st) + length d < 2 ^ 63"
    using fit ok d by (auto simp: store_ok_def vec_ok_def entry_bytes_def)
  then have "unat (te_current_bytes st + data_len d) = entry_bytes (te_entries st) + length d"
    using ok by (subst unat_add_no_wrap) (auto simp: store_ok_def data_len_def unat_of_nat)
  then show ?thesis
    using ok fresh eb small fit e by (auto simp: store_ok_def update_fresh)
qed

lemma touch_ok: "store_ok st \<Longrightarrow> store_ok (touch k st)"
  unfolding store_ok_def touch_fields touch_bytes by (auto simp: touch_def)

lemma map_of_touch:
  "map_of (te_entries (touch k st)) j =
     (if j = k then map_option (\<lambda>e. e\<lparr>sto_gen := te_generation st\<rparr>) (map_of (te_entries st) j)
      else map_of (te_entries st) j)"
proof -
  have "map_of (map (\<lambda>(i, e). (i, if i = k then e\<lparr>sto_gen := g\<rparr> else e)) es) j =
      (if j = k then map_option (\<lambda>e. e\<lparr>sto_gen := g\<rparr>) (map_of es j) else map_of es j)"
    for es :: "(string \<times> stored_tensor) list" and g
    by (induction es) auto
  then show ?thesis by (simp add: touch_def)
qed

lemma store_lookup_touch: "store_lookup (touch k st) j = store_lookup st j"
  by (simp add: store_lookup_def map_of_touch option.map_comp comp_def tensor_value_def [abs_def])

lemma put_tensor_ok:
  assumes ok: "store_ok st" and d: "vec_ok (fst v)"
  shows "store_ok (put_tensor k v st)"
    and "store_lookup (put_tensor k v st) k = Some (case store_lookup st k of None \<Rightarrow> v | Some v' \<Rightarrow> v')"
    and "j \<noteq> k \<Longrightarrow> store_lookup (put_tensor k v st) j \<in> {None, store_lookup st j}"
proof -
  obtain b sh dt dev where v: "v = (b, sh, dt, dev)" by (cases v)
  have "store_ok (put_tensor k v st)
    \<and> store_lookup (put_tensor k v st) k = Some (case store_lookup st k of None \<Rightarrow> v | Some v' \<Rightarrow> v')
    \<and> (j \<noteq> k \<longrightarrow> store_lookup (put_tensor k v st) j \<in> {None, store_lookup st j})"
  proof (cases "map_of (te_entries st) k")
    case (Some e)
    then have p: "put_tensor k v st = touch k st" by (simp add: put_tensor_def v insert_with_id_def)
    have "store_lookup st k = Some (tensor_value e)" by (simp add: store_lookup_def Some)
    then show ?thesis using touch_ok [OF ok] by (simp add: p store_lookup_touch)
  next
    case None
    let ?r = "make_room (data_len b) st"
    let ?e = "\<lparr>sto_tensor_id = k, sto_shape = sh, sto_dtype = dt, sto_device = dev, sto_data = b,
      sto_summary = None, sto_gen = te_generation ?r\<rparr>"
    have vb: "vec_ok b" using d by (simp add: v)
    note mr = make_room_ok [OF ok vb]
    have rnone: "map_of (te_entries ?r) k = None" using mr [of k] None by auto
    have p: "put_tensor k v st = ?r\<lparr>te_entries := AList.update k ?e (te_entries ?r),
        te_generation := te_generation ?r + 1, te_current_bytes := te_current_bytes ?r + data_len b\<rparr>"
      by (simp add: put_tensor_def v insert_with_id_def None Let_def)
    have "store_ok (put_tensor k v st)"
      unfolding p using mr [of k] by (intro insert_fresh_ok [OF _ vb rnone]) auto
    moreover have ent: "map_of (te_entries (put_tensor k v st)) i =
        (if i = k then Some ?e else map_of (te_entries ?r) i)" for i
      by (simp add: p update_conv')
    ultimately show ?thesis
      using mr [of j] unfolding store_lookup_def ent None by (auto simp: tensor_value_def v)
  qed
  then show "store_ok (put_tensor k v st)"
    and "store_lookup (put_tensor k v st) k = Some (case store_lookup st k of None \<Rightarrow> v | Some v' \<Rightarrow> v')"
    and "j \<noteq> k \<Longrightarrow> store_lookup (put_tensor k v st) j \<in> {None, store_lookup st j}"
    by blast+
qed

interpretation tensors: content_store store_ok "\<lambda>v. vec_ok (fst v)" store_lookup put_tensor
proof
  fix s and d :: tensor_value and k j :: string
  assume s: "store_ok s" "vec_ok (fst d)"
  show "store_ok (put_tensor k d s)" by (rule put_tensor_ok(1) [OF s])
  show "store_lookup (put_tensor k d s) k = Some (case store_lookup s k of None \<Rightarrow> d | Some d' \<Rightarrow> d')"
    by (rule put_tensor_ok(2) [OF s])
  assume "j \<noteq> k"
  then show "store_lookup (put_tensor k d s) j = store_lookup s j \<or> store_lookup (put_tensor k d s) j = None"
    using put_tensor_ok(3) [OF s, of j k] by auto
qed

text \<open>Inserting a sequence of tensors.\<close>

fun put_all :: "(string \<times> tensor_value) list \<Rightarrow> tensor_store \<Rightarrow> tensor_store" where
  "put_all [] st = st"
| "put_all ((k, v) # ops) st = put_all ops (put_tensor k v st)"

lemma put_all_eq: "put_all ops st = tensors.insert_all ops st"
  by (induction ops st rule: put_all.induct) simp_all

lemma store_ok_new: "unat max_bytes < 2 ^ 63 \<Longrightarrow> store_ok (TensorStore_with_limits n max_bytes)"
  by (simp add: store_ok_def TensorStore_with_limits_def entry_bytes_def)

lemma store_inv_new: "unat max_bytes < 2 ^ 63 \<Longrightarrow> store_inv (TensorStore_with_limits n max_bytes)"
  by (simp add: store_inv_def TensorStore_with_limits_def entry_bytes_def)

lemma put_all_limits:
  assumes "store_ok st" "\<forall>(k, v) \<in> set ops. vec_ok (fst v)"
  shows "store_ok (put_all ops st)"
  unfolding put_all_eq using assms by (intro tensors.insert_all_inv) auto

lemma make_room_limits: "te_max_entries (make_room len st) = te_max_entries st \<and> te_max_bytes (make_room len st) = te_max_bytes st"
proof (induction len st rule: make_room.induct)
  case (1 len st)
  have "te_max_entries (evict_oldest st) = te_max_entries st \<and> te_max_bytes (evict_oldest st) = te_max_bytes st"
    by (simp add: evict_oldest_def split: option.split)
  with 1 show ?case by (simp add: make_room.simps [of len st])
qed

lemma put_all_bounds: "te_max_entries (put_all ops st) = te_max_entries st \<and> te_max_bytes (put_all ops st) = te_max_bytes st"
proof (induction ops arbitrary: st)
  case (Cons x ops)
  have "te_max_entries (put_tensor k v st) = te_max_entries st \<and> te_max_bytes (put_tensor k v st) = te_max_bytes st" for k v
    using make_room_limits
    by (auto simp: put_tensor_def insert_with_id_def touch_def Let_def split: option.split prod.split)
  with Cons show ?case by (cases x) simp
qed simp

section \<open>Properties\<close>

text \<open>C2: Inserting a tensor is insertion into a least-recently-used cache: ordered by last access, the
  store after \<^verbatim>\<open>insert_with_id\<close> is the list cache after \<^const>\<open>lru_insert\<close> (a known id is moved to the
  young end and its content kept; a new one first drops the oldest entries until both limits hold).\<close>

theorem insert_refines_lru:
  assumes "store_inv st" "vec_ok d" "gen_room st"
  shows "store_inv (snd (insert_with_id k d sh dt dev st)) \<and>
    store_abs (snd (insert_with_id k d sh dt dev st)) =
      lru_insert (unat (te_max_entries st)) (unat (te_max_bytes st)) k d (store_abs st)"
proof (cases "map_of (te_entries st) k")
  case None
  then show ?thesis
    using insert_new [OF assms(1) None assms(2,3)] map_of_store_abs [OF assms(1), of k]
    by (simp add: lru_insert_def)
next
  case (Some e)
  then show ?thesis
    using touch_inv [OF assms(1) Some assms(3)] store_abs_touch [OF assms(1) Some]
      map_of_store_abs [OF assms(1), of k]
    by (simp add: lru_insert_def insert_with_id_def)
qed

theorem insert_refines_lru_witness:
  "store_abs (snd (insert_with_id ''a'' [1, 2] [2] Uint8 ''cpu'' (TensorStore_with_limits 2 8))) =
     lru_insert 2 8 ''a'' [1, 2] []"
proof -
  have "store_abs (TensorStore_with_limits 2 8) = []"
    by (simp add: store_abs_def by_age_def TensorStore_with_limits_def)
  moreover have "vec_ok [1, 2]" "gen_room (TensorStore_with_limits 2 8)"
    by (simp_all add: vec_ok_def gen_room_def TensorStore_with_limits_def)
  ultimately show ?thesis
    using insert_refines_lru [OF store_inv_new [of 8 2], of "[1, 2]" "''a''" "[2]" Uint8 "''cpu''"]
    by (simp add: TensorStore_with_limits_def)
qed

text \<open>C9: From an empty store with limits of \<open>n\<close> entries and \<open>max_bytes\<close> bytes, below half the address space, after any sequence of
  insertions: the cached byte counter equals the bytes held; there are at most \<open>n\<close> entries, or one when
  \<open>n\<close> is zero; the bytes held are at most \<open>max_bytes\<close>, unless the store holds a single tensor that is larger
  than the limit by itself; and whatever is found under an id is a tensor inserted under that id.\<close>

theorem store_history_sound:
  assumes "unat max_bytes < 2 ^ 63" "\<forall>(k, v) \<in> set ops. vec_ok (fst v)"
    and "st = put_all ops (TensorStore_with_limits n max_bytes)"
  shows "unat (te_current_bytes st) = (\<Sum>x\<leftarrow>te_entries st. length (sto_data (snd x)))
    \<and> length (te_entries st) \<le> max (unat n) 1
    \<and> (unat (te_current_bytes st) \<le> unat max_bytes \<or>
         (\<exists>k e. te_entries st = [(k, e)] \<and> unat max_bytes < length (sto_data e)))
    \<and> (\<forall>k v. store_lookup st k = Some v \<longrightarrow> (k, v) \<in> set ops)"
proof -
  note ok = store_ok_new [OF assms(1), of n]
  have inv: "store_ok st" unfolding assms(3) by (rule put_all_limits [OF ok assms(2)])
  have lim: "te_max_entries st = n" "te_max_bytes st = max_bytes"
    using put_all_bounds [of ops "TensorStore_with_limits n max_bytes"] by (simp_all add: assms(3) TensorStore_with_limits_def)
  have bytes: "unat (te_current_bytes st) = (\<Sum>x\<leftarrow>te_entries st. length (sto_data (snd x)))"
    and few: "unat (te_current_bytes st) \<le> unat max_bytes \<or> length (te_entries st) \<le> 1"
    and "length (te_entries st) \<le> max (unat n) 1"
    using inv lim by (auto simp: store_ok_def entry_bytes_def)
  moreover have "\<exists>k e. te_entries st = [(k, e)] \<and> unat max_bytes < length (sto_data e)"
    if "\<not> unat (te_current_bytes st) \<le> unat max_bytes"
  proof (cases "te_entries st")
    case (Cons x xs)
    then have "te_entries st = [x]" using few that by (cases xs) auto
    then show ?thesis using bytes that by (cases x) simp
  qed (use bytes that in simp)
  moreover have "(k, v) \<in> set ops" if "store_lookup st k = Some v" for k v
  proof -
    have "store_lookup (TensorStore_with_limits n max_bytes) k = None"
      by (simp add: store_lookup_def TensorStore_with_limits_def)
    then show ?thesis
      using tensors.insert_all_provenance [OF ok assms(2), of k v] that by (auto simp: assms(3) put_all_eq)
  qed
  ultimately show ?thesis by blast
qed

definition demo_puts :: "(string \<times> tensor_value) list" where
  "demo_puts = [(''a'', [1, 2, 3], [3], Uint8, ''cpu''), (''b'', [4, 5], [2], Uint8, ''cpu''),
     (''c'', [6, 7, 8], [3], Uint8, ''cpu'')]"

theorem store_history_sound_witness:
  "unat (te_current_bytes (put_all demo_puts (TensorStore_with_limits 2 5))) =
     (\<Sum>x\<leftarrow>te_entries (put_all demo_puts (TensorStore_with_limits 2 5)). length (sto_data (snd x)))"
proof -
  have "\<forall>(k, v) \<in> set demo_puts. vec_ok (fst v)" by (simp add: demo_puts_def vec_ok_def)
  from store_history_sound [OF _ this refl, of 5 2] show ?thesis by simp
qed

text \<open>A slice request on a stored tensor either lies inside its data, and returns exactly those bytes,
  or is refused as out of bounds, also when offset plus length overflows 64 bits; the store's contents
  do not change.\<close>

theorem store_slice_exact:
  assumes "store_ok st" "map_of (te_entries st) tid = Some e"
  shows "(if unat off + unat len \<le> length (sto_data e)
          then fst (store_slice tid off len st) = Ok (take (unat len) (drop (unat off) (sto_data e)))
          else fst (store_slice tid off len st) =
            Err (StoreSliceOutOfBounds off len (word_of_nat (length (sto_data e)))))
    \<and> (\<forall>k. store_lookup (snd (store_slice tid off len st)) k = store_lookup st k)"
proof -
  have "length (sto_data e) \<le> entry_bytes (te_entries st)"
    using assms entry_bytes_delete [of "te_entries st" tid e] by (simp add: store_ok_def)
  then have small: "length (sto_data e) < 2 ^ 63" using assms(1) by (simp add: store_ok_def)
  then have dl: "unat (data_len (sto_data e)) = length (sto_data e)"
    by (simp add: data_len_def unat_of_nat)
  have "(case checked_add off len of None \<Rightarrow> True | Some e' \<Rightarrow> e' > data_len (sto_data e)) \<longleftrightarrow>
      \<not> unat off + unat len \<le> length (sto_data e)"
    using small dl by (auto simp: checked_add_def word_less_nat_alt unat_add_no_wrap)
  moreover have "word_of_nat (length (sto_data e)) = data_len (sto_data e)" by (simp add: data_len_def)
  ultimately show ?thesis
    using assms(2) by (auto simp: store_slice_def Let_def read_at_def store_lookup_touch)
qed

theorem store_slice_exact_witness:
  "fst (store_slice ''a'' 1 2 (put_tensor ''a'' ([1, 2, 3], [3], Uint8, ''cpu'') (TensorStore_with_limits 2 5)))
     = Ok [2, 3]"
proof -
  let ?st = "put_tensor ''a'' ([1, 2, 3], [3], Uint8, ''cpu'') (TensorStore_with_limits 2 5)"
  let ?e = "\<lparr>sto_tensor_id = ''a'', sto_shape = [3], sto_dtype = Uint8, sto_device = ''cpu'',
    sto_data = [1, 2, 3], sto_summary = None, sto_gen = 0\<rparr>"
  have ok: "store_ok ?st"
    using put_tensor_ok(1) [OF store_ok_new [of 5 2]] by (simp add: vec_ok_def)
  have "map_of (te_entries ?st) ''a'' = Some ?e"
    by (simp add: put_tensor_def insert_with_id_def TensorStore_with_limits_def make_room.simps
        needs_eviction_def Let_def)
  from store_slice_exact [OF ok this, of 1 2] show ?thesis by simp
qed

end
