(* ===== verification/Inspect.thy ===== *)
theory Inspect
  imports Dispatch Ring_Channel Tensor_Store_Lru
begin

text \<open>
  \<^verbatim>\<open>rocket/inspect\<close>: the tensor data path. The worker publishes captured tensors into the shared-memory
  ring (\<^verbatim>\<open>try_shm_publish\<close> in \<^verbatim>\<open>crates/rocket-surgeon-worker/src/dispatch.rs\<close>); the daemon reads them by
  absolute offset, stores and summarizes them and releases the slots (\<^verbatim>\<open>handle_inspect\<close> and
  \<^verbatim>\<open>ingest_and_respond\<close> in \<^verbatim>\<open>crates/rocket-surgeon/src/dispatch.rs\<close>). Base64, BLAKE3 and the summary
  statistics are arguments.
\<close>

section \<open>The worker's side\<close>

record mapped_component =
  mc_module_path :: string
  mc_canonical :: string
  mc_layer_index :: "u32 option"

definition shape_array :: "u64 list \<Rightarrow> u32 list" where
  "shape_array sh = map ucast (take 8 sh) @ replicate (8 - length (take 8 sh)) 0"

definition frame_header :: "u32 \<Rightarrow> u64 list \<Rightarrow> bytes \<Rightarrow> u64 \<Rightarrow> bytes" where
  "frame_header lay sh d maketic = serialize_probe_frame 0 lay 0 0 (word_of_nat (min (length sh) 8))
     (shape_array sh) 0 0 (word_of_nat (length d)) 0 (ucast (maketic AND 0xFFFFFFFF))"

definition try_shm_publish ::
  "bytes \<Rightarrow> string \<Rightarrow> mapped_component \<Rightarrow> u64 list \<Rightarrow> string \<Rightarrow> string \<Rightarrow> producer option \<Rightarrow> bytes
   \<Rightarrow> (captured_tensor option \<times> producer option \<times> bytes) option" where
  "try_shm_publish d tensor_id mcomp sh dt device shm_ring mem = (case shm_ring of
     None \<Rightarrow> Some (None, None, mem)
   | Some p \<Rightarrow>
      (case publish (frame_header (unwrap_or (mc_layer_index mcomp) 0) sh d (p_maketic p)) d p mem of
         None \<Rightarrow> None
       | Some (Inl e, p', mem') \<Rightarrow> Some (None, Some p', mem')
       | Some (Inr slot_maketic, p', mem') \<Rightarrow>
           Some (Some \<lparr>ct_module_path = mc_module_path mcomp, ct_canonical = mc_canonical mcomp,
              ct_layer = unwrap_or (mc_layer_index mcomp) 0, ct_shape = sh, ct_dtype = dt,
              ct_device = device, ct_tensor_id = tensor_id,
              ct_shm_name = Some (reg_name (p_region p')),
              ct_shm_offset = Some (slot_offset (p_config p') slot_maketic),
              ct_byte_length = Some (word_of_nat (length d)), ct_data_base64 = None\<rparr>,
              Some p', mem')))"

section \<open>The daemon's side\<close>

text \<open>\<^verbatim>\<open>Display\<close> of the shared-memory errors, with the text of an operating-system error as an argument.\<close>

definition shm_error_text :: "(int \<Rightarrow> string) \<Rightarrow> shm_error \<Rightarrow> string" where
  "shm_error_text io e = (case e of
     NotPowerOfTwo n \<Rightarrow> ''backuptics ('' @ show_u32 n @ '') must be a power of two and > 0''
   | InvalidConfig s \<Rightarrow> ''invalid configuration: '' @ s
   | OpenError name err \<Rightarrow> ''shm_open failed for '' @ sq @ name @ sq @ '': '' @ io err
   | MmapError err \<Rightarrow> ''mmap failed: '' @ io err
   | TruncateError err \<Rightarrow> ''ftruncate failed: '' @ io err
   | UnlinkError name err \<Rightarrow> ''shm_unlink failed for '' @ sq @ name @ sq @ '': '' @ io err
   | OutOfBounds off len rs \<Rightarrow> ''offset '' @ show_u64 off @ '' + length '' @ show_u64 len
       @ '' exceeds region size '' @ show_u64 rs
   | ReadOutOfBounds off len cap \<Rightarrow> ''read out of bounds: offset '' @ show_u64 off @ '' + length ''
       @ show_u64 len @ '' exceeds capacity '' @ show_u64 cap
   | Unaligned off al \<Rightarrow> ''offset '' @ show_u64 off @ '' is not '' @ show_u64 al @ ''-byte aligned''
   | BadMagic bs \<Rightarrow> ''magic mismatch: expected DOOMRING, got ['' @ join_with '', '' (map (show_nat \<circ> unat) bs) @ '']''
   | BadVersion ex got \<Rightarrow> ''version mismatch: expected '' @ show_u32 ex @ '', got '' @ show_u32 got
   | RingFull mt nt cap \<Rightarrow> ''ring full: maketic='' @ show_u64 mt @ '', nettics='' @ show_u64 nt
       @ '', capacity='' @ show_u32 cap
   | TensorTooLarge sz cap \<Rightarrow> ''tensor size '' @ show_u64 sz @ '' exceeds slot data capacity '' @ show_u64 cap
   | NameTooLong name ml \<Rightarrow> ''shm name '' @ sq @ name @ sq @ '' exceeds max length '' @ show_u64 ml
   | RegionTooSmall ex ac \<Rightarrow> ''region size mismatch: expected at least '' @ show_u64 ex @ '', got '' @ show_u64 ac
   | StaleSlot ex ac \<Rightarrow> ''stale slot: expected generation '' @ show_u32 ex @ '', got '' @ show_u32 ac)"

record ingest_env =
  ie_io :: "int \<Rightarrow> string"
  ie_hash :: "bytes \<Rightarrow> string"
  ie_arith :: f64_arith
  ie_decode :: "string \<Rightarrow> (string, bytes) result"
  ie_encode :: "bytes \<Rightarrow> string"

definition read_from_shm ::
  "(int \<Rightarrow> string) \<Rightarrow> consumer option \<Rightarrow> bytes \<Rightarrow> u64 \<Rightarrow> u64 \<Rightarrow> (string, bytes) result" where
  "read_from_shm io co mem shm_offset byte_length = (case co of
     None \<Rightarrow> Err ''shm consumer not available''
   | Some c \<Rightarrow>
      let data_start = shm_offset + PROBE_FRAME_HEADER_SIZE in
      (case read_absolute c data_start (unat byte_length) mem of
         Inl e \<Rightarrow> Err (''shm read at offset '' @ show_u64 data_start @ '': '' @ shm_error_text io e)
       | Inr bs \<Rightarrow> Ok bs))"

definition parse_dtype :: "string \<Rightarrow> dtype option" where
  "parse_dtype s =
     (if s = ''float16'' then Some Float16 else if s = ''bfloat16'' then Some Bfloat16
      else if s = ''float32'' then Some Float32 else if s = ''float64'' then Some Float64
      else if s = ''int8'' then Some Int8 else if s = ''int16'' then Some Int16
      else if s = ''int32'' then Some Int32 else if s = ''int64'' then Some Int64
      else if s = ''uint8'' then Some Uint8 else if s = ''bool'' then Some DBool else None)"

text \<open>
  The loop over the captured tensors. It carries the store, the summaries so far, the first tensor id
  and the number of slots read; an error ends it with an internal-error message. \<^const>\<open>None\<close> is a
  panic of one of the two \<^verbatim>\<open>expect\<close> calls or of the statistics.
\<close>

record ingest_state =
  is_store :: tensor_store
  is_summaries :: "tensor_summary list"
  is_first :: "string option"
  is_slots :: u64

definition note_summary :: "ingest_env \<Rightarrow> string \<Rightarrow> ingest_state \<Rightarrow> ingest_state option" where
  "note_summary I tid st = (case summarize (ie_arith I) tid (is_store st) of
     None \<Rightarrow> None
   | Some (None, _) \<Rightarrow> None
   | Some (Some sm, store') \<Rightarrow> Some (st\<lparr>is_store := store', is_summaries := is_summaries st @ [sm],
        is_first := (if is_first st = None then Some tid else is_first st)\<rparr>))"

definition ingest_one ::
  "ingest_env \<Rightarrow> consumer option \<Rightarrow> bytes \<Rightarrow> captured_tensor \<Rightarrow> ingest_state \<Rightarrow> (string \<times> ingest_state, ingest_state) result option" where
  "ingest_one I co mem ct st = (case parse_dtype (ct_dtype ct) of
     None \<Rightarrow> Some (Err (''unknown dtype from worker: '' @ ct_dtype ct, st))
   | Some dt \<Rightarrow>
      let has_shm = ct_shm_offset ct \<noteq> None \<and> ct_byte_length ct \<noteq> None in
      if store_contains (ct_tensor_id ct) (is_store st) then
        (case note_summary I (ct_tensor_id ct) st of
           None \<Rightarrow> None
         | Some st' \<Rightarrow> Some (Ok (if has_shm then st'\<lparr>is_slots := is_slots st' + 1\<rparr> else st')))
      else
        let inserted =
          (case (ct_shm_offset ct, ct_byte_length ct) of
             (Some off, Some len) \<Rightarrow>
               (case read_from_shm (ie_io I) co mem off len of
                  Inl e \<Rightarrow> Err (''shm read failed: '' @ e)
                | Inr bs \<Rightarrow> Ok (insert_with_id (ct_tensor_id ct) bs (ct_shape ct) dt (ct_device ct) (is_store st),
                               is_slots st + 1))
           | _ \<Rightarrow>
               (case ct_data_base64 ct of
                  Some b64 \<Rightarrow>
                    (case ie_decode I b64 of
                       Inl e \<Rightarrow> Err (''base64 decode failed: '' @ e)
                     | Inr bs \<Rightarrow> Ok (store_insert (ie_hash I) bs (ct_shape ct) dt (ct_device ct) (is_store st),
                                    is_slots st))
                | None \<Rightarrow> Err ''CapturedTensor has neither shm_offset nor data_base64''))
        in (case inserted of
              Inl e \<Rightarrow> Some (Err (e, st))
            | Inr ((handle, store'), n) \<Rightarrow>
               (case note_summary I (th_tensor_id handle) (st\<lparr>is_store := store', is_slots := n\<rparr>) of
                  None \<Rightarrow> None
                | Some st' \<Rightarrow> Some (Ok st'))))"

fun ingest_all ::
  "ingest_env \<Rightarrow> consumer option \<Rightarrow> bytes \<Rightarrow> captured_tensor list \<Rightarrow> ingest_state \<Rightarrow> (string \<times> ingest_state, ingest_state) result option" where
  "ingest_all I co mem [] st = Some (Ok st)"
| "ingest_all I co mem (ct # cts) st = (case ingest_one I co mem ct st of
     None \<Rightarrow> None
   | Some (Inl e) \<Rightarrow> Some (Err e)
   | Some (Inr st') \<Rightarrow> ingest_all I co mem cts st')"

text \<open>Releasing the slots that were read; a failure of the store is only logged.\<close>

definition release_slots :: "u64 \<Rightarrow> consumer option \<Rightarrow> bytes \<Rightarrow> consumer option \<times> bytes" where
  "release_slots n co mem = (case co of
     None \<Rightarrow> (None, mem)
   | Some c \<Rightarrow> if n > 0 then (case advance_by n c mem of
         (Inr mem', c') \<Rightarrow> (Some c', mem') | (Inl _, c') \<Rightarrow> (Some c', mem))
       else (Some c, mem))"

definition store_error_text :: "store_error \<Rightarrow> string" where
  "store_error_text e = (case e of
     StoreNotFound i \<Rightarrow> ''tensor not found: '' @ i
   | StoreSliceOutOfBounds off len dl \<Rightarrow> ''slice out of bounds: offset '' @ show_u64 off @ '' + len ''
       @ show_u64 len @ '' exceeds data size '' @ show_u64 dl)"

text \<open>The requested slice of the first tensor, as an error response or an optional text.\<close>

definition inspect_slice ::
  "ingest_env \<Rightarrow> request_id \<Rightarrow> inspect_request \<Rightarrow> string option \<Rightarrow> tensor_store
   \<Rightarrow> ('v response, string option) result \<times> tensor_store" where
  "inspect_slice I i req first store =
     (if iq_detail req = Detail_Slice then
        (case (iq_slices req, first) of
           (Some ((off, len) # _), Some tid) \<Rightarrow>
             (case store_slice tid off len store of
                (Inr bs, store') \<Rightarrow> (Ok (Some (ie_encode I bs)), store')
              | (Inl (StoreSliceOutOfBounds _ _ _), store') \<Rightarrow>
                  (Err (data_response i (error_with_hint SliceOutOfBounds
                     ''Slice indices exceed tensor data size'')), store')
              | (Inl e, store') \<Rightarrow>
                  (Err (bare_error i INTERNAL_ERROR (''slice failed: '' @ store_error_text e)), store'))
         | _ \<Rightarrow> (Ok None, store))
      else (Ok None, store))"

type_synonym inspect_result = "tensor_store \<times> consumer option \<times> bytes"

definition ingest_and_respond ::
  "ingest_env \<Rightarrow> 'v serde \<Rightarrow> 'v session \<Rightarrow> 'v request \<Rightarrow> inspect_request \<Rightarrow> captured_tensor list
   \<Rightarrow> tensor_store \<Rightarrow> consumer option \<Rightarrow> bytes \<Rightarrow> ('v response \<times> inspect_result) option" where
  "ingest_and_respond I S s rq req captured store co mem =
     (case ingest_all I co mem captured \<lparr>is_store = store, is_summaries = [], is_first = None, is_slots = 0\<rparr> of
        None \<Rightarrow> None
      | Some (Inl (e, st)) \<Rightarrow> Some (bare_error (rq_id rq) INTERNAL_ERROR e, is_store st, co, mem)
      | Some (Inr st) \<Rightarrow>
         (case release_slots (is_slots st) co mem of (co', mem') \<Rightarrow>
           (case inspect_slice I (rq_id rq) req (is_first st) (is_store st) of
              (Inl resp, store') \<Rightarrow> Some (resp, store', co', mem')
            | (Inr slice_data, store') \<Rightarrow>
                Some (finish S (rq_id rq) PL_Inspect
                  (session_inspect (is_summaries st) slice_data (iq_envelope req) s), store', co', mem'))))"

definition handle_inspect ::
  "ingest_env \<Rightarrow> 'v serde \<Rightarrow> host_inspect_response option \<Rightarrow> 'v session \<Rightarrow> 'v request
   \<Rightarrow> tensor_store \<Rightarrow> consumer option \<Rightarrow> bytes \<Rightarrow> ('v response \<times> inspect_result) option" where
  "handle_inspect I S host_response s rq store co mem = (case parse_params S (de_inspect S) rq of
     Inl e \<Rightarrow> Some (invalid_params_response (rq_id rq) e, store, co, mem)
   | Inr req \<Rightarrow>
     (case require_stopped s ''rocket/inspect'' of
        Inl e \<Rightarrow> Some (session_error_to_response (rq_id rq) e, store, co, mem)
      | Inr _ \<Rightarrow>
        if \<not> target_ok (iq_target req) then
          Some (data_response (rq_id rq) (invalid_target_error (iq_target req)), store, co, mem)
        else (case host_response of
           None \<Rightarrow> Some (data_response (rq_id rq) (error_with_hint TensorNotFound
             ''No orchestrator available to capture tensors''), store, co, mem)
         | Some hr \<Rightarrow>
             if hi_tensors hr = [] then
               Some (data_response (rq_id rq) (error_with_hint TensorNotFound
                 ''Target matched components but no tensors have been captured yet (step first)''), store, co, mem)
             else ingest_and_respond I S s rq req (hi_tensors hr) store co mem)))"

end
