(* ===== verification/Framing.thy ===== *)
theory Framing
  imports Decimal Text
begin

text \<open>
  Content-Length framing, \<^verbatim>\<open>crates/rocket-surgeon-transport/src/framing.rs\<close>. A stream is the list of
  bytes still to be read, ending in end-of-file; reading returns the message and the rest of the
  stream.
\<close>

section \<open>Text helpers of the standard library\<close>

text \<open>Well-formed UTF-8 (Unicode Table 3-7), as \<^verbatim>\<open>String::from_utf8\<close> and \<^verbatim>\<open>read_line\<close> check it.\<close>

definition cont_byte :: "nat \<Rightarrow> bool" where "cont_byte b \<longleftrightarrow> 0x80 \<le> b \<and> b \<le> 0xBF"

definition second_ok :: "nat \<Rightarrow> nat \<Rightarrow> bool" where
  "second_ok a b \<longleftrightarrow> cont_byte b \<and> (a = 0xE0 \<longrightarrow> 0xA0 \<le> b) \<and> (a = 0xED \<longrightarrow> b \<le> 0x9F)
     \<and> (a = 0xF0 \<longrightarrow> 0x90 \<le> b) \<and> (a = 0xF4 \<longrightarrow> b \<le> 0x8F)"

fun utf8_bytes :: "nat list \<Rightarrow> bool" where
  "utf8_bytes [] = True"
| "utf8_bytes (a # bs) =
     (if a < 0x80 then utf8_bytes bs
      else if 0xC2 \<le> a \<and> a \<le> 0xDF then (case bs of b # r \<Rightarrow> cont_byte b \<and> utf8_bytes r | _ \<Rightarrow> False)
      else if 0xE0 \<le> a \<and> a \<le> 0xEF then
        (case bs of b # c # r \<Rightarrow> second_ok a b \<and> cont_byte c \<and> utf8_bytes r | _ \<Rightarrow> False)
      else if 0xF0 \<le> a \<and> a \<le> 0xF4 then
        (case bs of b # c # d # r \<Rightarrow> second_ok a b \<and> cont_byte c \<and> cont_byte d \<and> utf8_bytes r | _ \<Rightarrow> False)
      else False)"

definition utf8_valid :: "string \<Rightarrow> bool" where
  "utf8_valid s = utf8_bytes (map of_char s)"

text \<open>
  The number of bytes of the white-space character at the head of a byte string, zero when there is
  none; and the same for a reversed byte string. \<^verbatim>\<open>str::trim\<close> strips such characters on both sides.
\<close>

definition ws_three :: "nat \<Rightarrow> nat \<Rightarrow> nat \<Rightarrow> bool" where
  "ws_three a b c \<longleftrightarrow> (a = 0xE1 \<and> b = 0x9A \<and> c = 0x80)
     \<or> (a = 0xE2 \<and> b = 0x80 \<and> (0x80 \<le> c \<and> c \<le> 0x8A \<or> c = 0xA8 \<or> c = 0xA9 \<or> c = 0xAF))
     \<or> (a = 0xE2 \<and> b = 0x81 \<and> c = 0x9F) \<or> (a = 0xE3 \<and> b = 0x80 \<and> c = 0x80)"

definition ws_two :: "nat \<Rightarrow> nat \<Rightarrow> bool" where
  "ws_two a b \<longleftrightarrow> a = 0xC2 \<and> (b = 0x85 \<or> b = 0xA0)"

definition ws_head :: "string \<Rightarrow> nat" where
  "ws_head s = (case map of_char s of
     [] \<Rightarrow> 0
   | a # r \<Rightarrow> if ascii_ws a then 1
       else (case r of b # r' \<Rightarrow> if ws_two a b then 2
         else (case r' of c # _ \<Rightarrow> if ws_three a b c then 3 else 0 | [] \<Rightarrow> 0) | [] \<Rightarrow> 0))"

definition ws_last :: "string \<Rightarrow> nat" where
  "ws_last s = (case map of_char (rev s) of
     [] \<Rightarrow> 0
   | a # r \<Rightarrow> if ascii_ws a then 1
       else (case r of b # r' \<Rightarrow> if ws_two b a then 2
         else (case r' of c # _ \<Rightarrow> if ws_three c b a then 3 else 0 | [] \<Rightarrow> 0) | [] \<Rightarrow> 0))"

lemma ws_head_le: "ws_head s \<le> length s"
  by (auto simp: ws_head_def split: list.splits)

lemma ws_last_le: "ws_last s \<le> length s"
  by (auto simp: ws_last_def rev_map split: list.splits dest!: arg_cong [of _ _ length])

function trim_start :: "string \<Rightarrow> string" where
  "trim_start s = (if ws_head s = 0 then s else trim_start (drop (ws_head s) s))"
  by pat_completeness auto
termination
proof (relation "measure length")
  fix s :: string
  assume "ws_head s \<noteq> 0"
  then show "(drop (ws_head s) s, s) \<in> measure length" using ws_head_le [of s] by auto
qed simp

function trim_end :: "string \<Rightarrow> string" where
  "trim_end s = (if ws_last s = 0 then s else trim_end (take (length s - ws_last s) s))"
  by pat_completeness auto
termination
proof (relation "measure length")
  fix s :: string
  assume "ws_last s \<noteq> 0"
  then show "(take (length s - ws_last s) s, s) \<in> measure length" using ws_last_le [of s] by auto
qed simp

declare trim_start.simps [simp del] trim_end.simps [simp del]

definition trim :: "string \<Rightarrow> string" where "trim s = trim_end (trim_start s)"

text \<open>\<^verbatim>\<open>eq_ignore_ascii_case\<close>\<close>

definition ascii_lower :: "char \<Rightarrow> char" where
  "ascii_lower c = (let n = of_char c :: nat in if 65 \<le> n \<and> n \<le> 90 then char_of (n + 32) else c)"

definition eq_ignore_ascii_case :: "string \<Rightarrow> string \<Rightarrow> bool" where
  "eq_ignore_ascii_case a b \<longleftrightarrow> map ascii_lower a = map ascii_lower b"

text \<open>\<^verbatim>\<open>split_once(c)\<close>\<close>

definition split_once :: "char \<Rightarrow> string \<Rightarrow> (string \<times> string) option" where
  "split_once c s = (if c \<in> set s then Some (takeWhile (\<lambda>x. x \<noteq> c) s, tl (dropWhile (\<lambda>x. x \<noteq> c) s)) else None)"

section \<open>Reading and writing messages\<close>

abbreviation newline :: char where "newline \<equiv> CHR 0x0A"
abbreviation carriage :: char where "carriage \<equiv> CHR 0x0D"

definition MAX_MESSAGE_BYTES :: nat where "MAX_MESSAGE_BYTES = 16 * 1024 * 1024"

datatype io_kind = UnexpectedEof | InvalidData

datatype framing_error =
    MissingContentLength
  | InvalidContentLength
  | MessageTooLarge nat
  | FrameIo io_kind

text \<open>\<^verbatim>\<open>read_line\<close>: up to and including the line feed, or to the end of the stream.\<close>

definition read_line :: "string \<Rightarrow> string \<times> string" where
  "read_line s = (let l = takeWhile (\<lambda>c. c \<noteq> newline) s; r = drop (length l) s
     in (case r of [] \<Rightarrow> (l, []) | c # r' \<Rightarrow> (l @ [c], r')))"

definition trim_eol :: "string \<Rightarrow> string" where
  "trim_eol line = rev (dropWhile (\<lambda>c. c = carriage \<or> c = newline) (rev line))"

lemma read_line_append: "fst (read_line s) @ snd (read_line s) = s"
proof -
  have "takeWhile (\<lambda>c. c \<noteq> newline) s @ drop (length (takeWhile (\<lambda>c. c \<noteq> newline) s)) s = s"
    by (metis dropWhile_eq_drop takeWhile_dropWhile_id)
  then show ?thesis by (auto simp: read_line_def Let_def split: list.split)
qed

lemma read_line_nonempty: "s \<noteq> [] \<Longrightarrow> fst (read_line s) \<noteq> []"
  by (cases s) (auto simp: read_line_def Let_def split: list.split)

lemma read_line_shrinks: "s \<noteq> [] \<Longrightarrow> length (snd (read_line s)) < length s"
  using read_line_nonempty [of s] arg_cong [OF read_line_append [of s], of length] by (cases "fst (read_line s)") auto

definition parse_usize :: "string \<Rightarrow> nat option" where
  "parse_usize s = parse_unsigned (2 ^ 64 - 1) s"

function read_headers :: "string \<Rightarrow> nat option \<Rightarrow> (framing_error, nat option \<times> string) result" where
  "read_headers s content_length =
     (if s = [] then Err (FrameIo UnexpectedEof)
      else let line = fst (read_line s); rest = snd (read_line s) in
        if \<not> utf8_valid line then Err (FrameIo InvalidData)
        else let trimmed = trim_eol line in
          if trimmed = [] then Ok (content_length, rest)
          else (case split_once CHR '':'' trimmed of
             Some (key, val) \<Rightarrow>
               if eq_ignore_ascii_case key ''content-length'' then
                 (case parse_usize (trim val) of
                    None \<Rightarrow> Err InvalidContentLength
                  | Some n \<Rightarrow> read_headers rest (Some n))
               else read_headers rest content_length
           | None \<Rightarrow> read_headers rest content_length))"
  by pat_completeness auto
termination
  by (relation "measure (\<lambda>(s, _). length s)") (auto simp: read_line_shrinks)

declare read_headers.simps [simp del]

definition read_message :: "string \<Rightarrow> (framing_error, string \<times> string) result" where
  "read_message s = bind_result (read_headers s None) (\<lambda>(content_length, rest).
     case content_length of
       None \<Rightarrow> Err MissingContentLength
     | Some n \<Rightarrow>
         if n > MAX_MESSAGE_BYTES then Err (MessageTooLarge n)
         else if length rest < n then Err (FrameIo UnexpectedEof)
         else if utf8_valid (take n rest) then Ok (take n rest, drop n rest)
         else Err (FrameIo InvalidData))"

definition write_message :: "string \<Rightarrow> string" where
  "write_message body = ''Content-Length: '' @ show_nat (length body) @ [carriage, newline, carriage, newline] @ body"

section \<open>What is written is read back\<close>

lemma read_line_newline:
  assumes "newline \<notin> set l"
  shows "read_line (l @ newline # r) = (l @ [newline], r)"
proof -
  have "takeWhile (\<lambda>c. c \<noteq> newline) l = l" using assms by (auto simp: takeWhile_eq_all_conv)
  then show ?thesis by (simp add: read_line_def Let_def takeWhile_tail)
qed

lemma utf8_ascii: "list_all (\<lambda>c. of_char c < (0x80 :: nat)) s \<Longrightarrow> utf8_valid s"
  by (induction s) (auto simp: utf8_valid_def)

lemma digit_of_char: "is_ascii_digit c \<Longrightarrow> (48 :: nat) \<le> of_char c \<and> of_char c \<le> (57 :: nat)"
  by (simp add: is_ascii_digit_def)

lemma digits_ascii: "list_all is_ascii_digit s \<Longrightarrow> list_all (\<lambda>c. of_char c < (0x80 :: nat)) s"
  using digit_of_char by (fastforce simp: list_all_iff)

lemma ascii_not_ws_bytes:
  assumes "a < (0x80 :: nat)"
  shows "\<not> ws_two a b" "\<not> ws_two b a" "\<not> ws_three a b c" "\<not> ws_three c b a"
  using assms by (auto simp: ws_two_def ws_three_def)

lemma digits_not_ws:
  assumes "list_all is_ascii_digit s"
  shows "ws_head s = 0" "ws_last s = 0"
proof -
  have n: "\<not> ascii_ws (of_char c)" "of_char c < (0x80 :: nat)" if "c \<in> set s" for c
    using digit_of_char [of c] assms that by (auto simp: list_all_iff ascii_ws_def)
  show "ws_head s = 0"
    using n [of "hd s"] by (cases s) (simp_all add: ws_head_def ascii_not_ws_bytes split: list.split)
  show "ws_last s = 0"
    using n [of "last s"] by (cases s rule: rev_cases) (simp_all add: ws_last_def ascii_not_ws_bytes split: list.split)
qed

lemma trim_space_digits: "list_all is_ascii_digit s \<Longrightarrow> trim (CHR '' '' # s) = s"
  by (simp add: trim_def trim_start.simps [of "CHR '' '' # s"] trim_start.simps [of s] trim_end.simps [of s]
      digits_not_ws ws_head_def [of "CHR '' '' # s"] ascii_ws_def)

text \<open>The header line for a body of \<open>n\<close> bytes, and what reading it does.\<close>

definition header_line :: "nat \<Rightarrow> string" where
  "header_line n = ''Content-Length: '' @ show_nat n"

lemma header_line_props:
  "newline \<notin> set (header_line n)" "header_line n \<noteq> []" "last (header_line n) \<noteq> carriage"
  "last (header_line n) \<noteq> newline" "list_all (\<lambda>c. of_char c < (0x80 :: nat)) (header_line n)"
  "split_once CHR '':'' (header_line n) = Some (''Content-Length'', CHR '' '' # show_nat n)"
proof -
  have d: "\<forall>c \<in> set (show_nat n). 48 \<le> (of_char c :: nat) \<and> of_char c \<le> (57 :: nat)"
    using digit_of_char list_all_show_nat [of n] by (simp add: list_all_iff)
  then have "newline \<notin> set (show_nat n)" "last (show_nat n) \<noteq> carriage" "last (show_nat n) \<noteq> newline"
    using last_in_set [OF show_nat_nonempty [of n]] by force+
  then show "newline \<notin> set (header_line n)" "header_line n \<noteq> []" "last (header_line n) \<noteq> carriage"
    "last (header_line n) \<noteq> newline"
    using show_nat_nonempty [of n] by (simp_all add: header_line_def)
  show "list_all (\<lambda>c. of_char c < (0x80 :: nat)) (header_line n)"
    using digits_ascii [of "show_nat n"] by (simp add: header_line_def)
  show "split_once CHR '':'' (header_line n) = Some (''Content-Length'', CHR '' '' # show_nat n)"
    by (simp add: split_once_def header_line_def)
qed

lemma trim_eol_header: "trim_eol (header_line n @ [carriage, newline]) = header_line n"
  using header_line_props(2-4) [of n] by (cases "header_line n" rule: rev_cases) (simp_all add: trim_eol_def)

lemma read_headers_written:
  assumes "n < 2 ^ 64"
  shows "read_headers (header_line n @ [carriage, newline, carriage, newline] @ rest) None = Ok (Some n, rest)"
proof -
  have line1: "read_line (header_line n @ [carriage, newline, carriage, newline] @ rest)
      = (header_line n @ [carriage, newline], carriage # newline # rest)"
    using read_line_newline [of "header_line n @ [carriage]"] header_line_props(1) [of n] by simp
  have line2: "read_line (carriage # newline # rest) = ([carriage, newline], rest)"
    using read_line_newline [of "[carriage]" rest] by simp
  have ok: "utf8_valid (header_line n @ [carriage, newline])" "utf8_valid [carriage, newline]"
    using header_line_props(5) [of n] by (auto intro!: utf8_ascii)
  have "parse_usize (trim (CHR '' '' # show_nat n)) = Some n"
    using assms by (simp add: trim_space_digits parse_usize_def parse_show_nat)
  moreover have "eq_ignore_ascii_case ''Content-Length'' ''content-length''"
    by code_simp
  moreover have "read_headers (carriage # newline # rest) (Some n) = Ok (Some n, rest)"
    using line2 ok(2) by (simp add: read_headers.simps [of "carriage # newline # rest"] trim_eol_def)
  ultimately show ?thesis
    using line1 ok(1) header_line_props(2,6) [of n]
    by (simp add: read_headers.simps [of "header_line n @ _"] trim_eol_header Let_def)
qed

lemma read_written:
  assumes "utf8_valid body" "length body \<le> MAX_MESSAGE_BYTES"
  shows "read_message (write_message body @ rest) = Ok (body, rest)"
proof -
  have "length body < 2 ^ 64" using assms(2) by (simp add: MAX_MESSAGE_BYTES_def)
  then show ?thesis
    using read_headers_written [of "length body" "body @ rest"] assms
    by (simp add: read_message_def write_message_def header_line_def)
qed

section \<open>Streams of messages\<close>

text \<open>The reader thread: read messages until the stream ends or is malformed.\<close>

lemma read_headers_step:
  "read_headers s cl = Inr (n, rest) \<Longrightarrow> s \<noteq> []
     \<and> (snd (read_line s) = rest \<or> (\<exists>cl'. read_headers (snd (read_line s)) cl' = Inr (n, rest)))"
  by (subst (asm) read_headers.simps) (auto simp: Let_def split: if_splits option.splits)

lemma read_headers_consumes:
  "read_headers s cl = Inr (n, rest) \<Longrightarrow> \<exists>h. h \<noteq> [] \<and> s = h @ rest"
proof (induction s arbitrary: cl rule: length_induct)
  case (1 s)
  note step = read_headers_step [OF 1(2)]
  have s: "s = fst (read_line s) @ snd (read_line s)" by (simp add: read_line_append)
  have ne: "fst (read_line s) \<noteq> []" using step read_line_nonempty by blast
  show ?case
  proof (cases "snd (read_line s) = rest")
    case True
    then show ?thesis using s ne by metis
  next
    case False
    then obtain cl' where "read_headers (snd (read_line s)) cl' = Inr (n, rest)" using step by blast
    then obtain h where "snd (read_line s) = h @ rest"
      using 1(1) step read_line_shrinks by blast
    then have "s = (fst (read_line s) @ h) @ rest" using s by simp
    then show ?thesis using ne by (metis append_is_Nil_conv)
  qed
qed

lemma read_message_OkE:
  assumes "read_message s = Inr (body, rest)"
  obtains n r where "read_headers s None = Inr (Some n, r)" "n \<le> MAX_MESSAGE_BYTES" "n \<le> length r"
    "body = take n r" "rest = drop n r" "utf8_valid body"
proof -
  obtain cl r where hd: "read_headers s None = Inr (cl, r)"
    using assms by (cases "read_headers s None") (auto simp: read_message_def)
  then show ?thesis
    using assms that by (cases cl) (auto simp: read_message_def not_less split: if_splits)
qed

lemma read_message_consumes:
  assumes "read_message s = Inr (body, rest)"
  shows "\<exists>header. header \<noteq> [] \<and> s = header @ body @ rest"
proof -
  obtain n r where hd: "read_headers s None = Inr (Some n, r)" and b: "body = take n r" "rest = drop n r"
    using assms by (rule read_message_OkE)
  then show ?thesis using read_headers_consumes [OF hd] by simp
qed

lemma read_message_shrinks: "read_message s = Inr (body, rest) \<Longrightarrow> length rest < length s"
  using read_message_consumes [of s body rest] by auto

function read_all :: "string \<Rightarrow> string list \<times> framing_error" where
  "read_all s = (case read_message s of
     Inl e \<Rightarrow> ([], e)
   | Inr (body, rest) \<Rightarrow> (case read_all rest of (bodies, e) \<Rightarrow> (body # bodies, e)))"
  by pat_completeness auto
termination by (relation "measure length") (auto simp: read_message_shrinks)

declare read_all.simps [simp del]

lemma read_all_written:
  assumes "\<forall>b \<in> set bodies. utf8_valid b \<and> length b \<le> MAX_MESSAGE_BYTES"
  shows "read_all (concat (map write_message bodies)) = (bodies, FrameIo UnexpectedEof)"
  using assms
proof (induction bodies)
  case Nil
  then show ?case by (simp add: read_all.simps [of "[]"] read_message_def read_headers.simps [of "[]"])
next
  case (Cons b bodies)
  then show ?case by (simp add: read_all.simps [of "write_message b @ _"] read_written)
qed

text \<open>C18: Messages written one after the other onto a stream are read back as exactly those messages, in
  order, and then the end of the stream is reported, whatever bytes the messages contain, as long as
  each is valid UTF-8 of at most sixteen megabytes.\<close>

theorem framing_stream_roundtrip:
  assumes "\<forall>b \<in> set bodies. utf8_valid b \<and> length b \<le> MAX_MESSAGE_BYTES"
  shows "read_all (concat (map write_message bodies)) = (bodies, FrameIo UnexpectedEof)"
  using assms by (rule read_all_written)

theorem framing_stream_roundtrip_witness:
  "read_all (concat (map write_message [''{}'', [], ''Content-Length: 3'', [CHR 0xC3, CHR 0xA9]])) =
     ([''{}'', [], ''Content-Length: 3'', [CHR 0xC3, CHR 0xA9]], FrameIo UnexpectedEof)"
  by (rule framing_stream_roundtrip) (simp add: utf8_valid_def cont_byte_def MAX_MESSAGE_BYTES_def)

text \<open>C19: Every message read from an arbitrary byte stream is valid UTF-8, never longer than the limit, and
  is a contiguous part of the stream that directly precedes what remains to be read.\<close>

theorem framing_read_sound:
  assumes "read_message s = Inr (body, rest)"
  shows "utf8_valid body \<and> length body \<le> MAX_MESSAGE_BYTES \<and> (\<exists>header. s = header @ body @ rest)"
  using assms read_message_consumes [OF assms] by (elim read_message_OkE) auto

theorem framing_read_sound_witness:
  "utf8_valid ''hi'' \<and> length ''hi'' \<le> MAX_MESSAGE_BYTES \<and> (\<exists>header. write_message ''hi'' @ ''x'' = header @ ''hi'' @ ''x'')"
  by (rule framing_read_sound, rule read_written) (simp_all add: utf8_valid_def MAX_MESSAGE_BYTES_def)

end
