(* ===== verification/Notifications.thy ===== *)
theory Notifications
  imports Protocol_Messages Framing
begin

text \<open>
  Event notifications and the trace of messages: \<^verbatim>\<open>crates/rocket-surgeon/src/notifications.rs\<close> and
  \<^verbatim>\<open>crates/rocket-surgeon/src/trace_log.rs\<close>. The JSON operations of \<^verbatim>\<open>serde_json\<close> that the code uses are
  collected in \<open>event_json\<close>; whether the operating system accepts a write is an argument.
\<close>

section \<open>Filters\<close>

text \<open>
  Indexing a value with a key, \<^verbatim>\<open>as_u64\<close>, \<^verbatim>\<open>as_str\<close>, inserting \<^verbatim>\<open>seq\<close> into an object (a value that is not
  an object is left alone), \<^verbatim>\<open>is_null\<close>, and the text of a notification.
\<close>

record 'v event_json =
  ej_index :: "'v \<Rightarrow> string \<Rightarrow> 'v"
  ej_u64 :: "'v \<Rightarrow> u64 option"
  ej_str :: "'v \<Rightarrow> string option"
  ej_set_seq :: "u64 \<Rightarrow> 'v \<Rightarrow> 'v"
  ej_is_null :: "'v \<Rightarrow> bool"
  ej_text :: "'v notification \<Rightarrow> string"

definition method_to_event_type :: "string \<Rightarrow> event_type option" where
  "method_to_event_type m =
     (if m = ev_TICK_STOPPED then Some Ev_TickStopped
      else if m = ev_TICK_HEARTBEAT then Some Ev_TickHeartbeat
      else if m = ev_PROBE_FIRED then Some Ev_ProbeFired
      else if m = ev_REPLAY_DIVERGENCE then Some Ev_ReplayDivergence
      else if m = ev_ERROR then Some Ev_Error
      else None)"

definition u32_of_u64 :: "u64 \<Rightarrow> u32 option" where
  "u32_of_u64 n = (if unat n < 2 ^ 32 then Some (ucast n) else None)"

definition point_coordinates :: "string \<Rightarrow> u32 option \<times> string option" where
  "point_coordinates point = (let parts = split_on CHR '':'' point in
     (if 2 < length parts then parse_u32 (parts ! 2) else None,
      if 3 < length parts then Some (parts ! 3) else None))"

definition event_coordinates :: "'v event_json \<Rightarrow> string \<Rightarrow> 'v \<Rightarrow> u32 option \<times> string option" where
  "event_coordinates J m params =
     (if m = ev_TICK_STOPPED then
        let pos = ej_index J params ''position'' in
        (Option.bind (ej_u64 J (ej_index J pos ''layer'')) u32_of_u64, ej_str J (ej_index J pos ''component''))
      else if m = ev_PROBE_FIRED then
        (case ej_str J (ej_index J params ''point'') of
           None \<Rightarrow> (None, None)
         | Some point \<Rightarrow> point_coordinates point)
      else (None, None))"

definition component_glob_matches :: "string \<Rightarrow> string \<Rightarrow> bool" where
  "component_glob_matches pattern component =
     (if pattern = ''*'' then True
      else if pattern \<noteq> [] \<and> last pattern = CHR ''*''
        then take (length pattern - 1) component = butlast pattern
        else pattern = component)"

definition event_matches_filter :: "'v event_json \<Rightarrow> subscribe_filter option \<Rightarrow> string \<Rightarrow> 'v \<Rightarrow> bool" where
  "event_matches_filter J fl m params = (case fl of
     None \<Rightarrow> True
   | Some f \<Rightarrow>
      if (case sf_events f of
            None \<Rightarrow> False
          | Some allowed \<Rightarrow> (case method_to_event_type m of None \<Rightarrow> True | Some et \<Rightarrow> et \<notin> set allowed))
      then False
      else (case event_coordinates J m params of (layer, component) \<Rightarrow>
        if (case (sf_layers f, layer) of (Some ls, Some l) \<Rightarrow> l \<notin> set ls | _ \<Rightarrow> False) then False
        else if (case (sf_components f, component) of
              (Some ps, Some c) \<Rightarrow> \<not> list_ex (\<lambda>p. component_glob_matches p c) ps | _ \<Rightarrow> False) then False
        else True))"

section \<open>Sending\<close>

text \<open>
  The outcome of a write: the new sequence number and the bytes written so far. A failed write ends the
  daemon's loop, so nothing is said of what it may have written.
\<close>

definition send_notification ::
  "'v event_json \<Rightarrow> (string \<Rightarrow> bool) \<Rightarrow> string \<Rightarrow> 'v \<Rightarrow> u64 \<times> string \<Rightarrow> (u64 \<times> string) option" where
  "send_notification J accepts m params st = (case st of (seq, out) \<Rightarrow>
     let json = ej_text J (Notification_new (ej_is_null J) m (ej_set_seq J seq params)) in
     if accepts json then Some (seq + 1, out @ write_message json) else None)"

definition send_notification_filtered ::
  "'v event_json \<Rightarrow> (string \<Rightarrow> bool) \<Rightarrow> subscribe_filter option \<Rightarrow> string \<Rightarrow> 'v \<Rightarrow> u64 \<times> string \<Rightarrow> (u64 \<times> string) option" where
  "send_notification_filtered J accepts fl m params st =
     (if \<not> event_matches_filter J fl m params then Some st else send_notification J accepts m params st)"

section \<open>The trace of messages\<close>

definition DEFAULT_MAX_TRACE :: nat where "DEFAULT_MAX_TRACE = 10000"

datatype trace_direction = Inbound | Outbound

record trace_entry =
  tr_timestamp_us :: u64
  tr_direction :: trace_direction
  tr_raw :: string

record trace_log =
  tl_entries :: "trace_entry list"
  tl_max_entries :: nat
  tl_total_recorded :: u64

definition TraceLog_new :: trace_log where
  "TraceLog_new = \<lparr>tl_entries = [], tl_max_entries = DEFAULT_MAX_TRACE, tl_total_recorded = 0\<rparr>"

definition trace_record :: "u64 \<Rightarrow> trace_direction \<Rightarrow> string \<Rightarrow> trace_log \<Rightarrow> trace_log" where
  "trace_record now dir raw t =
     (let es = (if length (tl_entries t) \<ge> tl_max_entries t then tl (tl_entries t) else tl_entries t)
      in t\<lparr>tl_entries := es @ [\<lparr>tr_timestamp_us = now, tr_direction = dir, tr_raw = raw\<rparr>],
           tl_total_recorded := tl_total_recorded t + 1\<rparr>)"

text \<open>The JSON object of one entry is an argument: it parses the raw message where that is possible.\<close>

definition to_jsonl :: "(u64 \<Rightarrow> string \<Rightarrow> string \<Rightarrow> string) \<Rightarrow> trace_log \<Rightarrow> string" where
  "to_jsonl line t = concat (map (\<lambda>e. line (tr_timestamp_us e)
     (case tr_direction e of Inbound \<Rightarrow> ''in'' | Outbound \<Rightarrow> ''out'') (tr_raw e) @ [CHR 0x0A]) (tl_entries t))"

section \<open>What subscribers see\<close>

fun send_all ::
  "'v event_json \<Rightarrow> (string \<Rightarrow> bool) \<Rightarrow> subscribe_filter option \<Rightarrow> (string \<times> 'v) list \<Rightarrow> u64 \<times> string
   \<Rightarrow> (u64 \<times> string) option" where
  "send_all J accepts fl [] st = Some st"
| "send_all J accepts fl ((m, params) # evs) st =
     (case send_notification_filtered J accepts fl m params st of
        None \<Rightarrow> None | Some st' \<Rightarrow> send_all J accepts fl evs st')"

definition numbered :: "'v event_json \<Rightarrow> u64 \<Rightarrow> string \<times> 'v \<Rightarrow> string" where
  "numbered J n ev = ej_text J (Notification_new (ej_is_null J) (fst ev) (ej_set_seq J n (snd ev)))"

fun number_from :: "'v event_json \<Rightarrow> u64 \<Rightarrow> (string \<times> 'v) list \<Rightarrow> string list" where
  "number_from J n [] = []"
| "number_from J n (ev # evs) = numbered J n ev # number_from J (n + 1) evs"

lemma length_number_from [simp]: "length (number_from J n evs) = length evs"
  by (induction evs arbitrary: n) simp_all

lemma number_from_nth: "i < length evs \<Longrightarrow> number_from J n evs ! i = numbered J (n + word_of_nat i) (evs ! i)"
proof (induction evs arbitrary: n i)
  case (Cons ev evs)
  then show ?case by (cases i) (simp_all add: algebra_simps)
qed simp

definition delivered :: "'v event_json \<Rightarrow> subscribe_filter option \<Rightarrow> (string \<times> 'v) list \<Rightarrow> (string \<times> 'v) list" where
  "delivered J fl evs = filter (\<lambda>(m, v). event_matches_filter J fl m v) evs"

lemma send_all_eq:
  "list_all accepts (number_from J n (delivered J fl evs)) \<Longrightarrow>
   send_all J accepts fl evs (n, out) = Some (n + word_of_nat (length (delivered J fl evs)),
     out @ concat (map write_message (number_from J n (delivered J fl evs))))"
proof (induction evs arbitrary: n out)
  case Nil
  then show ?case by (simp add: delivered_def)
next
  case (Cons ev evs)
  obtain m v where ev: "ev = (m, v)" by (cases ev)
  show ?case
  proof (cases "event_matches_filter J fl m v")
    case True
    then have d: "delivered J fl (ev # evs) = ev # delivered J fl evs" by (simp add: delivered_def ev)
    then show ?thesis
      using Cons True by (simp add: ev send_notification_filtered_def send_notification_def numbered_def Let_def)
  next
    case False
    then have d: "delivered J fl (ev # evs) = delivered J fl evs" by (simp add: delivered_def ev)
    then show ?thesis using Cons False by (simp add: ev send_notification_filtered_def)
  qed
qed

text \<open>C20: A subscriber reading the wire sees exactly the events its filter accepts, in the order they
  happened, numbered consecutively from the sequence number in force: filtered events leave no gap.\<close>

theorem notifications_gap_free:
  assumes "list_all (\<lambda>j. accepts j \<and> utf8_valid j \<and> length j \<le> MAX_MESSAGE_BYTES)
    (number_from J n (delivered J fl evs))"
  shows "\<exists>wire. send_all J accepts fl evs (n, []) = Some (n + word_of_nat (length (delivered J fl evs)), wire)
    \<and> read_all wire = (map (\<lambda>(i, ev). numbered J (n + word_of_nat i) ev)
        (zip [0..<length (delivered J fl evs)] (delivered J fl evs)), FrameIo UnexpectedEof)"
proof -
  let ?ts = "number_from J n (delivered J fl evs)"
  have "?ts = map (\<lambda>(i, ev). numbered J (n + word_of_nat i) ev)
      (zip [0..<length (delivered J fl evs)] (delivered J fl evs))"
    by (rule nth_equalityI) (simp_all add: number_from_nth)
  moreover have "read_all (concat (map write_message ?ts)) = (?ts, FrameIo UnexpectedEof)"
    by (rule read_all_written) (use assms in \<open>auto simp: list_all_iff\<close>)
  ultimately show ?thesis
    using send_all_eq [of accepts J n fl evs "[]"] assms by (simp add: list_all_iff)
qed

definition demo_json :: "string event_json" where
  "demo_json = \<lparr>ej_index = (\<lambda>v k. v), ej_u64 = (\<lambda>_. None), ej_str = (\<lambda>v. Some v), ej_set_seq = (\<lambda>n v. v @ show_u64 n),
     ej_is_null = (\<lambda>_. False), ej_text = (\<lambda>n. unwrap_or (nt_params n) [])\<rparr>"

definition demo_filter :: subscribe_filter where
  "demo_filter = \<lparr>sf_events = Some [Ev_ProbeFired], sf_layers = Some [3], sf_components = Some [''attn.*'']\<rparr>"

definition demo_events :: "(string \<times> string) list" where
  "demo_events = [(ev_PROBE_FIRED, ''m:0:3:attn.q_proj:0:output''), (ev_TICK_STOPPED, ''x''),
     (ev_PROBE_FIRED, ''m:0:4:attn.q_proj:0:output''), (ev_PROBE_FIRED, ''m:0:3:mlp:0:output''),
     (ev_PROBE_FIRED, ''m:0:3:attn.o_proj:0:output'')]"

lemma demo_delivered:
  "delivered demo_json (Some demo_filter) demo_events =
     [(ev_PROBE_FIRED, ''m:0:3:attn.q_proj:0:output''), (ev_PROBE_FIRED, ''m:0:3:attn.o_proj:0:output'')]"
  by (simp add: delivered_def demo_events_def demo_json_def demo_filter_def event_matches_filter_def
      method_to_event_type_def event_coordinates_def point_coordinates_def component_glob_matches_def
      parse_u32_def parse_unsigned_def strip_plus_def is_ascii_digit_def digit_value_def
      ev_PROBE_FIRED_def ev_TICK_STOPPED_def ev_TICK_HEARTBEAT_def Let_def)

theorem notifications_gap_free_witness:
  "\<exists>wire. send_all demo_json (\<lambda>_. True) (Some demo_filter) demo_events (7, []) = Some (9, wire)
    \<and> read_all wire = ([''m:0:3:attn.q_proj:0:output7'', ''m:0:3:attn.o_proj:0:output8''], FrameIo UnexpectedEof)"
proof -
  have digits: "digit_char 7 = CHR ''7''" "digit_char 8 = CHR ''8''" by code_simp+
  have "list_all (\<lambda>j. True \<and> utf8_valid j \<and> length j \<le> MAX_MESSAGE_BYTES)
      (number_from demo_json 7 (delivered demo_json (Some demo_filter) demo_events))"
    unfolding demo_delivered
    by (simp add: numbered_def demo_json_def Notification_new_def show_u64_def utf8_valid_def MAX_MESSAGE_BYTES_def
        show_nat.simps digit_char_def)
  from notifications_gap_free [OF this] show ?thesis
    unfolding demo_delivered
    by (simp add: upt_rec numbered_def demo_json_def Notification_new_def show_u64_def show_nat.simps digits)
qed

definition trace_holds :: "trace_log \<Rightarrow> trace_entry list \<Rightarrow> bool" where
  "trace_holds t es \<longleftrightarrow> tl_max_entries t = 10000 \<and> tl_entries t = drop (length es - 10000) es
     \<and> tl_total_recorded t = word_of_nat (length es)"

lemma trace_record_holds:
  assumes "trace_holds t es"
  shows "trace_holds (trace_record now dir raw t) (es @ [\<lparr>tr_timestamp_us = now, tr_direction = dir, tr_raw = raw\<rparr>])"
proof (cases "length es < 10000")
  case True
  then show ?thesis using assms by (simp add: trace_holds_def trace_record_def Let_def)
next
  case False
  then have "Suc (length es) - 10000 = Suc (length es - 10000)" by simp
  then show ?thesis
    using assms False by (simp add: trace_holds_def trace_record_def Let_def drop_Suc tl_drop)
qed

text \<open>After any messages, the trace log holds the latest ten thousand of them in order, with their time
  and direction, and has counted them all.\<close>

theorem trace_log_keeps_latest:
  "let t = fold (\<lambda>(now, dir, raw). trace_record now dir raw) msgs TraceLog_new;
       es = map (\<lambda>(now, dir, raw). \<lparr>tr_timestamp_us = now, tr_direction = dir, tr_raw = raw\<rparr>) msgs
   in tl_entries t = drop (length es - 10000) es \<and> tl_total_recorded t = word_of_nat (length msgs)"
proof -
  have "trace_holds (fold (\<lambda>(now, dir, raw). trace_record now dir raw) msgs TraceLog_new)
      (map (\<lambda>(now, dir, raw). \<lparr>tr_timestamp_us = now, tr_direction = dir, tr_raw = raw\<rparr>) msgs)"
    by (induction msgs rule: rev_induct)
      (auto simp: trace_record_holds split_beta, simp add: trace_holds_def TraceLog_new_def DEFAULT_MAX_TRACE_def)
  then show ?thesis by (simp add: trace_holds_def)
qed

end
