(* ===== verification/Host_Messages.thy ===== *)
theory Host_Messages
  imports Protocol_Messages
begin

text \<open>
  The requests the daemon sends to the orchestrator, and the export messages
  (\<^verbatim>\<open>crates/rocket-surgeon-protocol/src/messages.rs\<close>).
\<close>

section \<open>Internal methods\<close>

definition i_HOST_ATTACH :: string where "i_HOST_ATTACH = ''_host/attach''"
definition i_HOST_DETACH :: string where "i_HOST_DETACH = ''_host/detach''"
definition i_HOST_STEP :: string where "i_HOST_STEP = ''_host/step''"
definition i_HOST_UPDATE_PROBES :: string where "i_HOST_UPDATE_PROBES = ''_host/update_probes''"
definition i_HOST_INSPECT :: string where "i_HOST_INSPECT = ''_host/inspect''"
definition i_HOST_VIEW :: string where "i_HOST_VIEW = ''_host/view''"
definition i_HOST_CHECKPOINT :: string where "i_HOST_CHECKPOINT = ''_host/checkpoint''"
definition i_HOST_REPLAY :: string where "i_HOST_REPLAY = ''_host/replay''"
definition i_HOST_KV_READ :: string where "i_HOST_KV_READ = ''_host/kv.read''"
definition i_HOST_KV_INTERVENE :: string where "i_HOST_KV_INTERVENE = ''_host/kv.intervene''"
definition i_HOST_EXPORT_ENV :: string where "i_HOST_EXPORT_ENV = ''_host/export_env''"

section \<open>Requests to the host\<close>

record 'v host_attach_request =
  haq_model_source :: string
  haq_model_family :: string
  haq_device :: string
  haq_dtype :: "dtype option"
  haq_rank :: u32
  haq_config :: "'v option"

record host_step_request =
  hsq_model_handle :: u64
  hsq_count :: u32
  hsq_direction :: step_direction
  hsq_granularity :: "tick_granularity option"
  hsq_max_events :: "u32 option"
  hsq_interventions :: "intervention_recipe list"
  hsq_input_ids :: "u64 list option"

record host_update_probes_request =
  huq_model_handle :: u64
  huq_active_probes :: "probe_definition list"

record host_inspect_request =
  hiq_model_handle :: u64
  hiq_target :: string
  hiq_detail :: inspect_detail
  hiq_slices :: "(u64 \<times> u64) list option"

record 'v host_view_request =
  hvq_model_handle :: u64
  hvq_view :: built_in_view
  hvq_params :: "'v option"

record host_replay_request =
  hrq_model_handle :: u64
  hrq_checkpoint_id :: string
  hrq_stop_at :: "replay_stop_at option"
  hrq_interventions :: "intervention_recipe list"
  hrq_verify :: bool
  hrq_deterministic :: bool
  hrq_cosine_threshold :: f64
  hrq_mre_threshold :: f64

record host_kv_read_request =
  hkq_model_handle :: u64
  hkq_layers :: "u32 list option"
  hkq_positions :: "u64 list option"
  hkq_heads :: "u32 list option"
  hkq_slot :: kv_slot
  hkq_metric :: kv_metric

record host_kv_intervene_request =
  hxq_model_handle :: u64
  hxq_layers :: "u32 list"
  hxq_positions :: "u64 list"
  hxq_heads :: "u32 list option"
  hxq_slot :: kv_slot
  hxq_operation :: kv_intervene_op

section \<open>Export\<close>

record export_request =
  xq_path :: string
  xq_include_tensors :: bool

record export_response =
  xr_path :: string
  xr_size_bytes :: u64
  xr_artifact_count :: u32

record 'v host_export_env_response =
  xe_env :: 'v
  xe_model_info :: 'v
  xe_prompt :: "'v option"

end
