(* ===== verification/Orchestrator_Handle.thy ===== *)
theory Orchestrator_Handle
  imports Host_Messages
begin

text \<open>
  The daemon's end of the connection to the orchestrator,
  \<^verbatim>\<open>crates/rocket-surgeon/src/orchestrator_handle.rs\<close>. The orchestrator is another process: writing a
  request to its pipe and reading the next response is the argument \<open>exchange\<close>, whose error is the
  text of a failed write, read or decoding. \<open>host_codec\<close> holds \<^verbatim>\<open>serde_json\<close> for the host messages. The
  methods of the handle differ only in method name and message types, so they are instances of
  \<open>call_raw\<close> and \<open>call_typed\<close>.
\<close>

type_synonym 'v exchange = "'v request \<Rightarrow> (string, 'v response) result"

record 'v host_codec =
  hc_is_null :: "'v \<Rightarrow> bool"
  hc_attach :: "'v host_attach_request \<Rightarrow> (string, 'v) result"
  hc_detach :: "u64 \<Rightarrow> (string, 'v) result"
  hc_step :: "host_step_request \<Rightarrow> (string, 'v) result"
  hc_inspect :: "host_inspect_request \<Rightarrow> (string, 'v) result"
  hc_view :: "'v host_view_request \<Rightarrow> (string, 'v) result"
  hc_kv_read :: "host_kv_read_request \<Rightarrow> (string, 'v) result"
  hc_kv_intervene :: "host_kv_intervene_request \<Rightarrow> (string, 'v) result"
  hc_update_probes :: "host_update_probes_request \<Rightarrow> (string, 'v) result"
  hc_export_env :: "u64 \<Rightarrow> (string, 'v) result"
  hc_checkpoint :: "host_checkpoint_request \<Rightarrow> (string, 'v) result"
  hc_replay :: "host_replay_request \<Rightarrow> (string, 'v) result"
  hd_attach :: "'v \<Rightarrow> (string, host_attach_response) result"
  hd_step :: "'v \<Rightarrow> (string, host_step_response) result"
  hd_inspect :: "'v \<Rightarrow> (string, host_inspect_response) result"
  hd_view :: "'v \<Rightarrow> (string, 'v host_view_response) result"
  hd_kv_read :: "'v \<Rightarrow> (string, host_kv_read_response) result"
  hd_kv_intervene :: "'v \<Rightarrow> (string, host_kv_intervene_response) result"
  hd_update_probes :: "'v \<Rightarrow> (string, u32) result"
  hd_export_env :: "'v \<Rightarrow> (string, 'v host_export_env_response) result"
  hd_checkpoint :: "'v \<Rightarrow> (string, host_checkpoint_response) result"
  hd_replay :: "'v \<Rightarrow> (string, host_replay_response) result"

record orchestrator =
  oh_next_id :: i64

definition orchestrator_fresh :: orchestrator where "orchestrator_fresh = \<lparr>oh_next_id = 1\<rparr>"

text \<open>\<^verbatim>\<open>i64\<close> addition wraps.\<close>

definition wrap_i64 :: "int \<Rightarrow> i64" where "wrap_i64 n = (n + 2 ^ 63) mod 2 ^ 64 - 2 ^ 63"

definition next_id :: "orchestrator \<Rightarrow> i64 \<times> orchestrator" where
  "next_id o1 = (oh_next_id o1, o1\<lparr>oh_next_id := wrap_i64 (oh_next_id o1 + 1)\<rparr>)"

definition call_raw ::
  "'v host_codec \<Rightarrow> 'v exchange \<Rightarrow> string \<Rightarrow> (string, 'v) result \<Rightarrow> orchestrator
   \<Rightarrow> (string, 'v response) result \<times> orchestrator" where
  "call_raw C ex m params o1 = (case next_id o1 of (i, o2) \<Rightarrow>
     (bind_result params (\<lambda>p. ex (Request_new (hc_is_null C) (IdNumber i) m p)), o2))"

text \<open>Decimal \<^verbatim>\<open>Display\<close> of an \<^verbatim>\<open>i32\<close>.\<close>

definition show_int :: "int \<Rightarrow> string" where
  "show_int n = (if n < 0 then CHR ''-'' # show_nat (nat (- n)) else show_nat (nat n))"

definition host_failed :: "string \<Rightarrow> rpc_error \<Rightarrow> string" where
  "host_failed name e = ''orchestrator '' @ name @ '' failed (code '' @ show_int (re_code e) @ ''): '' @ re_message e"

definition typed_result ::
  "string \<Rightarrow> ('v \<Rightarrow> (string, 'a) result) \<Rightarrow> (string, 'v response) result \<Rightarrow> (string, 'a) result" where
  "typed_result name de r = bind_result r (\<lambda>resp. case rs_error resp of
     Some e \<Rightarrow> Err (host_failed name e)
   | None \<Rightarrow> (case rs_result resp of
       None \<Rightarrow> Err (''orchestrator '' @ name @ '': missing result'')
     | Some v \<Rightarrow> de v))"

definition call_typed ::
  "'v host_codec \<Rightarrow> 'v exchange \<Rightarrow> string \<Rightarrow> string \<Rightarrow> (string, 'v) result \<Rightarrow> ('v \<Rightarrow> (string, 'a) result)
   \<Rightarrow> orchestrator \<Rightarrow> (string, 'a) result \<times> orchestrator" where
  "call_typed C ex m name params de o1 = (case call_raw C ex m params o1 of
     (r, o2) \<Rightarrow> (typed_result name de r, o2))"

definition orch_attach where
  "orch_attach C ex req = call_typed C ex i_HOST_ATTACH ''attach'' (hc_attach C req) (hd_attach C)"
definition orch_step where
  "orch_step C ex req = call_typed C ex i_HOST_STEP ''step'' (hc_step C req) (hd_step C)"
definition orch_update_probes where
  "orch_update_probes C ex req =
     call_typed C ex i_HOST_UPDATE_PROBES ''update_probes'' (hc_update_probes C req) (hd_update_probes C)"
definition orch_export_env where
  "orch_export_env C ex mh = call_typed C ex i_HOST_EXPORT_ENV ''export_env'' (hc_export_env C mh) (hd_export_env C)"
definition orch_checkpoint where
  "orch_checkpoint C ex req = call_typed C ex i_HOST_CHECKPOINT ''checkpoint'' (hc_checkpoint C req) (hd_checkpoint C)"
definition orch_replay where
  "orch_replay C ex req = call_typed C ex i_HOST_REPLAY ''replay'' (hc_replay C req) (hd_replay C)"
definition orch_inspect_raw where
  "orch_inspect_raw C ex req = call_raw C ex i_HOST_INSPECT (hc_inspect C req)"
definition orch_view_raw where
  "orch_view_raw C ex req = call_raw C ex i_HOST_VIEW (hc_view C req)"
definition orch_kv_read_raw where
  "orch_kv_read_raw C ex req = call_raw C ex i_HOST_KV_READ (hc_kv_read C req)"
definition orch_kv_intervene_raw where
  "orch_kv_intervene_raw C ex req = call_raw C ex i_HOST_KV_INTERVENE (hc_kv_intervene C req)"

text \<open>Detaching only waits for an answer without an error.\<close>

definition orch_detach ::
  "'v host_codec \<Rightarrow> 'v exchange \<Rightarrow> u64 \<Rightarrow> orchestrator \<Rightarrow> (string, unit) result \<times> orchestrator" where
  "orch_detach C ex mh o1 = (case call_raw C ex i_HOST_DETACH (hc_detach C mh) o1 of
     (r, o2) \<Rightarrow> (bind_result r (\<lambda>resp. case rs_error resp of
        Some e \<Rightarrow> Err (host_failed ''detach'' e) | None \<Rightarrow> Ok ()), o2))"

end
