(* ===== verification/Export.thy ===== *)
theory Export
  imports Inspect Notifications Orchestrator_Handle
begin

text \<open>
  \<^verbatim>\<open>rocket/session.export\<close> (\<^verbatim>\<open>handle_export\<close> and \<^verbatim>\<open>collect_env_artifacts\<close> in
  \<^verbatim>\<open>crates/rocket-surgeon/src/dispatch.rs\<close>): which artifacts go into the bundle, in which order. The
  pretty-printed JSON of each artifact, reading the trace file and writing the archive
  (\<^verbatim>\<open>assemble_bundle\<close>) are arguments.
\<close>

record bundle_artifact =
  ba_name :: string
  ba_data :: string

record 'v export_codec =
  xc_request :: "'v \<Rightarrow> (string, export_request) result"
  xc_manifest :: "string \<Rightarrow> string \<Rightarrow> string \<Rightarrow> (string, string) result"
  xc_interventions :: "intervention_recipe list \<Rightarrow> (string, string) result"
  xc_trace_line :: "u64 \<Rightarrow> string \<Rightarrow> string \<Rightarrow> string"
  xc_value :: "'v \<Rightarrow> (string, string) result"
  xc_bookmarks :: "checkpoint_ref list \<Rightarrow> (string, string) result"
  xc_worldline :: "worldline_state \<Rightarrow> (string, string) result"
  xc_meta :: "checkpoint_ref \<Rightarrow> (string, string) result"
  xc_response :: "export_response response_envelope \<Rightarrow> (string, 'v) result"

text \<open>\<^verbatim>\<open>unwrap_or_default\<close> of a byte vector, and \<^verbatim>\<open>unwrap_or_else\<close> with a given text.\<close>

definition ok_or :: "string \<Rightarrow> (string, string) result \<Rightarrow> string" where
  "ok_or d r = (case r of Inl _ \<Rightarrow> d | Inr s \<Rightarrow> s)"

definition artifact :: "string \<Rightarrow> string \<Rightarrow> bundle_artifact" where
  "artifact name d = \<lparr>ba_name = name, ba_data = d\<rparr>"

definition collect_env_artifacts ::
  "'v host_codec \<Rightarrow> 'v export_codec \<Rightarrow> 'v exchange \<Rightarrow> u64 \<Rightarrow> request_id \<Rightarrow> orchestrator
   \<Rightarrow> ('v response, bundle_artifact list) result \<times> orchestrator" where
  "collect_env_artifacts C X ex mh i o1 = (case orch_export_env C ex mh o1 of
     (Inl e, o2) \<Rightarrow> (Err (bare_error i INTERNAL_ERROR (''export_env call failed: '' @ e)), o2)
   | (Inr resp, o2) \<Rightarrow>
      ((case xc_value X (xe_env resp) of
          Inl e \<Rightarrow> Err (bare_error i INTERNAL_ERROR (''env serialization failed: '' @ e))
        | Inr env \<Rightarrow>
           (case xc_value X (xe_model_info resp) of
              Inl e \<Rightarrow> Err (bare_error i INTERNAL_ERROR (''model-info serialization failed: '' @ e))
            | Inr info \<Rightarrow>
               let prompt = (case xe_prompt resp of None \<Rightarrow> ''null'' | Some p \<Rightarrow> ok_or ''null'' (xc_value X p))
               in Ok [artifact ''env.json'' env, artifact ''model-info.json'' info,
                      artifact ''prompt.json'' prompt])), o2))"

text \<open>
  The tensors, in the iteration order of the store; every lookup refreshes the entry it reads. Tensor
  bytes are \<^typ>\<open>bytes\<close>, artifact contents are text bytes.
\<close>

definition text_of_bytes :: "bytes \<Rightarrow> string" where
  "text_of_bytes bs = map (\<lambda>b. char_of (unat b)) bs"

fun tensor_artifacts :: "string list \<Rightarrow> tensor_store \<Rightarrow> bundle_artifact list \<times> tensor_store" where
  "tensor_artifacts [] st = ([], st)"
| "tensor_artifacts (tid # ids) st = (case raw_data tid st of
     (None, st') \<Rightarrow> tensor_artifacts ids st'
   | (Some d, st') \<Rightarrow> (case tensor_artifacts ids st' of
        (as, st'') \<Rightarrow> (artifact (''tensors/'' @ tid @ ''.bin'') (text_of_bytes d) # as, st'')))"

definition has_prefix :: "string \<Rightarrow> string \<Rightarrow> bool" where
  "has_prefix p s \<longleftrightarrow> take (length p) s = p"

definition generated_checkpoint :: "checkpoint_ref \<Rightarrow> bool" where
  "generated_checkpoint c \<longleftrightarrow> has_prefix ''auto-'' (cr_id c) \<or> has_prefix ''sub-'' (cr_id c)"

definition checkpoint_artifacts :: "'v export_codec \<Rightarrow> checkpoint_ref list \<Rightarrow> bundle_artifact list" where
  "checkpoint_artifacts X cs = map (\<lambda>c. artifact (''checkpoints/'' @ cr_id c @ ''/meta.json'') (ok_or [] (xc_meta X c)))
     (filter (\<lambda>c. \<not> generated_checkpoint c) cs)"

text \<open>What surrounds the call: the trace file of an open perfetto sink, if it can be read, and the archiver.\<close>

record export_env =
  xn_perfetto :: "string option"
  xn_assemble :: "string \<Rightarrow> bundle_artifact list \<Rightarrow> (string, u64) result"

definition handle_export ::
  "'v serde \<Rightarrow> 'v host_codec \<Rightarrow> 'v export_codec \<Rightarrow> export_env \<Rightarrow> 'v exchange \<Rightarrow> 'v session \<Rightarrow> 'v request
   \<Rightarrow> trace_log \<Rightarrow> tensor_store \<Rightarrow> orchestrator \<Rightarrow> u64 \<Rightarrow> 'v response \<times> tensor_store \<times> orchestrator" where
  "handle_export S C X N ex s rq tlog store o1 mh =
     (case parse_params S (xc_request X) rq of
        Inl e \<Rightarrow> (invalid_params_response (rq_id rq) e, store, o1)
      | Inr req \<Rightarrow>
       (case require_stopped s ''rocket/session.export'' of
          Inl e \<Rightarrow> (session_error_to_response (rq_id rq) e, store, o1)
        | Inr _ \<Rightarrow>
         (case xc_manifest X ''0.1.0'' (ss_session_id (s_state s)) ''1.0.0'' of
            Inl e \<Rightarrow> (bare_error (rq_id rq) INTERNAL_ERROR (''manifest serialization failed: '' @ e), store, o1)
          | Inr manifest \<Rightarrow>
           (case xc_interventions X (s_interventions s) of
              Inl e \<Rightarrow> (bare_error (rq_id rq) INTERNAL_ERROR (''interventions serialization failed: '' @ e), store, o1)
            | Inr ivs \<Rightarrow>
               let trace = to_jsonl (xc_trace_line X) tlog;
                   (tensors, store') =
                     (if xq_include_tensors req then tensor_artifacts (store_ids store) store else ([], store))
               in (case collect_env_artifacts C X ex mh (rq_id rq) o1 of
                     (Inl resp, o2) \<Rightarrow> (resp, store', o2)
                   | (Inr env_arts, o2) \<Rightarrow>
                      let artifacts = [artifact ''manifest.json'' manifest, artifact ''interventions.json'' ivs]
                            @ (if trace = [] then [] else [artifact ''protocol-trace.jsonl'' trace])
                            @ tensors @ env_arts
                            @ (case xn_perfetto N of None \<Rightarrow> [] | Some d \<Rightarrow> [artifact ''trace.perfetto-trace'' d])
                            @ [artifact ''bookmarks.json'' (ok_or []
                                 (xc_bookmarks X (filter (\<lambda>c. cr_bookmark c \<noteq> None) (ss_checkpoints (s_state s))))),
                               artifact ''worldlines.json'' (ok_or [] (xc_worldline X (ss_worldline (s_state s))))]
                            @ checkpoint_artifacts X (ss_checkpoints (s_state s))
                      in (case xn_assemble N (xq_path req) artifacts of
                            Inl e \<Rightarrow> (bare_error (rq_id rq) INTERNAL_ERROR (''bundle assembly failed: '' @ e), store', o2)
                          | Inr sz \<Rightarrow>
                             ((case xc_response X (envelope s \<lparr>xr_path = xq_path req, xr_size_bytes = sz,
                                     xr_artifact_count = word_of_nat (length artifacts)\<rparr>) of
                                 Inr v \<Rightarrow> Response_success (rq_id rq) v
                               | Inl e \<Rightarrow> bare_error (rq_id rq) INTERNAL_ERROR (''Internal serialization error: '' @ e)),
                              store', o2)))))))"

end
