(* ===== verification/Perfetto_Writer.thy ===== *)
theory Perfetto_Writer
  imports Prelude Protocol_Types
begin

text \<open>
  The trace writer of \<^verbatim>\<open>crates/perfetto-writer/src\<close>: variable-length integers (\<^verbatim>\<open>varint.rs\<close>), the packets
  (\<^verbatim>\<open>proto.rs\<close>), interned names (\<^verbatim>\<open>intern.rs\<close>) and the packets each operation writes (\<^verbatim>\<open>writer.rs\<close>).
  The protobuf encoding of a packet is the function \<open>encode\<close>, an argument: it is generated by \<^verbatim>\<open>prost\<close>. The
  file is the list of packets written so far, and a predicate tells which writes the operating system accepts.
\<close>

section \<open>Variable-length integers\<close>

function encode_varint :: "u64 \<Rightarrow> bytes" where
  "encode_varint v =
     (let b = ucast (v AND 0x7F); v' = drop_bit 7 v in
      if v' = 0 then [b] else (b OR 0x80) # encode_varint v')"
  by pat_completeness auto

lemma unat_drop_bit: "unat (drop_bit n (v :: 'a::len word)) = unat v div 2 ^ n"
  by (simp only: unat_drop_bit_eq) (simp add: drop_bit_eq_div)

termination encode_varint
proof (relation "measure unat", simp)
  fix v :: u64 and b v'
  assume v': "v' = drop_bit 7 v" and "v' \<noteq> 0"
  then have "unat v \<noteq> 0" by (auto simp: unat_eq_zero)
  then show "(v', v) \<in> measure unat" by (simp add: v' unat_drop_bit)
qed

declare encode_varint.simps [simp del]

definition field1_tag_and_length :: "usize \<Rightarrow> bytes" where
  "field1_tag_and_length payload_len = 0x0A # encode_varint payload_len"

text \<open>Reading such an integer back, as protobuf readers do: the value and the rest of the input.\<close>

fun decode_varint :: "bytes \<Rightarrow> (nat \<times> bytes) option" where
  "decode_varint [] = None"
| "decode_varint (b # bs) =
     (if unat b < 128 then Some (unat b, bs)
      else (case decode_varint bs of
        None \<Rightarrow> None | Some (n, rest) \<Rightarrow> Some (unat b - 128 + 128 * n, rest)))"

lemma varint_low_byte:
  fixes v :: u64
  shows "unat (ucast (v AND 0x7F) :: u8) = unat v mod 128"
    "unat ((ucast (v AND 0x7F) :: u8) OR 0x80) = unat v mod 128 + 128"
proof -
  have "unat (v AND 0x7F) = unat v mod 128"
    using arg_cong [OF take_bit_eq_mask [of 7 v], of unat]
    by (simp add: mask_eq_exp_minus_1 take_bit_eq_mod unat_mod_distrib)
  then show low: "unat (ucast (v AND 0x7F) :: u8) = unat v mod 128"
    by (simp add: unsigned_ucast_eq take_bit_eq_mod mod_mod_cancel)
  have "unat v mod 128 = take_bit 7 (unat v)" by (simp add: take_bit_eq_mod)
  moreover have "take_bit 7 (unat v) OR 2 ^ 7 = take_bit 7 (unat v) + 2 ^ 7"
    by (rule disjunctive_add [symmetric]) (use bit_exp_iff [where ?'a = nat and m = 7] in \<open>auto simp: bit_take_bit_iff\<close>)
  ultimately show "unat ((ucast (v AND 0x7F) :: u8) OR 0x80) = unat v mod 128 + 128"
    by (simp add: unsigned_or_eq low)
qed

lemma decode_encode_varint: "decode_varint (encode_varint v @ rest) = Some (unat v, rest)"
proof (induction v rule: encode_varint.induct)
  case (1 v)
  show ?case
  proof (cases "drop_bit 7 v = 0")
    case True
    then have "unat v < 128" using unat_drop_bit [of 7 v] by (simp add: div_eq_0_iff)
    then show ?thesis using True by (simp add: encode_varint.simps [of v] Let_def varint_low_byte)
  next
    case False
    then show ?thesis using 1 [OF refl refl False] mult_div_mod_eq [of 128 "unat v"]
      by (simp add: encode_varint.simps [of v] Let_def varint_low_byte unat_drop_bit)
  qed
qed

lemma length_encode_varint: "unat v < 128 ^ n \<Longrightarrow> 0 < n \<Longrightarrow> length (encode_varint v) \<le> n"
proof (induction n arbitrary: v)
  case (Suc n)
  show ?case
  proof (cases "drop_bit 7 v = 0")
    case True
    then show ?thesis by (simp add: encode_varint.simps [of v] Let_def)
  next
    case False
    have "unat (drop_bit 7 v) < 128 ^ n" using Suc.prems(1) by (simp add: unat_drop_bit less_mult_imp_div_less mult.commute)
    moreover from this have "0 < n" using False by (cases n) (auto simp: unat_eq_zero)
    ultimately show ?thesis using Suc.IH False by (simp add: encode_varint.simps [of v] Let_def)
  qed
qed simp

section \<open>Packets\<close>

text \<open>\<^verbatim>\<open>DebugAnnotation\<close>, with the floating-point value as its bit pattern.\<close>

record debug_annotation =
  da_name :: "string option"
  da_name_iid :: "u64 option"
  da_bool_value :: "bool option"
  da_uint_value :: "u64 option"
  da_int_value :: "i64 option"
  da_double_value :: "f64 option"
  da_string_value :: "string option"

record track_event =
  te_type :: "i32 option"
  te_track_uuid :: "u64 option"
  te_name :: "string option"
  te_name_iid :: "u64 option"
  te_debug_annotation :: "debug_annotation list"
  te_counter_value :: "i64 option"
  te_double_counter_value :: "f64 option"

record process_descriptor =
  pd_pid :: "i32 option"
  pd_cmdline :: "string list"
  pd_process_name :: "string option"

record thread_descriptor =
  td_pid :: "i32 option"
  td_tid :: "i64 option"
  td_thread_name :: "string option"

record counter_descriptor =
  cd_categories :: "string list"
  cd_unit_name :: "string option"
  cd_is_incremental :: "bool option"

record track_descriptor =
  tk_uuid :: "u64 option"
  tk_parent_uuid :: "u64 option"
  tk_name :: "string option"
  tk_process :: "process_descriptor option"
  tk_thread :: "thread_descriptor option"
  tk_counter :: "counter_descriptor option"
  tk_child_ordering :: "i32 option"
  tk_sibling_order_rank :: "i32 option"

record event_category =
  ec_iid :: "u64 option"
  ec_name :: "string option"

record event_name =
  en_iid :: "u64 option"
  en_name :: "string option"

record interned_data =
  in_event_categories :: "event_category list"
  in_event_names :: "event_name list"

record trace_packet =
  pk_timestamp :: "u64 option"
  pk_timestamp_clock_id :: "u32 option"
  pk_track_event :: "track_event option"
  pk_track_descriptor :: "track_descriptor option"
  pk_sequence_id :: "u32 option"
  pk_sequence_flags :: "u32 option"
  pk_interned_data :: "interned_data option"
  pk_first_packet_on_sequence :: "bool option"

text \<open>The derived \<^verbatim>\<open>Default\<close> of a message: every field absent.\<close>

definition debug_annotation_default :: debug_annotation where
  "debug_annotation_default = \<lparr>da_name = None, da_name_iid = None, da_bool_value = None, da_uint_value = None,
     da_int_value = None, da_double_value = None, da_string_value = None\<rparr>"

definition track_event_default :: track_event where
  "track_event_default = \<lparr>te_type = None, te_track_uuid = None, te_name = None, te_name_iid = None,
     te_debug_annotation = [], te_counter_value = None, te_double_counter_value = None\<rparr>"

definition track_descriptor_default :: track_descriptor where
  "track_descriptor_default = \<lparr>tk_uuid = None, tk_parent_uuid = None, tk_name = None, tk_process = None,
     tk_thread = None, tk_counter = None, tk_child_ordering = None, tk_sibling_order_rank = None\<rparr>"

definition trace_packet_default :: trace_packet where
  "trace_packet_default = \<lparr>pk_timestamp = None, pk_timestamp_clock_id = None, pk_track_event = None,
     pk_track_descriptor = None, pk_sequence_id = None, pk_sequence_flags = None, pk_interned_data = None,
     pk_first_packet_on_sequence = None\<rparr>"

definition TYPE_SLICE_BEGIN :: i32 where "TYPE_SLICE_BEGIN = 1"
definition TYPE_SLICE_END :: i32 where "TYPE_SLICE_END = 2"
definition TYPE_INSTANT :: i32 where "TYPE_INSTANT = 3"
definition TYPE_COUNTER :: i32 where "TYPE_COUNTER = 4"
definition SEQ_INCREMENTAL_STATE_CLEARED :: u32 where "SEQ_INCREMENTAL_STATE_CLEARED = 1"
definition SEQ_NEEDS_INCREMENTAL_STATE :: u32 where "SEQ_NEEDS_INCREMENTAL_STATE = 2"
definition CLOCK_MONOTONIC :: u32 where "CLOCK_MONOTONIC = 3"
definition CHILD_ORDERING_EXPLICIT :: i32 where "CHILD_ORDERING_EXPLICIT = 3"

section \<open>Interned names\<close>

text \<open>The hash map of names is an association list.\<close>

record intern_table =
  it_names :: "(string \<times> u64) list"
  it_next_iid :: u64

definition InternTable_new :: intern_table where
  "InternTable_new = \<lparr>it_names = [], it_next_iid = 1\<rparr>"

definition intern :: "string \<Rightarrow> intern_table \<Rightarrow> u64 \<times> intern_table" where
  "intern name t = (case map_of (it_names t) name of
     Some iid \<Rightarrow> (iid, t)
   | None \<Rightarrow> (it_next_iid t, \<lparr>it_names = (name, it_next_iid t) # it_names t, it_next_iid = it_next_iid t + 1\<rparr>))"

definition intern_get :: "string \<Rightarrow> intern_table \<Rightarrow> u64 option" where
  "intern_get name t = map_of (it_names t) name"

definition intern_entries :: "intern_table \<Rightarrow> (u64 \<times> string) list" where
  "intern_entries t = map (\<lambda>(name, iid). (iid, name)) (it_names t)"

section \<open>The writer\<close>

text \<open>
  The packets written completely, latest last, the sequences that have announced their names, and
  whether a write has failed. What is on disk is \<open>trace_bytes\<close> as long as none has: a failing write may leave any
  part of its packet in the file, so of the bytes of a torn trace nothing is said. A device accepts or
  rejects a packet; the outcome of an operation is whether all its writes succeeded.
\<close>

type_synonym device = "trace_packet \<Rightarrow> bool"

record trace_writer =
  tw_packets :: "trace_packet list"
  tw_seen_sequences :: "u32 set"
  tw_torn :: bool

definition TraceWriter_new :: trace_writer where
  "TraceWriter_new = \<lparr>tw_packets = [], tw_seen_sequences = {}, tw_torn = False\<rparr>"

definition packet_bytes :: "(trace_packet \<Rightarrow> bytes) \<Rightarrow> trace_packet \<Rightarrow> bytes" where
  "packet_bytes encode p = field1_tag_and_length (word_of_nat (length (encode p))) @ encode p"

definition trace_bytes :: "(trace_packet \<Rightarrow> bytes) \<Rightarrow> trace_writer \<Rightarrow> bytes" where
  "trace_bytes encode w = concat (map (packet_bytes encode) (tw_packets w))"

definition write_packet :: "device \<Rightarrow> trace_packet \<Rightarrow> trace_writer \<Rightarrow> bool \<times> trace_writer" where
  "write_packet io p w = (if io p then (True, w\<lparr>tw_packets := tw_packets w @ [p]\<rparr>) else (False, w\<lparr>tw_torn := True\<rparr>))"

definition write_process_track :: "device \<Rightarrow> u64 \<Rightarrow> string \<Rightarrow> i32 \<Rightarrow> string \<Rightarrow> trace_writer \<Rightarrow> bool \<times> trace_writer" where
  "write_process_track io uuid name pid process_name = write_packet io (trace_packet_default\<lparr>
     pk_track_descriptor := Some (track_descriptor_default\<lparr>tk_uuid := Some uuid, tk_name := Some name,
       tk_process := Some \<lparr>pd_pid = Some pid, pd_cmdline = [], pd_process_name = Some process_name\<rparr>\<rparr>)\<rparr>)"

definition write_thread_track :: "device \<Rightarrow> u64 \<Rightarrow> u64 \<Rightarrow> string \<Rightarrow> i32 \<Rightarrow> i64 \<Rightarrow> trace_writer \<Rightarrow> bool \<times> trace_writer" where
  "write_thread_track io uuid parent_uuid name pid tid = write_packet io (trace_packet_default\<lparr>
     pk_track_descriptor := Some (track_descriptor_default\<lparr>tk_uuid := Some uuid,
       tk_parent_uuid := Some parent_uuid, tk_name := Some name,
       tk_thread := Some \<lparr>td_pid = Some pid, td_tid = Some tid, td_thread_name = Some name\<rparr>\<rparr>)\<rparr>)"

definition write_track :: "device \<Rightarrow> u64 \<Rightarrow> u64 \<Rightarrow> string \<Rightarrow> i32 \<Rightarrow> trace_writer \<Rightarrow> bool \<times> trace_writer" where
  "write_track io uuid parent_uuid name order = write_packet io (trace_packet_default\<lparr>
     pk_track_descriptor := Some (track_descriptor_default\<lparr>tk_uuid := Some uuid,
       tk_parent_uuid := Some parent_uuid, tk_name := Some name,
       tk_child_ordering := Some CHILD_ORDERING_EXPLICIT, tk_sibling_order_rank := Some order\<rparr>)\<rparr>)"

definition write_counter_track :: "device \<Rightarrow> u64 \<Rightarrow> u64 \<Rightarrow> string \<Rightarrow> string \<Rightarrow> trace_writer \<Rightarrow> bool \<times> trace_writer" where
  "write_counter_track io uuid parent_uuid name unit_name = write_packet io (trace_packet_default\<lparr>
     pk_track_descriptor := Some (track_descriptor_default\<lparr>tk_uuid := Some uuid,
       tk_parent_uuid := Some parent_uuid, tk_name := Some name,
       tk_counter := Some \<lparr>cd_categories = [], cd_unit_name = Some unit_name, cd_is_incremental = None\<rparr>\<rparr>)\<rparr>)"

definition write_interned_names :: "device \<Rightarrow> u32 \<Rightarrow> (u64 \<times> string) list \<Rightarrow> trace_writer \<Rightarrow> bool \<times> trace_writer" where
  "write_interned_names io sequence_id names w = write_packet io (trace_packet_default\<lparr>
     pk_timestamp_clock_id := Some CLOCK_MONOTONIC, pk_sequence_id := Some sequence_id,
     pk_sequence_flags := Some SEQ_INCREMENTAL_STATE_CLEARED,
     pk_first_packet_on_sequence := Some (sequence_id \<notin> tw_seen_sequences w),
     pk_interned_data := Some \<lparr>in_event_categories = [],
       in_event_names = map (\<lambda>(iid, name). \<lparr>en_iid = Some iid, en_name = Some name\<rparr>) names\<rparr>\<rparr>)
     (w\<lparr>tw_seen_sequences := insert sequence_id (tw_seen_sequences w)\<rparr>)"

text \<open>A packet with a track event at a time.\<close>

definition event_packet :: "u32 \<Rightarrow> u64 \<Rightarrow> track_event \<Rightarrow> trace_packet" where
  "event_packet sequence_id timestamp_ns ev = trace_packet_default\<lparr>pk_timestamp := Some timestamp_ns,
     pk_timestamp_clock_id := Some CLOCK_MONOTONIC, pk_sequence_id := Some sequence_id, pk_track_event := Some ev\<rparr>"

definition slice_begin :: "device \<Rightarrow> u32 \<Rightarrow> u64 \<Rightarrow> u64 \<Rightarrow> u64 \<Rightarrow> trace_writer \<Rightarrow> bool \<times> trace_writer" where
  "slice_begin io sequence_id track_uuid timestamp_ns name_iid = write_packet io
     ((event_packet sequence_id timestamp_ns (track_event_default\<lparr>te_type := Some TYPE_SLICE_BEGIN,
        te_track_uuid := Some track_uuid, te_name_iid := Some name_iid\<rparr>))
      \<lparr>pk_sequence_flags := Some SEQ_NEEDS_INCREMENTAL_STATE\<rparr>)"

definition slice_end :: "device \<Rightarrow> u32 \<Rightarrow> u64 \<Rightarrow> u64 \<Rightarrow> trace_writer \<Rightarrow> bool \<times> trace_writer" where
  "slice_end io sequence_id track_uuid timestamp_ns = write_packet io
     (event_packet sequence_id timestamp_ns (track_event_default\<lparr>te_type := Some TYPE_SLICE_END,
        te_track_uuid := Some track_uuid\<rparr>))"

definition instant :: "device \<Rightarrow> u32 \<Rightarrow> u64 \<Rightarrow> u64 \<Rightarrow> string \<Rightarrow> debug_annotation list \<Rightarrow> trace_writer \<Rightarrow> bool \<times> trace_writer" where
  "instant io sequence_id track_uuid timestamp_ns name annotations = write_packet io
     (event_packet sequence_id timestamp_ns (track_event_default\<lparr>te_type := Some TYPE_INSTANT,
        te_track_uuid := Some track_uuid, te_name := Some name, te_debug_annotation := annotations\<rparr>))"

definition counter_double :: "device \<Rightarrow> u32 \<Rightarrow> u64 \<Rightarrow> u64 \<Rightarrow> f64 \<Rightarrow> trace_writer \<Rightarrow> bool \<times> trace_writer" where
  "counter_double io sequence_id track_uuid timestamp_ns val = write_packet io
     (event_packet sequence_id timestamp_ns (track_event_default\<lparr>te_type := Some TYPE_COUNTER,
        te_track_uuid := Some track_uuid, te_double_counter_value := Some val\<rparr>))"

end
