(* ===== verification/Perfetto_Sink.thy ===== *)
theory Perfetto_Sink
  imports Perfetto_Writer Protocol_Messages Decimal Text "HOL-Library.AList" "HOL-Library.Sublist"
begin

text \<open>
  The trace sink of the daemon, \<^verbatim>\<open>crates/rocket-surgeon/src/perfetto_sink.rs\<close>: identifiers of tracks packed
  into bit fields, one sequence with its own interned names per rank, and the slices and instants written
  for stopped ticks and fired probes. An operation answers \<^const>\<open>None\<close> for a panic, otherwise whether its
  writes succeeded and the new sink. The clock is the argument \<open>now\<close>. Hash maps are association lists.
\<close>

section \<open>Track identifiers\<close>

definition DAEMON_RANK :: u32 where "DAEMON_RANK = 0xFFF"
definition DAEMON_SEQUENCE :: u32 where "DAEMON_SEQUENCE = 999"
definition WORKER_SEQUENCE_BASE :: u32 where "WORKER_SEQUENCE_BASE = 1000"
definition MAX_WORKER_RANK :: u32 where "MAX_WORKER_RANK = 0xFFE"

datatype track_kind = Process_Track | Layer_Track | Component_Track | Counter_Track

fun kind_code :: "track_kind \<Rightarrow> u64" where
  "kind_code Process_Track = 1"
| "kind_code Layer_Track = 2"
| "kind_code Component_Track = 3"
| "kind_code Counter_Track = 4"

definition track_uuid :: "track_kind \<Rightarrow> u32 \<Rightarrow> u32 \<Rightarrow> u32 \<Rightarrow> u64 option" where
  "track_uuid kind rank layer component =
     (if rank \<le> 0xFFF \<and> layer \<le> 0xFFFF then
        Some (push_bit 60 (kind_code kind) OR push_bit 48 (ucast rank) OR push_bit 32 (ucast layer) OR ucast component)
      else None)"

definition process_uuid :: "u32 \<Rightarrow> u64 option" where
  "process_uuid rank = track_uuid Process_Track rank 0 0"

definition layer_uuid :: "u32 \<Rightarrow> u32 \<Rightarrow> u64 option" where
  "layer_uuid rank layer = track_uuid Layer_Track rank layer 0"

definition component_uuid :: "u32 \<Rightarrow> u32 \<Rightarrow> u32 \<Rightarrow> u64 option" where
  "component_uuid rank layer component = track_uuid Component_Track rank layer component"

definition sequence_id :: "u32 \<Rightarrow> u32" where
  "sequence_id rank = (if rank = DAEMON_RANK then DAEMON_SEQUENCE else WORKER_SEQUENCE_BASE + rank)"

section \<open>The sink\<close>

record rank_state =
  rk_sequence :: u32
  rk_intern :: intern_table
  rk_declared :: bool

record perfetto_sink =
  ps_writer :: trace_writer
  ps_component_uuids :: "((u32 \<times> u32 \<times> string) \<times> u64) list"
  ps_component_index :: "((u32 \<times> u32) \<times> u32) list"
  ps_ranks :: "(u32 \<times> rank_state) list"
  ps_open_slices :: "(u64 \<times> u32) list"

type_synonym 'a traced = "('a option \<times> perfetto_sink) option"

text \<open>A write through the sink's writer: whether it succeeded, and the sink.\<close>

definition emit :: "(trace_writer \<Rightarrow> bool \<times> trace_writer) \<Rightarrow> perfetto_sink \<Rightarrow> bool \<times> perfetto_sink" where
  "emit f s = (case f (ps_writer s) of (ok, w) \<Rightarrow> (ok, s\<lparr>ps_writer := w\<rparr>))"

definition saturating_i32 :: "u32 \<Rightarrow> i32" where
  "saturating_i32 v = int (min (unat v) (2 ^ 31 - 1))"

definition PerfettoSink_create :: "device \<Rightarrow> string \<Rightarrow> string \<Rightarrow> u32 \<Rightarrow> unit traced" where
  "PerfettoSink_create io session_id model_name daemon_pid =
     (case process_uuid DAEMON_RANK of
        None \<Rightarrow> None
      | Some uuid \<Rightarrow>
         (case write_process_track io uuid (''daemon:'' @ session_id) (saturating_i32 daemon_pid) model_name
                 TraceWriter_new of
            (ok, w) \<Rightarrow> Some (if ok then Some () else None, \<lparr>ps_writer = w, ps_component_uuids = [],
               ps_component_index = [], ps_ranks = [], ps_open_slices = []\<rparr>)))"

definition fresh_rank :: "u32 \<Rightarrow> rank_state" where
  "fresh_rank sq = \<lparr>rk_sequence = sq, rk_intern = InternTable_new, rk_declared = False\<rparr>"

definition declare_process :: "device \<Rightarrow> u32 \<Rightarrow> u32 \<Rightarrow> string \<Rightarrow> perfetto_sink \<Rightarrow> unit traced" where
  "declare_process io rank worker_pid display_name s =
     (if \<not> rank \<le> MAX_WORKER_RANK then None
      else if map_of (ps_ranks s) (sequence_id rank) \<noteq> None then Some (Some (), s)
      else (case process_uuid rank of
        None \<Rightarrow> None
      | Some uuid \<Rightarrow>
         (case emit (write_process_track io uuid display_name (saturating_i32 worker_pid) display_name) s of
            (False, s1) \<Rightarrow> Some (None, s1)
          | (True, s1) \<Rightarrow> Some (Some (), s1\<lparr>ps_ranks :=
               AList.update (sequence_id rank) (fresh_rank (sequence_id rank)) (ps_ranks s1)\<rparr>))))"

definition ensure_rank :: "u32 \<Rightarrow> perfetto_sink \<Rightarrow> perfetto_sink" where
  "ensure_rank rank s = (case map_of (ps_ranks s) (sequence_id rank) of
     Some _ \<Rightarrow> s
   | None \<Rightarrow> s\<lparr>ps_ranks := AList.update (sequence_id rank) (fresh_rank (sequence_id rank)) (ps_ranks s)\<rparr>)"

text \<open>Interning a name on a rank's sequence, which exists by then.\<close>

definition intern_on :: "u32 \<Rightarrow> string \<Rightarrow> perfetto_sink \<Rightarrow> u64 \<times> perfetto_sink" where
  "intern_on rank name s0 = (let s = ensure_rank rank s0 in
     case map_of (ps_ranks s) (sequence_id rank) of
       None \<Rightarrow> (0, s)
     | Some st \<Rightarrow> (case intern name (rk_intern st) of
         (iid, t) \<Rightarrow> (iid, s\<lparr>ps_ranks := AList.update (sequence_id rank) (st\<lparr>rk_intern := t\<rparr>) (ps_ranks s)\<rparr>)))"

definition declare_layer :: "device \<Rightarrow> u32 \<Rightarrow> u32 \<Rightarrow> perfetto_sink \<Rightarrow> unit traced" where
  "declare_layer io rank layer s = (case (layer_uuid rank layer, process_uuid rank) of
     (Some lu, Some pu) \<Rightarrow>
       (case emit (write_track io lu pu (''L'' @ show_u32 layer) (saturating_i32 layer)) s of
          (ok, s1) \<Rightarrow> Some (if ok then Some () else None, s1))
   | _ \<Rightarrow> None)"

definition display_name :: "u32 \<Rightarrow> string \<Rightarrow> string" where
  "display_name layer component = ''L'' @ show_u32 layer @ ''::'' @ component"

definition next_index :: "u32 \<times> u32 \<Rightarrow> ((u32 \<times> u32) \<times> u32) list \<Rightarrow> u32" where
  "next_index k m = (case map_of m k of None \<Rightarrow> 0 | Some i \<Rightarrow> i + 1)"

definition declare_component :: "device \<Rightarrow> u32 \<Rightarrow> u32 \<Rightarrow> string \<Rightarrow> perfetto_sink \<Rightarrow> u64 traced" where
  "declare_component io rank layer component s =
     (case map_of (ps_component_uuids s) (rank, layer, component) of
        Some uuid \<Rightarrow> Some (Some uuid, s)
      | None \<Rightarrow>
         let ix = next_index (rank, layer) (ps_component_index s);
             s1 = s\<lparr>ps_component_index := AList.update (rank, layer) ix (ps_component_index s)\<rparr>
         in (case (component_uuid rank layer ix, layer_uuid rank layer) of
               (Some uuid, Some lu) \<Rightarrow>
                 (case emit (write_track io uuid lu (display_name layer component) (saturating_i32 ix)) s1 of
                    (False, s2) \<Rightarrow> Some (None, s2)
                  | (True, s2) \<Rightarrow>
                      let s3 = snd (intern_on rank (display_name layer component) s2) in
                      Some (Some uuid, s3\<lparr>ps_component_uuids :=
                        AList.update (rank, layer, component) uuid (ps_component_uuids s3)\<rparr>))
             | _ \<Rightarrow> None))"

definition resolve_or_create_component :: "device \<Rightarrow> u32 \<Rightarrow> u32 \<Rightarrow> string \<Rightarrow> perfetto_sink \<Rightarrow> u64 traced" where
  "resolve_or_create_component io rank layer component s =
     (case map_of (ps_component_uuids s) (rank, layer, component) of
        Some uuid \<Rightarrow> Some (Some uuid, s)
      | None \<Rightarrow> declare_component io rank layer component s)"

definition emit_interned_names :: "device \<Rightarrow> u32 \<Rightarrow> perfetto_sink \<Rightarrow> unit traced" where
  "emit_interned_names io rank s0 =
     (let s = ensure_rank rank s0; sq = sequence_id rank;
          pairs = (case map_of (ps_ranks s) sq of None \<Rightarrow> [] | Some st \<Rightarrow> intern_entries (rk_intern st))
      in if pairs = [] then Some (Some (), s)
         else (case emit (write_interned_names io sq pairs) s of
           (False, s1) \<Rightarrow> Some (None, s1)
         | (True, s1) \<Rightarrow> Some (Some (), (case map_of (ps_ranks s1) sq of
             None \<Rightarrow> s1
           | Some st \<Rightarrow> s1\<lparr>ps_ranks := AList.update sq (st\<lparr>rk_declared := True\<rparr>) (ps_ranks s1)\<rparr>))))"

section \<open>Events\<close>

text \<open>Ending the slice that is open on a track, if there is one.\<close>

definition end_open_slice :: "device \<Rightarrow> u64 \<Rightarrow> u64 \<Rightarrow> perfetto_sink \<Rightarrow> bool \<times> perfetto_sink" where
  "end_open_slice io now track s = (case map_of (ps_open_slices s) track of
     None \<Rightarrow> (True, s)
   | Some sq \<Rightarrow> emit (slice_end io sq track now) (s\<lparr>ps_open_slices := AList.delete track (ps_open_slices s)\<rparr>))"

definition on_tick_stopped :: "device \<Rightarrow> u64 \<Rightarrow> tick_position \<Rightarrow> perfetto_sink \<Rightarrow> unit traced" where
  "on_tick_stopped io now pos s =
     (let rank = (case tp_rank pos of None \<Rightarrow> 0 | Some r \<Rightarrow> r) in
      case resolve_or_create_component io rank (tp_layer pos) (tp_component pos) s of
        None \<Rightarrow> None
      | Some (None, s1) \<Rightarrow> Some (None, s1)
      | Some (Some track, s1) \<Rightarrow>
         (case end_open_slice io now track s1 of
            (False, s2) \<Rightarrow> Some (None, s2)
          | (True, s2) \<Rightarrow>
             (case intern_on rank (display_name (tp_layer pos) (tp_component pos)) s2 of
                (iid, s3) \<Rightarrow>
                 (case emit (slice_begin io (sequence_id rank) track now iid) s3 of
                    (False, s4) \<Rightarrow> Some (None, s4)
                  | (True, s4) \<Rightarrow> Some (Some (), s4\<lparr>ps_open_slices :=
                       AList.update track (sequence_id rank) (ps_open_slices s4)\<rparr>)))))"

text \<open>\<^verbatim>\<open>{:?}\<close> of a vector of integers.\<close>

fun join_with :: "string \<Rightarrow> string list \<Rightarrow> string" where
  "join_with sep [] = []"
| "join_with sep [x] = x"
| "join_with sep (x # y # ys) = x @ sep @ join_with sep (y # ys)"

definition debug_shape :: "u64 list \<Rightarrow> string" where
  "debug_shape ns = ''['' @ join_with '', '' (map show_u64 ns) @ '']''"

definition probe_annotations :: "tensor_summary option \<Rightarrow> debug_annotation list" where
  "probe_annotations sm = (case sm of
     None \<Rightarrow> []
   | Some t \<Rightarrow> [
       debug_annotation_default\<lparr>da_name := Some ''shape'', da_string_value := Some (debug_shape (sum_shape t))\<rparr>,
       debug_annotation_default\<lparr>da_name := Some ''mean'', da_double_value := Some (st_mean (sum_stats t))\<rparr>,
       debug_annotation_default\<lparr>da_name := Some ''std'', da_double_value := Some (st_std (sum_stats t))\<rparr>,
       debug_annotation_default\<lparr>da_name := Some ''l2_norm'', da_double_value := Some (st_l2_norm (sum_stats t))\<rparr>])"

text \<open>The longest component name of the rank that occurs in the point; the first found among equals.\<close>

fun better_track :: "u32 \<Rightarrow> string \<Rightarrow> (u32 \<times> u32 \<times> string) \<times> u64 \<Rightarrow> (nat \<times> u64) option \<Rightarrow> (nat \<times> u64) option" where
  "better_track rank point ((r, l, name), uuid) best =
     (if r \<noteq> rank then best
      else if str_contains point (''::'' @ name) \<or> str_contains point name then
        (case best of
           None \<Rightarrow> Some (length name, uuid)
         | Some (prev, _) \<Rightarrow> if length name > prev then Some (length name, uuid) else best)
      else best)"

definition find_track_for_point :: "u32 \<Rightarrow> string \<Rightarrow> perfetto_sink \<Rightarrow> u64 option" where
  "find_track_for_point rank point s =
     map_option snd (fold (better_track rank point) (ps_component_uuids s) None)"

definition on_probe_fired :: "device \<Rightarrow> u64 \<Rightarrow> probe_fired_event \<Rightarrow> perfetto_sink \<Rightarrow> unit traced" where
  "on_probe_fired io now ev s0 =
     (let rank = fe_rank ev; s = ensure_rank rank s0 in
      case (case find_track_for_point rank (fe_point ev) s of Some t \<Rightarrow> Some t | None \<Rightarrow> process_uuid rank) of
        None \<Rightarrow> None
      | Some track \<Rightarrow>
         (case emit (instant io (sequence_id rank) track now (''probe:'' @ fe_probe_id ev)
                 (probe_annotations (fe_tensor_summary ev))) s of
            (ok, s1) \<Rightarrow> Some (if ok then Some () else None, s1)))"

text \<open>Closing: every open slice is ended, up to the first write that fails; the slices are drained anyway.\<close>

fun end_slices :: "device \<Rightarrow> u64 \<Rightarrow> (u64 \<times> u32) list \<Rightarrow> perfetto_sink \<Rightarrow> bool \<times> perfetto_sink" where
  "end_slices io now [] s = (True, s)"
| "end_slices io now ((track, sq) # rest) s = (case emit (slice_end io sq track now) s of
     (False, s1) \<Rightarrow> (False, s1)
   | (True, s1) \<Rightarrow> end_slices io now rest s1)"

definition sink_close :: "device \<Rightarrow> bool \<Rightarrow> u64 \<Rightarrow> perfetto_sink \<Rightarrow> bool \<times> perfetto_sink" where
  "sink_close io flushes now s =
     (case end_slices io now (ps_open_slices s) (s\<lparr>ps_open_slices := []\<rparr>) of
        (ok, s1) \<Rightarrow> (ok \<and> flushes, s1))"

end
