(* ===== verification/Daemon.thy ===== *)
theory Daemon
  imports Export Perfetto_Sink
begin

text \<open>
  The daemon's main loop, \<^verbatim>\<open>crates/rocket-surgeon/src/main.rs\<close>: one iteration handles one message from the
  client, calling the orchestrator where the request needs the model, and may send notifications.
  \<open>codec\<close> collects \<^verbatim>\<open>serde_json\<close> and floating-point arithmetic, which never change; \<open>world\<close> is what an
  iteration finds around it: identifiers, clocks, the orchestrator's answers, the operating system.
  \<^const>\<open>None\<close> is a panic. Logging and the sweep of stale shared-memory regions are left out: they
  do not influence the state or the replies.
\<close>

section \<open>Surroundings\<close>

record f64_cmp_ops = f64_ops +
  f64_lt :: "f64 \<Rightarrow> f64 \<Rightarrow> bool"

record 'v codec =
  cd_serde :: "'v serde"
  cd_host :: "'v host_codec"
  cd_export :: "'v export_codec"
  cd_events :: "'v event_json"
  cd_request :: "string \<Rightarrow> (string, 'v request) result"
  cd_response :: "'v response \<Rightarrow> (string, string) result"
  cd_parse_error :: "string \<Rightarrow> string"
  cd_tick_stopped :: "tick_stopped_event \<Rightarrow> (string, 'v) result"
  cd_heartbeat :: "tick_heartbeat_event \<Rightarrow> (string, 'v) result"
  cd_probe_fired :: "probe_fired_event \<Rightarrow> (string, 'v) result"
  cd_render :: "string \<Rightarrow> parse_error"
  cd_f64 :: f64_cmp_ops
  cd_layers :: "u32 \<Rightarrow> u32 list"

record 'v world =
  wd_call :: call_env
  wd_auto_uuid :: string
  wd_exchange :: "'v exchange"
  wd_bins :: bool
  wd_spawn :: "(string, unit) result"
  wd_open_ring :: "string \<Rightarrow> consumer option"
  wd_accepts :: "string \<Rightarrow> bool"
  wd_ingest :: ingest_env
  wd_mem :: bytes
  wd_export :: export_env
  wd_now_in :: u64
  wd_now_out :: u64
  wd_pid :: u32
  wd_trace_created :: bool
  wd_trace_io :: device
  wd_trace_flushes :: bool
  wd_now_ns :: u64

record 'v daemon =
  d_session :: "'v session"
  d_store :: tensor_store
  d_trace :: trace_log
  d_orchestrator :: "orchestrator option"
  d_model_handle :: "u64 option"
  d_consumer :: "consumer option"
  d_registry :: probe_registry
  d_scopes :: "granularity_scope list"
  d_events_enabled :: bool
  d_seq :: u64
  d_out :: string
  d_perfetto :: "perfetto_sink option"
  d_traces :: "trace_writer list"
  d_running :: bool

definition daemon_start :: "'v daemon" where
  "daemon_start = \<lparr>d_session = Session_new, d_store = TensorStore_new, d_trace = TraceLog_new,
     d_orchestrator = None, d_model_handle = None, d_consumer = None, d_registry = ProbeRegistry_new,
     d_scopes = [], d_events_enabled = False, d_seq = 0, d_out = [], d_perfetto = None, d_traces = [], d_running = True\<rparr>"

section \<open>Calls to the host\<close>

definition spawn_and_attach ::
  "'v codec \<Rightarrow> 'v world \<Rightarrow> 'v request \<Rightarrow> (string, orchestrator \<times> host_attach_response) result" where
  "spawn_and_attach W w rq = (case rq_params rq of
     None \<Rightarrow> Err ''attach request missing params''
   | Some params \<Rightarrow> (case de_attach (cd_serde W) params of
       Inl e \<Rightarrow> Err (''failed to parse attach params: '' @ e)
     | Inr req \<Rightarrow>
        let host_req = \<lparr>haq_model_source = at_model_path req, haq_model_family = at_model_family req,
              haq_device = at_device req, haq_dtype = at_dtype req, haq_rank = 0, haq_config = at_config req\<rparr>
        in if \<not> wd_bins w then Err ''orchestrator or worker binary not found''
           else (case wd_spawn w of
             Inl e \<Rightarrow> Err (''failed to spawn orchestrator: '' @ e)
           | Inr _ \<Rightarrow> (case orch_attach (cd_host W) (wd_exchange w) host_req orchestrator_fresh of
               (Inr host_resp, orch) \<Rightarrow> Ok (orch, host_resp)
             | (Inl e, orch) \<Rightarrow> Err (''orchestrator attach failed: '' @ e)))))"

definition resolve_granularity ::
  "tick_granularity option \<Rightarrow> granularity_scope list \<Rightarrow> tick_granularity option" where
  "resolve_granularity explicit scopes = (if explicit \<noteq> None then explicit
     else (case scopes of [] \<Rightarrow> None | g # _ \<Rightarrow> Some (gs_granularity g)))"

definition default_step :: step_request where
  "default_step = \<lparr>sr_direction = Forward, sr_count = 1, sr_granularity = None,
     sr_envelope = envelope_mode_default, sr_run_to = None, sr_tokens = None\<rparr>"

definition try_orchestrator_step ::
  "'v codec \<Rightarrow> 'v exchange \<Rightarrow> u64 option \<Rightarrow> 'v request \<Rightarrow> granularity_scope list \<Rightarrow> intervention_recipe list
   \<Rightarrow> orchestrator option \<Rightarrow> host_step_response option \<times> orchestrator option" where
  "try_orchestrator_step W ex mho rq scopes ivs oo = (case (oo, mho) of
     (Some o1, Some mh) \<Rightarrow>
       (case (case rq_params rq of None \<Rightarrow> Ok default_step | Some p \<Rightarrow> de_step (cd_serde W) p) of
          Inl e \<Rightarrow> (None, oo)
        | Inr req \<Rightarrow>
           (case orch_step (cd_host W) ex \<lparr>hsq_model_handle = mh, hsq_count = sr_count req,
                   hsq_direction = sr_direction req,
                   hsq_granularity = resolve_granularity (sr_granularity req) scopes,
                   hsq_max_events = None, hsq_interventions = ivs, hsq_input_ids = sr_tokens req\<rparr> o1 of
              (Inr hr, o2) \<Rightarrow> (Some hr, Some o2)
            | (Inl e, o2) \<Rightarrow> (None, Some o2)))
   | _ \<Rightarrow> (None, oo))"

text \<open>The bit patterns of the literals \<^verbatim>\<open>0.999\<close>, \<^verbatim>\<open>0.05\<close> and \<^verbatim>\<open>0.6\<close>.\<close>

definition f64_0_999 :: f64 where "f64_0_999 = 0x3FEFF7CED916872B"
definition f64_0_05 :: f64 where "f64_0_05 = 0x3FA999999999999A"
definition f64_0_6 :: f64 where "f64_0_6 = 0x3FE3333333333333"

definition try_orchestrator_replay ::
  "'v codec \<Rightarrow> 'v exchange \<Rightarrow> u64 option \<Rightarrow> 'v request \<Rightarrow> orchestrator option
   \<Rightarrow> host_replay_response option \<times> orchestrator option" where
  "try_orchestrator_replay W ex mho rq oo = (case (oo, mho) of
     (Some o1, Some mh) \<Rightarrow>
       (case rq_params rq of
          None \<Rightarrow> (None, oo)
        | Some p \<Rightarrow> (case de_replay (cd_serde W) p of
            Inl e \<Rightarrow> (None, oo)
          | Inr req \<Rightarrow>
             (case orch_replay (cd_host W) ex \<lparr>hrq_model_handle = mh, hrq_checkpoint_id = rp_from_checkpoint req,
                     hrq_stop_at = rp_stop_at req, hrq_interventions = unwrap_or (rp_interventions req) [],
                     hrq_verify = rp_verify req, hrq_deterministic = unwrap_or (rp_deterministic req) False,
                     hrq_cosine_threshold = unwrap_or (rp_cosine_threshold req) f64_0_999,
                     hrq_mre_threshold = unwrap_or (rp_mre_threshold req) f64_0_05\<rparr> o1 of
                (Inr hr, o2) \<Rightarrow> (Some hr, Some o2)
              | (Inl e, o2) \<Rightarrow> (None, Some o2))))
   | _ \<Rightarrow> (None, oo))"

definition sub_checkpoint_id :: "u32 \<Rightarrow> u64 \<Rightarrow> string" where
  "sub_checkpoint_id seg tick = ''sub-'' @ show_u32 seg @ ''-'' @ show_u64 tick"

definition eager_sub_checkpoint ::
  "'v codec \<Rightarrow> 'v exchange \<Rightarrow> u64 \<Rightarrow> 'v session \<Rightarrow> orchestrator \<Rightarrow> 'v session \<times> orchestrator" where
  "eager_sub_checkpoint W ex mh s o1 =
     (if f64_lt (cd_f64 W) (s_arena_utilization s) f64_0_6 then
        let tick = unwrap_or (ss_tick_id (s_state s)) 0;
            sub_id = sub_checkpoint_id (wl_current (ss_worldline (s_state s))) tick
        in (case orch_checkpoint (cd_host W) ex (HostCkpt_Create mh sub_id Create_Activation tick 0) o1 of
              (Inr resp, o2) \<Rightarrow>
                (update_arena_utilization (f64_ops.truncate (cd_f64 W)) (hc_bytes_captured resp) s, o2)
            | (Inl e, o2) \<Rightarrow> (s, o2))
      else (s, o1))"

definition try_backward_step ::
  "'v codec \<Rightarrow> 'v exchange \<Rightarrow> u64 option \<Rightarrow> 'v session \<Rightarrow> orchestrator option
   \<Rightarrow> host_step_response option \<times> 'v session \<times> orchestrator option" where
  "try_backward_step W ex mho s oo =
     (let target_tick = saturating_sub (unwrap_or (ss_tick_id (s_state s)) 0) 1 in
      case find_checkpoint_before (target_tick + 1) s of
        None \<Rightarrow> (None, s, oo)
      | Some ckpt_id \<Rightarrow>
        (case (oo, mho) of
           (Some o1, Some mh) \<Rightarrow>
             (case eager_sub_checkpoint W ex mh s o1 of (s1, o2) \<Rightarrow>
               (case orch_replay (cd_host W) ex \<lparr>hrq_model_handle = mh, hrq_checkpoint_id = ckpt_id,
                       hrq_stop_at = None, hrq_interventions = s_interventions s1, hrq_verify = False,
                       hrq_deterministic = False, hrq_cosine_threshold = f64_0_999,
                       hrq_mre_threshold = f64_0_05\<rparr> o2 of
                  (Inr hr, o3) \<Rightarrow>
                    (Some \<lparr>hs_position = hr_stopped_at hr, hs_events = [], hs_forward_complete = False,
                           hs_events_truncated = False, hs_fired_interventions = []\<rparr>,
                     advance_worldline_segment target_tick s1, Some o3)
                | (Inl e, o3) \<Rightarrow> (None, s1, Some o3)))
         | _ \<Rightarrow> (None, s, oo)))"

text \<open>
  What \<^verbatim>\<open>try_orchestrator_inspect\<close>, \<^verbatim>\<open>try_orchestrator_view\<close> and the two KV-cache calls make of a raw response:
  a forwarded error response, or the decoded result if there is one.
\<close>

definition forwarded ::
  "request_id \<Rightarrow> ('v \<Rightarrow> (string, 'a) result) \<Rightarrow> (string, 'v response) result \<Rightarrow> ('v response, 'a option) result" where
  "forwarded i de r = (case r of
     Inl e \<Rightarrow> Err (bare_error i INTERNAL_ERROR (''orchestrator transport error: '' @ e))
   | Inr resp \<Rightarrow> (case rs_error resp of
       Some err \<Rightarrow> Err (Response_error i err)
     | None \<Rightarrow> (case rs_result resp of
         None \<Rightarrow> Ok None
       | Some v \<Rightarrow> (case de v of
           Inl e \<Rightarrow> Err (bare_error i INTERNAL_ERROR (''failed to parse orchestrator response: '' @ e))
         | Inr x \<Rightarrow> Ok (Some x)))))"

definition try_host ::
  "u64 option \<Rightarrow> 'v request \<Rightarrow> ('v \<Rightarrow> (string, 'r) result)
   \<Rightarrow> (u64 \<Rightarrow> 'r \<Rightarrow> orchestrator \<Rightarrow> (string, 'v response) result \<times> orchestrator) \<Rightarrow> ('v \<Rightarrow> (string, 'a) result)
   \<Rightarrow> orchestrator option \<Rightarrow> ('v response, 'a option) result \<times> orchestrator option" where
  "try_host mho rq de call de_resp oo = (case (oo, mho) of
     (Some o1, Some mh) \<Rightarrow>
       (case map_option de (rq_params rq) of
          Some (Inr req) \<Rightarrow> (case call mh req o1 of (raw, o2) \<Rightarrow> (forwarded (rq_id rq) de_resp raw, Some o2))
        | _ \<Rightarrow> (Ok None, oo))
   | _ \<Rightarrow> (Ok None, oo))"

definition try_orchestrator_inspect where
  "try_orchestrator_inspect W ex mho rq = try_host mho rq (de_inspect (cd_serde W))
     (\<lambda>mh req. orch_inspect_raw (cd_host W) ex \<lparr>hiq_model_handle = mh, hiq_target = iq_target req,
        hiq_detail = iq_detail req, hiq_slices = iq_slices req\<rparr>) (hd_inspect (cd_host W))"

definition try_orchestrator_view where
  "try_orchestrator_view W ex mho rq = try_host mho rq (de_view (cd_serde W))
     (\<lambda>mh req. orch_view_raw (cd_host W) ex \<lparr>hvq_model_handle = mh, hvq_view = vq_view req,
        hvq_params = vq_params req\<rparr>) (hd_view (cd_host W))"

definition try_orchestrator_kv_read where
  "try_orchestrator_kv_read W ex mho rq = try_host mho rq (de_kv_read (cd_serde W))
     (\<lambda>mh req. orch_kv_read_raw (cd_host W) ex \<lparr>hkq_model_handle = mh, hkq_layers = kq_layers req,
        hkq_positions = kq_positions req, hkq_heads = kq_heads req, hkq_slot = kq_slot req,
        hkq_metric = kq_metric req\<rparr>) (hd_kv_read (cd_host W))"

definition try_orchestrator_kv_intervene where
  "try_orchestrator_kv_intervene W ex mho rq = try_host mho rq (de_kv_intervene (cd_serde W))
     (\<lambda>mh req. orch_kv_intervene_raw (cd_host W) ex \<lparr>hxq_model_handle = mh, hxq_layers = ki_layers req,
        hxq_positions = ki_positions req, hxq_heads = ki_heads req, hxq_slot = ki_slot req,
        hxq_operation = ki_operation req\<rparr>) (hd_kv_intervene (cd_host W))"

text \<open>
  The host is told to detach; the outcome of that call is only logged, then the orchestrator is dropped.
\<close>

definition detach_orchestrator ::
  "'v codec \<Rightarrow> 'v exchange \<Rightarrow> orchestrator option \<Rightarrow> u64 option
   \<Rightarrow> (string, unit) result option \<times> orchestrator option \<times> u64 option" where
  "detach_orchestrator W ex oo mho =
     ((case (mho, oo) of (Some mh, Some o1) \<Rightarrow> Some (fst (orch_detach (cd_host W) ex mh o1)) | _ \<Rightarrow> None),
      None, None)"

definition propagate_probes ::
  "'v codec \<Rightarrow> 'v exchange \<Rightarrow> u64 option \<Rightarrow> probe_registry \<Rightarrow> orchestrator option \<Rightarrow> orchestrator option" where
  "propagate_probes W ex mho g oo = (case (oo, mho) of
     (Some o1, Some mh) \<Rightarrow> Some (snd (orch_update_probes (cd_host W) ex
        \<lparr>huq_model_handle = mh, huq_active_probes = filter pd_enabled (registry_list g)\<rparr> o1))
   | _ \<Rightarrow> oo)"

definition default_position :: tick_position where
  "default_position = \<lparr>tp_tick_id = 0, tp_direction = Forward, tp_rank = Some 0, tp_layer = 0,
     tp_component = [], tp_event = TE_Output, tp_replay_of = None, tp_phase = Decode,
     tp_token_position = None, tp_clock = None\<rparr>"

section \<open>Requests\<close>

text \<open>
  What answering a request yields besides the new daemon state: the reply, the host's step response if
  there was one, the committed attachment, and the shared memory after released slots.
\<close>

record 'v answer =
  an_response :: "'v response"
  an_step :: "host_step_response option"
  an_attach :: "(orchestrator \<times> host_attach_response) option"
  an_mem :: bytes

definition plain_answer :: "'v world \<Rightarrow> 'v response \<Rightarrow> 'v answer" where
  "plain_answer w r = \<lparr>an_response = r, an_step = None, an_attach = None, an_mem = wd_mem w\<rparr>"

definition answer_attach :: "'v codec \<Rightarrow> 'v world \<Rightarrow> 'v request \<Rightarrow> 'v daemon \<Rightarrow> 'v answer \<times> 'v daemon" where
  "answer_attach W w rq d =
     (let S = cd_serde W; attach_with = (\<lambda>b. handle_attach (wd_call w) S b (d_session d) rq) in
      case map_option (de_attach S) (rq_params rq) of
        Some (Inr req) \<Rightarrow>
          (case validate_attach (json S) (d_session d) req of
             Inl e \<Rightarrow> (plain_answer w (Response_error (rq_id rq) (RpcError_from_error_data (session_error_data e))), d)
           | Inr _ \<Rightarrow>
              (case spawn_and_attach W w rq of
                 Inr (orch, host_resp) \<Rightarrow>
                   (case attach_with (Ok host_resp) of (r, s') \<Rightarrow>
                     ((plain_answer w r)\<lparr>an_attach := (if rs_error r = None then Some (orch, host_resp) else None)\<rparr>,
                      d\<lparr>d_session := s'\<rparr>))
               | Inl msg \<Rightarrow> (case attach_with (Err msg) of (r, s') \<Rightarrow> (plain_answer w r, d\<lparr>d_session := s'\<rparr>))))
      | _ \<Rightarrow> (case attach_with (Err ''attach params missing or malformed'') of
               (r, s') \<Rightarrow> (plain_answer w r, d\<lparr>d_session := s'\<rparr>)))"

definition is_backward :: "'v serde \<Rightarrow> 'v request \<Rightarrow> bool" where
  "is_backward S rq = (Option.bind (Option.bind (rq_params rq) (\<lambda>p. json_get (json S) p ''direction''))
     (json_as_str (json S)) = Some ''backward'')"

definition answer_step :: "'v codec \<Rightarrow> 'v world \<Rightarrow> 'v request \<Rightarrow> 'v daemon \<Rightarrow> 'v answer \<times> 'v daemon" where
  "answer_step W w rq d =
     (if is_backward (cd_serde W) rq then
        (case try_backward_step W (wd_exchange w) (d_model_handle d) (d_session d) (d_orchestrator d) of
           (None, s1, oo) \<Rightarrow> (plain_answer w (data_response (rq_id rq) (error_with_hint CapabilityNotSupported
               ''No checkpoint available for backward step'')), d\<lparr>d_session := s1, d_orchestrator := oo\<rparr>)
         | (Some hr, s1, oo) \<Rightarrow>
             (case handle_step (cd_serde W) (Some hr) s1 rq of
                (r, s2) \<Rightarrow> ((plain_answer w r)\<lparr>an_step := Some hr\<rparr>, d\<lparr>d_session := s2, d_orchestrator := oo\<rparr>)))
      else
        (case try_orchestrator_step W (wd_exchange w) (d_model_handle d) rq (d_scopes d)
                (s_interventions (d_session d)) (d_orchestrator d) of
           (hr, oo) \<Rightarrow>
             (case handle_step (cd_serde W) hr (d_session d) rq of
                (r, s1) \<Rightarrow> ((plain_answer w r)\<lparr>an_step := hr\<rparr>, d\<lparr>d_session := s1, d_orchestrator := oo\<rparr>))))"

definition answer_inspect :: "'v codec \<Rightarrow> 'v world \<Rightarrow> 'v request \<Rightarrow> 'v daemon \<Rightarrow> ('v answer \<times> 'v daemon) option" where
  "answer_inspect W w rq d =
     (case try_orchestrator_inspect W (wd_exchange w) (d_model_handle d) rq (d_orchestrator d) of
        (Inl r, oo) \<Rightarrow> Some (plain_answer w r, d\<lparr>d_orchestrator := oo\<rparr>)
      | (Inr hr, oo) \<Rightarrow>
         (case handle_inspect (wd_ingest w) (cd_serde W) hr (d_session d) rq (d_store d) (d_consumer d) (wd_mem w) of
            None \<Rightarrow> None
          | Some (r, store, co, mem) \<Rightarrow>
              Some ((plain_answer w r)\<lparr>an_mem := mem\<rparr>, d\<lparr>d_orchestrator := oo, d_store := store, d_consumer := co\<rparr>)))"

text \<open>A read-only request answered from the host's result, or with the forwarded error.\<close>

definition answer_forwarded ::
  "'v world \<Rightarrow> ('v response, 'a option) result \<times> orchestrator option \<Rightarrow> ('a option \<Rightarrow> 'v response) \<Rightarrow> 'v daemon
   \<Rightarrow> 'v answer \<times> 'v daemon" where
  "answer_forwarded w outcome reply d = (case outcome of
     (Inl r, oo) \<Rightarrow> (plain_answer w r, d\<lparr>d_orchestrator := oo\<rparr>)
   | (Inr hr, oo) \<Rightarrow> (plain_answer w (reply hr), d\<lparr>d_orchestrator := oo\<rparr>))"

definition new_scopes :: "'v serde \<Rightarrow> 'v request \<Rightarrow> granularity_scope list \<Rightarrow> granularity_scope list" where
  "new_scopes S rq old = (case map_option (de_probe S) (rq_params rq) of
     Some (Inr (Probe_SetGranularity scopes)) \<Rightarrow> scopes | _ \<Rightarrow> old)"

definition answer_probe :: "'v codec \<Rightarrow> 'v world \<Rightarrow> 'v request \<Rightarrow> 'v daemon \<Rightarrow> 'v answer \<times> 'v daemon" where
  "answer_probe W w rq d =
     (case handle_probe (cd_serde W) (cd_render W) (d_session d) rq (d_registry d) of
        (r, g) \<Rightarrow> (plain_answer w r, d\<lparr>d_scopes := new_scopes (cd_serde W) rq (d_scopes d), d_registry := g,
            d_orchestrator := (if rs_error r = None
              then propagate_probes W (wd_exchange w) (d_model_handle d) g (d_orchestrator d)
              else d_orchestrator d)\<rparr>))"

definition tell_host ::
  "'v codec \<Rightarrow> 'v exchange \<Rightarrow> host_checkpoint_request list \<Rightarrow> orchestrator option \<Rightarrow> orchestrator option" where
  "tell_host W ex reqs oo = map_option (fold (\<lambda>r o1. snd (orch_checkpoint (cd_host W) ex r o1)) reqs) oo"

definition answer_checkpoint :: "'v codec \<Rightarrow> 'v world \<Rightarrow> 'v request \<Rightarrow> 'v daemon \<Rightarrow> 'v answer \<times> 'v daemon" where
  "answer_checkpoint W w rq d =
     (case handle_checkpoint (wd_call w) (cd_serde W)
             (if d_orchestrator d = None then None else d_model_handle d) (d_session d) rq of
        (r, s1, reqs) \<Rightarrow> (plain_answer w r, d\<lparr>d_session := s1,
            d_orchestrator := tell_host W (wd_exchange w) reqs (d_orchestrator d)\<rparr>))"

text \<open>Exporting needs an attached model: \<^verbatim>\<open>expect\<close> panics without one.\<close>

definition answer_export :: "'v codec \<Rightarrow> 'v world \<Rightarrow> 'v request \<Rightarrow> 'v daemon \<Rightarrow> ('v answer \<times> 'v daemon) option" where
  "answer_export W w rq d = (case (d_orchestrator d, d_model_handle d) of
     (Some o1, Some mh) \<Rightarrow>
       (case handle_export (cd_serde W) (cd_host W) (cd_export W) (wd_export w) (wd_exchange w) (d_session d) rq
               (d_trace d) (d_store d) o1 mh of
          (r, store, o2) \<Rightarrow> Some (plain_answer w r, d\<lparr>d_store := store, d_orchestrator := Some o2\<rparr>))
   | _ \<Rightarrow> None)"

definition daemon_answer ::
  "'v codec \<Rightarrow> 'v world \<Rightarrow> 'v request \<Rightarrow> 'v daemon \<Rightarrow> ('v answer \<times> 'v daemon) option" where
  "daemon_answer W w rq d =
     (let m = rq_method rq; S = cd_serde W; ex = wd_exchange w; mh = d_model_handle d; oo = d_orchestrator d;
          s = d_session d in
      if m = m_ATTACH then Some (answer_attach W w rq d)
      else if m = m_STEP then Some (answer_step W w rq d)
      else if m = m_INSPECT then answer_inspect W w rq d
      else if m = m_VIEW then
        Some (answer_forwarded w (try_orchestrator_view W ex mh rq oo) (\<lambda>hr. handle_view S hr s rq) d)
      else if m = m_KV_READ then
        Some (answer_forwarded w (try_orchestrator_kv_read W ex mh rq oo) (\<lambda>hr. handle_kv_read S hr s rq) d)
      else if m = m_KV_INTERVENE then
        Some (answer_forwarded w (try_orchestrator_kv_intervene W ex mh rq oo) (\<lambda>hr. handle_kv_intervene S hr s rq) d)
      else if m = m_PROBE then Some (answer_probe W w rq d)
      else if m = m_SUBSCRIBE then
        (case handle_subscribe S s rq of (r, s') \<Rightarrow> Some (plain_answer w r, d\<lparr>d_session := s',
           d_events_enabled := (if rs_error r = None then True else d_events_enabled d)\<rparr>))
      else if m = m_UNSUBSCRIBE then
        Some (plain_answer w (handle_unsubscribe S s rq), d\<lparr>d_events_enabled := False\<rparr>)
      else if m = m_SESSION_EXPORT then answer_export W w rq d
      else if m = m_CHECKPOINT then Some (answer_checkpoint W w rq d)
      else if m = m_REPLAY then
        (case try_orchestrator_replay W ex mh rq oo of (hr, oo') \<Rightarrow>
          (case handle_replay S hr s rq of (r, s') \<Rightarrow>
            Some (plain_answer w r, d\<lparr>d_session := s', d_orchestrator := oo'\<rparr>)))
      else (case dispatch (wd_call w) S s rq of (r, s') \<Rightarrow> Some (plain_answer w r, d\<lparr>d_session := s'\<rparr>)))"

section \<open>After the answer\<close>

text \<open>
  Starting a trace file for an attached model: the daemon's process and that of the worker, rank 0. A failed
  start is only logged, and so is a failed declaration of the worker. Neither call panics: both ranks fit.
\<close>

definition open_trace :: "'v world \<Rightarrow> host_attach_response \<Rightarrow> 'v session \<Rightarrow> perfetto_sink option" where
  "open_trace w host s =
     (if \<not> wd_trace_created w then None
      else (case PerfettoSink_create (wd_trace_io w) (ss_session_id (s_state s))
              (unwrap_or (ss_model_id (s_state s)) ''unknown'') (wd_pid w) of
        Some (Some _, ps) \<Rightarrow>
          map_option snd (declare_process (wd_trace_io w) 0 (unwrap_or (ha_worker_pid host) 0) ''rank:0'' ps)
      | _ \<Rightarrow> None))"

text \<open>Wiring a committed attachment. An orchestrator that was still there is dropped.\<close>

definition commit_attachment ::
  "'v codec \<Rightarrow> 'v world \<Rightarrow> (orchestrator \<times> host_attach_response) option \<Rightarrow> 'v daemon \<Rightarrow> 'v daemon" where
  "commit_attachment W w committed d = (case committed of
     None \<Rightarrow> d
   | Some (orch, host) \<Rightarrow> d\<lparr>d_orchestrator := Some orch, d_model_handle := Some (ha_model_handle host),
       d_session := set_auto_checkpoint_layers (cd_layers W (ha_num_layers host)) (d_session d),
       d_consumer := Option.bind (ha_shm_name host) (wd_open_ring w),
       d_perfetto := (case open_trace w host (d_session d) of None \<Rightarrow> d_perfetto d | Some ps \<Rightarrow> Some ps)\<rparr>)"

text \<open>Closing the trace file; the outcome is only logged.\<close>

definition close_trace :: "'v world \<Rightarrow> 'v daemon \<Rightarrow> 'v daemon" where
  "close_trace w d = (case d_perfetto d of
     None \<Rightarrow> d
   | Some ps \<Rightarrow> d\<lparr>d_perfetto := None, d_traces := d_traces d
        @ [ps_writer (snd (sink_close (wd_trace_io w) (wd_trace_flushes w) (wd_now_ns w) ps))]\<rparr>)"

definition release_model :: "'v codec \<Rightarrow> 'v world \<Rightarrow> 'v request \<Rightarrow> 'v response \<Rightarrow> 'v daemon \<Rightarrow> 'v daemon" where
  "release_model W w rq r d =
     (if rs_error r = None \<and> rq_method rq = m_DETACH then
        (case detach_orchestrator W (wd_exchange w) (d_orchestrator d) (d_model_handle d) of
           (_, oo, mh) \<Rightarrow> (close_trace w d)\<lparr>d_orchestrator := oo, d_model_handle := mh, d_consumer := None\<rparr>)
      else d)"

text \<open>Writing a message to the client, after recording it; a failed write ends the loop.\<close>

definition write_client :: "'v world \<Rightarrow> string \<Rightarrow> 'v daemon \<Rightarrow> 'v daemon" where
  "write_client w msg d =
     (let d1 = d\<lparr>d_trace := trace_record (wd_now_out w) Outbound msg (d_trace d)\<rparr> in
      if wd_accepts w msg then d1\<lparr>d_out := d_out d1 @ write_message msg\<rparr> else d1\<lparr>d_running := False\<rparr>)"

definition notify ::
  "'v codec \<Rightarrow> 'v world \<Rightarrow> string \<Rightarrow> 'v \<Rightarrow> 'v daemon \<Rightarrow> bool \<times> 'v daemon" where
  "notify W w m v d =
     (case send_notification_filtered (cd_events W) (wd_accepts w) (s_event_filter (d_session d)) m v
             (d_seq d, d_out d) of
        None \<Rightarrow> (False, d)
      | Some (sq', out') \<Rightarrow> (True, d\<lparr>d_seq := sq', d_out := out'\<rparr>))"

definition current_position :: "'v daemon \<Rightarrow> tick_position" where
  "current_position d = unwrap_or (ss_position (s_state (d_session d))) default_position"

text \<open>
  The probe events of a step. A failed write ends this inner loop only; an event that cannot be
  serialized is a panic.
\<close>

fun notify_probes :: "'v codec \<Rightarrow> 'v world \<Rightarrow> probe_fired_event list \<Rightarrow> 'v daemon \<Rightarrow> 'v daemon option" where
  "notify_probes W w [] d = Some d"
| "notify_probes W w (e # es) d = (case cd_probe_fired W e of
     Inl _ \<Rightarrow> None
   | Inr v \<Rightarrow> (case notify W w ev_PROBE_FIRED v d of
       (True, d') \<Rightarrow> notify_probes W w es d'
     | (False, d') \<Rightarrow> Some d'))"

text \<open>The trace of a stopped tick and of its probes: failed writes are only logged, but the sink may panic.\<close>

definition trace_tick :: "'v world \<Rightarrow> 'v daemon \<Rightarrow> 'v daemon option" where
  "trace_tick w d = (case (d_perfetto d, ss_position (s_state (d_session d))) of
     (Some ps, Some pos) \<Rightarrow> map_option (\<lambda>(_, ps'). d\<lparr>d_perfetto := Some ps'\<rparr>)
       (on_tick_stopped (wd_trace_io w) (wd_now_ns w) pos ps)
   | _ \<Rightarrow> Some d)"

fun probe_all :: "device \<Rightarrow> u64 \<Rightarrow> probe_fired_event list \<Rightarrow> perfetto_sink \<Rightarrow> perfetto_sink option" where
  "probe_all io now [] ps = Some ps"
| "probe_all io now (e # es) ps = Option.bind (on_probe_fired io now e ps) (\<lambda>(_, ps'). probe_all io now es ps')"

definition trace_probes :: "'v world \<Rightarrow> probe_fired_event list \<Rightarrow> 'v daemon \<Rightarrow> 'v daemon option" where
  "trace_probes w es d = (case d_perfetto d of
     None \<Rightarrow> Some d
   | Some ps \<Rightarrow> map_option (\<lambda>ps'. d\<lparr>d_perfetto := Some ps'\<rparr>) (probe_all (wd_trace_io w) (wd_now_ns w) es ps))"

definition step_succeeded :: "'v request \<Rightarrow> 'v response \<Rightarrow> bool" where
  "step_succeeded rq r \<longleftrightarrow> rs_error r = None \<and> rq_method rq = m_STEP"

definition notify_step ::
  "'v codec \<Rightarrow> 'v world \<Rightarrow> 'v request \<Rightarrow> 'v answer \<Rightarrow> 'v daemon \<Rightarrow> 'v daemon option" where
  "notify_step W w rq a d =
     (if d_events_enabled d \<and> step_succeeded rq (an_response a) then
        (case cd_tick_stopped W \<lparr>ts_position = current_position d, ts_state = ss_status (s_state (d_session d))\<rparr> of
           Inl _ \<Rightarrow> None
         | Inr v \<Rightarrow>
            (case notify W w ev_TICK_STOPPED v d of
               (False, d1) \<Rightarrow> Some (d1\<lparr>d_running := False\<rparr>)
             | (True, d1) \<Rightarrow>
                 Option.bind (trace_tick w d1) (\<lambda>d2. case an_step a of
                    None \<Rightarrow> Some d2
                  | Some hr \<Rightarrow> Option.bind (notify_probes W w (hs_events hr) d2) (trace_probes w (hs_events hr)))))
      else Some d)"

definition auto_checkpoint ::
  "'v codec \<Rightarrow> 'v world \<Rightarrow> 'v request \<Rightarrow> 'v answer \<Rightarrow> 'v daemon \<Rightarrow> 'v daemon" where
  "auto_checkpoint W w rq a d =
     (if step_succeeded rq (an_response a) then
        (case (an_step a, d_orchestrator d, d_model_handle d) of
           (Some hr, Some o1, Some mh) \<Rightarrow>
             let layer = tp_layer (hs_position hr) in
             if layer \<in> set (s_auto_checkpoint_layers (d_session d)) then
               let auto_id = ''auto-'' @ wd_auto_uuid w in
               (case orch_checkpoint (cd_host W) (wd_exchange w) (HostCkpt_Create mh auto_id Create_Activation
                       (unwrap_or (ss_tick_id (s_state (d_session d))) 0) layer) o1 of
                  (Inl _, o2) \<Rightarrow> d\<lparr>d_orchestrator := Some o2\<rparr>
                | (Inr _, o2) \<Rightarrow> d\<lparr>d_orchestrator := Some o2, d_session := snd (checkpoint_create_with_id
                      (wd_auto_uuid w) (ce_now (wd_call w)) (Some Create_Activation) (Some auto_id) (d_session d))\<rparr>)
             else d
         | _ \<Rightarrow> d)
      else d)"

text \<open>One iteration with a message from the client.\<close>

definition daemon_message :: "'v codec \<Rightarrow> 'v world \<Rightarrow> string \<Rightarrow> 'v daemon \<Rightarrow> 'v daemon option" where
  "daemon_message W w raw d0 =
     (let d = d0\<lparr>d_trace := trace_record (wd_now_in w) Inbound raw (d_trace d0)\<rparr> in
      case cd_request W raw of
        Inl e \<Rightarrow> Some (write_client w (cd_parse_error W e) d)
      | Inr rq \<Rightarrow>
         (case daemon_answer W w rq d of
            None \<Rightarrow> None
          | Some (a, d1) \<Rightarrow>
             let d2 = release_model W w rq (an_response a) (commit_attachment W w (an_attach a) d1) in
             (case cd_response W (an_response a) of
                Inl _ \<Rightarrow> None
              | Inr text \<Rightarrow>
                 let d3 = write_client w text d2 in
                 if \<not> d_running d3 then Some d3
                 else (case notify_step W w rq a d3 of
                    None \<Rightarrow> None
                  | Some d4 \<Rightarrow> if \<not> d_running d4 then Some d4 else Some (auto_checkpoint W w rq a d4)))))"

text \<open>A heartbeat, sent when events are enabled and a second has passed.\<close>

definition daemon_heartbeat :: "'v codec \<Rightarrow> 'v world \<Rightarrow> f64 \<Rightarrow> f64 \<Rightarrow> 'v daemon \<Rightarrow> 'v daemon option" where
  "daemon_heartbeat W w uptime stopped d =
     (if d_events_enabled d then
        (case cd_heartbeat W \<lparr>hb_position = current_position d, hb_uptime_seconds = uptime,
                hb_elapsed_stopped_sec = stopped, hb_per_rank_status = []\<rparr> of
           Inl _ \<Rightarrow> None
         | Inr v \<Rightarrow> (case notify W w ev_TICK_HEARTBEAT v d of
             (True, d1) \<Rightarrow> Some d1 | (False, d1) \<Rightarrow> Some (d1\<lparr>d_running := False\<rparr>)))
      else Some d)"

datatype loop_event = Client string | Beat f64 f64 | Closed

definition daemon_step :: "'v codec \<Rightarrow> 'v world \<times> loop_event \<Rightarrow> 'v daemon \<Rightarrow> 'v daemon option" where
  "daemon_step W we d = (if \<not> d_running d then Some d else (case we of (w, ev) \<Rightarrow> (case ev of
     Client raw \<Rightarrow> daemon_message W w raw d
   | Beat up st \<Rightarrow> daemon_heartbeat W w up st d
   | Closed \<Rightarrow> Some (d\<lparr>d_running := False\<rparr>))))"

fun daemon_run :: "'v codec \<Rightarrow> ('v world \<times> loop_event) list \<Rightarrow> 'v daemon \<Rightarrow> 'v daemon option" where
  "daemon_run W [] d = Some d"
| "daemon_run W (we # wes) d = Option.bind (daemon_step W we d) (daemon_run W wes)"

text \<open>After the loop: the trace file is closed and the orchestrator dropped.\<close>

definition daemon_exit :: "'v world \<Rightarrow> 'v daemon \<Rightarrow> 'v daemon" where
  "daemon_exit w d = (close_trace w d)\<lparr>d_orchestrator := None\<rparr>"

end
