(* ===== verification/Session_Invariant.thy ===== *)
theory Session_Invariant
  imports Session_Registry
begin

text \<open>
  What holds of the session at every request: the lifecycle it is in determines what it may contain,
  the position and the tick agree, saved checkpoint positions belong to checkpoints, interventions
  are identified by non-empty distinct identifiers, and the worldline is a chain of segments. Every
  operation of the session keeps it.
\<close>

named_theorems session_ops \<open>operations that keep the session invariant\<close>

section \<open>Worldlines\<close>

text \<open>
  Segment \<open>i\<close> is numbered \<open>i\<close>, its parent is segment \<open>i - 1\<close>, and it starts at the tick at which it
  branched off; up to the \<open>2 ^ 32\<close> segments that the numbering can tell apart, that tick is where its
  parent ends.
\<close>

definition segment_follows :: "worldline_segment list \<Rightarrow> nat \<Rightarrow> bool" where
  "segment_follows segs i \<longleftrightarrow> (\<exists>t. seg_branch_tick (segs ! i) = Some t \<and> fst (seg_tick_range (segs ! i)) = t
     \<and> seg_parent (segs ! i) = Some (word_of_nat (i - 1))
     \<and> (length segs \<le> 2 ^ 32 \<longrightarrow> snd (seg_tick_range (segs ! (i - 1))) = t))"

definition worldline_chain :: "worldline_state \<Rightarrow> bool" where
  "worldline_chain w \<longleftrightarrow> (let segs = wl_segments w in
     wl_current w = word_of_nat (length segs - 1)
     \<and> map seg_id segs = map word_of_nat [0..<length segs]
     \<and> (segs \<noteq> [] \<longrightarrow> seg_parent (segs ! 0) = None \<and> seg_branch_tick (segs ! 0) = None)
     \<and> (\<forall>i \<in> {1..<length segs}. segment_follows segs i))"

lemma worldline_chain_default [simp]: "worldline_chain worldline_default"
  by (simp add: worldline_chain_def worldline_default_def)

definition extended :: "u64 \<Rightarrow> worldline_segment \<Rightarrow> worldline_segment" where
  "extended tick g = g\<lparr>seg_tick_range := (fst (seg_tick_range g), tick)\<rparr>"

lemma extended_simps [simp]:
  "seg_id (extended t g) = seg_id g" "seg_parent (extended t g) = seg_parent g"
  "seg_branch_tick (extended t g) = seg_branch_tick g"
  "seg_tick_range (extended t g) = (fst (seg_tick_range g), t)"
  by (simp_all add: extended_def)

lemma extend_segment_eq:
  "extend_segment tick w = (let i = unat (wl_current w) in
     if i < length (wl_segments w)
     then w\<lparr>wl_segments := (wl_segments w)[i := extended tick (wl_segments w ! i)]\<rparr> else w)"
  by (simp add: extend_segment_def extended_def Let_def)

lemma extend_segment_simps [simp]:
  "wl_current (extend_segment t w) = wl_current w"
  "length (wl_segments (extend_segment t w)) = length (wl_segments w)"
  "wl_segments (extend_segment t w) = [] \<longleftrightarrow> wl_segments w = []"
  by (simp_all add: extend_segment_eq Let_def)

lemma extend_segment_nth:
  assumes "i < length (wl_segments w)"
  shows "wl_segments (extend_segment t w) ! i =
    (if i = unat (wl_current w) then extended t (wl_segments w ! i) else wl_segments w ! i)"
  using assms by (simp add: extend_segment_eq Let_def nth_list_update)

lemma unat_current:
  "worldline_chain w \<Longrightarrow> length (wl_segments w) \<le> 2 ^ 32 \<Longrightarrow> wl_segments w \<noteq> [] \<Longrightarrow>
    unat (wl_current w) = length (wl_segments w) - 1"
  by (cases "wl_segments w") (simp_all add: worldline_chain_def Let_def unat_of_nat)

lemma seg_ids_extend: "map seg_id (wl_segments (extend_segment t w)) = map seg_id (wl_segments w)"
  by (rule nth_equalityI) (simp_all add: extend_segment_nth)

lemma segment_follows_extend:
  assumes chain: "worldline_chain w" and i: "i \<in> {1..<length (wl_segments w)}"
  shows "segment_follows (wl_segments (extend_segment t w)) i"
proof -
  have "segment_follows (wl_segments w) i"
    using chain i by (simp add: worldline_chain_def Let_def)
  moreover have "unat (wl_current w) \<noteq> i - 1" if "length (wl_segments w) \<le> 2 ^ 32"
    using unat_current [OF chain that] i by (cases "wl_segments w") auto
  ultimately show ?thesis
    using i unfolding segment_follows_def by (fastforce simp: extend_segment_nth)
qed

lemma worldline_chain_extend [simp]: "worldline_chain w \<Longrightarrow> worldline_chain (extend_segment t w)"
  using segment_follows_extend [of w]
  by (auto simp: worldline_chain_def Let_def seg_ids_extend extend_segment_nth)

lemma segment_follows_append:
  assumes "i \<in> {1..<length segs}" "segment_follows segs i"
  shows "segment_follows (segs @ [g]) i"
  using assms by (auto simp: segment_follows_def nth_append)

lemma worldline_chain_advance [simp]:
  assumes chain: "worldline_chain w"
  shows "worldline_chain (advance_worldline t w)"
proof (cases "wl_segments w = []")
  case True
  then show ?thesis
    using chain by (simp add: advance_worldline_def Let_def worldline_chain_def extend_segment_eq)
next
  case False
  define w' where "w' = extend_segment t w"
  define n where "n = length (wl_segments w')"
  have chain': "worldline_chain w'" and n: "0 < n"
    using chain False by (simp_all add: w'_def n_def)
  define g where "g = \<lparr>seg_id = word_of_nat n, seg_parent = Some (wl_current w'),
    seg_branch_tick = Some t, seg_tick_range = (t, 0)\<rparr>"
  have adv: "advance_worldline t w = w'\<lparr>wl_segments := wl_segments w' @ [g], wl_current := word_of_nat n\<rparr>"
    using False by (simp add: advance_worldline_def Let_def g_def n_def w'_def)
  have last_end: "snd (seg_tick_range (wl_segments w' ! (n - 1))) = t" if "n < 2 ^ 32"
    using unat_current [OF chain] that False by (simp add: w'_def n_def extend_segment_nth)
  have "segment_follows (wl_segments w' @ [g]) i" if i: "i \<in> {1..<Suc n}" for i
  proof (cases "i = n")
    case True
    then show ?thesis
      using chain' n last_end
      by (simp add: segment_follows_def nth_append n_def [symmetric] g_def worldline_chain_def Let_def)
  next
    case False
    then show ?thesis
      using chain' i by (intro segment_follows_append) (auto simp: worldline_chain_def Let_def n_def)
  qed
  then show ?thesis
    using chain' n unfolding adv
    by (simp add: worldline_chain_def Let_def n_def [symmetric] nth_append g_def [symmetric])
      (simp add: g_def n_def)
qed

section \<open>The session\<close>

definition lifecycle_ok :: "'v session \<Rightarrow> bool" where
  "lifecycle_ok s \<longleftrightarrow> (let st = s_state s in
     ss_status st \<in> {Uninitialized, Initialized, Stopped}
     \<and> ss_available_actions st = actions_for (ss_status st)
     \<and> (ss_model_id st \<noteq> None \<longleftrightarrow> ss_status st = Stopped)
     \<and> (ss_status st \<noteq> Stopped \<longrightarrow> ss_position st = None \<and> ss_checkpoints st = []
          \<and> s_catalog s = [] \<and> s_defined_views s = [] \<and> s_interventions s = []
          \<and> s_auto_checkpoint_layers s = []))"

definition position_ok :: "'v session \<Rightarrow> bool" where
  "position_ok s \<longleftrightarrow> ss_tick_id (s_state s) = map_option tp_tick_id (ss_position (s_state s))"

definition checkpoints_ok :: "'v session \<Rightarrow> bool" where
  "checkpoints_ok s \<longleftrightarrow> distinct (map fst (s_checkpoint_positions s))
     \<and> fst ` set (s_checkpoint_positions s) \<subseteq> cr_id ` set (ss_checkpoints (s_state s))"

definition interventions_ok :: "'v session \<Rightarrow> bool" where
  "interventions_ok s \<longleftrightarrow> distinct (map ir_id (s_interventions s))
     \<and> (\<forall>r \<in> set (s_interventions s). ir_id r \<noteq> None \<and> ir_id r \<noteq> Some [])"

definition views_ok :: "'v session \<Rightarrow> bool" where
  "views_ok s \<longleftrightarrow> distinct (map fst (s_defined_views s))
     \<and> fst ` set (s_defined_views s) \<subseteq> {n. \<not> trim_is_empty n}"

definition session_wf :: "'v session \<Rightarrow> bool" where
  "session_wf s \<longleftrightarrow> lifecycle_ok s \<and> position_ok s \<and> checkpoints_ok s \<and> interventions_ok s
     \<and> views_ok s \<and> worldline_chain (ss_worldline (s_state s))"

lemmas session_parts = lifecycle_ok_def position_ok_def checkpoints_ok_def interventions_ok_def
  views_ok_def Let_def

lemma session_wfD:
  assumes "session_wf s"
  shows "lifecycle_ok s" "position_ok s" "checkpoints_ok s" "interventions_ok s" "views_ok s"
    "worldline_chain (ss_worldline (s_state s))"
  using assms by (simp_all add: session_wf_def)

lemma session_wf_new [session_ops]: "session_wf Session_new"
  by (simp add: session_wf_def session_parts Session_new_def actions_for_def)

lemma require_stopped_Ok_iff [simp]:
  "require_stopped s m = Inr u \<longleftrightarrow> ss_status (s_state s) = Stopped"
  by (cases "ss_status (s_state s)") (simp_all add: require_stopped_def)

lemma require_stopped_stopped [simp]: "ss_status (s_state s) = Stopped \<Longrightarrow> require_stopped s m = Inr ()"
  by simp

lemma require_stopped_cases:
  obtains "require_stopped s m = Ok ()" "ss_status (s_state s) = Stopped"
  | e where "require_stopped s m = Err e" "ss_status (s_state s) \<noteq> Stopped"
  by (cases "require_stopped s m") (auto simp: require_stopped_def split: status.splits)

section \<open>Every operation keeps the invariant\<close>

lemma update_actions_simps [simp]:
  "s_state (update_available_actions s) =
     (s_state s)\<lparr>ss_available_actions := actions_for (ss_status (s_state s))\<rparr>"
  "s_catalog (update_available_actions s) = s_catalog s"
  "s_defined_views (update_available_actions s) = s_defined_views s"
  "s_interventions (update_available_actions s) = s_interventions s"
  "s_auto_checkpoint_layers (update_available_actions s) = s_auto_checkpoint_layers s"
  "s_checkpoint_positions (update_available_actions s) = s_checkpoint_positions s"
  by (simp_all add: update_available_actions_def)

lemma initialize_wf [session_ops]: "session_wf s \<Longrightarrow> session_wf (snd (initialize uuid req s))"
  by (auto simp: session_wf_def session_parts initialize_def)

lemma validate_attach_Ok: "validate_attach ops s req = Inr u \<Longrightarrow> ss_status (s_state s) = Initialized"
  by (auto simp: validate_attach_def split: if_splits)

lemma commit_attach_wf [session_ops]:
  "session_wf s \<Longrightarrow> ss_status (s_state s) = Initialized \<Longrightarrow>
    session_wf (snd (commit_attach uuid req ty nl nh dim s))"
  by (auto simp: session_wf_def session_parts commit_attach_def)

lemma detach_wf [session_ops]: "session_wf s \<Longrightarrow> session_wf (snd (detach s))"
  by (auto simp: session_wf_def session_parts detach_def)

lemma checkpoint_create_wf [session_ops]:
  "session_wf s \<Longrightarrow> ss_status (s_state s) = Stopped \<Longrightarrow>
    session_wf (snd (checkpoint_create_with_id uuid now tier cid s))"
  by (auto simp: session_wf_def session_parts checkpoint_create_with_id_def fst_set_update
      distinct_update split: option.splits)

lemma checkpoint_restore_wf [session_ops]:
  "session_wf s \<Longrightarrow> ss_status (s_state s) = Stopped \<Longrightarrow> session_wf (snd (checkpoint_restore cid s))"
  by (simp add: session_wf_def session_parts checkpoint_restore_def split: option.splits)


lemma filter_same_length: "length (filter P xs) = length xs \<longleftrightarrow> filter P xs = xs"
  by (metis filter_True length_filter_less nless_le filter_id_conv)

lemma checkpoint_delete_unchanged:
  "fst (checkpoint_delete cid s) = Inl e \<Longrightarrow> snd (checkpoint_delete cid s) = s"
  by (auto simp: checkpoint_delete_def Let_def filter_same_length split: if_splits)

lemma checkpoint_delete_wf [session_ops]:
  assumes "session_wf s" "ss_status (s_state s) = Stopped"
  shows "session_wf (snd (checkpoint_delete cid s))"
proof (cases "fst (checkpoint_delete cid s)")
  case (Inl e)
  then show ?thesis using assms checkpoint_delete_unchanged [of cid s e] by simp
next
  case (Inr r)
  have "checkpoints_ok (snd (checkpoint_delete cid s))"
    using assms Inr by (auto simp: session_wf_def checkpoints_ok_def checkpoint_delete_def Let_def
        fst_set_delete distinct_delete image_iff split: if_splits)
  then show ?thesis
    using assms by (auto simp: session_wf_def lifecycle_ok_def position_ok_def interventions_ok_def views_ok_def
        Let_def checkpoint_delete_def)
qed

lemma set_update_first_map: "(\<And>x. g (f x) = g x) \<Longrightarrow> map g (update_first Q f xs) = map g xs"
  by (induction xs) auto

lemma checkpoint_bookmark_wf [session_ops]:
  "session_wf s \<Longrightarrow> ss_status (s_state s) = Stopped \<Longrightarrow>
    session_wf (snd (checkpoint_bookmark uuid now tick name s))"
  by (auto simp: session_wf_def session_parts checkpoint_bookmark_def image_iff
      set_map [of cr_id, symmetric] set_update_first_map simp del: set_map)

lemma seat_at_wf [session_ops]:
  "session_wf s \<Longrightarrow> ss_status (s_state s) = Stopped \<Longrightarrow> session_wf (seat_at pos s)"
  by (simp add: session_wf_def session_parts seat_at_def)

lemma advance_worldline_segment_wf [session_ops]:
  "session_wf s \<Longrightarrow> session_wf (advance_worldline_segment t s)"
  by (simp add: session_wf_def session_parts advance_worldline_segment_def)

lemma session_step_wf [session_ops]:
  "session_wf s \<Longrightarrow> session_wf (snd (session_step req pos fc fired s))"
  by (cases rule: require_stopped_cases [of s "''rocket/step''"])
    (simp_all add: session_step_def Let_def seat_at_wf)

lemma session_replay_wf [session_ops]:
  "session_wf s \<Longrightarrow> session_wf (snd (session_replay req host s))"
  by (cases rule: require_stopped_cases [of s "''rocket/replay''"])
    (auto simp: session_replay_def Let_def seat_at_wf split: option.splits prod.splits)

lemma define_view_wf [session_ops]: "session_wf s \<Longrightarrow> session_wf (snd (define_view name spec s))"
  by (cases rule: require_stopped_cases [of s "''rocket/view.define''"])
    (auto simp: define_view_def session_wf_def session_parts distinct_update fst_set_update)

lemma ids_update_first:
  "g r = k \<Longrightarrow> map g (update_first (\<lambda>x. g x = k) (\<lambda>_. r) xs) = map g xs"
  by (induction xs) auto

lemma set_intervention_wf [session_ops]:
  assumes "session_wf s" "ss_status (s_state s) = Stopped" "ir_id r \<noteq> None" "ir_id r \<noteq> Some []"
  shows "session_wf (set_intervention r s)"
proof -
  let ?xs = "s_interventions (set_intervention r s)"
  have "set (map ir_id ?xs) \<subseteq> insert (ir_id r) (set (map ir_id (s_interventions s)))"
    by (auto simp: set_intervention_def set_map [of ir_id, symmetric] ids_update_first simp del: set_map)
  moreover have "distinct (map ir_id ?xs)"
    using assms(1) by (auto simp: set_intervention_def ids_update_first session_wf_def interventions_ok_def)
  ultimately have "interventions_ok (set_intervention r s)"
    using assms by (fastforce simp: interventions_ok_def session_wf_def)
  then show ?thesis
    using assms by (simp add: session_wf_def lifecycle_ok_def position_ok_def checkpoints_ok_def views_ok_def
        Let_def set_intervention_def)
qed

lemma clear_intervention_wf [session_ops]: "session_wf s \<Longrightarrow> session_wf (snd (clear_intervention i s))"
  by (auto simp: session_wf_def session_parts clear_intervention_def distinct_map_filter)

lemma setters_wf [session_ops]:
  "session_wf s \<Longrightarrow> session_wf (set_event_filter f s)"
  "session_wf s \<Longrightarrow> session_wf (update_arena_utilization F b s)"
  "session_wf s \<Longrightarrow> ss_status (s_state s) = Stopped \<Longrightarrow> session_wf (set_auto_checkpoint_layers ls s)"
  by (auto simp: session_wf_def session_parts set_event_filter_def update_arena_utilization_def
      set_auto_checkpoint_layers_def split: option.splits)

end
