(* ===== verification/Dispatch_Contract.thy ===== *)
theory Dispatch_Contract
  imports Dispatch Session_Invariant
begin

text \<open>
  The handlers of \<^verbatim>\<open>crates/rocket-surgeon/src/dispatch.rs\<close> keep the contract of \<open>Request_Contract\<close>
  over the session invariant. Each session operation either succeeds, keeping the invariant, or
  returns an actionable error and the session it was given (\<open>op_ok\<close>); each handler turns that into a
  reply (\<open>answers\<close>), and \<open>dispatch\<close> interprets the contract.
\<close>

named_theorems op_rules \<open>session operations succeed or change nothing\<close>
named_theorems answer_rules \<open>handlers keep the request contract\<close>

section \<open>Errors are actionable\<close>

lemma actionable_session_record [simp]:
  "hint \<noteq> [] \<Longrightarrow> error_severity c = Recoverable \<Longrightarrow> actionable (session_error_record s c sugg valid hint ctx)"
  by (simp add: actionable_def session_error_record_def)

lemma severity_recoverable [simp]:
  "error_severity InvalidState = Recoverable" "error_severity InvalidParams = Recoverable"
  "error_severity ModelAlreadyAttached = Recoverable" "error_severity ModelNotAttached = Recoverable"
  "error_severity UnsupportedModel = Recoverable" "error_severity CapabilityNotSupported = Recoverable"
  "error_severity CheckpointNotFound = Recoverable" "error_severity CompiledModel = Recoverable"
  by (simp_all add: error_severity_def)

lemma actionable_invalid_state [simp]: "actionable (session_error_data (invalid_state_error s m valid))"
  by (simp add: invalid_state_error_def Let_def actionable_def)

lemma actionable_require_stopped [simp]:
  "require_stopped s m = Inl e \<Longrightarrow> actionable (session_error_data e)"
  by (auto simp: require_stopped_def split: status.splits)

lemma actionable_checkpoint_not_found [simp]:
  "actionable (session_error_data (checkpoint_not_found_error s cid))"
  by (simp add: checkpoint_not_found_error_def)

lemma actionable_validate_attach [simp]:
  "validate_attach ops s req = Inl e \<Longrightarrow> actionable (session_error_data e)"
  by (auto simp: validate_attach_def split: if_splits)

lemma actionable_invalid_target [simp]: "actionable (invalid_target_error t)"
  by (simp add: invalid_target_error_def Let_def)

lemma actionable_validate_recipe [simp]: "validate_recipe r = Inl d \<Longrightarrow> actionable d"
  by (auto simp: validate_recipe_def split: if_splits)

section \<open>Session operations\<close>

definition op_ok :: "'v session \<Rightarrow> (session_error, 'a) result \<times> 'v session \<Rightarrow> bool" where
  "op_ok s p = (case fst p of
     Inl e \<Rightarrow> actionable (session_error_data e) \<and> snd p = s
   | Inr _ \<Rightarrow> session_wf (snd p))"

lemma op_okI:
  assumes "session_wf (snd p)"
    and "\<And>e. fst p = Inl e \<Longrightarrow> actionable (session_error_data e)"
    and "\<And>e. fst p = Inl e \<Longrightarrow> snd p = s"
  shows "op_ok s p"
  using assms by (simp add: op_ok_def split: sum.split)

lemma op_ok_initialize [op_rules]: "session_wf s \<Longrightarrow> op_ok s (initialize uuid req s)"
  by (rule op_okI [OF initialize_wf]) (auto simp: initialize_def Let_def split: if_splits)

lemma op_ok_detach [op_rules]: "session_wf s \<Longrightarrow> op_ok s (detach s)"
  by (rule op_okI [OF detach_wf]) (auto simp: detach_def Let_def split: if_splits)

lemma op_ok_step [op_rules]: "session_wf s \<Longrightarrow> op_ok s (session_step req pos fc fired s)"
  by (rule op_okI [OF session_step_wf]) (auto simp: session_step_def Let_def split: sum.splits)

lemma op_ok_replay [op_rules]: "session_wf s \<Longrightarrow> op_ok s (session_replay req host s)"
  by (rule op_okI [OF session_replay_wf]) (auto simp: session_replay_def Let_def split: sum.splits option.splits prod.splits)

lemma op_ok_define_view [op_rules]: "session_wf s \<Longrightarrow> op_ok s (define_view name spec s)"
  by (rule op_okI [OF define_view_wf]) (auto simp: define_view_def Let_def split: sum.splits if_splits)

lemma op_ok_restore [op_rules]:
  "session_wf s \<Longrightarrow> ss_status (s_state s) = Stopped \<Longrightarrow> op_ok s (checkpoint_restore cid s)"
  by (rule op_okI [OF checkpoint_restore_wf]) (auto simp: checkpoint_restore_def Let_def split: option.splits)

lemma op_ok_delete [op_rules]:
  "session_wf s \<Longrightarrow> ss_status (s_state s) = Stopped \<Longrightarrow> op_ok s (checkpoint_delete cid s)"
  by (rule op_okI [OF checkpoint_delete_wf]) (auto simp: checkpoint_delete_unchanged checkpoint_delete_def Let_def
      filter_same_length split: if_splits)

text \<open>Read-only operations.\<close>

lemma op_ok_status [op_rules]: "session_wf s \<Longrightarrow> op_ok s (session_status up s, s)"
  by (simp add: op_ok_def session_status_def)

lemma op_ok_discover [op_rules]: "session_wf s \<Longrightarrow> op_ok s (discover s pat, s)"
  by (rule op_okI) (auto simp: discover_def bind_result_def Let_def split: sum.splits option.splits)

section \<open>Replies\<close>

definition answers :: "'v session \<Rightarrow> 'v request \<Rightarrow> 'v response \<times> 'v session \<Rightarrow> bool" where
  "answers s rq p \<longleftrightarrow> session_wf (snd p) \<and> reply_ok rq (fst p) \<and> (refused (fst p) \<longrightarrow> snd p = s)"

lemma reply_serialize [simp]:
  "reply_ok rq (serialize_envelope S (rq_id rq) b)" "\<not> refused (serialize_envelope S i b)"
  by (auto simp: serialize_envelope_def Response_success_def bare_error_def Response_error_def reply_with_def
      refused_def rpc_error_ok_def split: sum.split if_split)

lemma reply_data [simp]: "actionable d \<Longrightarrow> reply_ok rq (data_response (rq_id rq) d)"
  by (simp add: data_response_def Response_error_def reply_with_def rpc_error_ok_def
      RpcError_from_error_data_def actionable_def)

lemma reply_bare:
  "c = INTERNAL_ERROR \<or> c = METHOD_NOT_FOUND \<Longrightarrow> reply_ok rq (bare_error (rq_id rq) c m)"
  "\<not> refused (bare_error i c m)"
  by (auto simp: bare_error_def Response_error_def reply_with_def refused_def rpc_error_ok_def)

lemma reply_invalid_params [simp]: "reply_ok rq (invalid_params_response (rq_id rq) e)"
  by (simp add: invalid_params_response_def)

lemma reply_session_error [simp]:
  "actionable (session_error_data e) \<Longrightarrow> reply_ok rq (session_error_to_response (rq_id rq) e)"
  by (simp add: session_error_to_response_def)

lemma answers_same [answer_rules]: "session_wf s \<Longrightarrow> reply_ok rq r \<Longrightarrow> answers s rq (r, s)"
  by (simp add: answers_def)

lemma answers_success [answer_rules]:
  "session_wf s' \<Longrightarrow> answers s rq (serialize_envelope S (rq_id rq) b, s')"
  by (simp add: answers_def)

lemma answers_finish [answer_rules]:
  "session_wf s \<Longrightarrow> op_ok s p \<Longrightarrow> answers s rq (finish S (rq_id rq) wrap (fst p), snd p)"
  by (auto simp: finish_def op_ok_def answers_def split: sum.splits)

lemma answers_finish_case:
  "session_wf s \<Longrightarrow> op_ok s p \<Longrightarrow> answers s rq (case p of (r, s') \<Rightarrow> (finish S (rq_id rq) wrap r, s'))"
  using answers_finish [of s p rq S wrap] by (simp add: split_beta)

lemma reply_finish:
  "session_wf s \<Longrightarrow> op_ok s (r, s) \<Longrightarrow> reply_ok rq (finish S (rq_id rq) wrap r)"
  for s :: "'v session" and rq :: "'v request"
  using answers_finish [of s "(r, s)"] by (simp add: answers_def)

section \<open>Handlers\<close>

lemma initialize_answers [answer_rules]: "session_wf s \<Longrightarrow> answers s rq (handle_initialize E S s rq)"
  by (auto simp: handle_initialize_def op_rules intro: answers_same answers_finish_case split: sum.split)

lemma attach_answers [answer_rules]: "session_wf s \<Longrightarrow> answers s rq (handle_attach E S b s rq)"
  by (auto simp: handle_attach_def answers_same intro!: answers_success session_ops
      dest: validate_attach_Ok split: sum.split prod.splits
      dest!: arg_cong [of "commit_attach _ _ _ _ _ _ _" _ snd])

lemma detach_answers [answer_rules]: "session_wf s \<Longrightarrow> answers s rq (handle_detach S s rq)"
  unfolding handle_detach_def by (intro answers_finish_case op_rules)

lemma step_answers [answer_rules]: "session_wf s \<Longrightarrow> answers s rq (handle_step S h s rq)"
  by (auto simp: handle_step_def Let_def op_rules intro: answers_same answers_finish_case
      split: sum.split option.split)

lemma subscribe_answers [answer_rules]: "session_wf s \<Longrightarrow> answers s rq (handle_subscribe S s rq)"
  by (auto simp: handle_subscribe_def Let_def intro!: answers_success answers_same session_ops split: sum.split)

lemma view_define_answers [answer_rules]: "session_wf s \<Longrightarrow> answers s rq (handle_view_define S s rq)"
  by (auto simp: handle_view_define_def op_rules intro: answers_same answers_finish_case split: sum.split)

lemma replay_answers [answer_rules]: "session_wf s \<Longrightarrow> answers s rq (handle_replay S h s rq)"
  by (auto simp: handle_replay_def op_rules intro: answers_same answers_finish_case split: sum.split)

lemma intervene_answers [answer_rules]:
  assumes "session_wf s"
  shows "answers s rq (handle_intervene S s rq)"
proof (cases "parse_params S (de_intervene S) rq")
  case (Inl e)
  then show ?thesis using assms by (simp add: handle_intervene_def answers_same)
next
  case parsed: (Inr req)
  show ?thesis
  proof (cases rule: require_stopped_cases [of s "''rocket/intervene''"])
    case 1
    then show ?thesis
      using assms parsed
      by (auto simp: handle_intervene_def intervene_reply_def Let_def validate_recipe_def
          intro!: answers_success answers_same session_ops split: intervene_request.split sum.split if_splits)
  next
    case (2 e)
    then show ?thesis using assms parsed by (simp add: handle_intervene_def answers_same)
  qed
qed

text \<open>The checkpoint handler also tells the host; only its reply and session matter here.\<close>

definition reply_part :: "'a \<times> 'b \<times> 'c \<Rightarrow> 'a \<times> 'b" where
  "reply_part p = (fst p, fst (snd p))"

lemma checkpoint_answers [answer_rules]:
  assumes wf: "session_wf s"
  shows "answers s rq (reply_part (handle_checkpoint E S orch s rq))"
proof (cases "parse_params S (de_checkpoint S) rq")
  case (Inl e)
  then show ?thesis using wf by (simp add: handle_checkpoint_def answers_same reply_part_def)
next
  case parsed: (Inr req)
  show ?thesis
  proof (cases rule: require_stopped_cases [of s "''rocket/checkpoint''"])
    case 1
    note stopped = 1(2)
    have "answers s rq (serialize_envelope S (rq_id rq) b, snd (checkpoint_create_with_id u n t c s))"
      "answers s rq (serialize_envelope S (rq_id rq) b, snd (checkpoint_bookmark u n k m s))"
      for b u n t c k m using wf stopped by (auto intro!: answers_success session_ops)
    moreover have "answers s rq (finish S (rq_id rq) w (fst (checkpoint_restore c s)), snd (checkpoint_restore c s))"
      "answers s rq (finish S (rq_id rq) w (fst (checkpoint_delete c s)), snd (checkpoint_delete c s))"
      for w c using wf stopped by (auto intro!: answers_finish op_rules)
    ultimately show ?thesis
      using parsed 1 wf
      by (cases req) (simp_all add: handle_checkpoint_def reply_part_def checkpoint_create_def split_beta
          Let_def answers_success split: option.split)
  next
    case (2 e)
    then show ?thesis using wf parsed by (simp add: handle_checkpoint_def answers_same reply_part_def)
  qed
qed

text \<open>Handlers that do not touch the session.\<close>

lemma read_only_replies [answer_rules]:
  assumes "session_wf s"
  shows "reply_ok rq (handle_status E S s rq)" "reply_ok rq (handle_discover S s rq)"
    "reply_ok rq (handle_unsubscribe S s rq)" "reply_ok rq (handle_inspect_no_store s rq)"
    "reply_ok rq (handle_view S hv s rq)" "reply_ok rq (handle_kv_read S hk s rq)"
    "reply_ok rq (handle_kv_intervene S hx s rq)"
  using assms
  by (auto simp: handle_status_def handle_discover_def handle_unsubscribe_def handle_inspect_no_store_def
      handle_view_def handle_kv_read_def handle_kv_intervene_def kv_evicted_error_def
      intro!: reply_finish op_rules split: sum.split option.split list.split)

lemma registry_outcome_replies [simp]: "reply_ok rq (fst (registry_outcome S s (rq_id rq) pid r))"
  by (auto simp: registry_outcome_def probe_success_def registry_error_to_response_def Let_def
      split: prod.split sum.split registry_error.split)

lemma probe_replies [answer_rules]: "reply_ok rq (fst (handle_probe S render s rq reg))"
  by (auto simp: handle_probe_def probe_success_def split: sum.split probe_request.split)

section \<open>Dispatch\<close>

lemma dispatch_answers: "session_wf s \<Longrightarrow> answers s rq (dispatch E S s rq)"
  using checkpoint_answers [of s rq E S None]
  by (auto simp: dispatch_def Let_def answer_rules reply_bare reply_part_def split_beta)

interpretation core: atomic_handler "\<lambda>(E, S). dispatch E S" session_wf rpc_error_ok
proof
  fix e :: "call_env \<times> 'v serde" and s :: "'v session" and rq :: "'v request"
  assume "session_wf s"
  then have "answers s rq (case e of (E, S) \<Rightarrow> dispatch E S s rq)"
    by (simp add: dispatch_answers split: prod.split)
  then show "session_wf (snd ((case e of (E, S) \<Rightarrow> dispatch E S) s rq))"
    "reply_ok rq (fst ((case e of (E, S) \<Rightarrow> dispatch E S) s rq))"
    "refused (fst ((case e of (E, S) \<Rightarrow> dispatch E S) s rq)) \<Longrightarrow>
       snd ((case e of (E, S) \<Rightarrow> dispatch E S) s rq) = s"
    by (simp_all add: answers_def split_beta)
qed

section \<open>What clients may rely on\<close>

definition demo_serde :: "unit serde" where
  "demo_serde = \<lparr>empty_object = (), null_value = (), de_initialize = (\<lambda>_. Err ''no''), de_attach = (\<lambda>_. Err ''no''),
     de_step = (\<lambda>_. Ok \<lparr>sr_direction = Forward, sr_count = 2, sr_granularity = None, sr_envelope = Env_Full,
        sr_run_to = None, sr_tokens = None\<rparr>),
     de_inspect = (\<lambda>_. Err ''no''), de_checkpoint = (\<lambda>_. Ok (Ckpt_Restore ''gone'')),
     de_probe = (\<lambda>_. Err ''no''), de_subscribe = (\<lambda>_. Err ''no''), de_unsubscribe = (\<lambda>_. Ok ()),
     de_view = (\<lambda>_. Err ''no''), de_kv_read = (\<lambda>_. Err ''no''), de_kv_intervene = (\<lambda>_. Err ''no''),
     de_discover = (\<lambda>_. Err ''no''), de_view_define = (\<lambda>_. Err ''no''), de_replay = (\<lambda>_. Err ''no''),
     de_intervene = (\<lambda>_. Err ''no''), to_value = (\<lambda>_. Ok ()),
     json = \<lparr>json_get = (\<lambda>_ _. None), json_as_str = (\<lambda>_. None)\<rparr>\<rparr>"

definition demo_env :: call_env where
  "demo_env = \<lparr>ce_uuid = ''u'', ce_now = 0, ce_uptime = 0\<rparr>"

definition demo_request :: "string \<Rightarrow> unit request" where
  "demo_request m = \<lparr>rq_jsonrpc = ''2.0'', rq_id = IdNumber 7, rq_method = m, rq_params = None\<rparr>"

definition demo_stopped :: "unit session" where
  "demo_stopped = map_state (\<lambda>st. st\<lparr>ss_status := Stopped, ss_model_id := Some ''m'',
     ss_available_actions := actions_for Stopped\<rparr>) Session_new"

lemma demo_stopped_wf: "session_wf demo_stopped"
  by (simp add: session_wf_def session_parts demo_stopped_def Session_new_def)

text \<open>C13: The dispatcher answers every request of a consistent session with one reply that carries the
  request's identifier and either a result or an error; structured errors have the numeric code and
  severity of their error code and a non-empty recovery hint. It leaves a consistent session, and the
  very same session when it refuses.\<close>

theorem dispatch_contract:
  assumes "session_wf s"
  shows "session_wf (snd (dispatch E S s rq)) \<and> reply_ok rq (fst (dispatch E S s rq))
    \<and> (refused (fst (dispatch E S s rq)) \<longrightarrow> snd (dispatch E S s rq) = s)"
  using core.keeps_inv [OF assms, of "(E, S)" rq] core.replies [OF assms, of rq "(E, S)"]
    core.refusal [OF assms, of "(E, S)" rq] by simp

theorem dispatch_contract_witness:
  "session_wf (snd (dispatch demo_env demo_serde demo_stopped (demo_request m_STEP)))
    \<and> reply_ok (demo_request m_STEP) (fst (dispatch demo_env demo_serde demo_stopped (demo_request m_STEP)))"
  using dispatch_contract [OF demo_stopped_wf, of demo_env demo_serde "demo_request m_STEP"] by simp

text \<open>Ranking candidates by a cost and keeping those near the best.\<close>

definition ranked :: "('a \<Rightarrow> nat) \<Rightarrow> 'a list \<Rightarrow> (nat \<times> 'a::linorder) list" where
  "ranked d cs = sort_key (\<lambda>x. x) (map (\<lambda>c. (d c, c)) cs)"

lemma set_ranked: "set (ranked d cs) = (\<lambda>c. (d c, c)) ` set cs"
  by (simp add: ranked_def)

lemma ranked_fst_sorted: "sorted_wrt (\<lambda>x y. fst x \<le> fst y) (ranked d cs)"
proof -
  have "sorted_wrt (\<le>) (ranked d cs)" by (simp add: ranked_def)
  then show ?thesis by (rule sorted_wrt_mono_rel [rotated]) (auto simp: less_eq_prod_def)
qed

lemma ranked_hd:
  assumes "cs \<noteq> []"
  shows "ranked d cs \<noteq> []" "fst (hd (ranked d cs)) = d (snd (hd (ranked d cs)))"
    "d (snd (hd (ranked d cs))) = Min (d ` set cs)"
proof -
  have "set (ranked d cs) \<noteq> {}" using assms by (simp add: set_ranked)
  then show ne: "ranked d cs \<noteq> []" by auto
  show fs: "fst (hd (ranked d cs)) = d (snd (hd (ranked d cs)))"
    using hd_in_set [OF ne] by (auto simp: set_ranked)
  have "fst (hd (ranked d cs)) \<le> fst x" if "x \<in> set (ranked d cs)" for x
    using ranked_fst_sorted [of d cs] that ne by (cases "ranked d cs") auto
  then show "d (snd (hd (ranked d cs))) = Min (d ` set cs)"
    using hd_in_set [OF ne] fs by (intro Min_eqI [symmetric]) (fastforce simp: set_ranked)+
qed

lemma nearest_components_ranked:
  "nearest_components w = map snd (take 5 (filter (\<lambda>x. fst x \<le> fst (hd (ranked (edit_distance w)
      CANONICAL_COMPONENTS)) + 2) (ranked (edit_distance w) CANONICAL_COMPONENTS)))"
  by (simp add: nearest_components_def ranked_def Let_def case_prod_unfold)

lemma ranked_kept:
  fixes d :: "'a::linorder \<Rightarrow> nat"
  assumes cs: "cs \<noteq> []" "distinct cs"
  defines "kept \<equiv> take 5 (filter (\<lambda>x. fst x \<le> fst (hd (ranked d cs)) + 2) (ranked d cs))"
  shows "map snd kept \<noteq> []" "hd (map snd kept) = snd (hd (ranked d cs))" "set (map snd kept) \<subseteq> set cs"
    "distinct (map snd kept)" "sorted (map d (map snd kept))"
proof -
  have ne: "ranked d cs \<noteq> []" by (rule ranked_hd(1) [OF cs(1)])
  show "map snd kept \<noteq> []" "hd (map snd kept) = snd (hd (ranked d cs))"
    using ne by (cases "ranked d cs"; simp add: kept_def)+
  have sub: "set kept \<subseteq> set (ranked d cs)" using set_take_subset by (fastforce simp: kept_def)
  then show "set (map snd kept) \<subseteq> set cs" by (auto simp: set_ranked)
  have "distinct kept" using cs(2) by (simp add: kept_def ranked_def distinct_map inj_on_def)
  moreover have "inj_on snd (set kept)"
    by (rule inj_on_subset [OF _ sub]) (auto simp: set_ranked inj_on_def)
  ultimately show "distinct (map snd kept)" by (simp add: distinct_map)
  have "map d (map snd kept) = map fst kept" using sub by (auto simp: set_ranked)
  moreover have "sorted (map fst kept)"
    unfolding kept_def sorted_map by (intro sorted_wrt_take sorted_wrt_filter ranked_fst_sorted)
  ultimately show "sorted (map d (map snd kept))" by metis
qed

lemma canonical_components_distinct: "distinct CANONICAL_COMPONENTS" "CANONICAL_COMPONENTS \<noteq> []"
  by (simp_all add: CANONICAL_COMPONENTS_def)

text \<open>The components suggested for a misspelt target are known components, one to five of them, listed
  by increasing edit distance from the attempted name, and the first is a closest one of all.\<close>

theorem nearest_components_best:
  "let ns = nearest_components w in
     ns \<noteq> [] \<and> length ns \<le> 5 \<and> set ns \<subseteq> set CANONICAL_COMPONENTS \<and> distinct ns
     \<and> sorted (map (edit_distance w) ns)
     \<and> edit_distance w (hd ns) = Min (edit_distance w ` set CANONICAL_COMPONENTS)"
  unfolding Let_def nearest_components_ranked
  using ranked_kept [OF canonical_components_distinct(2,1), of "edit_distance w"]
    ranked_hd(3) [OF canonical_components_distinct(2), of "edit_distance w"]
  by (simp only: length_map length_take) simp

end
