(* ===== verification/Inspect_Flow.thy ===== *)
theory Inspect_Flow
  imports Inspect
begin

text \<open>
  The tensor data path end to end: what the worker publishes is what the daemon reads, the slots are
  released, and no inspection makes the daemon panic.
\<close>

section \<open>One tensor\<close>

lemma length_shape_array [simp]: "length (shape_array sh) = 8"
  by (simp add: shape_array_def)

lemma frame_header_ok:
  assumes inv: "ring_inv (p, co, mem)" and fits: "length d \<le> unat (slot_data_capacity (p_config p))"
  shows "frame_ok (p_config p) (p_maketic p) (frame_header lay sh d (p_maketic p), d)"
  using ring_stamp_frame_ok [OF inv, of "\<lparr>pl_layer = lay, pl_ndim = word_of_nat (min (length sh) 8),
      pl_shape = shape_array sh, pl_data = d\<rparr>"] fits
  by (simp add: ring_fits_def ring_stamp_def frame_header_def)

record capture =
  cap_data :: bytes
  cap_id :: string
  cap_component :: mapped_component
  cap_shape :: "u64 list"
  cap_dtype :: string
  cap_device :: string

abbreviation publish_capture ::
  "capture \<Rightarrow> producer option \<Rightarrow> bytes \<Rightarrow> (captured_tensor option \<times> producer option \<times> bytes) option" where
  "publish_capture a \<equiv> try_shm_publish (cap_data a) (cap_id a) (cap_component a) (cap_shape a) (cap_dtype a) (cap_device a)"

text \<open>The descriptor \<open>ct\<close> names the slot at cursor \<open>tic\<close> and the length of the data.\<close>

definition describes :: "ring_config \<Rightarrow> u64 \<Rightarrow> capture \<Rightarrow> captured_tensor \<Rightarrow> bool" where
  "describes c tic a ct \<longleftrightarrow> ct_tensor_id ct = cap_id a \<and> ct_shape ct = cap_shape a \<and> ct_dtype ct = cap_dtype a
     \<and> ct_device ct = cap_device a \<and> ct_shm_offset ct = Some (slot_offset c tic)
     \<and> ct_byte_length ct = Some (word_of_nat (length (cap_data a)))"

lemma publish_capture_ring:
  assumes inv: "ring_inv (p, co, mem)" and room: "ring_pending (p, co, mem) < slots (p_config p)"
    and fits: "length (cap_data a) \<le> unat (slot_data_capacity (p_config p))"
  shows "\<exists>ct p' mem' f. publish_capture a (Some p) mem = Some (Some ct, Some p', mem')
    \<and> ring_inv (p', co, mem') \<and> ring_contents (p', co, mem') = ring_contents (p, co, mem) @ [f]
    \<and> snd f = cap_data a \<and> p_config p' = p_config p
    \<and> describes (p_config p) (c_nettics co + word_of_nat (ring_pending (p, co, mem))) a ct"
proof -
  let ?f = "(frame_header (unwrap_or (mc_layer_index (cap_component a)) 0) (cap_shape a) (cap_data a) (p_maketic p), cap_data a)"
  have cur: "cursors_ok (p, co, mem)" using inv by (simp add: ring_inv_def)
  have ok: "frame_ok (p_config p) (p_maketic p) ?f" using frame_header_ok [OF inv fits] .
  show ?thesis
    using publish_eq [OF cur room ok] publish_ring [OF inv room ok] pending_word [OF cur]
    by (auto simp: try_shm_publish_def describes_def)
qed

lemma read_pending:
  assumes inv: "ring_inv (p, co, mem)" and i: "i < ring_pending (p, co, mem)"
  shows "read_from_shm io (Some co) mem (slot_offset (p_config p) (c_nettics co + word_of_nat i))
      (word_of_nat (length (snd (ring_contents (p, co, mem) ! i)))) = Ok (snd (ring_contents (p, co, mem) ! i))"
proof -
  let ?tic = "c_nettics co + word_of_nat i" and ?c = "p_config p"
  define f where "f = frame_at ?c mem ?tic"
  have c: "config_ok ?c" and len: "length mem = unat (region_size ?c)"
    and reg: "reg_len (c_region co) = region_size ?c" and ok: "frame_ok ?c ?tic f"
    using inv i by (simp_all add: ring_inv_def cursors_ok_def f_def)
  have n: "length (snd f) \<le> slot_bytes ?c - 128" "unat (header_size (fst f)) = length (snd f)"
    using ok by (auto simp: frame_ok_def)
  have data: "snd f = read_at (unat (slot_offset ?c ?tic) + 128) (length (snd f)) mem"
    using n(2) by (simp add: f_def frame_at_def Let_def)
  have bound: "unat (slot_offset ?c ?tic) + 128 + length (snd f) \<le> unat (region_size ?c)"
    using slot_within_region [OF c, of ?tic] config_okD(2) [OF c] n(1) by linarith
  then have "length (snd f) < 2 ^ 64" using unat_lt [of "region_size ?c"] by simp
  then have "unat (word_of_nat (length (snd f)) :: u64) = length (snd f)" by (simp add: unat_of_nat)
  then show ?thesis
    using i bound data
    by (simp add: read_from_shm_def read_absolute_def Let_def ring_contents_nth f_def [symmetric]
        read_bytes_ok unat_slot_data_offset [OF c] reg)
qed

section \<open>A batch of tensors\<close>

text \<open>The worker publishes the tensors of an inspection one after the other.\<close>

fun publish_batch ::
  "capture list \<Rightarrow> producer option \<Rightarrow> bytes \<Rightarrow> (captured_tensor option list \<times> producer option \<times> bytes) option" where
  "publish_batch [] ring mem = Some ([], ring, mem)"
| "publish_batch (a # as) ring mem = (case publish_capture a ring mem of
     None \<Rightarrow> None
   | Some (ct, ring', mem') \<Rightarrow> (case publish_batch as ring' mem' of
       None \<Rightarrow> None
     | Some (cts, ring'', mem'') \<Rightarrow> Some (ct # cts, ring'', mem'')))"

lemma publish_batch_ring:
  assumes "ring_inv (p, co, mem)" and "ring_pending (p, co, mem) + length as \<le> slots (p_config p)"
    and "\<forall>a \<in> set as. length (cap_data a) \<le> unat (slot_data_capacity (p_config p))"
  shows "\<exists>cts p' mem' fs. publish_batch as (Some p) mem = Some (map Some cts, Some p', mem')
    \<and> ring_inv (p', co, mem') \<and> ring_contents (p', co, mem') = ring_contents (p, co, mem) @ fs
    \<and> map snd fs = map cap_data as \<and> p_config p' = p_config p \<and> length cts = length as
    \<and> (\<forall>i < length as. describes (p_config p) (c_nettics co + word_of_nat (ring_pending (p, co, mem) + i))
         (as ! i) (cts ! i))"
  using assms
proof (induction as arbitrary: p mem)
  case Nil
  then show ?case by (intro exI [of _ "[]"] exI [of _ p] exI [of _ mem]) simp
next
  case (Cons a as)
  obtain ct p1 mem1 f where one: "publish_capture a (Some p) mem = Some (Some ct, Some p1, mem1)"
    "ring_inv (p1, co, mem1)" "ring_contents (p1, co, mem1) = ring_contents (p, co, mem) @ [f]"
    "snd f = cap_data a" "p_config p1 = p_config p"
    and d: "describes (p_config p) (c_nettics co + word_of_nat (ring_pending (p, co, mem))) a ct"
    using publish_capture_ring [of p co mem a] Cons.prems by auto
  have pend: "ring_pending (p1, co, mem1) = Suc (ring_pending (p, co, mem))"
    using arg_cong [OF one(3), of length] by simp
  obtain cts p' mem' fs where rest: "publish_batch as (Some p1) mem1 = Some (map Some cts, Some p', mem')"
    "ring_inv (p', co, mem')" "ring_contents (p', co, mem') = ring_contents (p1, co, mem1) @ fs"
    "map snd fs = map cap_data as" "p_config p' = p_config p" "length cts = length as"
    and ds: "\<forall>i < length as. describes (p_config p)
      (c_nettics co + word_of_nat (Suc (ring_pending (p, co, mem)) + i)) (as ! i) (cts ! i)"
    using Cons.IH [OF one(2)] Cons.prems pend one(5) by auto
  have "\<forall>i < length (a # as). describes (p_config p) (c_nettics co + word_of_nat (ring_pending (p, co, mem) + i))
      ((a # as) ! i) ((ct # cts) ! i)"
    using d ds by (auto simp: nth_Cons ac_simps split: nat.split)
  then show ?case
    using one rest by (intro exI [of _ "ct # cts"] exI [of _ p'] exI [of _ mem'] exI [of _ "f # fs"]) simp
qed

text \<open>What the daemon does with a batch: read every tensor, then release as many slots.\<close>

definition read_captured :: "(int \<Rightarrow> string) \<Rightarrow> consumer option \<Rightarrow> bytes \<Rightarrow> captured_tensor \<Rightarrow> (string, bytes) result" where
  "read_captured io co mem ct = (case (ct_shm_offset ct, ct_byte_length ct) of
     (Some off, Some len) \<Rightarrow> read_from_shm io co mem off len | _ \<Rightarrow> Err [])"

lemma release_slots_ring:
  assumes inv: "ring_inv (p, co, mem)" and n: "n = ring_pending (p, co, mem)"
  shows "\<exists>co' mem'. release_slots (word_of_nat n) (Some co) mem = (Some co', mem')
    \<and> ring_inv (p, co', mem') \<and> ring_contents (p, co', mem') = []"
proof (cases "n = 0")
  case True
  moreover from True n have "ring_contents (p, co, mem) = []"
    using length_ring_contents [of "(p, co, mem)"] by (metis length_0_conv)
  ultimately show ?thesis using inv by (simp add: release_slots_def)
next
  case False
  have cur: "cursors_ok (p, co, mem)" using inv by (simp add: ring_inv_def)
  have "n < 2 ^ 32" using pending_bound [OF cur] slots_bound [of "p_config p"] n by simp
  then have "(0 :: u64) < word_of_nat n" using False by (simp add: word_less_nat_alt unat_of_nat)
  then have "release_slots (word_of_nat n) (Some co) mem = (Some (advanced co n), advanced_bytes co n mem)"
    using advance_by_eq [OF cur, of n] by (simp add: release_slots_def)
  then show ?thesis
    using advance_ring [OF inv, of n] n by (simp add: length_ring_contents [symmetric] del: length_ring_contents)
qed

text \<open>C17: The tensors of an inspection that the worker publishes into a drained ring, no more than the ring
  has slots and each within a slot, are all published; the daemon, at the offsets and lengths the
  worker reports, reads back exactly their bytes; and releasing as many slots as were read leaves the
  ring drained and consistent for the next inspection.\<close>

theorem inspect_transfer_exact:
  assumes inv: "ring_inv (p, co, mem)" and drained: "ring_contents (p, co, mem) = []"
    and room: "length as \<le> slots (p_config p)"
    and fits: "\<forall>a \<in> set as. length (cap_data a) \<le> unat (slot_data_capacity (p_config p))"
  shows "\<exists>cts p' mem' co' mem''. publish_batch as (Some p) mem = Some (map Some cts, Some p', mem')
    \<and> map (read_captured io (Some co) mem') cts = map (\<lambda>a. Ok (cap_data a)) as
    \<and> release_slots (word_of_nat (length as)) (Some co) mem' = (Some co', mem'')
    \<and> ring_inv (p', co', mem'') \<and> ring_contents (p', co', mem'') = []"
proof -
  have pending: "ring_pending (p, co, mem) = 0"
    using drained length_ring_contents [of "(p, co, mem)"] by simp
  obtain cts p' mem' fs where out: "publish_batch as (Some p) mem = Some (map Some cts, Some p', mem')"
    "ring_inv (p', co, mem')" "ring_contents (p', co, mem') = fs" "map snd fs = map cap_data as"
    "p_config p' = p_config p" "length cts = length as"
    and ds: "\<forall>i < length as. describes (p_config p) (c_nettics co + word_of_nat i) (as ! i) (cts ! i)"
    using publish_batch_ring [OF inv, of as] drained pending room fits by auto
  have lf: "length fs = length as" using out(4) by (metis length_map)
  then have pend': "ring_pending (p', co, mem') = length as"
    using out(3) length_ring_contents [of "(p', co, mem')"] by simp
  have "read_captured io (Some co) mem' (cts ! i) = Ok (cap_data (as ! i))" if "i < length as" for i
  proof -
    have "snd (fs ! i) = cap_data (as ! i)" using that out(4) lf by (metis nth_map)
    then show ?thesis
      using read_pending [OF out(2), of i io] ds that pend' out(3,5)
      by (simp add: read_captured_def describes_def)
  qed
  then have "map (read_captured io (Some co) mem') cts = map (\<lambda>a. Ok (cap_data a)) as"
    using out(6) by (intro nth_equalityI) simp_all
  then show ?thesis
    using out(1) release_slots_ring [OF out(2) pend' [symmetric]] by auto
qed

definition demo_capture :: "bytes \<Rightarrow> capture" where
  "demo_capture d = \<lparr>cap_data = d, cap_id = ''t'', cap_component = \<lparr>mc_module_path = ''h.0.mlp'',
     mc_canonical = ''mlp'', mc_layer_index = Some 0\<rparr>, cap_shape = [2, 2], cap_dtype = ''uint8'',
     cap_device = ''cpu''\<rparr>"

theorem inspect_transfer_exact_witness:
  "\<exists>p co mem cts p' mem' co' mem''. fresh_ring ''/r'' demo_config = (p, co, mem)
    \<and> publish_batch [demo_capture [1, 2, 3, 4], demo_capture [5]] (Some p) mem = Some (map Some cts, Some p', mem')
    \<and> map (read_captured (\<lambda>_. []) (Some co) mem') cts = [Ok [1, 2, 3, 4], Ok [5]]
    \<and> release_slots (word_of_nat 2) (Some co) mem' = (Some co', mem'')
    \<and> ring_contents (p', co', mem'') = []"
proof -
  obtain p co mem where r: "fresh_ring ''/r'' demo_config = (p, co, mem)" by (cases "fresh_ring ''/r'' demo_config")
  have inv: "ring_inv (p, co, mem)" "ring_contents (p, co, mem) = []" and cfg: "p_config p = demo_config"
    using fresh_ring_inv [OF demo_config_ok, of "''/r''"] r
    by (auto simp: fresh_ring_def fresh_producer_def)
  have cap: "slots demo_config = 2" "unat (slot_data_capacity demo_config) = 8"
    by (simp_all add: demo_config_def slot_data_capacity_def PROBE_FRAME_HEADER_SIZE_def)
  show ?thesis
    using inspect_transfer_exact [OF inv, of "[demo_capture [1, 2, 3, 4], demo_capture [5]]" "\<lambda>_. []"] r cap
    by (fastforce simp: cfg demo_capture_def simp del: publish_batch.simps)
qed

section \<open>When an inspection panics\<close>

lemma map_of_touch_None: "map_of (te_entries (touch tid st)) k = None \<longleftrightarrow> map_of (te_entries st) k = None"
  by (simp add: touch_def map_of_eq_None_iff image_image split_beta)

lemma insert_present:
  "insert_with_id tid d sh dt dev st = (h, st') \<Longrightarrow> th_tensor_id h = tid \<and> store_contains tid st'"
  using map_of_touch_None [of tid st tid]
  by (auto simp: insert_with_id_def store_contains_def Let_def update_conv' split: option.splits)

text \<open>The shapes of the stored tensors; eviction, access and summaries add none.\<close>

definition store_shapes :: "tensor_store \<Rightarrow> u64 list set" where
  "store_shapes st = sto_shape ` snd ` set (te_entries st)"

lemma store_shapes_map:
  assumes "\<And>k e. sto_shape (f k e) = sto_shape e"
  shows "store_shapes (st\<lparr>te_entries := map (\<lambda>(k, e). (k, f k e)) (te_entries st)\<rparr>) = store_shapes st"
  by (simp add: store_shapes_def image_image) (rule image_cong, auto simp: assms split: prod.split)

lemma store_shapes_touch [simp]: "store_shapes (touch tid st) = store_shapes st"
  using store_shapes_map [of "\<lambda>k e. if k = tid then e\<lparr>sto_gen := te_generation st\<rparr> else e" st]
  by (simp add: touch_def store_shapes_def)

lemma store_shapes_lookup: "map_of (te_entries st) tid = Some e \<Longrightarrow> sto_shape e \<in> store_shapes st"
  by (force simp: store_shapes_def dest: map_of_SomeD)

lemma store_shapes_evict: "store_shapes (evict_oldest st) \<subseteq> store_shapes st"
  by (auto simp: evict_oldest_def store_shapes_def Let_def dest!: set_delete [THEN subsetD] split: option.splits)

lemma store_shapes_room: "store_shapes (make_room n st) \<subseteq> store_shapes st"
proof (induction n st rule: make_room.induct)
  case (1 n st)
  then show ?case using store_shapes_evict [of st] by (auto simp: make_room.simps [of n st])
qed

lemma set_update_subset: "set (AList.update k v xs) \<subseteq> insert (k, v) (set xs)"
  by (induction xs) auto

lemma store_shapes_insert:
  assumes "insert_with_id tid d sh dt dev st = (h, st')"
  shows "store_shapes st' \<subseteq> insert sh (store_shapes st)"
proof (cases "map_of (te_entries st) tid")
  case None
  let ?e = "\<lparr>sto_tensor_id = tid, sto_shape = sh, sto_dtype = dt, sto_device = dev, sto_data = d, sto_summary = None,
    sto_gen = te_generation (make_room (data_len d) st)\<rparr>"
  have "te_entries st' = AList.update tid ?e (te_entries (make_room (data_len d) st))"
    using assms None by (auto simp: insert_with_id_def Let_def)
  then have "store_shapes st' \<subseteq> insert sh (store_shapes (make_room (data_len d) st))"
    using set_update_subset [of tid ?e "te_entries (make_room (data_len d) st)"] by (force simp: store_shapes_def)
  then show ?thesis using store_shapes_room [of "data_len d" st] by blast
next
  case (Some e)
  then have "st' = touch tid st" using assms by (simp add: insert_with_id_def)
  then show ?thesis by auto
qed

lemma note_summary_None:
  "note_summary I tid st = None \<Longrightarrow> store_contains tid (is_store st) \<Longrightarrow> \<exists>sh \<in> store_shapes (is_store st). 0 \<in> set sh"
  by (auto simp: note_summary_def summarize_def store_contains_def Let_def
      dest!: compute_summary_None store_shapes_lookup split: option.splits)

lemma note_summary_shapes: "note_summary I tid st = Some st' \<Longrightarrow> store_shapes (is_store st') = store_shapes (is_store st)"
  using store_shapes_map [of "\<lambda>k e. if k = tid then e\<lparr>sto_summary := Some _\<rparr> else e" "touch tid (is_store st)"]
  by (auto simp: note_summary_def summarize_def Let_def split: option.splits)

text \<open>A tensor, reported or stored, with a dimension of zero.\<close>

definition zero_dimension :: "captured_tensor list \<Rightarrow> tensor_store \<Rightarrow> bool" where
  "zero_dimension cts st \<longleftrightarrow> (\<exists>sh \<in> ct_shape ` set cts \<union> store_shapes st. 0 \<in> set sh)"

lemma inserted_shapes:
  assumes "insert_with_id tid d (ct_shape ct) dt dev st = (h, st')"
  shows "th_tensor_id h = tid" "store_contains tid st'" "store_shapes st' \<subseteq> insert (ct_shape ct) (store_shapes st)"
  using insert_present [OF assms] store_shapes_insert [OF assms] by blast+

lemma ingest_one_None:
  assumes "ingest_one I co mem ct st = None"
  shows "zero_dimension [ct] (is_store st)"
proof (cases "store_contains (ct_tensor_id ct) (is_store st)")
  case True
  then have "note_summary I (ct_tensor_id ct) st = None"
    using assms by (auto simp: ingest_one_def Let_def split: option.splits)
  then show ?thesis using note_summary_None True by (fastforce simp: zero_dimension_def)
next
  case False
  then obtain tid d dt dev h store' st1 where ins: "insert_with_id tid d (ct_shape ct) dt dev (is_store st) = (h, store')"
    and note_st1: "note_summary I (th_tensor_id h) st1 = None" and st1: "is_store st1 = store'"
    using assms by (fastforce simp: ingest_one_def Let_def store_insert_def split: option.splits sum.splits prod.splits)
  then obtain sh where "sh \<in> store_shapes store'" "0 \<in> set sh"
    using note_summary_None [of I tid st1] inserted_shapes [OF ins] by auto
  then show ?thesis using inserted_shapes(3) [OF ins] by (auto simp: zero_dimension_def)
qed

lemma ingest_one_shapes:
  assumes "ingest_one I co mem ct st = Some (Ok st')"
  shows "store_shapes (is_store st') \<subseteq> insert (ct_shape ct) (store_shapes (is_store st))"
proof (cases "store_contains (ct_tensor_id ct) (is_store st)")
  case True
  then obtain st1 where "note_summary I (ct_tensor_id ct) st = Some st1" "is_store st' = is_store st1"
    using assms by (auto simp: ingest_one_def Let_def split: option.splits if_splits)
  then show ?thesis using note_summary_shapes by auto
next
  case False
  then obtain tid d dt dev h store' st1 where ins: "insert_with_id tid d (ct_shape ct) dt dev (is_store st) = (h, store')"
    and note_st1: "note_summary I (th_tensor_id h) st1 = Some st'" and st1: "is_store st1 = store'"
    using assms by (fastforce simp: ingest_one_def Let_def store_insert_def split: option.splits sum.splits prod.splits)
  then show ?thesis using note_summary_shapes [OF note_st1] inserted_shapes(3) [OF ins] by simp
qed

lemma ingest_all_None: "ingest_all I co mem cts st = None \<Longrightarrow> zero_dimension cts (is_store st)"
proof (induction cts arbitrary: st)
  case (Cons ct cts)
  show ?case
  proof (cases "ingest_one I co mem ct st")
    case None
    then show ?thesis using ingest_one_None [OF None] by (auto simp: zero_dimension_def)
  next
    case (Some r)
    then obtain st' where st': "r = Ok st'" using Cons.prems by (cases r) auto
    then have "zero_dimension cts (is_store st')" using Cons Some by simp
    then show ?thesis using ingest_one_shapes [of I co mem ct st st'] Some st' by (auto simp: zero_dimension_def)
  qed
qed simp

text \<open>
  Inspection answers with a reply whatever the worker reports, with known or unknown element types,
  present or missing shared memory, undecodable data or a store that has evicted the tensor, unless a
  tensor that is reported or stored has a dimension of zero.
\<close>

lemma handle_inspect_None:
  assumes "handle_inspect I S host_response s rq store co mem = None"
  shows "\<exists>hr. host_response = Some hr \<and> zero_dimension (hi_tensors hr) store"
proof -
  obtain hr req where hr: "host_response = Some hr" "ingest_and_respond I S s rq req (hi_tensors hr) store co mem = None"
    using assms by (auto simp: handle_inspect_def split: sum.splits option.splits if_splits)
  let ?st = "\<lparr>is_store = store, is_summaries = [], is_first = None, is_slots = 0\<rparr>"
  have "ingest_all I co mem (hi_tensors hr) ?st = None"
    using hr(2) by (auto simp: ingest_and_respond_def split: option.splits sum.splits prod.splits)
  then show ?thesis using ingest_all_None [of I co mem "hi_tensors hr" ?st] hr(1) by simp
qed

end
