(* ===== verification/Perfetto_Trace.thy ===== *)
theory Perfetto_Trace
  imports Perfetto_Sink
begin

text \<open>
  What a reader of the trace finds: the packets as they were written, a track for each component, slices
  that begin and end in turn, and no announcement of the names the slices refer to.
\<close>

section \<open>The file\<close>

text \<open>C22: The loop that writes a variable-length integer ends after at most ten bytes, and a protobuf reader
  gets the integer back and stops exactly where the next field starts.\<close>

theorem encode_varint_exact:
  "0 < length (encode_varint v) \<and> length (encode_varint v) \<le> 10
   \<and> decode_varint (encode_varint v @ rest) = Some (unat v, rest)"
proof -
  have "unat v < 128 ^ 10" using unat_lt [of v] by simp
  then have "length (encode_varint v) \<le> 10" by (rule length_encode_varint) simp
  moreover have "0 < length (encode_varint v)" by (simp add: encode_varint.simps [of v] Let_def)
  ultimately show ?thesis by (simp add: decode_encode_varint)
qed

text \<open>A reader of the file: the encoded packets, or nothing when it is not a sequence of packets.\<close>

lemma decode_varint_shorter: "decode_varint bs = Some (n, rest) \<Longrightarrow> length rest < length bs"
  by (induction bs arbitrary: n rest) (auto split: if_splits option.splits prod.splits)

function read_packets :: "bytes \<Rightarrow> bytes list option" where
  "read_packets bs = (case bs of
     [] \<Rightarrow> Some []
   | tag # bs1 \<Rightarrow>
      if tag \<noteq> 0x0A then None
      else (case decode_varint bs1 of
        None \<Rightarrow> None
      | Some (n, bs2) \<Rightarrow>
         if length bs2 < n then None
         else map_option ((#) (take n bs2)) (read_packets (drop n bs2))))"
  by pat_completeness auto
termination
  by (relation "measure length") (auto dest!: decode_varint_shorter)

declare read_packets.simps [simp del]

lemma read_packets_Nil: "read_packets [] = Some []"
  by (simp add: read_packets.simps)

lemma read_packets_packet:
  assumes "length (encode p) < 2 ^ 64"
  shows "read_packets (packet_bytes encode p @ rest) = map_option ((#) (encode p)) (read_packets rest)"
proof -
  have "unat (word_of_nat (length (encode p)) :: u64) = length (encode p)"
    using assms by (simp add: unat_of_nat)
  then show ?thesis
    by (simp add: packet_bytes_def field1_tag_and_length_def decode_encode_varint
        read_packets.simps [of "10 # encode_varint (word_of_nat (length (encode p))) @ encode p @ rest"])
qed

lemma read_packets_all:
  "\<forall>p. length (encode p) < 2 ^ 64 \<Longrightarrow> read_packets (concat (map (packet_bytes encode) ps)) = Some (map encode ps)"
  by (induction ps) (simp_all add: read_packets_Nil read_packets_packet)

text \<open>C23: Whatever the encoding of a packet is, a reader of the trace file splits it into exactly the encoded
  packets, in the order they were written.\<close>

theorem trace_file_roundtrip:
  assumes "\<forall>p. length (encode p) < 2 ^ 64"
  shows "read_packets (trace_bytes encode w) = Some (map encode (tw_packets w))"
  using read_packets_all [OF assms] by (simp add: trace_bytes_def)

theorem trace_file_roundtrip_witness:
  "(let w = snd (slice_end (\<lambda>_. True) 1000 7 5 (snd (slice_begin (\<lambda>_. True) 1000 7 3 1 TraceWriter_new)));
        encode = (\<lambda>p. [0x40, ucast (the (pk_timestamp p))])
    in read_packets (trace_bytes encode w) = Some [[0x40, 3], [0x40, 5]])"
  using trace_file_roundtrip [of "\<lambda>p. [0x40, ucast (the (pk_timestamp p))]"
      "snd (slice_end (\<lambda>_. True) 1000 7 5 (snd (slice_begin (\<lambda>_. True) 1000 7 3 1 TraceWriter_new)))"]
  by (simp add: slice_end_def slice_begin_def write_packet_def TraceWriter_new_def event_packet_def
      trace_packet_default_def Let_def)

section \<open>Track identifiers\<close>

lemma uuid_fields:
  fixes k :: u64 and r l c :: u32
  defines "u \<equiv> push_bit 60 k OR push_bit 48 (ucast (take_bit 12 r)) OR push_bit 32 (ucast (take_bit 16 l)) OR (ucast c :: u64)"
  shows "take_bit 32 u = ucast c" "take_bit 16 (drop_bit 32 u) = ucast (take_bit 16 l)"
    "take_bit 12 (drop_bit 48 u) = ucast (take_bit 12 r)" "drop_bit 60 u = take_bit 4 k"
  unfolding u_def by (rule bit_word_eqI; auto simp: bit_simps dest: bit_imp_le_length)+

lemma take_bit_small: "r \<le> 0xFFF \<Longrightarrow> take_bit 12 (r :: u32) = r" "l \<le> 0xFFFF \<Longrightarrow> take_bit 16 (l :: u32) = l"
  by (simp_all add: word_le_nat_alt word_unat_eq_iff [of "take_bit _ _"] unsigned_take_bit_eq take_bit_nat_eq_self_iff)

lemma take_bit_kind: "take_bit 4 (kind_code k) = kind_code k"
  by (cases k) simp_all

lemma kind_code_inj: "kind_code k = kind_code k' \<longleftrightarrow> k = k'"
  by (cases k; cases k') simp_all

lemma ucast_u32_inj: "(ucast (a :: u32) :: u64) = ucast b \<longleftrightarrow> a = b"
  using unat_lt [of a] unat_lt [of b]
  by (auto simp: word_unat_eq_iff [where ?'a = 64] word_unat_eq_iff [of a b] unsigned_ucast_eq take_bit_nat_eq_self)

lemma track_uuid_fields:
  assumes "track_uuid k r l c = Some u" "track_uuid k' r' l' c' = Some u"
  shows "k = k' \<and> r = r' \<and> l = l' \<and> c = c'"
proof -
  have u: "drop_bit 60 u = kind_code k" "take_bit 12 (drop_bit 48 u) = ucast r" "take_bit 16 (drop_bit 32 u) = ucast l"
    "take_bit 32 u = ucast c" if "track_uuid k r l c = Some u" for k r l c u
    using that uuid_fields [of "kind_code k" r l c]
    by (auto simp: track_uuid_def take_bit_small take_bit_kind split: if_splits)
  show ?thesis using u [OF assms(1)] u [OF assms(2)] by (metis kind_code_inj ucast_u32_inj)
qed

text \<open>Track identifiers never collide: two of them are equal exactly when they are for the same kind of
  track, rank, layer and component.\<close>

theorem track_uuid_inj:
  assumes "track_uuid k r l c = Some u" "track_uuid k' r' l' c' = Some u'"
  shows "u = u' \<longleftrightarrow> k = k' \<and> r = r' \<and> l = l' \<and> c = c'"
  using assms track_uuid_fields [of k r l c u k' r' l' c'] by auto

theorem track_uuid_inj_witness:
  "\<exists>u u'. track_uuid Layer_Track 3 7 0 = Some u \<and> track_uuid Component_Track 3 7 0 = Some u' \<and> u \<noteq> u'"
proof -
  obtain u u' where "track_uuid Layer_Track 3 7 0 = Some u" "track_uuid Component_Track 3 7 0 = Some u'"
    by (simp add: track_uuid_def)
  then show ?thesis using track_uuid_inj [of Layer_Track 3 7 0 u Component_Track 3 7 0 u'] by auto
qed

section \<open>Any use of a sink\<close>

datatype sink_op =
    Declare_Process u32 u32 string
  | Declare_Layer u32 u32
  | Declare_Component u32 u32 string
  | Emit_Names u32
  | Tick_Stopped u64 tick_position
  | Probe_Fired u64 probe_fired_event

fun sink_apply :: "device \<Rightarrow> sink_op \<Rightarrow> perfetto_sink \<Rightarrow> perfetto_sink option" where
  "sink_apply io (Declare_Process rank pid name) s = map_option snd (declare_process io rank pid name s)"
| "sink_apply io (Declare_Layer rank layer) s = map_option snd (declare_layer io rank layer s)"
| "sink_apply io (Declare_Component rank layer name) s = map_option snd (declare_component io rank layer name s)"
| "sink_apply io (Emit_Names rank) s = map_option snd (emit_interned_names io rank s)"
| "sink_apply io (Tick_Stopped now pos) s = map_option snd (on_tick_stopped io now pos s)"
| "sink_apply io (Probe_Fired now ev) s = map_option snd (on_probe_fired io now ev s)"

fun sink_run :: "device \<Rightarrow> sink_op list \<Rightarrow> perfetto_sink \<Rightarrow> perfetto_sink option" where
  "sink_run io [] s = Some s"
| "sink_run io (x # xs) s = Option.bind (sink_apply io x s) (sink_run io xs)"

lemma sink_run_induct:
  assumes "sink_run io ops s = Some s'" "P s"
    and "\<And>x s s1. x \<in> set ops \<Longrightarrow> P s \<Longrightarrow> sink_apply io x s = Some s1 \<Longrightarrow> P s1"
  shows "P s'"
  using assms
proof (induction ops arbitrary: s)
  case (Cons x xs)
  then obtain s1 where s1: "sink_apply io x s = Some s1" "sink_run io xs s1 = Some s'"
    by (auto split: bind_splits)
  then have "P s1" using Cons.prems(2) Cons.prems(3) [of x s s1] by simp
  then show ?case using Cons.IH [OF s1(2)] Cons.prems(3) by (meson list.set_intros(2))
qed simp

lemma rank_frame [simp]:
  "ps_writer (ensure_rank rank s) = ps_writer s" "ps_writer (snd (intern_on rank name s)) = ps_writer s"
  "ps_open_slices (ensure_rank rank s) = ps_open_slices s"
  "ps_open_slices (snd (intern_on rank name s)) = ps_open_slices s"
  "ps_component_uuids (ensure_rank rank s) = ps_component_uuids s"
  "ps_component_uuids (snd (intern_on rank name s)) = ps_component_uuids s"
  "ps_component_index (ensure_rank rank s) = ps_component_index s"
  "ps_component_index (snd (intern_on rank name s)) = ps_component_index s"
  by (simp_all add: ensure_rank_def intern_on_def Let_def split_beta split: option.split)

section \<open>Slices\<close>

text \<open>The beginnings (\<^const>\<open>True\<close>) and ends of slices on a track, and whether they take turns.\<close>

definition slice_mark :: "u64 \<Rightarrow> trace_packet \<Rightarrow> bool list" where
  "slice_mark t p = (case pk_track_event p of
     None \<Rightarrow> []
   | Some e \<Rightarrow> if te_track_uuid e \<noteq> Some t then []
       else if te_type e = Some TYPE_SLICE_BEGIN then [True]
       else if te_type e = Some TYPE_SLICE_END then [False] else [])"

definition slice_marks :: "u64 \<Rightarrow> trace_writer \<Rightarrow> bool list" where
  "slice_marks t w = concat (map (slice_mark t) (tw_packets w))"

fun in_turn :: "bool \<Rightarrow> bool list \<Rightarrow> bool option" where
  "in_turn b [] = Some b"
| "in_turn b (x # xs) = (if x = b then None else in_turn x xs)"

lemma in_turn_append: "in_turn b (xs @ ys) = Option.bind (in_turn b xs) (\<lambda>c. in_turn c ys)"
  by (induction xs arbitrary: b) auto

definition slices_ok :: "perfetto_sink \<Rightarrow> bool" where
  "slices_ok s \<longleftrightarrow> distinct (map fst (ps_open_slices s))
     \<and> (\<forall>t. in_turn False (slice_marks t (ps_writer s)) = Some (t \<in> fst ` set (ps_open_slices s)))"

lemma write_packet_fst: "fst (write_packet io p w) = io p"
  by (simp add: write_packet_def)

lemma slice_marks_write: "slice_marks t (snd (write_packet io p w)) = slice_marks t w @ (if io p then slice_mark t p else [])"
  by (simp add: slice_marks_def write_packet_def)

lemma emit_conv: "emit f s = (fst (f (ps_writer s)), s\<lparr>ps_writer := snd (f (ps_writer s))\<rparr>)"
  by (simp add: emit_def split_beta)

lemma packets_no_mark [simp]:
  "slice_marks t (snd (write_process_track io uuid name pid pname w)) = slice_marks t w"
  "slice_marks t (snd (write_track io uuid parent name order w)) = slice_marks t w"
  "slice_marks t (snd (write_interned_names io sq names w)) = slice_marks t w"
  "slice_marks t (snd (instant io sq track now name as w)) = slice_marks t w"
  by (simp_all add: write_process_track_def write_track_def write_interned_names_def instant_def slice_marks_write
      slice_mark_def event_packet_def trace_packet_default_def track_event_default_def TYPE_INSTANT_def
      TYPE_SLICE_BEGIN_def TYPE_SLICE_END_def, simp add: slice_marks_def)

lemma slice_packets_mark:
  "slice_marks t (snd (slice_begin io sq track now iid w)) = slice_marks t w @ (if fst (slice_begin io sq track now iid w) \<and> t = track then [True] else [])"
  "slice_marks t (snd (slice_end io sq track now w)) = slice_marks t w @ (if fst (slice_end io sq track now w) \<and> t = track then [False] else [])"
  by (auto simp: slice_begin_def slice_end_def slice_marks_write write_packet_fst slice_mark_def event_packet_def
      trace_packet_default_def track_event_default_def TYPE_SLICE_BEGIN_def TYPE_SLICE_END_def)

text \<open>An operation that neither writes slices nor changes which are open.\<close>

definition same_slices :: "perfetto_sink \<Rightarrow> perfetto_sink \<Rightarrow> bool" where
  "same_slices s s1 \<longleftrightarrow> ps_open_slices s1 = ps_open_slices s
     \<and> (\<forall>t. slice_marks t (ps_writer s1) = slice_marks t (ps_writer s))"

lemma same_slices_ok: "same_slices s s1 \<Longrightarrow> slices_ok s \<Longrightarrow> slices_ok s1"
  by (simp add: same_slices_def slices_ok_def)

lemma same_slices_trans: "same_slices s s1 \<Longrightarrow> same_slices s1 s2 \<Longrightarrow> same_slices s s2"
  by (simp add: same_slices_def)

lemma declare_component_slices: "declare_component io rank layer name s = Some (r, s1) \<Longrightarrow> same_slices s s1"
  by (auto simp: declare_component_def emit_conv Let_def split: option.splits prod.splits bool.splits if_splits)
    (auto simp: same_slices_def)

lemma other_slices:
  "declare_process io rank pid name s = Some (r, s1) \<Longrightarrow> same_slices s s1"
  "declare_layer io rank layer s = Some (r, s1) \<Longrightarrow> same_slices s s1"
  "emit_interned_names io rank s = Some (r, s1) \<Longrightarrow> same_slices s s1"
  "on_probe_fired io now ev s = Some (r, s1) \<Longrightarrow> same_slices s s1"
  by (auto simp: declare_process_def declare_layer_def emit_interned_names_def on_probe_fired_def emit_conv
      same_slices_def Let_def split: option.splits prod.splits bool.splits if_splits)

lemma write_slice_ok:
  "\<forall>p. io p \<Longrightarrow> fst (slice_begin io sq track now iid w)" "\<forall>p. io p \<Longrightarrow> fst (slice_end io sq track now w)"
  by (simp_all add: slice_begin_def slice_end_def write_packet_def)

lemma end_open_slice_ok:
  assumes io: "\<forall>p. io p" and ok: "slices_ok s"
  shows "fst (end_open_slice io now track s)" "slices_ok (snd (end_open_slice io now track s))"
    "track \<notin> fst ` set (ps_open_slices (snd (end_open_slice io now track s)))"
proof -
  have "map_of (ps_open_slices s) track = None \<longleftrightarrow> track \<notin> fst ` set (ps_open_slices s)"
    by (simp add: map_of_eq_None_iff)
  then show "fst (end_open_slice io now track s)" "slices_ok (snd (end_open_slice io now track s))"
    "track \<notin> fst ` set (ps_open_slices (snd (end_open_slice io now track s)))"
    using ok
    by (auto simp: end_open_slice_def emit_conv write_slice_ok [OF io] slices_ok_def slice_packets_mark in_turn_append
        fst_set_delete distinct_delete simp del: map_of_eq_Some_iff split: option.splits)
qed

lemma on_tick_stopped_slices:
  assumes io: "\<forall>p. io p" and ok: "slices_ok s" and t: "on_tick_stopped io now pos s = Some (r, s')"
  shows "slices_ok s'"
proof -
  define rank where "rank = (case tp_rank pos of None \<Rightarrow> 0 | Some r \<Rightarrow> r)"
  obtain res s1 where res: "resolve_or_create_component io rank (tp_layer pos) (tp_component pos) s = Some (res, s1)"
    using t by (auto simp: on_tick_stopped_def rank_def Let_def split: option.splits)
  have s1: "slices_ok s1"
    using res declare_component_slices same_slices_ok [OF _ ok] ok
    by (auto simp: resolve_or_create_component_def split: option.splits)
  show ?thesis
  proof (cases res)
    case None
    then show ?thesis using t res s1 by (simp add: on_tick_stopped_def rank_def [symmetric] Let_def)
  next
    case (Some track)
    define s2 where "s2 = snd (end_open_slice io now track s1)"
    have s2: "slices_ok s2" "track \<notin> fst ` set (ps_open_slices s2)"
      unfolding s2_def using end_open_slice_ok [OF io s1] by blast+
    define s3 where "s3 = snd (intern_on rank (display_name (tp_layer pos) (tp_component pos)) s2)"
    define iid where "iid = fst (intern_on rank (display_name (tp_layer pos) (tp_component pos)) s2)"
    have "s' = s3\<lparr>ps_writer := snd (slice_begin io (sequence_id rank) track now iid (ps_writer s3)),
        ps_open_slices := AList.update track (sequence_id rank) (ps_open_slices s3)\<rparr>"
      using t res Some end_open_slice_ok(1) [OF io s1]
      by (simp add: write_slice_ok [OF io] on_tick_stopped_def rank_def [symmetric] Let_def emit_conv split_beta s2_def s3_def iid_def)
    then show ?thesis
      using s2 by (auto simp: slices_ok_def slice_packets_mark in_turn_append write_slice_ok [OF io] s3_def dom_update distinct_update)
  qed
qed

lemma sink_apply_slices: "\<forall>p. io p \<Longrightarrow> slices_ok s \<Longrightarrow> sink_apply io x s = Some s1 \<Longrightarrow> slices_ok s1"
  by (cases x) (auto dest: other_slices declare_component_slices intro: same_slices_ok on_tick_stopped_slices)

lemma end_slices_ok:
  assumes io: "\<forall>p. io p" and "distinct (map fst opens)"
    and "\<forall>t. in_turn False (slice_marks t (ps_writer s)) = Some (t \<in> fst ` set opens)"
  shows "fst (end_slices io now opens s)
    \<and> (\<forall>t. in_turn False (slice_marks t (ps_writer (snd (end_slices io now opens s)))) = Some False)"
  using assms(2,3)
proof (induction opens arbitrary: s)
  case (Cons ts opens)
  obtain track sq where ts: "ts = (track, sq)" by (cases ts)
  let ?s1 = "s\<lparr>ps_writer := snd (slice_end io sq track now (ps_writer s))\<rparr>"
  have "\<forall>t. in_turn False (slice_marks t (ps_writer ?s1)) = Some (t \<in> fst ` set opens)"
    using Cons.prems by (auto simp: ts slice_packets_mark in_turn_append write_slice_ok [OF io])
  then show ?case using Cons.IH [of ?s1] Cons.prems(1) by (simp add: ts emit_conv write_slice_ok [OF io])
qed simp

lemma slices_ok_create: "PerfettoSink_create io sid model pid = Some (r, s) \<Longrightarrow> slices_ok s"
proof -
  assume c: "PerfettoSink_create io sid model pid = Some (r, s)"
  have "slice_marks t (snd (write_process_track io uuid name p model TraceWriter_new)) = []" for t uuid name p
    by (simp only: packets_no_mark) (simp add: slice_marks_def TraceWriter_new_def)
  then show ?thesis using c by (auto simp: PerfettoSink_create_def slices_ok_def split_beta split: option.splits)
qed

text \<open>
  When writes may fail, less is left: an end of a slice that is not written leaves the slice begun, and the
  next stop on its track begins another. But every end that is written directly follows a beginning.
\<close>

fun ends_paired :: "bool \<Rightarrow> bool list \<Rightarrow> bool option" where
  "ends_paired b [] = Some b"
| "ends_paired b (x # xs) = (if x then ends_paired True xs else if b then ends_paired False xs else None)"

lemma ends_paired_append: "ends_paired b (xs @ ys) = Option.bind (ends_paired b xs) (\<lambda>c. ends_paired c ys)"
  by (induction xs arbitrary: b) auto

definition pairs_ok :: "(u64 \<times> u32) list \<Rightarrow> perfetto_sink \<Rightarrow> bool" where
  "pairs_ok opens s \<longleftrightarrow> distinct (map fst opens)
     \<and> (\<forall>t. \<exists>b. ends_paired False (slice_marks t (ps_writer s)) = Some b \<and> (t \<in> fst ` set opens \<longrightarrow> b))"

lemma same_slices_pairs: "same_slices s s1 \<Longrightarrow> pairs_ok (ps_open_slices s) s \<Longrightarrow> pairs_ok (ps_open_slices s1) s1"
  by (simp add: same_slices_def pairs_ok_def)

lemma pairs_ok_end:
  assumes "pairs_ok opens s" "track \<in> fst ` set opens" "distinct (map fst opens')" "fst ` set opens' = fst ` set opens - {track}"
  shows "pairs_ok opens' (snd (emit (slice_end io sq track now) (s\<lparr>ps_open_slices := os\<rparr>)))"
  unfolding pairs_ok_def
proof (intro conjI allI)
  fix t
  obtain b where b: "ends_paired False (slice_marks t (ps_writer s)) = Some b" "t \<in> fst ` set opens \<longrightarrow> b"
    using assms(1) by (auto simp: pairs_ok_def)
  then show "\<exists>b. ends_paired False (slice_marks t (ps_writer (snd (emit (slice_end io sq track now) (s\<lparr>ps_open_slices := os\<rparr>))))) = Some b
      \<and> (t \<in> fst ` set opens' \<longrightarrow> b)"
    using assms(2,4) by (cases "t = track") (simp_all add: emit_conv slice_packets_mark ends_paired_append ex_bool_eq)
qed (rule assms(3))

lemma pairs_ok_begin:
  assumes "pairs_ok (ps_open_slices s) s"
  shows "pairs_ok (ps_open_slices s) (snd (emit (slice_begin io sq track now iid) s))"
    "fst (emit (slice_begin io sq track now iid) s) \<Longrightarrow>
     pairs_ok (AList.update track sq (ps_open_slices s)) (snd (emit (slice_begin io sq track now iid) s))"
proof -
  obtain b where "ends_paired False (slice_marks track (ps_writer s)) = Some b" using assms by (auto simp: pairs_ok_def)
  then show "pairs_ok (ps_open_slices s) (snd (emit (slice_begin io sq track now iid) s))"
    "fst (emit (slice_begin io sq track now iid) s) \<Longrightarrow>
     pairs_ok (AList.update track sq (ps_open_slices s)) (snd (emit (slice_begin io sq track now iid) s))"
    using assms by (auto simp: pairs_ok_def emit_conv slice_packets_mark ends_paired_append dom_update distinct_update)
qed

lemma end_open_slice_pairs:
  assumes "pairs_ok (ps_open_slices s) s"
  shows "pairs_ok (ps_open_slices (snd (end_open_slice io now track s))) (snd (end_open_slice io now track s))"
proof (cases "map_of (ps_open_slices s) track")
  case None
  then show ?thesis using assms by (simp add: end_open_slice_def)
next
  case (Some sq)
  have "track \<in> fst ` set (ps_open_slices s)" using Some by (metis map_of_eq_None_iff option.distinct(1))
  moreover have "distinct (map fst (ps_open_slices s))" using assms by (simp add: pairs_ok_def)
  ultimately show ?thesis
    using pairs_ok_end [OF assms, of track "AList.delete track (ps_open_slices s)" io sq now "AList.delete track (ps_open_slices s)"] Some
    by (simp add: end_open_slice_def fst_set_delete distinct_delete emit_conv)
qed

lemma on_tick_stopped_pairs:
  assumes ok: "pairs_ok (ps_open_slices s) s" and t: "on_tick_stopped io now pos s = Some (r, s')"
  shows "pairs_ok (ps_open_slices s') s'"
proof -
  define rank where "rank = (case tp_rank pos of None \<Rightarrow> 0 | Some r \<Rightarrow> r)"
  obtain res s1 where res: "resolve_or_create_component io rank (tp_layer pos) (tp_component pos) s = Some (res, s1)"
    using t by (auto simp: on_tick_stopped_def rank_def Let_def split: option.splits)
  have s1: "pairs_ok (ps_open_slices s1) s1"
    using res declare_component_slices same_slices_pairs [OF _ ok] ok
    by (auto simp: resolve_or_create_component_def split: option.splits)
  show ?thesis
  proof (cases res)
    case None
    then show ?thesis using t res s1 by (simp add: on_tick_stopped_def rank_def [symmetric] Let_def)
  next
    case (Some track)
    define s2 where "s2 = snd (end_open_slice io now track s1)"
    note s2 = end_open_slice_pairs [OF s1, of io now track, folded s2_def]
    define s3 where "s3 = snd (intern_on rank (display_name (tp_layer pos) (tp_component pos)) s2)"
    define iid where "iid = fst (intern_on rank (display_name (tp_layer pos) (tp_component pos)) s2)"
    define s4 where "s4 = snd (emit (slice_begin io (sequence_id rank) track now iid) s3)"
    have s3: "pairs_ok (ps_open_slices s3) s3" using s2 by (simp add: s3_def pairs_ok_def)
    have "s' \<in> {s2, s4} \<or> fst (emit (slice_begin io (sequence_id rank) track now iid) s3) \<and>
        s' = s4\<lparr>ps_open_slices := AList.update track (sequence_id rank) (ps_open_slices s4)\<rparr>"
      using t res Some
      by (auto simp: on_tick_stopped_def rank_def [symmetric] Let_def split_beta s2_def s3_def s4_def iid_def split: if_splits bool.splits)
    moreover have "ps_open_slices s4 = ps_open_slices s3" by (simp add: s4_def emit_conv)
    moreover note pairs_ok_begin [OF s3, of io "sequence_id rank" track now iid, folded s4_def]
    ultimately show ?thesis using s2 by (auto simp: pairs_ok_def)
  qed
qed

lemma sink_apply_same:
  assumes "sink_apply io x s = Some s1" "\<And>now pos. x \<noteq> Tick_Stopped now pos" shows "same_slices s s1"
  using assms by (cases x) (auto dest: other_slices declare_component_slices)

lemma sink_apply_pairs:
  assumes "pairs_ok (ps_open_slices s) s" "sink_apply io x s = Some s1" shows "pairs_ok (ps_open_slices s1) s1"
proof (cases "\<exists>now pos. x = Tick_Stopped now pos")
  case True
  then obtain now pos where x: "x = Tick_Stopped now pos" by blast
  then obtain r where "on_tick_stopped io now pos s = Some (r, s1)" using assms(2) by auto
  then show ?thesis by (rule on_tick_stopped_pairs [OF assms(1)])
next
  case False
  then show ?thesis using same_slices_pairs [OF sink_apply_same [OF assms(2)] assms(1)] by blast
qed

lemma end_slices_pairs:
  "pairs_ok opens s \<Longrightarrow> \<exists>rest. pairs_ok rest (snd (end_slices io now opens s))"
proof (induction opens arbitrary: s)
  case (Cons ts opens)
  obtain track sq where ts: "ts = (track, sq)" by (cases ts)
  let ?s1 = "snd (emit (slice_end io sq track now) s)"
  have "distinct (map fst opens)" "track \<notin> fst ` set opens" using Cons.prems by (simp_all add: pairs_ok_def ts)
  then have "pairs_ok opens (snd (emit (slice_end io sq track now) (s\<lparr>ps_open_slices := ps_open_slices s\<rparr>)))"
    by (intro pairs_ok_end [OF Cons.prems]) (simp_all add: ts)
  then have s1: "pairs_ok opens ?s1" by simp
  show ?case
  proof (cases "fst (emit (slice_end io sq track now) s)")
    case True
    then show ?thesis using Cons.IH [OF s1] by (simp add: ts split_beta)
  next
    case False
    then show ?thesis using s1 by (auto simp: ts split_beta)
  qed
qed auto

lemma pairs_ok_create: "PerfettoSink_create io sid model pid = Some (r, s) \<Longrightarrow> pairs_ok (ps_open_slices s) s"
proof -
  assume c: "PerfettoSink_create io sid model pid = Some (r, s)"
  have "slice_marks t (snd (write_process_track io uuid name p model TraceWriter_new)) = []" for t uuid name p
    by (simp only: packets_no_mark) (simp add: slice_marks_def TraceWriter_new_def)
  then show ?thesis using c by (auto simp: PerfettoSink_create_def pairs_ok_def split_beta split: option.splits)
qed

text \<open>C24: Slices in the trace of a session, however ticks, probes and declarations follow each other. On any
  device every end of a slice that is written directly follows, on its track, the beginning of a
  slice, so no slice ends twice. When every write and the final flush succeed, the slices of every track
  begin and end in turn and closing the sink ends every slice that is still open.\<close>

theorem trace_slices_balanced:
  assumes "PerfettoSink_create io sid model pid = Some (Some (), s0)" "sink_run io ops s0 = Some s"
  shows "(\<forall>t. ends_paired False (slice_marks t (ps_writer (snd (sink_close io flushes now s)))) \<noteq> None)
    \<and> ((\<forall>p. io p) \<and> flushes \<longrightarrow> fst (sink_close io flushes now s)
      \<and> (\<forall>t. in_turn False (slice_marks t (ps_writer (snd (sink_close io flushes now s)))) = Some False))"
proof (intro conjI impI)
  have "pairs_ok (ps_open_slices s) s"
    by (rule sink_run_induct [where P = "\<lambda>s. pairs_ok (ps_open_slices s) s", OF assms(2) pairs_ok_create [OF assms(1)]])
      (rule sink_apply_pairs)
  then have "pairs_ok (ps_open_slices s) (s\<lparr>ps_open_slices := []\<rparr>)" by (simp add: pairs_ok_def)
  from end_slices_pairs [OF this, of io now]
  obtain rest where "pairs_ok rest (snd (end_slices io now (ps_open_slices s) (s\<lparr>ps_open_slices := []\<rparr>)))" ..
  then show "\<forall>t. ends_paired False (slice_marks t (ps_writer (snd (sink_close io flushes now s)))) \<noteq> None"
    by (fastforce simp: pairs_ok_def sink_close_def split_beta)
next
  assume io: "(\<forall>p. io p) \<and> flushes"
  have "slices_ok s"
    by (rule sink_run_induct [where P = slices_ok, OF assms(2) slices_ok_create [OF assms(1)]])
      (rule sink_apply_slices [OF conjunct1 [OF io]])
  then have "fst (end_slices io now (ps_open_slices s) (s\<lparr>ps_open_slices := []\<rparr>))
      \<and> (\<forall>t. in_turn False (slice_marks t (ps_writer (snd (end_slices io now (ps_open_slices s) (s\<lparr>ps_open_slices := []\<rparr>))))) = Some False)"
    using end_slices_ok [OF conjunct1 [OF io], of "ps_open_slices s" "s\<lparr>ps_open_slices := []\<rparr>" now]
    by (simp add: slices_ok_def)
  then show "fst (sink_close io flushes now s)"
    "\<forall>t. in_turn False (slice_marks t (ps_writer (snd (sink_close io flushes now s)))) = Some False"
    using io by (simp_all add: sink_close_def split_beta)
qed

section \<open>Panics\<close>

text \<open>What fits the bit fields of a track identifier.\<close>

definition position_rank :: "tick_position \<Rightarrow> u32" where
  "position_rank pos = (case tp_rank pos of None \<Rightarrow> 0 | Some r \<Rightarrow> r)"

definition traceable_position :: "tick_position \<Rightarrow> bool" where
  "traceable_position pos \<longleftrightarrow> position_rank pos \<le> 0xFFF \<and> tp_layer pos \<le> 0xFFFF"

definition comps_ok :: "perfetto_sink \<Rightarrow> bool" where
  "comps_ok s \<longleftrightarrow> (\<forall>(r, l, n) \<in> fst ` set (ps_component_uuids s). r \<le> 0xFFF \<and> l \<le> 0xFFFF)"

lemma end_open_slice_uuids [simp]: "ps_component_uuids (snd (end_open_slice io now track s)) = ps_component_uuids s"
  by (simp add: end_open_slice_def emit_conv split: option.split)

lemma comps_frame [simp]:
  "comps_ok (s\<lparr>ps_writer := w\<rparr>) = comps_ok s" "comps_ok (s\<lparr>ps_open_slices := os\<rparr>) = comps_ok s"
  "comps_ok (s\<lparr>ps_ranks := rs\<rparr>) = comps_ok s" "comps_ok (s\<lparr>ps_component_index := ix\<rparr>) = comps_ok s"
  "comps_ok (ensure_rank rank s) = comps_ok s"
  "comps_ok (snd (intern_on rank name s)) = comps_ok s" "comps_ok (snd (end_open_slice io now track s)) = comps_ok s"
  by (simp_all add: comps_ok_def)

lemma comps_update:
  "comps_ok (s\<lparr>ps_component_uuids := AList.update (r, l, n) u (ps_component_uuids s')\<rparr>)
     \<longleftrightarrow> r \<le> 0xFFF \<and> l \<le> 0xFFFF \<and> comps_ok s'"
  by (simp add: comps_ok_def dom_update)

lemma comps_lookup:
  "comps_ok s \<Longrightarrow> map_of (ps_component_uuids s) (r, l, n) = Some u \<Longrightarrow> r \<le> 0xFFF \<and> l \<le> 0xFFFF"
  unfolding comps_ok_def by (drule map_of_SomeD) force

lemma uuid_None:
  "component_uuid r l c = None \<longleftrightarrow> \<not> (r \<le> 0xFFF \<and> l \<le> 0xFFFF)" "layer_uuid r l = None \<longleftrightarrow> \<not> (r \<le> 0xFFF \<and> l \<le> 0xFFFF)"
  "process_uuid r = None \<longleftrightarrow> \<not> r \<le> 0xFFF"
  by (simp_all add: component_uuid_def layer_uuid_def process_uuid_def track_uuid_def)

lemma uuid_Some:
  "component_uuid r l c = Some u \<Longrightarrow> r \<le> 0xFFF \<and> l \<le> 0xFFFF" "layer_uuid r l = Some u \<Longrightarrow> r \<le> 0xFFF \<and> l \<le> 0xFFFF"
  by (simp_all add: component_uuid_def layer_uuid_def track_uuid_def split: if_splits)

lemma declare_component_comps:
  assumes "comps_ok s"
  shows "declare_component io rank layer name s = Some (r, s1) \<Longrightarrow> comps_ok s1"
    "declare_component io rank layer name s = None \<longleftrightarrow> \<not> (rank \<le> 0xFFF \<and> layer \<le> 0xFFFF)"
  using assms
  by (auto simp: declare_component_def emit_conv Let_def comps_update uuid_None
      dest: comps_lookup uuid_Some split: option.splits prod.splits bool.splits if_splits)

lemma resolve_comps:
  assumes "comps_ok s"
  shows "resolve_or_create_component io rank layer name s = Some (r, s1) \<Longrightarrow> comps_ok s1"
    "resolve_or_create_component io rank layer name s = None \<longleftrightarrow> \<not> (rank \<le> 0xFFF \<and> layer \<le> 0xFFFF)"
  using declare_component_comps [OF assms, of io rank layer name] assms
  by (auto simp: resolve_or_create_component_def dest: comps_lookup split: option.splits)

lemma on_tick_stopped_comps:
  assumes "comps_ok s"
  shows "on_tick_stopped io now pos s = Some (r, s1) \<Longrightarrow> comps_ok s1"
    "on_tick_stopped io now pos s = None \<longleftrightarrow> \<not> traceable_position pos"
  using resolve_comps [OF assms, of io "position_rank pos" "tp_layer pos" "tp_component pos"]
  unfolding on_tick_stopped_def traceable_position_def Let_def position_rank_def [symmetric]
  by (auto simp: emit_conv split_beta split: option.splits bool.splits)

lemma better_track_None:
  "fold (better_track rank point) xs best = None \<longleftrightarrow>
    best = None \<and> (\<forall>((r, l, n), u) \<in> set xs. r = rank \<longrightarrow> \<not> str_contains point (''::'' @ n) \<and> \<not> str_contains point n)"
  by (induction xs arbitrary: best) (auto split: option.splits prod.splits if_splits)

lemma find_track_range:
  "comps_ok s \<Longrightarrow> \<not> rank \<le> 0xFFF \<Longrightarrow> find_track_for_point rank point s = None"
  by (auto simp: find_track_for_point_def better_track_None comps_ok_def)

lemma on_probe_fired_comps:
  assumes "comps_ok s"
  shows "on_probe_fired io now ev s = Some (r, s1) \<Longrightarrow> comps_ok s1"
    "on_probe_fired io now ev s = None \<longleftrightarrow> \<not> fe_rank ev \<le> 0xFFF"
proof -
  have c: "comps_ok (ensure_rank (fe_rank ev) s)" using assms by simp
  show "on_probe_fired io now ev s = Some (r, s1) \<Longrightarrow> comps_ok s1"
    using c by (auto simp: on_probe_fired_def Let_def emit_conv split: option.splits)
  show "on_probe_fired io now ev s = None \<longleftrightarrow> \<not> fe_rank ev \<le> 0xFFF"
    using find_track_range [OF c, of "fe_rank ev" "fe_point ev"]
    by (auto simp: on_probe_fired_def Let_def emit_conv process_uuid_def track_uuid_def split: option.splits)
qed

lemma other_comps:
  "declare_process io rank pid name s = Some (r, s1) \<Longrightarrow> comps_ok s1 = comps_ok s"
  "declare_layer io rank layer s = Some (r, s1) \<Longrightarrow> comps_ok s1 = comps_ok s"
  "emit_interned_names io rank s = Some (r, s1) \<Longrightarrow> comps_ok s1 = comps_ok s"
  "PerfettoSink_create io sid model pid = Some (r', s2) \<Longrightarrow> comps_ok s2"
  by (auto simp: declare_process_def declare_layer_def emit_interned_names_def PerfettoSink_create_def emit_conv
      comps_ok_def Let_def split: option.splits prod.splits bool.splits if_splits)

lemma sink_apply_comps: "comps_ok s \<Longrightarrow> sink_apply io x s = Some s1 \<Longrightarrow> comps_ok s1"
  by (cases x) (auto simp: other_comps dest: declare_component_comps(1) on_tick_stopped_comps(1) on_probe_fired_comps(1))

definition demo_sink_ops :: "tick_position \<Rightarrow> sink_op list" where
  "demo_sink_ops pos = [Tick_Stopped 5 pos, Tick_Stopped 6 (pos\<lparr>tp_component := ''mlp''\<rparr>), Tick_Stopped 9 pos]"

lemma sink_create_works: "\<exists>s0. PerfettoSink_create (\<lambda>_. True) sid model pid = Some (Some (), s0)"
proof -
  obtain u where "process_uuid DAEMON_RANK = Some u" by (simp add: process_uuid_def track_uuid_def DAEMON_RANK_def)
  then show ?thesis by (simp add: PerfettoSink_create_def write_process_track_def write_packet_def)
qed

lemma sink_tick_works:
  assumes "traceable_position p" "comps_ok s"
  shows "\<exists>s1. sink_apply io (Tick_Stopped n p) s = Some s1 \<and> comps_ok s1"
proof -
  obtain r s1 where "on_tick_stopped io n p s = Some (r, s1)"
    using on_tick_stopped_comps(2) [OF assms(2), of io n p] assms(1) by fastforce
  then show ?thesis using on_tick_stopped_comps(1) [OF assms(2)] by auto
qed

lemma demo_sink_runs:
  assumes pos: "traceable_position pos"
  obtains s0 s where "PerfettoSink_create (\<lambda>_. True) sid model pid = Some (Some (), s0)"
    "sink_run (\<lambda>_. True) (demo_sink_ops pos) s0 = Some s"
proof -
  let ?io = "\<lambda>_. True"
  have p2: "traceable_position (pos\<lparr>tp_component := ''mlp''\<rparr>)"
    using pos by (simp add: traceable_position_def position_rank_def)
  obtain s0 where s0: "PerfettoSink_create ?io sid model pid = Some (Some (), s0)" using sink_create_works by blast
  obtain s1 where s1: "sink_apply ?io (Tick_Stopped 5 pos) s0 = Some s1" "comps_ok s1"
    using sink_tick_works [OF pos other_comps(4) [OF s0]] by blast
  obtain s2 where s2: "sink_apply ?io (Tick_Stopped 6 (pos\<lparr>tp_component := ''mlp''\<rparr>)) s1 = Some s2" "comps_ok s2"
    using sink_tick_works [OF p2 s1(2)] by blast
  obtain s3 where s3: "sink_apply ?io (Tick_Stopped 9 pos) s2 = Some s3" using sink_tick_works [OF pos s2(2)] by blast
  have "sink_run ?io (demo_sink_ops pos) s0 = Some s3"
    by (simp add: demo_sink_ops_def s1(1) s2(1) s3 del: sink_apply.simps)
  then show ?thesis using s0 that by blast
qed

section \<open>Components have their own tracks\<close>

text \<open>After \<open>n\<close> operations: indices are below \<open>n\<close>, and components have the tracks of indices already given out.\<close>

definition tracks_ok :: "nat \<Rightarrow> perfetto_sink \<Rightarrow> bool" where
  "tracks_ok n s \<longleftrightarrow> (\<forall>k j. map_of (ps_component_index s) k = Some j \<longrightarrow> unat j < n)
     \<and> (\<forall>r l c u. map_of (ps_component_uuids s) (r, l, c) = Some u \<longrightarrow>
          (\<exists>ix j. component_uuid r l ix = Some u \<and> map_of (ps_component_index s) (r, l) = Some j \<and> ix \<le> j))
     \<and> (\<forall>k k' u. map_of (ps_component_uuids s) k = Some u \<longrightarrow> map_of (ps_component_uuids s) k' = Some u \<longrightarrow> k = k')"

lemma tracks_frame:
  "ps_component_index s1 = ps_component_index s \<Longrightarrow> ps_component_uuids s1 = ps_component_uuids s
    \<Longrightarrow> tracks_ok n s \<Longrightarrow> tracks_ok (Suc n) s1"
  unfolding tracks_ok_def by (simp add: less_SucI)

lemma next_index_fresh:
  assumes "tracks_ok n s" "Suc n < 2 ^ 32"
  shows "unat (next_index k (ps_component_index s)) \<le> n"
    "map_of (ps_component_index s) k = Some j \<Longrightarrow> j < next_index k (ps_component_index s)"
proof -
  have j: "unat j < n \<and> unat (j + 1) = unat j + 1" if "map_of (ps_component_index s) k = Some j" for j
  proof -
    have "unat j < n" using assms(1) that unfolding tracks_ok_def by blast
    then show ?thesis using assms(2) unat_add_no_wrap [of j 1] by simp
  qed
  show "unat (next_index k (ps_component_index s)) \<le> n"
    using j by (simp add: next_index_def Suc_le_eq split: option.split)
  show "map_of (ps_component_index s) k = Some j \<Longrightarrow> j < next_index k (ps_component_index s)"
    using j by (simp add: next_index_def word_less_nat_alt)
qed

lemma uuid_determines:
  "component_uuid r l i = Some u \<Longrightarrow> component_uuid r' l' i' = Some u \<Longrightarrow> r' = r \<and> l' = l \<and> i' = i"
  unfolding component_uuid_def using track_uuid_fields by metis

lemma declare_component_tracks:
  assumes ok: "tracks_ok n s" and n: "Suc n < 2 ^ 32" and d: "declare_component io rank layer name s = Some (r, s1)"
  shows "tracks_ok (Suc n) s1"
proof (cases "map_of (ps_component_uuids s) (rank, layer, name)")
  case (Some u)
  then have "s1 = s" using d by (simp add: declare_component_def)
  then show ?thesis using tracks_frame [OF refl refl ok] by simp
next
  case None
  define ix where "ix = next_index (rank, layer) (ps_component_index s)"
  obtain u where u: "component_uuid rank layer ix = Some u"
    using d None by (auto simp: declare_component_def Let_def ix_def split: option.splits)
  have ix: "unat ix \<le> n" "map_of (ps_component_index s) (rank, layer) = Some j \<Longrightarrow> j < ix" for j
    using next_index_fresh [OF ok n] by (simp_all add: ix_def)
  have index: "map_of (ps_component_index s1) = (map_of (ps_component_index s))((rank, layer) \<mapsto> ix)"
    and uuids: "map_of (ps_component_uuids s1) = map_of (ps_component_uuids s)
      \<or> map_of (ps_component_uuids s1) = (map_of (ps_component_uuids s))((rank, layer, name) \<mapsto> u)"
    using d None u by (auto simp: declare_component_def Let_def ix_def [symmetric] emit_conv AList.update_conv'
        split: option.splits bool.splits prod.splits)
  have fresh: "map_of (ps_component_uuids s) k \<noteq> Some u" for k
  proof
    assume u': "map_of (ps_component_uuids s) k = Some u"
    obtain r' l' c' where k: "k = (r', l', c')" by (cases k)
    obtain i' j' where ij: "component_uuid r' l' i' = Some u" "map_of (ps_component_index s) (r', l') = Some j'" "i' \<le> j'"
      using ok u' k unfolding tracks_ok_def by blast
    then have "r' = rank \<and> l' = layer \<and> i' = ix"
      using uuid_determines [OF u ij(1)] by simp
    then show False using ij ix(2) by force
  qed
  have old: "\<exists>i j. component_uuid r' l' i = Some v \<and> map_of (ps_component_index s1) (r', l') = Some j \<and> i \<le> j"
    if v: "map_of (ps_component_uuids s) (r', l', c') = Some v" for r' l' c' v
  proof -
    obtain i j where ij: "component_uuid r' l' i = Some v" "map_of (ps_component_index s) (r', l') = Some j" "i \<le> j"
      using ok v unfolding tracks_ok_def by blast
    show ?thesis
    proof (cases "(r', l') = (rank, layer)")
      case True
      then show ?thesis using ij ix(2) [of j] index by (auto intro!: exI [of _ i])
    next
      case False
      then show ?thesis using ij index by (auto intro!: exI [of _ i])
    qed
  qed
  have "unat j < Suc n" if "map_of (ps_component_index s1) k = Some j" for k j
    using that ix(1) ok unfolding index tracks_ok_def by (auto split: if_splits simp del: split_paired_All dest: less_SucI)
  moreover have "\<exists>i j. component_uuid r' l' i = Some v \<and> map_of (ps_component_index s1) (r', l') = Some j \<and> i \<le> j"
    if "map_of (ps_component_uuids s1) (r', l', c') = Some v" for r' l' c' v
  proof -
    have "map_of (ps_component_uuids s) (r', l', c') = Some v \<or> r' = rank \<and> l' = layer \<and> v = u"
      using uuids that by (auto split: if_splits)
    then show ?thesis using old [of r' l' c' v] u index by (metis fun_upd_same order_refl)
  qed
  moreover have "k = k'" if "map_of (ps_component_uuids s1) k = Some v" "map_of (ps_component_uuids s1) k' = Some v" for k k' v
    using uuids that fresh [of k] fresh [of k'] ok unfolding tracks_ok_def by (auto split: if_splits simp del: split_paired_All)
  ultimately show ?thesis unfolding tracks_ok_def by blast
qed

text \<open>The rest leaves the components alone.\<close>

definition same_components :: "perfetto_sink \<Rightarrow> perfetto_sink \<Rightarrow> bool" where
  "same_components s s1 \<longleftrightarrow> ps_component_index s1 = ps_component_index s \<and> ps_component_uuids s1 = ps_component_uuids s"

lemma same_components_tracks: "same_components s s1 \<Longrightarrow> tracks_ok n s \<Longrightarrow> tracks_ok n s1"
  unfolding same_components_def tracks_ok_def by simp

lemma other_components:
  "declare_process io rank pid name s = Some (r, s1) \<Longrightarrow> same_components s s1"
  "declare_layer io rank layer s = Some (r, s1) \<Longrightarrow> same_components s s1"
  "emit_interned_names io rank s = Some (r, s1) \<Longrightarrow> same_components s s1"
  "on_probe_fired io now ev s = Some (r, s1) \<Longrightarrow> same_components s s1"
  by (auto simp: declare_process_def declare_layer_def emit_interned_names_def on_probe_fired_def same_components_def
      emit_conv Let_def split: option.splits prod.splits bool.splits if_splits)

lemma tick_components:
  assumes t: "on_tick_stopped io now pos s = Some (r, s1)"
    and res: "resolve_or_create_component io (position_rank pos) (tp_layer pos) (tp_component pos) s = Some (res, s2)"
  shows "same_components s2 s1"
proof -
  have "ps_component_index (snd (end_open_slice io now track q)) = ps_component_index q" for track q
    by (simp add: end_open_slice_def emit_conv split: option.split)
  then show ?thesis
    using t res unfolding on_tick_stopped_def Let_def position_rank_def [symmetric]
    by (auto simp: same_components_def emit_conv split_beta split: option.splits bool.splits)
qed

lemma sink_apply_tracks:
  assumes "tracks_ok n s" "Suc n < 2 ^ 32" "sink_apply io x s = Some s1"
  shows "tracks_ok (Suc n) s1"
proof -
  have comp: "tracks_ok (Suc n) s1" if "declare_component io rank layer name s = Some (r, s1)" for rank layer name r s1
    by (rule declare_component_tracks [OF assms(1,2) that])
  have tick: "tracks_ok (Suc n) s1" if t: "on_tick_stopped io now pos s = Some (r, s1)" for now pos r
  proof -
    obtain res s2 where res: "resolve_or_create_component io (position_rank pos) (tp_layer pos) (tp_component pos) s = Some (res, s2)"
      using t by (auto simp: on_tick_stopped_def position_rank_def [symmetric] Let_def split: option.splits)
    have "tracks_ok (Suc n) s2"
      using res comp tracks_frame [OF refl refl assms(1)]
      by (auto simp: resolve_or_create_component_def split: option.splits)
    then show ?thesis by (rule same_components_tracks [OF tick_components [OF t res]])
  qed
  have same: "tracks_ok (Suc n) s1" if "same_components s s1"
    using same_components_tracks [OF that] tracks_frame [OF refl refl assms(1)] by blast
  show ?thesis using assms(3) comp tick same by (cases x) (auto dest: other_components)
qed

lemma sink_run_tracks:
  "tracks_ok n s \<Longrightarrow> n + length ops < 2 ^ 32 \<Longrightarrow> sink_run io ops s = Some s' \<Longrightarrow> tracks_ok (n + length ops) s'"
proof (induction ops arbitrary: n s)
  case (Cons x xs)
  then obtain s1 where "sink_apply io x s = Some s1" "sink_run io xs s1 = Some s'" by (auto split: bind_splits)
  then show ?case using sink_apply_tracks [of n s io x s1] Cons.IH [of "Suc n" s1] Cons.prems by simp
qed simp

text \<open>In the trace of a session of fewer than \<open>2\<^sup>3\<^sup>2\<close> events, two components of any ranks and layers have the
  same track only when they are the same component of the same layer and rank.\<close>

theorem component_tracks_distinct:
  assumes "PerfettoSink_create io sid model pid = Some (r, s0)" "length ops < 2 ^ 32" "sink_run io ops s0 = Some s"
    and "map_of (ps_component_uuids s) k = Some u" "map_of (ps_component_uuids s) k' = Some u"
  shows "k = k'"
proof -
  have "tracks_ok 0 s0" using assms(1)
    by (auto simp: PerfettoSink_create_def tracks_ok_def split: option.splits prod.splits)
  then have "tracks_ok (length ops) s" using sink_run_tracks [of 0 s0 ops io s] assms(2,3) by simp
  then show ?thesis using assms(4,5) unfolding tracks_ok_def by blast
qed

theorem component_tracks_distinct_witness:
  "\<exists>s0 s u u'. PerfettoSink_create (\<lambda>_. True) ''id'' ''m'' 1 = Some (Some (), s0)
     \<and> sink_run (\<lambda>_. True) [Declare_Component 0 3 ''a'', Declare_Component 1 3 ''a''] s0 = Some s
     \<and> map_of (ps_component_uuids s) (0, 3, ''a'') = Some u \<and> map_of (ps_component_uuids s) (1, 3, ''a'') = Some u' \<and> u \<noteq> u'"
proof -
  let ?io = "\<lambda>_. True" and ?ops = "[Declare_Component 0 3 ''a'', Declare_Component 1 3 ''a'']"
  obtain s0 where s0: "PerfettoSink_create ?io ''id'' ''m'' 1 = Some (Some (), s0)" using sink_create_works by blast
  then have empty: "ps_component_uuids s0 = []" by (auto simp: PerfettoSink_create_def split: option.splits prod.splits if_splits)
  have declared: "\<exists>u s1. declare_component ?io r 3 ''a'' s = Some (Some u, s1)
      \<and> map_of (ps_component_uuids s1) = (map_of (ps_component_uuids s))((r, 3, ''a'') \<mapsto> u)"
    if "map_of (ps_component_uuids s) (r, 3, ''a'') = None" "r \<le> 0xFFF" for r s
    using that by (auto simp: declare_component_def component_uuid_def layer_uuid_def track_uuid_def emit_conv
        write_track_def write_packet_def AList.update_conv' Let_def)
  obtain u s1 where s1: "declare_component ?io 0 3 ''a'' s0 = Some (Some u, s1)"
    "map_of (ps_component_uuids s1) = [(0, 3, ''a'') \<mapsto> u]"
    using declared [of s0 0] by (auto simp: empty)
  obtain u' s where s: "declare_component ?io 1 3 ''a'' s1 = Some (Some u', s)"
    "map_of (ps_component_uuids s) = [(0, 3, ''a'') \<mapsto> u, (1, 3, ''a'') \<mapsto> u']"
    using declared [of s1 1] by (auto simp: s1(2))
  have run: "sink_run ?io ?ops s0 = Some s" by (simp add: s1(1) s(1))
  have "u \<noteq> u'"
    using component_tracks_distinct [OF s0 _ run, of "(0, 3, ''a'')" u "(1, 3, ''a'')"] by (auto simp: s(2))
  then show ?thesis using s0 run by (auto simp: s(2))
qed

definition demo_position :: tick_position where
  "demo_position = \<lparr>tp_tick_id = 4, tp_direction = Forward, tp_rank = Some 0, tp_layer = 2, tp_component = ''attn'',
     tp_event = TE_Output, tp_replay_of = None, tp_phase = Decode, tp_token_position = None, tp_clock = None\<rparr>"

theorem trace_slices_balanced_witness:
  "\<exists>s0 s. PerfettoSink_create (\<lambda>_. True) ''id'' ''m'' 1 = Some (Some (), s0)
     \<and> sink_run (\<lambda>_. True) (demo_sink_ops demo_position) s0 = Some s
     \<and> fst (sink_close (\<lambda>_. True) True 12 s)"
proof -
  have "traceable_position demo_position" by (simp add: traceable_position_def position_rank_def demo_position_def)
  then obtain s0 s where "PerfettoSink_create (\<lambda>_. True) ''id'' ''m'' 1 = Some (Some (), s0)"
    "sink_run (\<lambda>_. True) (demo_sink_ops demo_position) s0 = Some s"
    by (rule demo_sink_runs)
  then show ?thesis using trace_slices_balanced [of "\<lambda>_. True" "''id''" "''m''" 1 s0 _ s True 12] by blast
qed

section \<open>Interned names\<close>

definition announces :: "trace_writer \<Rightarrow> bool" where
  "announces w \<longleftrightarrow> (\<exists>p \<in> set (tw_packets w). pk_interned_data p \<noteq> None)"

lemma announces_write: "announces (snd (write_packet io p w)) \<longleftrightarrow> announces w \<or> io p \<and> pk_interned_data p \<noteq> None"
  by (auto simp: announces_def write_packet_def)

lemma silent_writes [simp]:
  "announces (snd (write_process_track io uuid name pid pname w)) = announces w"
  "announces (snd (write_track io uuid parent name order w)) = announces w"
  "announces (snd (instant io sq track now name as w)) = announces w"
  "announces (snd (slice_begin io sq track now iid w)) = announces w"
  "announces (snd (slice_end io sq track now w)) = announces w"
  by (simp_all add: write_process_track_def write_track_def instant_def slice_begin_def slice_end_def announces_write
      event_packet_def trace_packet_default_def)

text \<open>None of the operations the daemon uses announces names.\<close>

lemma declare_silent:
  "PerfettoSink_create io sid model pid = Some (r', s2) \<Longrightarrow> \<not> announces (ps_writer s2)"
  "declare_process io rank pid name s = Some (r, s1) \<Longrightarrow> announces (ps_writer s1) = announces (ps_writer s)"
  "declare_component io rank layer name s = Some (q, s1) \<Longrightarrow> announces (ps_writer s1) = announces (ps_writer s)"
proof -
  have new: "\<not> announces TraceWriter_new" by (simp add: announces_def TraceWriter_new_def)
  show "PerfettoSink_create io sid model pid = Some (r', s2) \<Longrightarrow> \<not> announces (ps_writer s2)"
    using new by (auto simp: PerfettoSink_create_def split_beta split: option.splits)
  show "declare_process io rank pid name s = Some (r, s1) \<Longrightarrow> announces (ps_writer s1) = announces (ps_writer s)"
    by (auto simp: declare_process_def emit_conv split: option.splits if_splits bool.splits)
  show "declare_component io rank layer name s = Some (q, s1) \<Longrightarrow> announces (ps_writer s1) = announces (ps_writer s)"
    by (auto simp: declare_component_def emit_conv Let_def split: option.splits bool.splits)
qed

lemma end_open_slice_silent [simp]:
  "announces (ps_writer (snd (end_open_slice io now track s))) = announces (ps_writer s)"
  by (simp add: end_open_slice_def emit_conv split: option.split)

lemma events_silent:
  "on_tick_stopped io now pos s = Some (r, s1) \<Longrightarrow> announces (ps_writer s1) = announces (ps_writer s)"
  "on_probe_fired io now ev s = Some (r, s1) \<Longrightarrow> announces (ps_writer s1) = announces (ps_writer s)"
proof -
  have res: "announces (ps_writer s2) = announces (ps_writer s)"
    if "resolve_or_create_component io rank layer name s = Some (q, s2)" for rank layer name q s2
    using that declare_silent(3) by (auto simp: resolve_or_create_component_def split: option.splits)
  show "on_tick_stopped io now pos s = Some (r, s1) \<Longrightarrow> announces (ps_writer s1) = announces (ps_writer s)"
    by (auto simp: on_tick_stopped_def emit_conv split_beta Let_def split: option.splits bool.splits dest!: res)
  show "on_probe_fired io now ev s = Some (r, s1) \<Longrightarrow> announces (ps_writer s1) = announces (ps_writer s)"
    by (auto simp: on_probe_fired_def emit_conv Let_def split: option.splits)
qed

end
