(* ===== verification/Daemon_Invariant.thy ===== *)
theory Daemon_Invariant
  imports Daemon Dispatch_Contract Inspect_Flow Perfetto_Trace
begin

text \<open>
  The daemon as a whole: the session stays consistent whatever the client, the orchestrator and the
  operating system do, an orchestrator is held exactly while a model is attached, and the only request
  that can bring the daemon down is an export with no model attached.
\<close>

named_theorems link_rules \<open>parts of an iteration that leave the attachment alone\<close>

section \<open>The status of the session\<close>

abbreviation stopped :: "'v session \<Rightarrow> bool" where
  "stopped s \<equiv> ss_status (s_state s) = Stopped"

named_theorems status_simps \<open>operations that do not change whether the session is stopped\<close>

lemma status_session_ops [status_simps]:
  "stopped (seat_at pos s) = stopped s"
  "stopped (snd (session_step req pos fc fired s)) = stopped s"
  "stopped (snd (session_replay rreq host s)) = stopped s"
  "stopped (snd (checkpoint_create_with_id uuid now tier cid s)) = stopped s"
  "stopped (snd (checkpoint_restore c s)) = stopped s"
  "stopped (snd (checkpoint_delete c s)) = stopped s"
  "stopped (snd (checkpoint_bookmark uuid now tick name s)) = stopped s"
  "stopped (snd (define_view name spec s)) = stopped s"
  "stopped (set_intervention r s) = stopped s"
  "stopped (snd (clear_intervention i s)) = stopped s"
  "stopped (set_event_filter f s) = stopped s"
  "stopped (set_auto_checkpoint_layers ls s) = stopped s"
  "stopped (update_arena_utilization F b s) = stopped s"
  "stopped (advance_worldline_segment t s) = stopped s"
  by (auto simp: seat_at_def session_step_def session_replay_def checkpoint_create_with_id_def
      checkpoint_restore_def checkpoint_delete_def checkpoint_bookmark_def define_view_def set_intervention_def
      clear_intervention_def set_event_filter_def set_auto_checkpoint_layers_def update_arena_utilization_def
      advance_worldline_segment_def Let_def split: sum.split option.split prod.split)

lemma status_handlers [status_simps]:
  "stopped (snd (handle_step S h s rq)) = stopped s"
  "stopped (snd (handle_replay S hr s rq)) = stopped s"
  "stopped (snd (handle_subscribe S s rq)) = stopped s"
  "stopped (snd (handle_view_define S s rq)) = stopped s"
  "stopped (snd (handle_intervene S s rq)) = stopped s"
  "stopped (fst (snd (handle_checkpoint E S orch s rq))) = stopped s"
  by (simp_all add: handle_step_def handle_replay_def handle_subscribe_def handle_view_define_def
      handle_intervene_def handle_checkpoint_def checkpoint_create_def status_simps Let_def split_beta
      split: sum.split option.split intervene_request.split checkpoint_request.split)

section \<open>The invariant\<close>

text \<open>
  Serialization of the daemon's own messages succeeds: \<^verbatim>\<open>serde_json\<close> fails only on maps with keys that
  are not strings and on failing \<^verbatim>\<open>Serialize\<close> implementations, and these types have neither.
\<close>

definition codec_total :: "'v codec \<Rightarrow> bool" where
  "codec_total W \<longleftrightarrow> (\<forall>b. \<exists>v. to_value (cd_serde W) b = Inr v) \<and> (\<forall>r. \<exists>t. cd_response W r = Inr t)
     \<and> (\<forall>e. \<exists>v. cd_tick_stopped W e = Inr v) \<and> (\<forall>e. \<exists>v. cd_heartbeat W e = Inr v)
     \<and> (\<forall>e. \<exists>v. cd_probe_fired W e = Inr v)"

text \<open>The open trace has components in range, and no trace announces names.\<close>

definition traces_ok :: "perfetto_sink option \<Rightarrow> trace_writer list \<Rightarrow> bool" where
  "traces_ok open_sink finished \<longleftrightarrow> (\<forall>ps. open_sink = Some ps \<longrightarrow> comps_ok ps \<and> \<not> announces (ps_writer ps))
     \<and> (\<forall>w \<in> set finished. \<not> announces w)"

definition daemon_inv :: "'v daemon \<Rightarrow> bool" where
  "daemon_inv d \<longleftrightarrow> session_wf (d_session d)
     \<and> (d_orchestrator d \<noteq> None \<longleftrightarrow> stopped (d_session d))
     \<and> (d_model_handle d \<noteq> None \<longleftrightarrow> stopped (d_session d))
     \<and> (d_consumer d \<noteq> None \<longrightarrow> stopped (d_session d)) \<and> traces_ok (d_perfetto d) (d_traces d)"

lemma daemon_inv_start: "daemon_inv daemon_start"
  by (simp add: daemon_inv_def daemon_start_def session_wf_new traces_ok_def) (simp add: Session_new_def)

text \<open>A part of an iteration that leaves the attachment as it is.\<close>

definition same_link :: "'v daemon \<Rightarrow> 'v daemon \<Rightarrow> bool" where
  "same_link d d1 \<longleftrightarrow> (session_wf (d_session d) \<longrightarrow> session_wf (d_session d1))
     \<and> stopped (d_session d1) = stopped (d_session d)
     \<and> (d_orchestrator d1 = None \<longleftrightarrow> d_orchestrator d = None) \<and> d_model_handle d1 = d_model_handle d
     \<and> (d_consumer d1 = None \<longleftrightarrow> d_consumer d = None)
     \<and> (traces_ok (d_perfetto d) (d_traces d) \<longrightarrow> traces_ok (d_perfetto d1) (d_traces d1))"

lemma same_link_refl [simp]: "same_link d d"
  by (simp add: same_link_def)

lemma same_link_trans: "same_link d d1 \<Longrightarrow> same_link d1 d2 \<Longrightarrow> same_link d d2"
  by (simp add: same_link_def)

lemma same_link_inv: "same_link d d1 \<Longrightarrow> daemon_inv d \<Longrightarrow> daemon_inv d1"
  by (auto simp: same_link_def daemon_inv_def)

lemma same_link_frame [simp]:
  "same_link d (d\<lparr>d_trace := t\<rparr>)" "same_link d (d\<lparr>d_running := b\<rparr>)" "same_link d (d\<lparr>d_out := out\<rparr>)"
  "same_link d (d\<lparr>d_seq := n, d_out := out\<rparr>)" "same_link d (d\<lparr>d_events_enabled := b\<rparr>)"
  by (simp_all add: same_link_def)

section \<open>Calls to the host leave an orchestrator where there was one\<close>

lemma host_calls_keep [simp]:
  "snd (try_orchestrator_step W ex mho rq scopes ivs oo) = None \<longleftrightarrow> oo = None"
  "snd (try_orchestrator_replay W ex mho rq oo) = None \<longleftrightarrow> oo = None"
  "snd (snd (try_backward_step W ex mho s oo)) = None \<longleftrightarrow> oo = None"
  "snd (try_host mho rq de call de_resp oo) = None \<longleftrightarrow> oo = None"
  "propagate_probes W ex mho g oo = None \<longleftrightarrow> oo = None"
  "tell_host W ex reqs oo = None \<longleftrightarrow> oo = None"
  by (auto simp: try_orchestrator_step_def try_orchestrator_replay_def try_backward_step_def try_host_def
      propagate_probes_def tell_host_def Let_def split: option.splits sum.splits prod.splits)

lemma backward_session:
  "session_wf s \<longrightarrow> session_wf (fst (snd (try_backward_step W ex mho s oo)))"
  "stopped (fst (snd (try_backward_step W ex mho s oo))) = stopped s"
  by (auto simp: try_backward_step_def eager_sub_checkpoint_def Let_def status_simps intro!: session_ops
      split: option.splits sum.splits prod.splits)

section \<open>Each request\<close>

lemma answer_step_link [link_rules]: "same_link d (snd (answer_step W w rq d))"
  using backward_session(1) [of "d_session d" W "wd_exchange w" "d_model_handle d" "d_orchestrator d"]
    backward_session(2) [of W "wd_exchange w" "d_model_handle d" "d_session d" "d_orchestrator d"]
    host_calls_keep(3) [of W "wd_exchange w" "d_model_handle d" "d_session d" "d_orchestrator d"]
    step_answers [unfolded answers_def]
  by (auto simp: answer_step_def same_link_def status_simps split_beta split: option.split)

lemma handle_inspect_consumer:
  "handle_inspect I S h s rq store co mem = Some (r, store', co', mem') \<Longrightarrow> (co' = None \<longleftrightarrow> co = None)"
  by (auto simp: handle_inspect_def ingest_and_respond_def release_slots_def split: sum.splits option.splits
      if_splits prod.splits)

lemma answer_inspect_link [link_rules]:
  assumes "answer_inspect W w rq d = Some (a, d1)"
  shows "same_link d d1"
proof -
  obtain r oo where t: "try_orchestrator_inspect W (wd_exchange w) (d_model_handle d) rq (d_orchestrator d) = (r, oo)"
    by fastforce
  have "oo = snd (try_orchestrator_inspect W (wd_exchange w) (d_model_handle d) rq (d_orchestrator d))"
    using t by simp
  then have oo: "oo = None \<longleftrightarrow> d_orchestrator d = None" by (simp add: try_orchestrator_inspect_def)
  show ?thesis
  proof (cases r)
    case (Inl resp)
    then show ?thesis using assms t oo by (auto simp: answer_inspect_def same_link_def)
  next
    case (Inr hr)
    then obtain resp store co mem where
      h: "handle_inspect (wd_ingest w) (cd_serde W) hr (d_session d) rq (d_store d) (d_consumer d) (wd_mem w)
        = Some (resp, store, co, mem)" and d1: "d1 = d\<lparr>d_orchestrator := oo, d_store := store, d_consumer := co\<rparr>"
      using assms t by (auto simp: answer_inspect_def split: option.splits)
    show ?thesis using handle_inspect_consumer [OF h] oo by (simp add: d1 same_link_def)
  qed
qed

lemma answer_forwarded_link [link_rules]:
  "(snd outcome = None \<longleftrightarrow> d_orchestrator d = None) \<Longrightarrow> same_link d (snd (answer_forwarded w outcome reply d))"
  by (auto simp: answer_forwarded_def same_link_def split: prod.split sum.split)

lemma answer_probe_link [link_rules]: "same_link d (snd (answer_probe W w rq d))"
  by (simp add: answer_probe_def same_link_def split_beta)

lemma answer_checkpoint_link [link_rules]: "same_link d (snd (answer_checkpoint W w rq d))"
  using checkpoint_answers [of "d_session d" rq, unfolded answers_def reply_part_def]
  by (simp add: answer_checkpoint_def same_link_def split_beta status_simps)

lemma answer_export_link [link_rules]: "answer_export W w rq d = Some (a, d1) \<Longrightarrow> same_link d d1"
  by (auto simp: answer_export_def same_link_def split: option.splits prod.splits)

section \<open>Attaching and detaching\<close>

lemma rs_error_simps [simp]:
  "rs_error (Response_error i er) = Some er"
  "rs_error (data_response i e) = Some (RpcError_from_error_data e)"
  "rs_error (bare_error i c m) = Some \<lparr>re_code = c, re_message = m, re_data = None\<rparr>"
  "rs_error (session_error_to_response i se) = Some (RpcError_from_error_data (session_error_data se))"
  by (simp_all add: session_error_to_response_def data_response_def bare_error_def Response_error_def)

lemma rs_error_invalid_params [simp]: "\<exists>er. rs_error (invalid_params_response i t) = Some er"
  by (simp add: invalid_params_response_def)

lemma serialize_total: "codec_total W \<Longrightarrow> rs_error (serialize_envelope (cd_serde W) i b) = None"
  unfolding codec_total_def serialize_envelope_def Response_success_def
  by (metis (mono_tags, lifting) old.sum.simps(6) response.select_convs(4))

lemma handle_attach_outcome:
  assumes "codec_total W" "handle_attach E (cd_serde W) b s rq = (r, s')"
  shows "(rs_error r = None \<and> stopped s' \<and> \<not> stopped s) \<or> (rs_error r \<noteq> None \<and> s' = s)"
  using assms(2) serialize_total [OF assms(1), of "rq_id rq"]
  by (auto simp: handle_attach_def commit_attach_def Let_def dest!: validate_attach_Ok
      split: sum.splits if_splits prod.splits)

lemma handle_attach_Err: "snd (handle_attach E S (Inl msg) s rq) = s"
  by (simp add: handle_attach_def split: sum.split)

lemma handle_detach_outcome:
  assumes "codec_total W" "handle_detach (cd_serde W) s rq = (r, s')"
  shows "(rs_error r = None \<and> \<not> stopped s') \<or> (rs_error r \<noteq> None \<and> s' = s)"
  using assms(2) serialize_total [OF assms(1), of "rq_id rq"]
  by (auto simp: handle_detach_def detach_def finish_def Let_def split: sum.splits if_splits prod.splits)

lemma answer_attach_outcome:
  assumes total: "codec_total W" and inv: "daemon_inv d" and ans: "answer_attach W w rq d = (a, d1)"
  shows "session_wf (d_session d1) \<and> d_orchestrator d1 = d_orchestrator d \<and> d_model_handle d1 = d_model_handle d
    \<and> d_consumer d1 = d_consumer d \<and> d_perfetto d1 = d_perfetto d \<and> d_traces d1 = d_traces d
    \<and> (if an_attach a = None then stopped (d_session d1) = stopped (d_session d)
        else stopped (d_session d1) \<and> rs_error (an_response a) = None)"
proof -
  have wf: "session_wf (snd (handle_attach E (cd_serde W) b (d_session d) rq))" for E b
    using inv attach_answers [of "d_session d" rq E "cd_serde W" b] by (simp add: daemon_inv_def answers_def)
  have outcome: "(rs_error (fst h) = None \<and> stopped (snd h) \<and> \<not> stopped (d_session d))
      \<or> (rs_error (fst h) \<noteq> None \<and> snd h = d_session d)"
    if "h = handle_attach E (cd_serde W) b (d_session d) rq" for h E b
    using handle_attach_outcome [OF total, of E b "d_session d" rq "fst h" "snd h"] that by simp
  show ?thesis
  proof (cases "\<exists>req orch host. map_option (de_attach (cd_serde W)) (rq_params rq) = Some (Inr req)
      \<and> validate_attach (json (cd_serde W)) (d_session d) req = Inr () \<and> spawn_and_attach W w rq = Inr (orch, host)")
    case True
    then obtain req orch host where "map_option (de_attach (cd_serde W)) (rq_params rq) = Some (Inr req)"
      "validate_attach (json (cd_serde W)) (d_session d) req = Inr ()" "spawn_and_attach W w rq = Inr (orch, host)"
      by blast
    then show ?thesis
      using ans wf outcome [OF refl, of "wd_call w" "Ok host"] inv [unfolded daemon_inv_def]
      by (auto simp: answer_attach_def plain_answer_def Let_def split_beta split: if_splits)
  next
    case False
    then have "an_attach a = None \<and> d1 = d"
      using ans by (auto simp: answer_attach_def plain_answer_def Let_def split_beta handle_attach_Err
          split: option.splits sum.splits)
    then show ?thesis using inv by (simp add: daemon_inv_def)
  qed
qed

lemma status_dispatch:
  assumes "rq_method rq \<noteq> m_DETACH"
  shows "stopped (snd (dispatch E S s rq)) = stopped s"
proof -
  have "stopped (snd (initialize u q s)) = stopped s" for u and q :: "'a initialize_request"
    by (auto simp: initialize_def Let_def)
  then have "stopped (snd (handle_initialize E S s rq)) = stopped s"
    by (simp add: handle_initialize_def split_beta split: sum.split)
  then show ?thesis
    using assms by (simp add: dispatch_def Let_def status_simps split_beta)
qed

lemma dispatch_link:
  assumes total: "codec_total W" and wf: "session_wf s" and d: "dispatch E (cd_serde W) s rq = (r, s')"
  shows "session_wf s'" "rq_method rq \<noteq> m_DETACH \<Longrightarrow> stopped s' = stopped s"
    "rq_method rq = m_DETACH \<Longrightarrow> if rs_error r = None then \<not> stopped s' else s' = s"
proof -
  show "session_wf s'" using dispatch_answers [OF wf, of rq E "cd_serde W"] d by (simp add: answers_def)
  show "rq_method rq \<noteq> m_DETACH \<Longrightarrow> stopped s' = stopped s"
    using status_dispatch [of rq E "cd_serde W" s] d by simp
  show "if rs_error r = None then \<not> stopped s' else s' = s" if "rq_method rq = m_DETACH"
    using handle_detach_outcome [OF total, of s rq r s'] d that
    by (auto simp: dispatch_def m_DETACH_def m_INITIALIZE_def m_ATTACH_def)
qed

section \<open>One iteration\<close>

text \<open>An answer that commits no attachment and leaves the existing one.\<close>

definition quiet :: "'v daemon \<Rightarrow> 'v answer \<times> 'v daemon \<Rightarrow> bool" where
  "quiet d p \<longleftrightarrow> an_attach (fst p) = None \<and> same_link d (snd p)"

lemma no_attach:
  "an_attach (fst (answer_step W w rq d)) = None" "an_attach (fst (answer_probe W w rq d)) = None"
  "an_attach (fst (answer_checkpoint W w rq d)) = None"
  "an_attach (fst (answer_forwarded w outcome reply d)) = None"
  "answer_inspect W w rq d = Some p \<Longrightarrow> an_attach (fst p) = None"
  "answer_export W w rq d = Some p \<Longrightarrow> an_attach (fst p) = None"
  by (auto simp: answer_step_def answer_probe_def answer_checkpoint_def answer_forwarded_def
      answer_inspect_def answer_export_def plain_answer_def split: option.splits sum.splits prod.splits if_splits)

lemma quiet_answers:
  "quiet d (answer_step W w rq d)" "quiet d (answer_probe W w rq d)" "quiet d (answer_checkpoint W w rq d)"
  "(snd outcome = None \<longleftrightarrow> d_orchestrator d = None) \<Longrightarrow> quiet d (answer_forwarded w outcome reply d)"
  "answer_inspect W w rq d = Some p \<Longrightarrow> quiet d p" "answer_export W w rq d = Some p \<Longrightarrow> quiet d p"
  by (simp_all add: quiet_def no_attach answer_step_link answer_probe_link answer_checkpoint_link
      answer_forwarded_link) (cases p, simp add: answer_inspect_link, cases p, simp add: answer_export_link)

lemma quiet_session:
  "(session_wf (d_session d) \<longrightarrow> session_wf s') \<Longrightarrow> stopped s' = stopped (d_session d)
   \<Longrightarrow> quiet d (plain_answer w r, d\<lparr>d_session := s'\<rparr>)"
  by (simp add: quiet_def plain_answer_def same_link_def)

lemma daemon_answer_quiet:
  assumes total: "codec_total W" and inv: "daemon_inv d" and ans: "daemon_answer W w rq d = Some p"
    and m: "rq_method rq \<noteq> m_ATTACH" "rq_method rq \<noteq> m_DETACH"
  shows "quiet d p"
proof -
  have wf: "session_wf (d_session d)" using inv by (simp add: daemon_inv_def)
  let ?S = "cd_serde W" and ?s = "d_session d"
  have views: "quiet d (answer_forwarded w (try_orchestrator_view W (wd_exchange w) (d_model_handle d) rq (d_orchestrator d)) rep1 d)"
    "quiet d (answer_forwarded w (try_orchestrator_kv_read W (wd_exchange w) (d_model_handle d) rq (d_orchestrator d)) rep2 d)"
    "quiet d (answer_forwarded w (try_orchestrator_kv_intervene W (wd_exchange w) (d_model_handle d) rq (d_orchestrator d)) rep3 d)"
    for rep1 rep2 rep3
    by (simp_all add: quiet_answers try_orchestrator_view_def try_orchestrator_kv_read_def
        try_orchestrator_kv_intervene_def)
  have sub: "quiet d (plain_answer w r, d\<lparr>d_session := snd (handle_subscribe ?S ?s rq), d_events_enabled := b\<rparr>)"
    and sub_failed: "quiet d (plain_answer w r, d\<lparr>d_session := snd (handle_subscribe ?S ?s rq)\<rparr>)"
    and unsub: "quiet d (plain_answer w r, d\<lparr>d_events_enabled := b\<rparr>)"
    and rep: "quiet d (plain_answer w r, d\<lparr>d_session := snd (handle_replay ?S hr ?s rq),
       d_orchestrator := snd (try_orchestrator_replay W ex mh rq (d_orchestrator d))\<rparr>)"
    and dis: "quiet d (plain_answer w r, d\<lparr>d_session := snd (dispatch (wd_call w) ?S ?s rq)\<rparr>)" for r b hr ex mh
    using subscribe_answers [OF wf, of rq ?S] replay_answers [OF wf, of rq ?S] dispatch_answers [OF wf, of rq]
      status_dispatch [OF m(2)]
    by (simp_all add: quiet_def plain_answer_def same_link_def status_simps answers_def)
  have "answer_inspect W w rq d = Some p \<Longrightarrow> quiet d p" "answer_export W w rq d = Some p \<Longrightarrow> quiet d p"
    by (rule quiet_answers; assumption)+
  then show ?thesis
    using ans m(1) unfolding daemon_answer_def Let_def split_beta
    by (auto simp: quiet_answers(1-3) views sub sub_failed unsub rep dis simp del: split_paired_All split: if_split_asm)
qed


lemma open_trace_ok:
  assumes "open_trace w host s = Some ps"
  shows "comps_ok ps \<and> \<not> announces (ps_writer ps)"
proof -
  obtain ps0 r where create: "PerfettoSink_create (wd_trace_io w) (ss_session_id (s_state s))
      (unwrap_or (ss_model_id (s_state s)) ''unknown'') (wd_pid w) = Some (Some (), ps0)"
    and process: "declare_process (wd_trace_io w) 0 (unwrap_or (ha_worker_pid host) 0) ''rank:0'' ps0 = Some (r, ps)"
    using assms by (auto simp: open_trace_def split: if_splits option.splits)
  show ?thesis
    using other_comps(1) [OF process] declare_silent(2) [OF process] other_comps(4) [OF create]
      declare_silent(1) [OF create] by simp
qed

lemma end_slices_silent: "announces (ps_writer (snd (end_slices io now opens ps))) = announces (ps_writer ps)"
  by (induction io now opens ps rule: end_slices.induct) (auto simp: emit_conv split: bool.split)

lemma close_trace_frame [simp]:
  "d_session (close_trace w d) = d_session d" "d_out (close_trace w d) = d_out d"
  "d_events_enabled (close_trace w d) = d_events_enabled d" "d_running (close_trace w d) = d_running d"
  "d_perfetto (close_trace w d) = None"
  "traces_ok (d_perfetto d) (d_traces d) \<Longrightarrow> traces_ok None (d_traces (close_trace w d))"
  by (auto simp: close_trace_def traces_ok_def sink_close_def split_beta end_slices_silent split: option.splits)

lemma attach_request_inv:
  assumes total: "codec_total W" and inv: "daemon_inv d" and m: "rq_method rq = m_ATTACH"
    and ans: "answer_attach W w rq d = (a, d1)"
  shows "daemon_inv (release_model W w rq (an_response a) (commit_attachment W w (an_attach a) d1))"
proof -
  have "m_ATTACH \<noteq> m_DETACH" by (simp add: m_ATTACH_def m_DETACH_def)
  then have *: "release_model W w rq r e = e" for r e by (simp add: release_model_def m)
  show ?thesis
    using answer_attach_outcome [OF total inv ans] inv unfolding *
    by (auto simp: commit_attachment_def daemon_inv_def status_simps session_ops traces_ok_def
        dest: open_trace_ok split: option.splits if_splits)
qed

lemma detach_request_inv:
  assumes total: "codec_total W" and inv: "daemon_inv d" and m: "rq_method rq = m_DETACH"
    and ans: "dispatch (wd_call w) (cd_serde W) (d_session d) rq = (r, s')"
  shows "daemon_inv (release_model W w rq r (d\<lparr>d_session := s'\<rparr>))"
  using dispatch_link [OF total _ ans] inv m
  by (auto simp: release_model_def detach_orchestrator_def daemon_inv_def split: if_splits)

lemma daemon_answer_detach:
  "rq_method rq = m_DETACH \<Longrightarrow> daemon_answer W w rq d =
     Some (plain_answer w (fst (dispatch (wd_call w) (cd_serde W) (d_session d) rq)),
           d\<lparr>d_session := snd (dispatch (wd_call w) (cd_serde W) (d_session d) rq)\<rparr>)"
  by (simp add: daemon_answer_def Let_def split_beta m_DETACH_def m_ATTACH_def m_STEP_def m_INSPECT_def
      m_VIEW_def m_KV_READ_def m_KV_INTERVENE_def m_PROBE_def m_SUBSCRIBE_def m_UNSUBSCRIBE_def
      m_SESSION_EXPORT_def m_CHECKPOINT_def m_REPLAY_def)

lemma answered_inv:
  assumes total: "codec_total W" and inv: "daemon_inv d" and ans: "daemon_answer W w rq d = Some (a, d1)"
  shows "daemon_inv (release_model W w rq (an_response a) (commit_attachment W w (an_attach a) d1))"
proof -
  consider "rq_method rq = m_ATTACH" | "rq_method rq = m_DETACH" | "rq_method rq \<noteq> m_ATTACH" "rq_method rq \<noteq> m_DETACH"
    by blast
  then show ?thesis
  proof cases
    case 1
    then show ?thesis using attach_request_inv [OF total inv 1] ans by (simp add: daemon_answer_def Let_def)
  next
    case 2
    then show ?thesis
      using detach_request_inv [OF total inv 2, of w] ans daemon_answer_detach [OF 2, of W w d]
      by (auto simp: plain_answer_def commit_attachment_def)
  next
    case 3
    then show ?thesis
      using daemon_answer_quiet [OF total inv ans 3] same_link_inv [OF _ inv]
      by (simp add: quiet_def commit_attachment_def release_model_def)
  qed
qed

lemma notify_link [link_rules]: "same_link d (snd (notify W w m v d))"
  by (simp add: notify_def split: option.split prod.split)

lemma write_client_link [link_rules]: "same_link d (write_client w msg d)"
  by (simp add: write_client_def Let_def same_link_def)

lemma notify_probes_link [link_rules]: "notify_probes W w es d = Some d1 \<Longrightarrow> same_link d d1"
proof (induction W w es d rule: notify_probes.induct)
  case (2 W w e es d)
  then show ?case using notify_link [of d W w ev_PROBE_FIRED]
    by (auto split: sum.splits prod.splits bool.splits dest!: same_link_trans) (metis same_link_trans snd_conv)+
qed simp

lemma trace_tick_link [link_rules]: "trace_tick w d = Some d1 \<Longrightarrow> same_link d d1"
  by (auto simp: trace_tick_def same_link_def traces_ok_def split: option.splits
      dest: on_tick_stopped_comps(1) events_silent(1))

lemma probe_all_ok:
  "probe_all io now es ps = Some ps' \<Longrightarrow> comps_ok ps \<Longrightarrow> comps_ok ps' \<and> announces (ps_writer ps') = announces (ps_writer ps)"
proof (induction es arbitrary: ps)
  case (Cons e es)
  then obtain r ps1 where e: "on_probe_fired io now e ps = Some (r, ps1)" "probe_all io now es ps1 = Some ps'"
    by (auto split: bind_splits)
  then show ?case
    using Cons.IH [OF e(2)] on_probe_fired_comps(1) [OF Cons.prems(2) e(1)] events_silent(2) [OF e(1)] by simp
qed simp

lemma trace_probes_link [link_rules]: "trace_probes w es d = Some d1 \<Longrightarrow> same_link d d1"
  by (auto simp: trace_probes_def same_link_def traces_ok_def dest: probe_all_ok split: option.splits)

lemma traced_probes_link:
  "Option.bind (notify_probes W w es d) (trace_probes w es) = Some d1 \<Longrightarrow> same_link d d1"
  by (cases "notify_probes W w es d") (auto intro: same_link_trans [OF notify_probes_link trace_probes_link])

lemma notify_step_conv:
  assumes "d_events_enabled d \<and> step_succeeded rq (an_response a)"
    and "cd_tick_stopped W \<lparr>ts_position = current_position d, ts_state = ss_status (s_state (d_session d))\<rparr> = Inr v"
  shows "notify_step W w rq a d = (let e = snd (notify W w ev_TICK_STOPPED v d) in
     if fst (notify W w ev_TICK_STOPPED v d)
     then Option.bind (trace_tick w e) (\<lambda>e2. case an_step a of None \<Rightarrow> Some e2
       | Some hr \<Rightarrow> Option.bind (notify_probes W w (hs_events hr) e2) (trace_probes w (hs_events hr)))
     else Some (e\<lparr>d_running := False\<rparr>))"
  using assms by (simp add: notify_step_def Let_def split_beta split: bool.split)

lemma notify_step_link [link_rules]:
  assumes n: "notify_step W w rq a d = Some d1"
  shows "same_link d d1"
proof (cases "d_events_enabled d \<and> step_succeeded rq (an_response a)")
  case True
  obtain v where v: "cd_tick_stopped W \<lparr>ts_position = current_position d, ts_state = ss_status (s_state (d_session d))\<rparr> = Inr v"
    using n True by (auto simp: notify_step_def split: sum.splits)
  define e where "e = snd (notify W w ev_TICK_STOPPED v d)"
  have de: "same_link d e" unfolding e_def by (rule notify_link)
  show ?thesis
  proof (cases "fst (notify W w ev_TICK_STOPPED v d)")
    case sent: True
    obtain e2 where e2: "trace_tick w e = Some e2"
      "(case an_step a of None \<Rightarrow> Some e2
        | Some hr \<Rightarrow> Option.bind (notify_probes W w (hs_events hr) e2) (trace_probes w (hs_events hr))) = Some d1"
      using n sent by (cases "trace_tick w e") (simp_all add: notify_step_conv [OF True v] e_def [symmetric] Let_def)
    have "same_link e2 d1"
      using e2(2) traced_probes_link by (cases "an_step a") auto
    then show ?thesis using same_link_trans [OF de same_link_trans [OF trace_tick_link [OF e2(1)]]] by blast
  next
    case False
    then have "d1 = e\<lparr>d_running := False\<rparr>" using n by (simp add: notify_step_conv [OF True v] e_def Let_def)
    then show ?thesis using same_link_trans [OF de] by simp
  qed
qed (use n in \<open>auto simp: notify_step_def split: if_splits\<close>)

lemma auto_checkpoint_inv: "daemon_inv d \<Longrightarrow> daemon_inv (auto_checkpoint W w rq a d)"
  by (auto simp: auto_checkpoint_def daemon_inv_def Let_def status_simps intro!: session_ops
      split: option.splits prod.splits sum.splits)

section \<open>The main loop\<close>

lemma daemon_message_inv:
  assumes total: "codec_total W" and inv: "daemon_inv d0" and run: "daemon_message W w raw d0 = Some d'"
  shows "daemon_inv d'"
proof -
  define d where "d = d0\<lparr>d_trace := trace_record (wd_now_in w) Inbound raw (d_trace d0)\<rparr>"
  have d: "daemon_inv d" using same_link_inv [OF _ inv] by (simp add: d_def)
  show ?thesis
  proof (cases "cd_request W raw")
    case (Inl e)
    then show ?thesis using run same_link_inv [OF write_client_link d]
      by (auto simp: daemon_message_def Let_def d_def [symmetric])
  next
    case (Inr rq)
    then obtain a d1 msg where ans: "daemon_answer W w rq d = Some (a, d1)" "cd_response W (an_response a) = Inr msg"
      using run by (auto simp: daemon_message_def Let_def d_def [symmetric] split: option.splits sum.splits)
    let ?d3 = "write_client w msg (release_model W w rq (an_response a) (commit_attachment W w (an_attach a) d1))"
    have d3: "daemon_inv ?d3" by (rule same_link_inv [OF write_client_link answered_inv [OF total d ans(1)]])
    show ?thesis
      using run Inr ans d3 notify_step_link [of W w rq a ?d3, THEN same_link_inv, OF _ d3]
      by (auto simp: daemon_message_def Let_def d_def [symmetric] split: if_splits option.splits
          intro!: auto_checkpoint_inv)
  qed
qed

lemma daemon_heartbeat_link: "daemon_heartbeat W w up st d = Some d1 \<Longrightarrow> same_link d d1"
  using notify_link [of d W w ev_TICK_HEARTBEAT]
  by (auto simp: daemon_heartbeat_def split: if_splits sum.splits prod.splits bool.splits)
    (metis same_link_frame(2) same_link_trans snd_conv)+

lemma daemon_step_inv:
  "codec_total W \<Longrightarrow> daemon_inv d \<Longrightarrow> daemon_step W we d = Some d' \<Longrightarrow> daemon_inv d'"
  by (auto simp: daemon_step_def intro: daemon_message_inv same_link_inv [OF daemon_heartbeat_link]
      same_link_inv [OF same_link_frame(2)] split: if_splits prod.splits loop_event.splits)

lemma daemon_run_inv:
  "codec_total W \<Longrightarrow> daemon_inv d \<Longrightarrow> daemon_run W wes d = Some d' \<Longrightarrow> daemon_inv d'"
  by (induction W wes d rule: daemon_run.induct) (auto split: bind_splits dest: daemon_step_inv)

end
