(* ===== verification/Tensor_Stats_Exact.thy ===== *)
theory Tensor_Stats_Exact
  imports Tensor_Stats
begin

text \<open>
  What the summary of a tensor reports, whatever the rounding of the arithmetic: the extremes are attained
  and bound every finite element, the histogram counts each finite element once, and the top entries are
  the elements of greatest magnitude, in descending order, at their positions.
\<close>

section \<open>Bits and order\<close>

lemma magnitude_abs [simp]: "ieee_magnitude (ieee_abs x) = ieee_magnitude x"
  by (simp add: ieee_magnitude_def ieee_abs_def)

lemma key_abs [simp]: "ieee_key (ieee_abs x) = int (ieee_magnitude x)"
  by (simp add: ieee_key_def) (simp add: ieee_abs_def bit_take_bit_iff)

lemma finite_not_nan: "ieee_finite x \<Longrightarrow> \<not> ieee_nan x"
  by (simp add: ieee_finite_def ieee_nan_def)

lemma finite_abs [simp]: "ieee_finite (ieee_abs x) = ieee_finite x" "ieee_nan (ieee_abs x) = ieee_nan x"
  by (simp_all add: ieee_finite_def ieee_nan_def)

lemma key_zero [simp]: "ieee_key 0 = 0" "\<not> ieee_nan 0"
  by (simp_all add: ieee_key_def ieee_magnitude_def ieee_nan_def)

lemma key_infinity: "ieee_key f64_infinity = 0x7FF0000000000000" "ieee_key f64_neg_infinity = - 0x7FF0000000000000"
  "\<not> ieee_nan f64_infinity" "\<not> ieee_nan f64_neg_infinity"
  by (simp_all add: ieee_key_def ieee_magnitude_def ieee_nan_def f64_infinity_def f64_neg_infinity_def)

lemma key_finite: "ieee_finite x \<Longrightarrow> - 0x7FF0000000000000 < ieee_key x \<and> ieee_key x < 0x7FF0000000000000"
  by (auto simp: ieee_finite_def ieee_key_def)

lemma magnitude_zero: "ieee_magnitude x = 0 \<Longrightarrow> ieee_abs x = 0"
  by (simp add: ieee_magnitude_def ieee_abs_def unat_eq_0)

lemma ieee_lt_finite: "\<not> ieee_nan x \<Longrightarrow> \<not> ieee_nan y \<Longrightarrow> ieee_lt x y \<longleftrightarrow> ieee_key x < ieee_key y"
  by (simp add: ieee_lt_def)

section \<open>The first pass\<close>

abbreviation finite_part :: "f64 list \<Rightarrow> f64 list" where "finite_part \<equiv> filter ieee_finite"

lemma pass1_step_simps:
  "p1_n (pass1_step F p x) = p1_n p + 1"
  "p1_nan_count (pass1_step F p x) + p1_inf_count (pass1_step F p x) =
     p1_nan_count p + p1_inf_count p + (if ieee_finite x then 0 else 1)"
  "p1_min (pass1_step F p x) = (if ieee_finite x \<and> ieee_lt x (p1_min p) then x else p1_min p)"
  "p1_max (pass1_step F p x) = (if ieee_finite x \<and> ieee_lt (p1_max p) x then x else p1_max p)"
  "p1_abs_max (pass1_step F p x) = (if ieee_finite x \<and> ieee_lt (p1_abs_max p) (ieee_abs x) then ieee_abs x else p1_abs_max p)"
  by (simp_all add: pass1_step_def Let_def split_beta)

lemma pass1_snoc: "compute_pass1 F (xs @ [x]) = pass1_step F (compute_pass1 F xs) x"
  by (simp add: compute_pass1_def)

lemma pass1_counts:
  "p1_n (compute_pass1 F xs) = word_of_nat (length xs)"
  "p1_nan_count (compute_pass1 F xs) + p1_inf_count (compute_pass1 F xs) = word_of_nat (length (filter (\<lambda>x. \<not> ieee_finite x) xs))"
  by (induction xs rule: rev_induct)
    (simp_all add: pass1_snoc pass1_step_simps compute_pass1_def [of F "[]"] pass1_start_def add.commute [of _ "1 :: u64"])

lemma finite_count_pass1: "finite_count (compute_pass1 F xs) = word_of_nat (length (finite_part xs))"
proof -
  have "word_of_nat (length xs) = (word_of_nat (length (finite_part xs)) + word_of_nat (length (filter (\<lambda>x. \<not> ieee_finite x) xs)) :: u64)"
    using sum_length_filter_compl [of ieee_finite xs] by (metis of_nat_add)
  then show ?thesis using pass1_counts [of F xs] by (simp add: finite_count_def diff_diff_add)
qed

lemma pass1_extremes:
  fixes F :: f64_arith
  defines "p \<equiv> compute_pass1 F"
  shows "\<not> ieee_nan (p1_min (p xs)) \<and> (if finite_part xs = [] then p1_min (p xs) = f64_infinity
      else p1_min (p xs) \<in> set (finite_part xs) \<and> (\<forall>x \<in> set (finite_part xs). ieee_key (p1_min (p xs)) \<le> ieee_key x))"
    "\<not> ieee_nan (p1_max (p xs)) \<and> (if finite_part xs = [] then p1_max (p xs) = f64_neg_infinity
      else p1_max (p xs) \<in> set (finite_part xs) \<and> (\<forall>x \<in> set (finite_part xs). ieee_key x \<le> ieee_key (p1_max (p xs))))"
    "\<not> ieee_nan (p1_abs_max (p xs)) \<and> (if finite_part xs = [] then p1_abs_max (p xs) = 0
      else p1_abs_max (p xs) \<in> ieee_abs ` set (finite_part xs) \<and>
        (\<forall>x \<in> set (finite_part xs). int (ieee_magnitude x) \<le> ieee_key (p1_abs_max (p xs))))"
proof (induction xs rule: rev_induct)
  case Nil
  show "\<not> ieee_nan (p1_min (p [])) \<and> (if finite_part [] = [] then p1_min (p []) = f64_infinity
      else p1_min (p []) \<in> set (finite_part []) \<and> (\<forall>x \<in> set (finite_part []). ieee_key (p1_min (p [])) \<le> ieee_key x))"
    "\<not> ieee_nan (p1_max (p [])) \<and> (if finite_part [] = [] then p1_max (p []) = f64_neg_infinity
      else p1_max (p []) \<in> set (finite_part []) \<and> (\<forall>x \<in> set (finite_part []). ieee_key x \<le> ieee_key (p1_max (p []))))"
    "\<not> ieee_nan (p1_abs_max (p [])) \<and> (if finite_part [] = [] then p1_abs_max (p []) = 0
      else p1_abs_max (p []) \<in> ieee_abs ` set (finite_part []) \<and>
        (\<forall>x \<in> set (finite_part []). int (ieee_magnitude x) \<le> ieee_key (p1_abs_max (p []))))"
    by (simp_all add: p_def compute_pass1_def pass1_start_def key_infinity)
next
  case (snoc x xs)
  have step: "p1_min (p (xs @ [x])) = (if ieee_finite x \<and> ieee_lt x (p1_min (p xs)) then x else p1_min (p xs))"
    "p1_max (p (xs @ [x])) = (if ieee_finite x \<and> ieee_lt (p1_max (p xs)) x then x else p1_max (p xs))"
    "p1_abs_max (p (xs @ [x])) = (if ieee_finite x \<and> ieee_lt (p1_abs_max (p xs)) (ieee_abs x) then ieee_abs x else p1_abs_max (p xs))"
    by (simp_all add: p_def pass1_snoc pass1_step_simps)
  show "\<not> ieee_nan (p1_min (p (xs @ [x]))) \<and> (if finite_part (xs @ [x]) = [] then p1_min (p (xs @ [x])) = f64_infinity
      else p1_min (p (xs @ [x])) \<in> set (finite_part (xs @ [x])) \<and>
        (\<forall>y \<in> set (finite_part (xs @ [x])). ieee_key (p1_min (p (xs @ [x]))) \<le> ieee_key y))"
    using snoc(1) key_finite [of x] finite_not_nan [of x]
    by (auto simp: step ieee_lt_finite key_infinity filter_empty_conv split: if_splits)
  show "\<not> ieee_nan (p1_max (p (xs @ [x]))) \<and> (if finite_part (xs @ [x]) = [] then p1_max (p (xs @ [x])) = f64_neg_infinity
      else p1_max (p (xs @ [x])) \<in> set (finite_part (xs @ [x])) \<and>
        (\<forall>y \<in> set (finite_part (xs @ [x])). ieee_key y \<le> ieee_key (p1_max (p (xs @ [x])))))"
    using snoc(2) key_finite [of x] finite_not_nan [of x]
    by (auto simp: step ieee_lt_finite key_infinity filter_empty_conv split: if_splits)
  show "\<not> ieee_nan (p1_abs_max (p (xs @ [x]))) \<and> (if finite_part (xs @ [x]) = [] then p1_abs_max (p (xs @ [x])) = 0
      else p1_abs_max (p (xs @ [x])) \<in> ieee_abs ` set (finite_part (xs @ [x])) \<and>
        (\<forall>y \<in> set (finite_part (xs @ [x])). int (ieee_magnitude y) \<le> ieee_key (p1_abs_max (p (xs @ [x])))))"
    using snoc(3) magnitude_zero [of x] finite_not_nan [of x]
    by (auto simp: step ieee_lt_finite image_iff filter_empty_conv split: if_splits)
qed

section \<open>The second pass\<close>

fun stat_entries :: "nat \<Rightarrow> f64 list \<Rightarrow> TopKHeapEntry list" where
  "stat_entries i [] = []"
| "stat_entries i (x # xs) =
     (if ieee_finite x then [\<lparr>tke_abs_value = ieee_abs x, tke_original_value = x, tke_flat_index = word_of_nat i\<rparr>] else [])
     @ stat_entries (i + 1) xs"

lemma pass2_heap:
  "snd (pass2_loop F range_min width k i xs (counts, heap)) = foldl (\<lambda>h e. heap_step k e h) heap (stat_entries i xs)"
  by (induction xs arbitrary: i counts heap) auto

lemma histogram_bin_less: "histogram_bin F range_min width x < NUM_HISTOGRAM_BINS"
  by (auto simp: histogram_bin_def NUM_HISTOGRAM_BINS_def Let_def)

lemma sum_list_increment:
  assumes "i < length cs" "sum_list (map unat cs) < 2 ^ 64 - 1"
  shows "sum_list (map unat (cs[i := cs ! i + (1 :: u64)])) = sum_list (map unat cs) + 1"
proof -
  have le: "unat (cs ! i) \<le> sum_list (map unat cs)"
    using assms(1) by (intro member_le_sum_list) auto
  then have "unat (cs ! i + 1) = unat (cs ! i) + 1"
    using assms(2) unat_add_no_wrap [of "cs ! i" 1] by simp
  then show ?thesis
    using le assms(1) by (simp add: map_update sum_list_update)
qed

lemma pass2_counts:
  assumes "length counts = NUM_HISTOGRAM_BINS" "sum_list (map unat counts) + length (finite_part xs) < 2 ^ 64"
  shows "length (fst (pass2_loop F range_min width k i xs (counts, heap))) = NUM_HISTOGRAM_BINS \<and>
    sum_list (map unat (fst (pass2_loop F range_min width k i xs (counts, heap)))) = sum_list (map unat counts) + length (finite_part xs)"
  using assms
proof (induction xs arbitrary: i counts heap)
  case (Cons x xs)
  show ?case
  proof (cases "ieee_finite x")
    case True
    let ?b = "histogram_bin F range_min width x"
    have inc: "sum_list (map unat (counts[?b := counts ! ?b + 1])) = sum_list (map unat counts) + 1"
      using Cons.prems True histogram_bin_less [of F range_min width x] by (intro sum_list_increment) auto
    show ?thesis
      using Cons.IH [of "counts[?b := counts ! ?b + 1]"] Cons.prems True inc by (simp add: Let_def)
  next
    case False
    then show ?thesis using Cons by simp
  qed
qed simp

section \<open>The greatest magnitudes\<close>

definition entry_ok :: "TopKHeapEntry \<Rightarrow> bool" where "entry_ok e \<longleftrightarrow> \<not> ieee_nan (tke_abs_value e)"

lemma reverse_le_key: "entry_ok a \<Longrightarrow> entry_ok b \<Longrightarrow> reverse_le a b \<longleftrightarrow> ieee_key (tke_abs_value b) \<le> ieee_key (tke_abs_value a)"
  by (auto simp: reverse_le_def entry_ok_def ieee_lt_def)

interpretation top: heap_order entry_ok reverse_le
  by unfold_locales (auto simp: reverse_le_key)

abbreviation entry_key :: "TopKHeapEntry \<Rightarrow> int" where "entry_key e \<equiv> ieee_key (tke_abs_value e)"

text \<open>The heap holds \<open>k\<close> of the entries seen, none of the others being greater.\<close>

definition holds_greatest :: "nat \<Rightarrow> TopKHeapEntry list \<Rightarrow> TopKHeapEntry list \<Rightarrow> bool" where
  "holds_greatest k es h \<longleftrightarrow> is_heap reverse_le h \<and> mset h \<subseteq># mset es \<and> length h = min k (length es) \<and>
     (\<forall>x \<in># mset es - mset h. \<forall>y \<in> set h. entry_key x \<le> entry_key y)"

lemma heap_step_greatest:
  assumes "0 < k" "list_all entry_ok es" "entry_ok e" "holds_greatest k es h"
  shows "holds_greatest k (es @ [e]) (heap_step k e h)"
proof -
  have sub: "mset h \<subseteq># mset es" and heap: "is_heap reverse_le h" and len: "length h = min k (length es)"
    and rest: "\<And>x y. x \<in># mset es - mset h \<Longrightarrow> y \<in> set h \<Longrightarrow> entry_key x \<le> entry_key y"
    using assms(4) by (auto simp: holds_greatest_def)
  have ok: "list_all entry_ok h" using sub assms(2) by (auto simp: list_all_iff dest: mset_subset_eqD)
  consider "length h < k" | "length h = k" "length es \<ge> k" using len by linarith
  then show ?thesis
  proof cases
    case 1
    obtain r where r: "mset es = mset h + r" using sub by (auto simp: mset_subset_eq_exists_conv)
    have full: "length h = length es" using 1 len by (simp add: min_def split: if_splits)
    with arg_cong [OF r, of size] have "size r = 0" by (simp only: size_mset size_union)
    then have "mset h = mset es" using r by simp
    moreover have "length (heap_push reverse_le e h) = length h + 1"
      by (metis Suc_eq_plus1 mset_heap_push size_add_mset size_mset)
    ultimately show ?thesis using 1 full top.push_heap [OF ok assms(3) heap] by (simp add: heap_step_def holds_greatest_def min_def)
  next
    case 2
    then have ne: "h \<noteq> []" using assms(1) by auto
    have top: "entry_key (hd h) \<le> entry_key y" if "y \<in> set h" for y
      using top.heap_top [OF ok heap that] ok ne that by (auto simp: reverse_le_key list_all_iff)
    show ?thesis
    proof (cases "ieee_lt (tke_abs_value (hd h)) (tke_abs_value e)")
      case True
      define h' where "h' = snd (heap_pop reverse_le h)"
      have m: "mset h = add_mset (hd h) (mset h')" using heap_pop_mset(2) [OF ne, of reverse_le] by (simp add: h'_def)
      have h': "list_all entry_ok h'" "is_heap reverse_le h'"
        using ok m top.pop_heap [OF ok heap ne] by (auto simp: h'_def list_all_iff simp flip: set_mset_mset)
      have lt: "entry_key (hd h) < entry_key e" using True by (simp add: ieee_lt_def)
      have diff: "add_mset e (mset es) - add_mset e (mset h') = add_mset (hd h) (mset es - mset h)"
      proof -
        obtain r where r: "mset es = mset h + r" using sub by (auto simp: mset_subset_eq_exists_conv)
        then show ?thesis using m by simp
      qed
      have "entry_key x \<le> entry_key y" if "x \<in># add_mset (hd h) (mset es - mset h)" "y \<in> set (heap_push reverse_le e h')" for x y
      proof -
        have y: "y = e \<or> y \<in> set h" using that(2) m by (auto simp flip: set_mset_mset)
        have hh: "hd h \<in> set h" using ne by simp
        from that(1) consider "x = hd h" | "x \<in># mset es - mset h" by auto
        then show ?thesis using y top [of y] lt rest [of x y] rest [OF _ hh, of x] by cases auto
      qed
      moreover have "mset (heap_push reverse_le e h') \<subseteq># mset (es @ [e])"
        using sub m by (simp add: subset_mset.order_trans [of "mset h'" "mset h"])
      moreover have "length (heap_push reverse_le e h') = k"
        using m 2(1) by (metis mset_heap_push size_add_mset size_mset)
      moreover have "heap_step k e h = heap_push reverse_le e h'"
        using True 2 ne by (simp add: heap_step_def heap_peek_def h'_def)
      ultimately show ?thesis
        using top.push_heap [OF h'(1) assms(3) h'(2)] 2 diff by (simp add: holds_greatest_def)
    next
      case False
      have e: "entry_key e \<le> entry_key y" if "y \<in> set h" for y
        using False top [OF that] ok ne assms(3) by (auto simp: ieee_lt_def entry_ok_def list_all_iff)
      have "add_mset e (mset es) - mset h = add_mset e (mset es - mset h)"
        using sub by (auto simp: mset_subset_eq_exists_conv)
      moreover have "heap_step k e h = h" using False 2 ne by (simp add: heap_step_def heap_peek_def)
      moreover have "mset h \<subseteq># add_mset e (mset es)" using sub by (simp add: subset_mset.order_trans)
      ultimately show ?thesis using e rest heap 2 by (auto simp: holds_greatest_def)
    qed
  qed
qed

lemma fold_greatest:
  "0 < k \<Longrightarrow> list_all entry_ok es \<Longrightarrow> holds_greatest k es (foldl (\<lambda>h e. heap_step k e h) [] es)"
proof (induction es rule: rev_induct)
  case Nil
  show ?case by (simp add: holds_greatest_def is_heap_def)
next
  case (snoc e es)
  then show ?case by (simp add: heap_step_greatest)
qed

section \<open>Positions\<close>

definition stat_entry :: "nat \<Rightarrow> f64 \<Rightarrow> TopKHeapEntry" where
  "stat_entry i x = \<lparr>tke_abs_value = ieee_abs x, tke_original_value = x, tke_flat_index = word_of_nat i\<rparr>"

definition finite_positions :: "f64 list \<Rightarrow> nat list" where
  "finite_positions xs = filter (\<lambda>j. ieee_finite (xs ! j)) [0..<length xs]"

lemma stat_entries_positions: "stat_entries i xs = map (\<lambda>j. stat_entry (i + j) (xs ! j)) (finite_positions xs)"
proof (induction xs arbitrary: i)
  case (Cons x xs)
  have "[0..<length (x # xs)] = 0 # map Suc [0..<length xs]"
    by (simp add: map_Suc_upt upt_conv_Cons del: upt_Suc)
  then show ?case
    by (simp add: Cons finite_positions_def filter_map comp_def stat_entry_def del: upt_Suc)
qed (simp add: finite_positions_def)

lemma length_finite_positions: "length (finite_positions xs) = length (finite_part xs)"
  using arg_cong [OF map_nth [of xs], of "\<lambda>ys. length (finite_part ys)"]
  by (simp add: finite_positions_def filter_map comp_def)

lemma finite_positions_simps:
  "distinct (finite_positions xs)" "j \<in> set (finite_positions xs) \<longleftrightarrow> j < length xs \<and> ieee_finite (xs ! j)"
  by (auto simp: finite_positions_def)

lemma index_stat_entry: "j < 2 ^ 64 \<Longrightarrow> unat (tke_flat_index (stat_entry j x)) = j"
  by (simp add: stat_entry_def unsigned_of_nat take_bit_nat_eq_self)

lemma distinct_submset:
  assumes "mset h \<subseteq># mset es" "distinct es"
  shows "distinct h" "x \<in> set es \<Longrightarrow> x \<notin> set h \<Longrightarrow> x \<in># mset es - mset h"
proof -
  have "count (mset h) x \<le> 1" for x
    using assms by (metis distinct_count_atmost_1 le_trans mset_subset_eq_count order_refl zero_le_one)
  then show "distinct h" by (metis count_greater_zero_iff distinct_count_atmost_1 le_antisym nat_le_linear
        count_eq_zero_iff le_zero_eq not_less_eq_eq One_nat_def set_mset_mset)
  show "x \<in># mset es - mset h" if "x \<in> set es" "x \<notin> set h"
    using that by (simp add: in_diff_count) (metis count_eq_zero_iff count_greater_zero_iff set_mset_mset)
qed

lemma top_entries_all2:
  "top_entries shape ts = Some tops \<Longrightarrow>
     list_all2 (\<lambda>e t. flat_index_to_multi (tke_flat_index e) shape = Some (tk_index t) \<and> tk_value t = tke_original_value e) ts tops"
  by (induction ts arbitrary: tops) (auto split: option.splits)

text \<open>The entries chosen, before their positions are converted.\<close>

definition chosen :: "f64_arith \<Rightarrow> f64 list \<Rightarrow> TopKHeapEntry list" where
  "chosen F vs = (let p1 = compute_pass1 F vs in
     snd (snd (compute_pass2 F vs (p1_min p1) (p1_max p1) (min DEFAULT_TOP_K (unat (finite_count p1))))))"

lemma chosen_props:
  fixes F :: f64_arith
  assumes "length vs < 2 ^ 64" "finite_part vs \<noteq> []"
  defines "js \<equiv> map (unat \<circ> tke_flat_index) (chosen F vs)"
  shows "length js = min DEFAULT_TOP_K (length (finite_part vs))" "distinct js"
    "chosen F vs = map (\<lambda>j. stat_entry j (vs ! j)) js" "set js \<subseteq> set (finite_positions vs)"
    "sorted (map (\<lambda>j. - int (ieee_magnitude (vs ! j))) js)"
    "\<And>i j. i \<in> set (finite_positions vs) \<Longrightarrow> i \<notin> set js \<Longrightarrow> j \<in> set js \<Longrightarrow> ieee_magnitude (vs ! i) \<le> ieee_magnitude (vs ! j)"
proof -
  let ?J = "finite_positions vs" and ?E = "\<lambda>j. stat_entry j (vs ! j)"
  let ?es = "map ?E ?J" and ?k = "min DEFAULT_TOP_K (length (finite_part vs))"
  have small: "length (finite_part vs) < 2 ^ 64" using assms(1) length_filter_le [of ieee_finite vs] by linarith
  have k: "unat (finite_count (compute_pass1 F vs)) = length (finite_part vs)"
    using small by (simp add: finite_count_pass1 unsigned_of_nat take_bit_nat_eq_self)
  define h where "h = foldl (\<lambda>h e. heap_step ?k e h) [] ?es"
  have ch: "chosen F vs = sort_key (\<lambda>e. - entry_key e) h"
    using pass2_heap [of F _ _ ?k 0 vs _ "[]"]
    by (simp add: chosen_def compute_pass2_def Let_def k split_beta h_def stat_entries_positions)
  have "list_all entry_ok ?es"
    by (auto simp: list_all_iff entry_ok_def stat_entry_def finite_positions_simps finite_not_nan)
  moreover have "0 < ?k" using assms(2) by (simp add: DEFAULT_TOP_K_def)
  ultimately have g: "holds_greatest ?k ?es h" unfolding h_def by (rule fold_greatest [rotated])
  have idx: "unat (tke_flat_index (?E j)) = j" if "j \<in> set ?J" for j
    using that assms(1) by (intro index_stat_entry) (auto simp: finite_positions_simps)
  have es: "distinct ?es"
    using idx finite_positions_simps(1) [of vs] by (auto simp: distinct_map intro!: inj_onI) metis
  have sub: "mset h \<subseteq># mset ?es" using g by (simp add: holds_greatest_def)
  have dh: "distinct h" using distinct_submset(1) [OF sub es] .
  have mem: "e \<in> set h \<Longrightarrow> \<exists>j \<in> set ?J. e = ?E j" for e using mset_subset_eqD [OF sub, of e] by auto
  have entry: "e = ?E (unat (tke_flat_index e)) \<and> unat (tke_flat_index e) \<in> set ?J" if "e \<in> set h" for e
    using mem [OF that] idx by auto
  show all: "chosen F vs = map ?E js"
  proof -
    have "map (?E \<circ> (unat \<circ> tke_flat_index)) (chosen F vs) = map id (chosen F vs)"
      by (rule map_cong) (use entry in \<open>auto simp: ch\<close>)
    then show ?thesis by (simp add: js_def)
  qed
  show "length js = ?k"
    using g by (simp add: js_def ch holds_greatest_def length_finite_positions)
  show inJ: "set js \<subseteq> set ?J" using entry by (auto simp: js_def ch)
  have "distinct (map ?E js)" using dh all ch by (metis distinct_sort)
  then show "distinct js" by (simp add: distinct_map)
  have key: "entry_key (?E j) = int (ieee_magnitude (vs ! j))" for j by (simp add: stat_entry_def)
  have "sorted (map (\<lambda>e. - entry_key e) (chosen F vs))" unfolding ch by simp
  then show "sorted (map (\<lambda>j. - int (ieee_magnitude (vs ! j))) js)"
    unfolding all by (simp add: comp_def stat_entry_def)
  show "ieee_magnitude (vs ! i) \<le> ieee_magnitude (vs ! j)" if "i \<in> set ?J" "i \<notin> set js" "j \<in> set js" for i j
  proof -
    have "?E i \<notin> set h" using that(1,2) idx [OF that(1)] by (force simp: js_def ch image_iff)
    then have "?E i \<in># mset ?es - mset h" using distinct_submset(2) [OF sub es] that(1) by simp
    moreover have "set h = ?E ` set js" using arg_cong [OF all, of set] by (simp add: ch)
    then have "?E j \<in> set h" using that(3) by blast
    ultimately show ?thesis using g key by (fastforce simp: holds_greatest_def stat_entry_def)
  qed
qed

section \<open>The summary\<close>

lemma length_chunks_exact: "length (chunks_exact n bs) = length bs div n"
  by (simp add: chunks_exact_def)

lemma length_decode_values: "length (decode_values F bs dt) \<le> length bs"
  by (cases dt) (simp_all add: length_chunks_exact)

lemma compute_summary_panics:
  assumes "length bs < 2 ^ 64"
  shows "compute_summary F bs dt shape = None \<longleftrightarrow> finite_part (decode_values F bs dt) \<noteq> [] \<and> 0 \<in> set shape"
proof -
  let ?vs = "decode_values F bs dt"
  have len: "length ?vs < 2 ^ 64" using assms length_decode_values [of F bs dt] by linarith
  then have small: "length (finite_part ?vs) < 2 ^ 64" using length_filter_le [of ieee_finite ?vs] by linarith
  then have zero: "finite_count (compute_pass1 F ?vs) = 0 \<longleftrightarrow> finite_part ?vs = []"
    by (auto simp: finite_count_pass1 word_of_nat_eq_0_iff dest!: dvd_imp_le)
  show ?thesis
  proof (cases "finite_part ?vs = []")
    case True
    then show ?thesis using zero by (simp add: compute_summary_def Let_def)
  next
    case False
    have "chosen F ?vs \<noteq> []"
      using chosen_props(1) [OF len False, of F] False by (auto simp: DEFAULT_TOP_K_def min_def split: if_splits)
    then show ?thesis
      using False zero by (auto simp: compute_summary_def Let_def chosen_def split_beta top_entries_None)
  qed
qed

text \<open>C31: the summary of a tensor is what its data say, however the arithmetic rounds. It is computed unless a
  dimension of the shape is zero although there is a finite element, which panics. Minimum and maximum
  are finite elements that bound all others, the greatest magnitude is attained and bounds them too,
  the histogram counts every finite element exactly once, and the top entries are the ten elements of
  greatest magnitude or all when there are fewer: at distinct positions, with the index of the position
  in the shape, in descending order, no element left out being greater than one reported.
\<close>

theorem tensor_summary_exact:
  fixes F :: f64_arith and bs :: bytes and dt :: dtype
  defines "vs \<equiv> decode_values F bs dt"
  assumes "length bs < 2 ^ 64" "filter ieee_finite vs \<noteq> []"
  shows "(compute_summary F bs dt shape = None \<longleftrightarrow> 0 \<in> set shape) \<and> (0 \<notin> set shape \<longrightarrow>
   (\<exists>stats tops js. compute_summary F bs dt shape = Some (stats, tops) \<and>
    st_min stats \<in> set (filter ieee_finite vs) \<and> st_max stats \<in> set (filter ieee_finite vs) \<and>
    st_abs_max stats \<in> ieee_abs ` set (filter ieee_finite vs) \<and>
    (\<forall>x \<in> set (filter ieee_finite vs). ieee_key (st_min stats) \<le> ieee_key x \<and> ieee_key x \<le> ieee_key (st_max stats) \<and>
       int (ieee_magnitude x) \<le> ieee_key (st_abs_max stats)) \<and>
    length (h_counts (st_histogram stats)) = 64 \<and>
    sum_list (map unat (h_counts (st_histogram stats))) = length (filter ieee_finite vs) \<and>
    length js = min 10 (length (filter ieee_finite vs)) \<and> distinct js \<and>
    list_all2 (\<lambda>j t. j < length vs \<and> ieee_finite (vs ! j) \<and> tk_value t = vs ! j \<and>
       flat_index_to_multi (word_of_nat j) shape = Some (tk_index t)) js tops \<and>
    sorted (map (\<lambda>j. - int (ieee_magnitude (vs ! j))) js) \<and>
    (\<forall>i < length vs. ieee_finite (vs ! i) \<and> i \<notin> set js \<longrightarrow> (\<forall>j \<in> set js. ieee_magnitude (vs ! i) \<le> ieee_magnitude (vs ! j)))))"
proof (cases "0 \<in> set shape")
  case True
  then show ?thesis using compute_summary_panics [OF assms(2), of F dt shape] assms(3) by (simp add: vs_def)
next
  case dims: False
  have len: "length vs < 2 ^ 64" using assms(2) length_decode_values [of F bs dt] unfolding vs_def by linarith
  let ?p1 = "compute_pass1 F vs"
  define js where "js = map (unat \<circ> tke_flat_index) (chosen F vs)"
  note ch = chosen_props [where F = F, OF len assms(3), folded js_def]
  obtain stats tops where sum: "compute_summary F bs dt shape = Some (stats, tops)"
    using compute_summary_panics [OF assms(2), of F dt shape] dims by (cases "compute_summary F bs dt shape") auto
  have ne: "vs \<noteq> []" "finite_count ?p1 \<noteq> 0"
    using assms(3) compute_summary_panics [OF assms(2), of F dt "[0]"] by (auto simp: compute_summary_def Let_def vs_def split: if_splits)
  have stats: "st_min stats = p1_min ?p1" "st_max stats = p1_max ?p1" "st_abs_max stats = p1_abs_max ?p1"
    "h_counts (st_histogram stats) = fst (compute_pass2 F vs (p1_min ?p1) (p1_max ?p1) (min DEFAULT_TOP_K (unat (finite_count ?p1))))"
    and tops: "top_entries shape (chosen F vs) = Some tops"
    using sum ne by (auto simp: compute_summary_def Let_def chosen_def split_beta simp flip: vs_def)
  have hist: "length (h_counts (st_histogram stats)) = 64"
    "sum_list (map unat (h_counts (st_histogram stats))) = length (filter ieee_finite vs)"
    using pass2_counts [of "replicate NUM_HISTOGRAM_BINS 0" vs F "p1_min ?p1" "fa_sub F (p1_max ?p1) (p1_min ?p1)"
        "min DEFAULT_TOP_K (unat (finite_count ?p1))" 0 "[]"]
      le_less_trans [OF length_filter_le len, of ieee_finite]
    by (auto simp: stats(4) compute_pass2_def Let_def split_beta NUM_HISTOGRAM_BINS_def sum_list_replicate)
  have "list_all2 (\<lambda>j t. j < length vs \<and> ieee_finite (vs ! j) \<and> tk_value t = vs ! j \<and>
       flat_index_to_multi (word_of_nat j) shape = Some (tk_index t)) js tops"
    using top_entries_all2 [OF tops] ch(4) unfolding ch(3) list_all2_map1
    by (auto simp: list_all2_conv_all_nth stat_entry_def subset_code(1) finite_positions_simps)
  moreover have "\<forall>i < length vs. ieee_finite (vs ! i) \<and> i \<notin> set js \<longrightarrow> (\<forall>j \<in> set js. ieee_magnitude (vs ! i) \<le> ieee_magnitude (vs ! j))"
    using ch(6) by (auto simp: finite_positions_simps)
  ultimately show ?thesis
    using sum hist ch(1,2,5) pass1_extremes [where F = F and xs = vs] assms(3)
    by (intro conjI impI exI [of _ stats] exI [of _ tops] exI [of _ js]) (auto simp: stats(1-3) DEFAULT_TOP_K_def dims)
qed

definition demo_arith :: f64_arith where
  "demo_arith = \<lparr>fa_add = (+), fa_sub = (-), fa_mul = (*), fa_div = (div), fa_mul_add = \<lambda>x y z. x * y + z, fa_sqrt = id,
     fa_floor = id, fa_of_u64 = id, fa_of_int = word_of_int, fa_to_usize = id, fa_of_f16 = ucast, fa_of_bf16 = ucast, fa_of_f32 = ucast\<rparr>"

theorem tensor_summary_exact_witness:
  "\<exists>stats tops. compute_summary demo_arith [1, 0, 1, 0] DBool [2, 2] = Some (stats, tops) \<and>
     st_min stats \<in> {f64_one, 0} \<and> st_max stats \<in> {f64_one, 0} \<and> length tops = 4 \<and>
     sum_list (map unat (h_counts (st_histogram stats))) = 4"
proof -
  have "filter ieee_finite (decode_values demo_arith [1, 0, 1, 0] DBool) = [f64_one, 0, f64_one, 0]"
    by (simp add: ieee_finite_def ieee_magnitude_def f64_one_def)
  with tensor_summary_exact [of "[1, 0, 1, 0]" demo_arith DBool "[2, 2]"] show ?thesis
    by (auto dest!: list_all2_lengthD)
qed

end
