(* ===== verification/Daemon_Replies.thy ===== *)
theory Daemon_Replies
  imports Daemon_Invariant Tensor_Stats_Exact
begin

text \<open>
  What the client of the daemon sees: every message it sends is answered with one well-formed reply,
  notifications come after the reply of the step that caused them, and the one request that makes the
  daemon panic is an export with no model attached.
\<close>

section \<open>Replies\<close>

text \<open>The shape of a reply. A host's error is passed on as it is.\<close>

abbreviation well_formed_reply :: "'v request \<Rightarrow> 'v response \<Rightarrow> bool" where
  "well_formed_reply \<equiv> reply_with (\<lambda>_. True)"

lemma reply_ok_well_formed: "reply_ok rq r \<Longrightarrow> well_formed_reply rq r"
  by (simp add: reply_with_def)

lemma answers_well_formed: "answers s rq p \<Longrightarrow> well_formed_reply rq (fst p)"
  by (simp add: answers_def reply_with_def)

lemma well_formed_responses [simp]:
  "well_formed_reply rq (Response_error (rq_id rq) er)"
  "well_formed_reply rq (Response_success (rq_id rq) v)"
  "well_formed_reply rq (data_response (rq_id rq) e)"
  "well_formed_reply rq (bare_error (rq_id rq) c m)"
  "well_formed_reply rq (session_error_to_response (rq_id rq) se)"
  "well_formed_reply rq (invalid_params_response (rq_id rq) t)"
  "well_formed_reply rq (finish S (rq_id rq) wrap r)"
  "well_formed_reply rq (serialize_envelope S (rq_id rq) b)"
  "well_formed_reply rq (registry_error_to_response (rq_id rq) re)"
  by (simp_all add: reply_with_def Response_error_def Response_success_def data_response_def bare_error_def
      session_error_to_response_def invalid_params_response_def finish_def serialize_envelope_def
      registry_error_to_response_def Let_def split: sum.split registry_error.split)

lemma handle_inspect_reply: "handle_inspect I S h s rq store co mem = Some p \<Longrightarrow> well_formed_reply rq (fst p)"
  by (auto simp: handle_inspect_def ingest_and_respond_def inspect_slice_def split: sum.splits option.splits
      if_splits prod.splits list.splits store_error.splits)

lemma handle_export_reply: "well_formed_reply rq (fst (handle_export S C X N ex s rq tlog store o1 mh))"
  by (auto simp: handle_export_def collect_env_artifacts_def Let_def split: sum.splits option.splits prod.splits if_splits)

lemma handler_replies:
  "well_formed_reply rq (handle_view S hv s rq)" "well_formed_reply rq (handle_kv_read S hk s rq)"
  "well_formed_reply rq (handle_kv_intervene S hx s rq)" "well_formed_reply rq (handle_unsubscribe S s rq)"
  "well_formed_reply rq (fst (handle_probe S rn s rq g))"
  by (auto simp: handle_view_def handle_kv_read_def handle_kv_intervene_def handle_unsubscribe_def handle_probe_def
      registry_outcome_def probe_success_def Let_def split_beta
      split: sum.splits option.splits if_splits list.splits probe_request.splits)

lemma try_host_reply: "try_host mho rq de call de_resp oo = (Inl r, oo') \<Longrightarrow> well_formed_reply rq r"
  by (auto simp: try_host_def forwarded_def split: option.splits sum.splits prod.splits)

lemma try_replies:
  "try_orchestrator_inspect W ex mho rq oo = (Inl r, oo') \<Longrightarrow> well_formed_reply rq r"
  "try_orchestrator_view W ex mho rq oo = (Inl r, oo') \<Longrightarrow> well_formed_reply rq r"
  "try_orchestrator_kv_read W ex mho rq oo = (Inl r, oo') \<Longrightarrow> well_formed_reply rq r"
  "try_orchestrator_kv_intervene W ex mho rq oo = (Inl r, oo') \<Longrightarrow> well_formed_reply rq r"
  unfolding try_orchestrator_inspect_def try_orchestrator_view_def try_orchestrator_kv_read_def
    try_orchestrator_kv_intervene_def by (erule try_host_reply)+

lemma answer_forwarded_reply:
  "(\<And>r oo'. outcome = (Inl r, oo') \<Longrightarrow> well_formed_reply rq r) \<Longrightarrow> (\<And>h. well_formed_reply rq (reply h))
   \<Longrightarrow> well_formed_reply rq (an_response (fst (answer_forwarded w outcome reply d)))"
  by (auto simp: answer_forwarded_def plain_answer_def split: prod.split sum.split)

lemma answer_replies:
  "well_formed_reply rq (an_response (fst (answer_attach W w rq d)))"
  "well_formed_reply rq (an_response (fst (answer_probe W w rq d)))"
  "answer_inspect W w rq d = Some p \<Longrightarrow> well_formed_reply rq (an_response (fst p))"
  "answer_export W w rq d = Some p \<Longrightarrow> well_formed_reply rq (an_response (fst p))"
proof -
  have attach: "well_formed_reply rq (fst (handle_attach E S b s rq))" for E S b and s :: "'a session"
    by (auto simp: handle_attach_def split: sum.split prod.split)
  show "well_formed_reply rq (an_response (fst (answer_attach W w rq d)))"
    using attach by (auto simp: answer_attach_def plain_answer_def Let_def split_beta split: option.split sum.split)
  show "well_formed_reply rq (an_response (fst (answer_probe W w rq d)))"
    using handler_replies(5) [of rq "cd_serde W" "cd_render W" "d_session d" "d_registry d"]
    by (simp add: answer_probe_def plain_answer_def split_beta)
  show "answer_inspect W w rq d = Some p \<Longrightarrow> well_formed_reply rq (an_response (fst p))"
    by (auto simp: answer_inspect_def plain_answer_def try_replies split: prod.splits sum.splits option.splits
        dest: handle_inspect_reply)
  show "answer_export W w rq d = Some p \<Longrightarrow> well_formed_reply rq (an_response (fst p))"
    using handle_export_reply [of rq]
    by (auto simp: answer_export_def plain_answer_def split_beta split: option.splits)
qed

lemma session_replies:
  assumes wf: "session_wf (d_session d)"
  shows "well_formed_reply rq (an_response (fst (answer_step W w rq d)))"
    "well_formed_reply rq (an_response (fst (answer_checkpoint W w rq d)))"
proof -
  have s1: "session_wf (fst (snd (try_backward_step W (wd_exchange w) (d_model_handle d) (d_session d) (d_orchestrator d))))"
    using backward_session(1) wf by blast
  show "well_formed_reply rq (an_response (fst (answer_step W w rq d)))"
    using step_answers [OF s1, THEN answers_well_formed, of rq] step_answers [OF wf, THEN answers_well_formed, of rq]
    by (auto simp: answer_step_def plain_answer_def split_beta split: option.split)
  show "well_formed_reply rq (an_response (fst (answer_checkpoint W w rq d)))"
    using checkpoint_answers [OF wf, THEN answers_well_formed, of rq]
    by (simp add: answer_checkpoint_def plain_answer_def reply_part_def split_beta)
qed

lemma daemon_answer_reply:
  assumes wf: "session_wf (d_session d)" and ans: "daemon_answer W w rq d = Some p"
  shows "well_formed_reply rq (an_response (fst p))"
proof -
  have views: "well_formed_reply rq (an_response (fst (answer_forwarded w
        (try_orchestrator_view W (wd_exchange w) (d_model_handle d) rq (d_orchestrator d))
        (\<lambda>hr. handle_view (cd_serde W) hr (d_session d) rq) d)))"
    "well_formed_reply rq (an_response (fst (answer_forwarded w
        (try_orchestrator_kv_read W (wd_exchange w) (d_model_handle d) rq (d_orchestrator d))
        (\<lambda>hr. handle_kv_read (cd_serde W) hr (d_session d) rq) d)))"
    "well_formed_reply rq (an_response (fst (answer_forwarded w
        (try_orchestrator_kv_intervene W (wd_exchange w) (d_model_handle d) rq (d_orchestrator d))
        (\<lambda>hr. handle_kv_intervene (cd_serde W) hr (d_session d) rq) d)))"
    by (rule answer_forwarded_reply; simp add: handler_replies try_replies)+
  have partial: "answer_inspect W w rq d = Some p \<Longrightarrow> well_formed_reply rq (an_response (fst p))"
    "answer_export W w rq d = Some p \<Longrightarrow> well_formed_reply rq (an_response (fst p))"
    by (rule answer_replies; assumption)+
  note handlers = subscribe_answers [OF wf, THEN answers_well_formed] replay_answers [OF wf, THEN answers_well_formed]
    dispatch_answers [OF wf, THEN answers_well_formed]
  show ?thesis
    using ans partial unfolding daemon_answer_def Let_def split_beta
    by (auto simp: answer_replies(1,2) session_replies [OF wf] views handler_replies handlers plain_answer_def
        split: if_split_asm)
qed

section \<open>Panics\<close>

text \<open>An inspection during which the daemon meets a tensor, reported or stored, with a dimension of zero.\<close>

definition fatal_inspect :: "'v codec \<Rightarrow> 'v world \<Rightarrow> 'v request \<Rightarrow> 'v daemon \<Rightarrow> bool" where
  "fatal_inspect W w rq d \<longleftrightarrow> rq_method rq = m_INSPECT \<and>
     (\<exists>hr oo. try_orchestrator_inspect W (wd_exchange w) (d_model_handle d) rq (d_orchestrator d) = (Inr (Some hr), oo) \<and>
        zero_dimension (hi_tensors hr) (d_store d))"

lemma answer_inspect_None: "answer_inspect W w rq d = None \<Longrightarrow> rq_method rq = m_INSPECT \<Longrightarrow> fatal_inspect W w rq d"
  by (auto simp: answer_inspect_def fatal_inspect_def dest: handle_inspect_None split: prod.splits sum.splits option.splits)

lemma daemon_answer_export:
  "rq_method rq = m_SESSION_EXPORT \<Longrightarrow> daemon_answer W w rq d = answer_export W w rq d"
  by (simp add: daemon_answer_def Let_def m_SESSION_EXPORT_def m_ATTACH_def m_STEP_def m_INSPECT_def
      m_VIEW_def m_KV_READ_def m_KV_INTERVENE_def m_PROBE_def m_SUBSCRIBE_def m_UNSUBSCRIBE_def)

lemma daemon_answer_partial:
  "daemon_answer W w rq d = None \<Longrightarrow> rq_method rq = m_SESSION_EXPORT \<or> rq_method rq = m_INSPECT \<and> answer_inspect W w rq d = None"
  unfolding daemon_answer_def Let_def split_beta by (auto split: if_splits)

lemma daemon_answer_export_None:
  "rq_method rq = m_SESSION_EXPORT \<Longrightarrow>
     daemon_answer W w rq d = None \<longleftrightarrow> d_orchestrator d = None \<or> d_model_handle d = None"
  by (auto simp: daemon_answer_export answer_export_def split_beta split: option.splits)

lemma daemon_answer_None:
  "daemon_answer W w rq d = None \<Longrightarrow>
     rq_method rq = m_SESSION_EXPORT \<and> (d_orchestrator d = None \<or> d_model_handle d = None) \<or> fatal_inspect W w rq d"
  using daemon_answer_partial [of W w rq d] daemon_answer_export_None [of rq W w d] answer_inspect_None [of W w rq d] by metis

lemma codec_total_simps:
  assumes "codec_total W"
  shows "cd_probe_fired W e \<noteq> Inl x" "cd_tick_stopped W ts \<noteq> Inl x" "cd_heartbeat W hb \<noteq> Inl x"
    "cd_response W r \<noteq> Inl x"
  using assms unfolding codec_total_def by (metis Inl_Inr_False)+

lemma notify_probes_total: "codec_total W \<Longrightarrow> notify_probes W w es d \<noteq> None"
  by (induction W w es d rule: notify_probes.induct)
    (simp_all add: codec_total_simps del: not_None_eq split: sum.split prod.split bool.split)

text \<open>
  A step whose outcome does not fit the identifiers of the trace: the position it stopped at, or a rank
  on which a probe fired.
\<close>

definition untraceable :: "'v answer \<Rightarrow> 'v daemon \<Rightarrow> bool" where
  "untraceable a d \<longleftrightarrow> d_perfetto d \<noteq> None
     \<and> ((\<exists>pos. ss_position (s_state (d_session d)) = Some pos \<and> \<not> traceable_position pos)
       \<or> (\<exists>hr. an_step a = Some hr \<and> (\<exists>e \<in> set (hs_events hr). \<not> fe_rank e \<le> 0xFFF)))"

lemma notify_frame [simp]:
  "d_session (snd (notify W w m v d)) = d_session d" "d_perfetto (snd (notify W w m v d)) = d_perfetto d"
  by (simp_all add: notify_def split: option.split prod.split)

lemma notify_probes_perfetto: "notify_probes W w es d = Some d1 \<Longrightarrow> d_perfetto d1 = d_perfetto d"
proof (induction es arbitrary: d)
  case (Cons e es)
  then obtain v where v: "cd_probe_fired W e = Inr v" by (auto split: sum.splits)
  then show ?case using Cons.prems Cons.IH [of "snd (notify W w ev_PROBE_FIRED v d)"]
    by (auto simp: split_beta split: bool.splits prod.splits)
qed simp

lemma trace_tick_None:
  "traces_ok (d_perfetto d) ts \<Longrightarrow> trace_tick w d = None \<Longrightarrow>
     d_perfetto d \<noteq> None \<and> (\<exists>pos. ss_position (s_state (d_session d)) = Some pos \<and> \<not> traceable_position pos)"
  by (auto simp: trace_tick_def traces_ok_def on_tick_stopped_comps(2) split: option.splits)

lemma trace_tick_perfetto:
  "trace_tick w d = Some d1 \<Longrightarrow> (d_perfetto d1 = None \<longleftrightarrow> d_perfetto d = None)
     \<and> (traces_ok (d_perfetto d) ts \<longrightarrow> traces_ok (d_perfetto d1) ts)"
  by (auto simp: trace_tick_def traces_ok_def split: option.splits dest: on_tick_stopped_comps(1) events_silent(1))

lemma probe_all_None: "comps_ok ps \<Longrightarrow> probe_all io now es ps = None \<Longrightarrow> \<exists>e \<in> set es. \<not> fe_rank e \<le> 0xFFF"
proof (induction es arbitrary: ps)
  case (Cons e es)
  show ?case
  proof (cases "on_probe_fired io now e ps")
    case None
    then show ?thesis using on_probe_fired_comps(2) [OF Cons.prems(1)] by auto
  next
    case (Some p)
    then show ?thesis
      using Cons.IH [of "snd p"] on_probe_fired_comps(1) [OF Cons.prems(1)] Cons.prems(2) by (cases p) auto
  qed
qed simp

lemma trace_probes_None:
  "traces_ok (d_perfetto d) ts \<Longrightarrow> trace_probes w es d = None \<Longrightarrow> d_perfetto d \<noteq> None \<and> (\<exists>e \<in> set es. \<not> fe_rank e \<le> 0xFFF)"
  by (auto simp: trace_probes_def traces_ok_def dest: probe_all_None split: option.splits)

lemma notify_step_None:
  assumes total: "codec_total W" and ok: "traces_ok (d_perfetto d) ts" and n: "notify_step W w rq a d = None"
  shows "d_events_enabled d \<and> step_succeeded rq (an_response a) \<and> untraceable a d"
proof -
  have True: "d_events_enabled d \<and> step_succeeded rq (an_response a)"
    using n by (auto simp: notify_step_def split: if_splits)
  obtain v where v: "cd_tick_stopped W \<lparr>ts_position = current_position d, ts_state = ss_status (s_state (d_session d))\<rparr> = Inr v"
    using total unfolding codec_total_def by blast
  define e where "e = snd (notify W w ev_TICK_STOPPED v d)"
  have sent: "fst (notify W w ev_TICK_STOPPED v d)"
    using n by (auto simp: notify_step_conv [OF True v] Let_def split: if_splits)
  show ?thesis
  proof (cases "trace_tick w e")
    case None
    then show ?thesis using trace_tick_None [of e ts w] ok True by (simp add: e_def untraceable_def)
  next
    case (Some e2)
    then obtain hr where hr: "an_step a = Some hr"
      "Option.bind (notify_probes W w (hs_events hr) e2) (trace_probes w (hs_events hr)) = None"
      using n sent by (cases "an_step a") (simp_all add: notify_step_conv [OF True v] e_def [symmetric] Let_def)
    then obtain e3 where e3: "notify_probes W w (hs_events hr) e2 = Some e3" "trace_probes w (hs_events hr) e3 = None"
      using notify_probes_total [OF total, of w "hs_events hr" e2] by auto
    have e2: "d_perfetto e2 = None \<longleftrightarrow> d_perfetto d = None" "traces_ok (d_perfetto e2) ts"
      using trace_tick_perfetto [OF Some] ok by (simp_all add: e_def)
    then show ?thesis
      using trace_probes_None [of e3 ts w "hs_events hr"] e3 notify_probes_perfetto [OF e3(1)] hr(1) True
      by (auto simp: untraceable_def)
  qed
qed

lemma daemon_heartbeat_total: "codec_total W \<Longrightarrow> daemon_heartbeat W w up st d \<noteq> None"
  by (simp add: daemon_heartbeat_def codec_total_simps del: not_None_eq split: sum.split prod.split bool.split)

text \<open>The step request that can bring the daemon down, and the export request that always does.\<close>

definition fatal_step :: "'v codec \<Rightarrow> 'v world \<Rightarrow> 'v request \<Rightarrow> 'v daemon \<Rightarrow> bool" where
  "fatal_step W w rq d \<longleftrightarrow> rq_method rq = m_STEP \<and> d_events_enabled d
     \<and> (case answer_step W w rq d of (a, d1) \<Rightarrow> rs_error (an_response a) = None \<and> untraceable a d1)"

definition fatal_export :: "'v request \<Rightarrow> 'v daemon \<Rightarrow> bool" where
  "fatal_export rq d \<longleftrightarrow> rq_method rq = m_SESSION_EXPORT \<and> \<not> stopped (d_session d)"

lemma answer_step_trace:
  "answer_step W w rq (d\<lparr>d_trace := t\<rparr>) = (fst (answer_step W w rq d), (snd (answer_step W w rq d))\<lparr>d_trace := t\<rparr>)"
  by (simp add: answer_step_def split_beta split: option.split)

lemma answer_step_events: "d_events_enabled (snd (answer_step W w rq d)) = d_events_enabled d"
  by (simp add: answer_step_def split_beta split: option.split)

lemma daemon_message_fatal:
  assumes total: "codec_total W" and inv: "daemon_inv d" and none: "daemon_message W w raw d = None"
  shows "\<exists>rq. cd_request W raw = Inr rq \<and> (fatal_export rq d \<or> fatal_step W w rq d \<or> fatal_inspect W w rq d)"
proof -
  define t where "t = trace_record (wd_now_in w) Inbound raw (d_trace d)"
  let ?d = "d\<lparr>d_trace := t\<rparr>"
  have d: "daemon_inv ?d" using same_link_inv [OF _ inv] by simp
  obtain rq where rq: "cd_request W raw = Inr rq"
    using none by (auto simp: daemon_message_def Let_def split: sum.splits)
  show ?thesis
  proof (cases "daemon_answer W w rq ?d")
    case None
    have "fatal_inspect W w rq ?d = fatal_inspect W w rq d" by (simp add: fatal_inspect_def)
    then show ?thesis using daemon_answer_None [OF None] rq inv by (auto simp: daemon_inv_def fatal_export_def)
  next
    case (Some p)
    obtain a d1 where p: "p = (a, d1)" by (cases p)
    obtain json where json: "cd_response W (an_response a) = Inr json" using total unfolding codec_total_def by blast
    define d2 where "d2 = release_model W w rq (an_response a) (commit_attachment W w (an_attach a) d1)"
    define d3 where "d3 = write_client w json d2"
    have d3: "daemon_inv d3"
      unfolding d3_def d2_def by (rule same_link_inv [OF write_client_link answered_inv [OF total d Some [unfolded p]]])
    have "notify_step W w rq a d3 = None"
      using none rq Some p json
      by (auto simp: daemon_message_def Let_def t_def [symmetric] d2_def [symmetric] d3_def [symmetric] split: if_splits option.splits)
    then have fatal: "d_events_enabled d3" "step_succeeded rq (an_response a)" "untraceable a d3"
      using notify_step_None [OF total, of d3 "d_traces d3" w rq a] d3 by (auto simp: daemon_inv_def)
    have step: "rq_method rq = m_STEP" "rs_error (an_response a) = None" using fatal(2) by (auto simp: step_succeeded_def)
    have ans: "answer_step W w rq ?d = (a, d1)"
      using Some p step by (simp add: daemon_answer_def m_STEP_def m_ATTACH_def)
    then have "an_attach a = None" using no_attach(1) [of W w rq ?d] by simp
    then have "d2 = d1" using step by (simp add: d2_def commit_attachment_def release_model_def m_STEP_def m_DETACH_def)
    then have same: "d_session d3 = d_session d1" "d_perfetto d3 = d_perfetto d1" "d_events_enabled d3 = d_events_enabled d1"
      by (simp_all add: d3_def write_client_def Let_def)
    obtain d1' where d1': "answer_step W w rq d = (a, d1')" "d1 = d1'\<lparr>d_trace := t\<rparr>"
      using ans by (simp add: answer_step_trace) (metis prod.collapse)
    have "untraceable a d1'" "d_events_enabled d"
      using fatal same d1' answer_step_events [of W w rq d] by (simp_all add: untraceable_def)
    then show ?thesis using rq step d1'(1) by (simp add: fatal_step_def)
  qed
qed

lemma daemon_message_export:
  assumes "daemon_inv d" "cd_request W raw = Inr rq" "fatal_export rq d"
  shows "daemon_message W w raw d = None"
proof -
  have "daemon_answer W w rq (d\<lparr>d_trace := t\<rparr>) = None" for t
    using assms(1,3) daemon_answer_export_None [of rq W w "d\<lparr>d_trace := t\<rparr>"] by (simp add: daemon_inv_def fatal_export_def)
  then show ?thesis by (simp add: daemon_message_def assms(2) Let_def)
qed

lemma daemon_step_fatal:
  assumes "codec_total W" "daemon_inv d" "daemon_step W we d = None"
  shows "\<exists>w raw rq. we = (w, Client raw) \<and> d_running d \<and> cd_request W raw = Inr rq
    \<and> (fatal_export rq d \<or> fatal_step W w rq d \<or> fatal_inspect W w rq d)"
  using assms(3) daemon_message_fatal [OF assms(1,2)] daemon_heartbeat_total [OF assms(1), of "fst we" _ _ d]
  by (auto simp: daemon_step_def simp del: not_None_eq split: prod.splits loop_event.splits if_splits)

section \<open>What the client reads\<close>

text \<open>
  What a part of an iteration sends: notifications of events, numbered from the sequence number in
  force. The events of a step are at most one stopped tick, followed by fired probes.
\<close>

definition notifies :: "'v codec \<Rightarrow> (string \<times> 'v) list \<Rightarrow> 'v daemon \<Rightarrow> 'v daemon \<Rightarrow> bool" where
  "notifies W evs d d1 \<longleftrightarrow>
     d_out d1 = d_out d @ concat (map write_message (number_from (cd_events W) (d_seq d) evs)) \<and>
     d_seq d1 = d_seq d + word_of_nat (length evs)"

definition step_events :: "'v codec \<Rightarrow> (string \<times> 'v) list \<Rightarrow> bool" where
  "step_events W evs \<longleftrightarrow> (\<exists>ts ps. evs = map (Pair ev_TICK_STOPPED) ts @ map (Pair ev_PROBE_FIRED) ps \<and> length ts \<le> 1 \<and>
     (\<forall>v \<in> set ts. \<exists>e. cd_tick_stopped W e = Inr v) \<and> (\<forall>v \<in> set ps. \<exists>e. cd_probe_fired W e = Inr v))"

lemma notifies_same: "d_out d1 = d_out d \<Longrightarrow> d_seq d1 = d_seq d \<Longrightarrow> notifies W [] d d1"
  by (simp add: notifies_def)

lemma number_from_append:
  "number_from J n (xs @ ys) = number_from J n xs @ number_from J (n + word_of_nat (length xs)) ys"
  by (induction xs arbitrary: n) (simp_all add: algebra_simps)

lemma notifies_trans: "notifies W xs d d1 \<Longrightarrow> notifies W ys d1 d2 \<Longrightarrow> notifies W (xs @ ys) d d2"
  by (simp add: notifies_def number_from_append)

lemma notify_notifies: "\<exists>vs. notifies W (map (Pair m) vs) d (snd (notify W w m v d)) \<and> length vs \<le> 1 \<and> set vs \<subseteq> {v}"
proof (cases "event_matches_filter (cd_events W) (s_event_filter (d_session d)) m v \<and> fst (notify W w m v d)")
  case True
  then have "notifies W [(m, v)] d (snd (notify W w m v d))"
    by (auto simp: notify_def send_notification_filtered_def send_notification_def notifies_def numbered_def Let_def split: if_splits)
  then show ?thesis by (intro exI [of _ "[v]"]) simp
next
  case False
  then have "notifies W [] d (snd (notify W w m v d))"
    by (auto simp: notify_def send_notification_filtered_def send_notification_def notifies_def Let_def split: if_splits)
  then show ?thesis by (intro exI [of _ "[]"]) simp
qed

lemma notify_probes_notifies:
  "notify_probes W w es d = Some d1 \<Longrightarrow>
     \<exists>ps. notifies W (map (Pair ev_PROBE_FIRED) ps) d d1 \<and> (\<forall>v \<in> set ps. \<exists>e. cd_probe_fired W e = Inr v)"
proof (induction es arbitrary: d)
  case Nil
  then show ?case by (intro exI [of _ "[]"]) (simp add: notifies_def)
next
  case (Cons e es)
  then obtain v b d2 where v: "cd_probe_fired W e = Inr v" and n: "notify W w ev_PROBE_FIRED v d = (b, d2)"
    by (auto split: sum.splits prod.splits)
  obtain vs where vs: "notifies W (map (Pair ev_PROBE_FIRED) vs) d d2" "set vs \<subseteq> {v}"
    using notify_notifies [of W ev_PROBE_FIRED d w v] n by auto
  obtain ps where "notifies W (map (Pair ev_PROBE_FIRED) ps) d2 d1" "\<forall>v \<in> set ps. \<exists>e. cd_probe_fired W e = Inr v"
  proof (cases b)
    case True
    then show ?thesis using Cons.IH [of d2] Cons.prems v n that by auto
  next
    case False
    then show ?thesis using Cons.prems v n that [of "[]"] by (simp add: notifies_def)
  qed
  with vs v show ?case by (intro exI [of _ "vs @ ps"]) (auto dest: notifies_trans)
qed

lemma trace_probes_frame: "trace_probes w es d = Some d1 \<Longrightarrow> d_out d1 = d_out d \<and> d_seq d1 = d_seq d"
  by (auto simp: trace_probes_def split: option.splits)

lemma trace_tick_frame: "trace_tick w d = Some d1 \<Longrightarrow> d_out d1 = d_out d \<and> d_seq d1 = d_seq d"
  by (auto simp: trace_tick_def split: option.splits)

lemma notify_step_notifies:
  assumes "notify_step W w rq a d = Some d1"
  shows "\<exists>evs. notifies W evs d d1 \<and> step_events W evs \<and> (evs \<noteq> [] \<longrightarrow> d_events_enabled d \<and> step_succeeded rq (an_response a))"
proof (cases "d_events_enabled d \<and> step_succeeded rq (an_response a)")
  case True
  then obtain v where v: "cd_tick_stopped W \<lparr>ts_position = current_position d, ts_state = ss_status (s_state (d_session d))\<rparr> = Inr v"
    using assms by (auto simp: notify_step_def split: sum.splits)
  define e where "e = snd (notify W w ev_TICK_STOPPED v d)"
  obtain ts where ts: "notifies W (map (Pair ev_TICK_STOPPED) ts) d e" "length ts \<le> 1" "set ts \<subseteq> {v}"
    using notify_notifies [of W ev_TICK_STOPPED d w v] by (auto simp: e_def)
  have "\<exists>ps. notifies W (map (Pair ev_PROBE_FIRED) ps) e d1 \<and> (\<forall>v \<in> set ps. \<exists>e. cd_probe_fired W e = Inr v)"
  proof (cases "fst (notify W w ev_TICK_STOPPED v d)")
    case sent: True
    obtain e2 where e2: "trace_tick w e = Some e2" "(case an_step a of None \<Rightarrow> Some e2
        | Some hr \<Rightarrow> Option.bind (notify_probes W w (hs_events hr) e2) (trace_probes w (hs_events hr))) = Some d1"
      using assms sent by (cases "trace_tick w e") (simp_all add: notify_step_conv [OF True v] e_def [symmetric] Let_def)
    note frame = trace_tick_frame [OF e2(1)]
    show ?thesis
    proof (cases "an_step a")
      case None
      then show ?thesis using e2(2) frame by (intro exI [of _ "[]"]) (simp add: notifies_def)
    next
      case (Some hr)
      then obtain e3 where e3: "notify_probes W w (hs_events hr) e2 = Some e3" "trace_probes w (hs_events hr) e3 = Some d1"
        using e2(2) by (cases "notify_probes W w (hs_events hr) e2") auto
      show ?thesis
        using notify_probes_notifies [OF e3(1)] trace_probes_frame [OF e3(2)] frame by (simp add: notifies_def)
    qed
  next
    case False
    then have "d_out d1 = d_out e \<and> d_seq d1 = d_seq e" using assms by (auto simp: notify_step_conv [OF True v] e_def Let_def)
    then show ?thesis by (intro exI [of _ "[]"]) (simp add: notifies_def)
  qed
  then obtain ps where ps: "notifies W (map (Pair ev_PROBE_FIRED) ps) e d1" "\<forall>v \<in> set ps. \<exists>e. cd_probe_fired W e = Inr v" by blast
  have "step_events W (map (Pair ev_TICK_STOPPED) ts @ map (Pair ev_PROBE_FIRED) ps)"
    unfolding step_events_def using ts(2,3) ps(2) v by blast
  with notifies_trans [OF ts(1) ps(1)] show ?thesis using True by blast
next
  case False
  then have "d1 = d" using assms by (auto simp: notify_step_def split: if_splits)
  moreover have "step_events W []" by (simp add: step_events_def)
  ultimately show ?thesis by (intro exI [of _ "[]"]) (simp add: notifies_def)
qed

lemma auto_checkpoint_seq: "d_seq (auto_checkpoint W w rq a d) = d_seq d"
  by (auto simp: auto_checkpoint_def Let_def split: option.split prod.split sum.split)

lemma auto_checkpoint_out: "d_out (auto_checkpoint W w rq a d) = d_out d"
  by (auto simp: auto_checkpoint_def Let_def split: option.split prod.split sum.split)

lemma answered_out:
  assumes "daemon_answer W w rq d = Some (a, d1)"
  shows "d_out (release_model W w rq r (commit_attachment W w c d1)) = d_out d"
    "rq_method rq = m_STEP \<Longrightarrow> d_events_enabled (release_model W w rq r (commit_attachment W w c d1)) = d_events_enabled d"
proof -
  have parts: "d_out (snd (answer_attach W w rq d)) = d_out d" "d_out (snd (answer_step W w rq d)) = d_out d"
    "d_events_enabled (snd (answer_step W w rq d)) = d_events_enabled d"
    "answer_inspect W w rq d = Some (a, d1) \<Longrightarrow> d_out d1 = d_out d"
    "answer_export W w rq d = Some (a, d1) \<Longrightarrow> d_out d1 = d_out d"
    "d_out (snd (answer_probe W w rq d)) = d_out d" "d_out (snd (answer_checkpoint W w rq d)) = d_out d"
    "d_out (snd (answer_forwarded w outcome reply d)) = d_out d" for outcome reply
    by (auto simp: answer_attach_def answer_step_def answer_inspect_def answer_export_def answer_probe_def
        answer_checkpoint_def answer_forwarded_def Let_def split_beta split: option.splits sum.splits prod.splits)
  have frame: "d_out (release_model W w rq r (commit_attachment W w c e)) = d_out e"
    "d_events_enabled (release_model W w rq r (commit_attachment W w c e)) = d_events_enabled e" for e
    by (auto simp: release_model_def commit_attachment_def split_beta split: option.split)
  have "d_out d1 = d_out d"
    using assms parts(4,5) unfolding daemon_answer_def Let_def split_beta
    by (auto simp: parts(1,2,6-8) dest!: arg_cong [of _ "(a, d1)" snd] split: if_split_asm)
  then show "d_out (release_model W w rq r (commit_attachment W w c d1)) = d_out d" by (simp add: frame)
  assume "rq_method rq = m_STEP"
  then have "d1 = snd (answer_step W w rq d)"
    using assms by (simp add: daemon_answer_def m_STEP_def m_ATTACH_def)
  then show "d_events_enabled (release_model W w rq r (commit_attachment W w c d1)) = d_events_enabled d"
    by (simp add: frame parts)
qed

lemma answered_seq:
  assumes "daemon_answer W w rq d = Some (a, d1)"
  shows "d_seq (release_model W w rq r (commit_attachment W w c d1)) = d_seq d"
proof -
  have parts: "d_seq (snd (answer_attach W w rq d)) = d_seq d" "d_seq (snd (answer_step W w rq d)) = d_seq d"
    "answer_inspect W w rq d = Some (a, d1) \<Longrightarrow> d_seq d1 = d_seq d"
    "answer_export W w rq d = Some (a, d1) \<Longrightarrow> d_seq d1 = d_seq d"
    "d_seq (snd (answer_probe W w rq d)) = d_seq d" "d_seq (snd (answer_checkpoint W w rq d)) = d_seq d"
    "d_seq (snd (answer_forwarded w outcome reply d)) = d_seq d" for outcome reply
    by (auto simp: answer_attach_def answer_step_def answer_inspect_def answer_export_def answer_probe_def
        answer_checkpoint_def answer_forwarded_def Let_def split_beta split: option.splits sum.splits prod.splits)
  have "d_seq d1 = d_seq d"
    using assms parts(3,4) unfolding daemon_answer_def Let_def split_beta
    by (auto simp: parts(1,2,5-7) dest!: arg_cong [of _ "(a, d1)" snd] split: if_split_asm)
  then show ?thesis by (auto simp: release_model_def commit_attachment_def close_trace_def split_beta split: option.split)
qed

lemma daemon_message_sends:
  assumes wf: "session_wf (d_session d)" and rq: "cd_request W raw = Inr rq"
    and run: "daemon_message W w raw d = Some d'" and acc: "\<forall>m. wd_accepts w m"
  shows "\<exists>r json evs. well_formed_reply rq r \<and> cd_response W r = Inr json \<and>
    d_out d' = d_out d @ concat (map write_message (json # number_from (cd_events W) (d_seq d) evs)) \<and>
    d_seq d' = d_seq d + word_of_nat (length evs) \<and> step_events W evs \<and> (evs \<noteq> [] \<longrightarrow> d_events_enabled d \<and> step_succeeded rq r)"
proof -
  let ?d = "d\<lparr>d_trace := trace_record (wd_now_in w) Inbound raw (d_trace d)\<rparr>"
  obtain a d1 json where ans: "daemon_answer W w rq ?d = Some (a, d1)" and j: "cd_response W (an_response a) = Inr json"
    using run rq by (auto simp: daemon_message_def Let_def split: option.splits sum.splits)
  define d2 where "d2 = release_model W w rq (an_response a) (commit_attachment W w (an_attach a) d1)"
  let ?d3 = "write_client w json d2"
  have d2: "d_out d2 = d_out d" "d_seq d2 = d_seq d" "rq_method rq = m_STEP \<Longrightarrow> d_events_enabled d2 = d_events_enabled d"
    using answered_out [OF ans] answered_seq [OF ans] by (simp_all add: d2_def)
  have d3: "d_out ?d3 = d_out d @ write_message json" "d_seq ?d3 = d_seq d" "d_events_enabled ?d3 = d_events_enabled d2"
    using acc d2(1,2) by (simp_all add: write_client_def Let_def)
  have "\<exists>evs. notifies W evs ?d3 d' \<and> step_events W evs \<and> (evs \<noteq> [] \<longrightarrow> d_events_enabled d2 \<and> step_succeeded rq (an_response a))"
  proof (cases "d_running ?d3")
    case True
    then obtain d4 where d4: "notify_step W w rq a ?d3 = Some d4" "d_out d' = d_out d4" "d_seq d' = d_seq d4"
      using run rq ans j by (auto simp: daemon_message_def Let_def d2_def [symmetric] auto_checkpoint_out auto_checkpoint_seq
          split: option.splits if_splits)
    then show ?thesis using notify_step_notifies [OF d4(1)] d3(3) by (simp add: notifies_def)
  next
    case False
    then have "d' = ?d3" using run rq ans j by (simp add: daemon_message_def Let_def d2_def)
    moreover have "step_events W []" by (simp add: step_events_def)
    ultimately show ?thesis by (intro exI [of _ "[]"]) (simp add: notifies_def)
  qed
  then obtain evs where "notifies W evs ?d3 d'" "step_events W evs"
    "evs \<noteq> [] \<longrightarrow> d_events_enabled d2 \<and> step_succeeded rq (an_response a)" by blast
  moreover have "well_formed_reply rq (an_response a)"
    using daemon_answer_reply [of ?d W w rq, OF _ ans] wf by simp
  ultimately show ?thesis using j d2(3) d3 by (intro exI [of _ "an_response a"] exI [of _ json] exI [of _ evs])
      (auto simp: notifies_def step_succeeded_def)
qed

section \<open>Properties\<close>

text \<open>
  A concrete surrounding: a client message is its method name, every message serializes, the binaries are
  found and the orchestrator answers every request with an empty object.
\<close>

definition demo_codec :: "unit codec" where
  "demo_codec = \<lparr>cd_serde = demo_serde, 
     cd_host = \<lparr>hc_is_null = (\<lambda>_. False), hc_attach = (\<lambda>_. Ok ()), hc_detach = (\<lambda>_. Ok ()), hc_step = (\<lambda>_. Ok ()),
        hc_inspect = (\<lambda>_. Ok ()), hc_view = (\<lambda>_. Ok ()), hc_kv_read = (\<lambda>_. Ok ()), hc_kv_intervene = (\<lambda>_. Ok ()),
        hc_update_probes = (\<lambda>_. Ok ()), hc_export_env = (\<lambda>_. Ok ()), hc_checkpoint = (\<lambda>_. Ok ()),
        hc_replay = (\<lambda>_. Ok ()), hd_attach = (\<lambda>_. Err ''no''), hd_step = (\<lambda>_. Err ''no''), hd_inspect = (\<lambda>_. Err ''no''),
        hd_view = (\<lambda>_. Err ''no''), hd_kv_read = (\<lambda>_. Err ''no''), hd_kv_intervene = (\<lambda>_. Err ''no''),
        hd_update_probes = (\<lambda>_. Ok 0), hd_export_env = (\<lambda>_. Err ''no''), hd_checkpoint = (\<lambda>_. Err ''no''),
        hd_replay = (\<lambda>_. Err ''no'')\<rparr>,
     cd_export = \<lparr>xc_request = (\<lambda>_. Err ''no''), xc_manifest = (\<lambda>_ _ _. Ok []), xc_interventions = (\<lambda>_. Ok []), xc_trace_line = (\<lambda>_ _ _. []),
        xc_value = (\<lambda>_. Ok []), xc_bookmarks = (\<lambda>_. Ok []), xc_worldline = (\<lambda>_. Ok []), xc_meta = (\<lambda>_. Ok []),
        xc_response = (\<lambda>_. Ok ())\<rparr>,
     cd_events = \<lparr>ej_index = (\<lambda>_ _. ()), ej_u64 = (\<lambda>_. None), ej_str = (\<lambda>_. None), ej_set_seq = (\<lambda>_ _. ()),
        ej_is_null = (\<lambda>_. False), ej_text = (\<lambda>n. nt_method n)\<rparr>,
     cd_request = (\<lambda>raw. Ok (demo_request raw)), cd_response = (\<lambda>r. Ok ''reply''), cd_parse_error = (\<lambda>e. e),
     cd_tick_stopped = (\<lambda>_. Ok ()), cd_heartbeat = (\<lambda>_. Ok ()), cd_probe_fired = (\<lambda>_. Ok ()),
     cd_render = (\<lambda>e. \<lparr>pe_message = e, pe_offset = 0\<rparr>),
     cd_f64 = \<lparr>f64_of_u64 = (\<lambda>_. 0), f64_add = (\<lambda>_ _. 0), f64_div = (\<lambda>_ _. 0), f64_min = (\<lambda>_ _. 0), f64_lt = (\<lambda>_ _. False)\<rparr>, cd_layers = (\<lambda>_. [])\<rparr>"

definition demo_world :: "unit world" where
  "demo_world = \<lparr>wd_call = demo_env, wd_auto_uuid = ''u'',
     wd_exchange = (\<lambda>rq. Ok (Response_success (rq_id rq) ())), wd_bins = True, wd_spawn = Ok (),
     wd_open_ring = (\<lambda>_. None), wd_accepts = (\<lambda>_. True),
     wd_ingest = \<lparr>ie_io = (\<lambda>_. []), ie_hash = (\<lambda>_. []),
        ie_arith = demo_arith,
        ie_decode = (\<lambda>_. Err ''no''), ie_encode = (\<lambda>_. [])\<rparr>,
     wd_mem = [], wd_export = \<lparr>xn_perfetto = None, xn_assemble = (\<lambda>_ _. Ok 0)\<rparr>, wd_now_in = 0, wd_now_out = 1,
     wd_pid = 1, wd_trace_created = True, wd_trace_io = (\<lambda>_. True), wd_trace_flushes = True, wd_now_ns = 0\<rparr>"

lemma demo_codec_total: "codec_total demo_codec"
  by (simp add: codec_total_def demo_codec_def demo_serde_def)

lemma demo_codec_request: "cd_request demo_codec raw = Ok (demo_request raw)"
  by (simp add: demo_codec_def)

text \<open>C14: Whatever clients send, hosts answer and the operating system does, and however often the loop runs,
  the daemon keeps a consistent session, and it holds an orchestrator and a model handle exactly while the
  session is stopped on an attached model, and a shared-memory consumer only then.\<close>

theorem daemon_keeps_attachment:
  assumes "codec_total W" "daemon_run W events daemon_start = Some d"
  shows "session_wf (d_session d)
    \<and> (d_orchestrator d \<noteq> None \<longleftrightarrow> ss_status (s_state (d_session d)) = Stopped)
    \<and> (d_model_handle d \<noteq> None \<longleftrightarrow> ss_status (s_state (d_session d)) = Stopped)
    \<and> (d_consumer d \<noteq> None \<longrightarrow> ss_status (s_state (d_session d)) = Stopped)"
  using daemon_run_inv [OF assms(1) daemon_inv_start assms(2)] by (simp add: daemon_inv_def)

theorem daemon_keeps_attachment_witness:
  "codec_total demo_codec \<and> (\<exists>d. daemon_run demo_codec [(demo_world, Beat 0 0), (demo_world, Closed)] daemon_start = Some d
     \<and> session_wf (d_session d))"
proof -
  have run: "daemon_run demo_codec [(demo_world, Beat 0 0), (demo_world, Closed)] daemon_start
    = Some (daemon_start\<lparr>d_running := False\<rparr>)"
    by (simp add: daemon_step_def daemon_heartbeat_def daemon_start_def)
  then show ?thesis using daemon_keeps_attachment [OF demo_codec_total run] demo_codec_total by blast
qed

lemma daemon_run_None:
  "daemon_run W es d0 = None \<longleftrightarrow>
    (\<exists>pre ev post d. es = pre @ ev # post \<and> daemon_run W pre d0 = Some d \<and> daemon_step W ev d = None)"
proof (induction es arbitrary: d0)
  case (Cons we es)
  note IH = Cons.IH
  show ?case
  proof
    assume fails: "daemon_run W (we # es) d0 = None"
    show "\<exists>pre ev post d. we # es = pre @ ev # post \<and> daemon_run W pre d0 = Some d \<and> daemon_step W ev d = None"
    proof (cases "daemon_step W we d0")
      case None
      then show ?thesis by (intro exI [of _ "[]"] exI [of _ we] exI [of _ es] exI [of _ d0]) simp
    next
      case (Some d1)
      then obtain pre ev post d where "es = pre @ ev # post" "daemon_run W pre d1 = Some d" "daemon_step W ev d = None"
        using fails IH [of d1] by auto
      then show ?thesis using Some by (intro exI [of _ "we # pre"] exI [of _ ev] exI [of _ post] exI [of _ d]) simp
    qed
  next
    assume "\<exists>pre ev post d. we # es = pre @ ev # post \<and> daemon_run W pre d0 = Some d \<and> daemon_step W ev d = None"
    then obtain pre ev post d where split: "we # es = pre @ ev # post" and fails: "daemon_run W pre d0 = Some d"
      "daemon_step W ev d = None" by blast
    show "daemon_run W (we # es) d0 = None"
    proof (cases pre)
      case Nil
      then show ?thesis using split fails by simp
    next
      case (Cons x pre')
      then obtain d1 where "daemon_step W we d0 = Some d1" "daemon_run W pre' d1 = Some d" "es = pre' @ ev # post"
        using split fails by (cases "daemon_step W we d0") auto
      moreover from this have "daemon_run W es d1 = None" unfolding IH [of d1] using fails(2) by blast
      ultimately show ?thesis by simp
    qed
  qed
qed simp

text \<open>C15: The daemon survives every sequence of messages and heartbeats, unless an export is requested while no
  model is attached, which makes it panic, or a step succeeds at a rank or layer that does not fit the
  twelve and sixteen bits of a track identifier while a trace is open and events are enabled, or an
  inspection meets a tensor, reported by the worker or stored, whose shape has a dimension of zero.\<close>

theorem daemon_panics_only:
  assumes total: "codec_total W"
  shows "(daemon_run W events daemon_start = None \<longrightarrow>
      (\<exists>pre w raw post d rq. events = pre @ (w, Client raw) # post \<and> daemon_run W pre daemon_start = Some d
        \<and> cd_request W raw = Inr rq \<and> (fatal_export rq d \<or> fatal_step W w rq d \<or> fatal_inspect W w rq d)))
    \<and> ((\<exists>pre w raw post d rq. events = pre @ (w, Client raw) # post \<and> daemon_run W pre daemon_start = Some d
        \<and> d_running d \<and> cd_request W raw = Inr rq \<and> fatal_export rq d)
      \<longrightarrow> daemon_run W events daemon_start = None)"
proof (intro conjI impI)
  have inv: "daemon_inv d" if "daemon_run W pre daemon_start = Some d" for pre d
    by (rule daemon_run_inv [OF total daemon_inv_start that])
  show "\<exists>pre w raw post d rq. events = pre @ (w, Client raw) # post \<and> daemon_run W pre daemon_start = Some d
      \<and> cd_request W raw = Inr rq \<and> (fatal_export rq d \<or> fatal_step W w rq d \<or> fatal_inspect W w rq d)"
    if "daemon_run W events daemon_start = None"
    using that [unfolded daemon_run_None] daemon_step_fatal [OF total inv] by blast
  show "daemon_run W events daemon_start = None"
    if export: "\<exists>pre w raw post d rq. events = pre @ (w, Client raw) # post \<and> daemon_run W pre daemon_start = Some d
        \<and> d_running d \<and> cd_request W raw = Inr rq \<and> fatal_export rq d"
  proof -
    obtain pre w raw post d rq where at: "events = pre @ (w, Client raw) # post" "daemon_run W pre daemon_start = Some d"
      "d_running d" "cd_request W raw = Inr rq" "fatal_export rq d" using export by blast
    have "daemon_step W (w, Client raw) d = None"
      using at(3) daemon_message_export [OF inv [OF at(2)] at(4,5)] by (simp add: daemon_step_def)
    then show ?thesis unfolding daemon_run_None using at(1,2) by blast
  qed
qed

theorem daemon_panics_only_witness:
  "codec_total demo_codec \<and> daemon_run demo_codec [(demo_world, Client m_SESSION_EXPORT)] daemon_start = None"
proof
  have "daemon_run demo_codec [] daemon_start = Some daemon_start" "d_running daemon_start"
    "fatal_export (demo_request m_SESSION_EXPORT) daemon_start"
    by (simp_all add: daemon_start_def fatal_export_def demo_request_def Session_new_def)
  then have "\<exists>pre w raw post d rq. [(demo_world, Client m_SESSION_EXPORT)] = pre @ (w, Client raw) # post
      \<and> daemon_run demo_codec pre daemon_start = Some d \<and> d_running d \<and> cd_request demo_codec raw = Inr rq \<and> fatal_export rq d"
    using demo_codec_request [of m_SESSION_EXPORT] by (metis append_Nil)
  then show "daemon_run demo_codec [(demo_world, Client m_SESSION_EXPORT)] daemon_start = None"
    using daemon_panics_only [OF demo_codec_total, of "[(demo_world, Client m_SESSION_EXPORT)]"] by blast
qed (rule demo_codec_total)

text \<open>C16: Every request that does not bring the daemon down is answered. A client whose writes succeed reads
  first the reply to its request, carrying its identifier and either a result or an error, and then
  nothing but notifications, numbered consecutively from the sequence number in force: at most one
  stopped tick and then fired probes, and those only after a successful step while events are enabled.
  The requests that bring the daemon down are an export while no model is attached, a step to a position
  that does not fit a track identifier while a trace is open, and an inspection of a tensor with
  a dimension of zero.
\<close>

theorem daemon_replies_first:
  assumes "codec_total W" "daemon_run W events daemon_start = Some d" "cd_request W raw = Inr rq" "\<forall>m. wd_accepts w m"
    "\<not> fatal_export rq d" "\<not> fatal_step W w rq d" "\<not> fatal_inspect W w rq d"
  shows "\<exists>d' r json evs. daemon_message W w raw d = Some d' \<and>
    rs_id r = rq_id rq \<and> (rs_result r = None \<longleftrightarrow> rs_error r \<noteq> None) \<and> cd_response W r = Inr json \<and>
    d_out d' = d_out d @ concat (map write_message (json # number_from (cd_events W) (d_seq d) evs)) \<and>
    d_seq d' = d_seq d + word_of_nat (length evs) \<and> step_events W evs \<and>
    (evs \<noteq> [] \<longrightarrow> d_events_enabled d \<and> rq_method rq = m_STEP \<and> rs_error r = None)"
proof -
  note inv = daemon_run_inv [OF assms(1) daemon_inv_start assms(2)]
  have "daemon_message W w raw d \<noteq> None"
    using daemon_message_fatal [OF assms(1) inv, of w raw] assms(3,5-7) by auto
  then obtain d' where d': "daemon_message W w raw d = Some d'" by blast
  have "session_wf (d_session d)" using inv by (simp add: daemon_inv_def)
  from daemon_message_sends [OF this assms(3) d' assms(4)]
  obtain r json evs where "well_formed_reply rq r" "cd_response W r = Inr json" "step_events W evs"
    "d_out d' = d_out d @ concat (map write_message (json # number_from (cd_events W) (d_seq d) evs))"
    "d_seq d' = d_seq d + word_of_nat (length evs)" "evs \<noteq> [] \<longrightarrow> d_events_enabled d \<and> step_succeeded rq r"
    by blast
  then show ?thesis
    using d' unfolding reply_with_def step_succeeded_def
    by (intro exI [of _ d'] exI [of _ r] exI [of _ json] exI [of _ evs]) simp
qed

theorem daemon_replies_first_witness:
  "\<exists>d' r json evs. daemon_message demo_codec demo_world ''rocket/status'' daemon_start = Some d'
     \<and> rs_id r = IdNumber 7 \<and> cd_response demo_codec r = Ok json
     \<and> d_out d' = concat (map write_message (json # number_from (cd_events demo_codec) 0 evs))"
proof -
  have start: "daemon_run demo_codec [] daemon_start = Some daemon_start" by simp
  have acc: "\<forall>m. wd_accepts demo_world m" by (simp add: demo_world_def)
  have safe: "\<not> fatal_export (demo_request ''rocket/status'') daemon_start"
    "\<not> fatal_step demo_codec demo_world (demo_request ''rocket/status'') daemon_start"
    "\<not> fatal_inspect demo_codec demo_world (demo_request ''rocket/status'') daemon_start"
    by (simp_all add: demo_request_def fatal_export_def fatal_inspect_def m_INSPECT_def fatal_step_def m_SESSION_EXPORT_def m_STEP_def)
  have init: "rq_id (demo_request ''rocket/status'') = IdNumber 7" "d_out (daemon_start :: unit daemon) = []"
    "d_seq (daemon_start :: unit daemon) = 0"
    by (simp_all add: demo_request_def daemon_start_def)
  from daemon_replies_first [OF demo_codec_total start demo_codec_request acc safe] show ?thesis
    unfolding init append_Nil by blast
qed

end
