(* ===== verification/Session_History.thy ===== *)
theory Session_History
  imports Session_Invariant
begin

text \<open>
  What the session remembers over time: a captured checkpoint survives everything but its own
  deletion, replacement or a detach, and the search for the checkpoint to rewind to finds the latest
  one.
\<close>

section \<open>Histories\<close>

datatype 'v session_op =
    Op_Step step_request tick_position bool "string list"
  | Op_Replay replay_request "host_replay_response option"
  | Op_Create string u64 "create_checkpoint_tier option" "string option"
  | Op_Delete string
  | Op_Restore string
  | Op_Bookmark string u64 u64 string
  | Op_Branch u64
  | Op_SetIntervention intervention_recipe
  | Op_ClearIntervention string
  | Op_DefineView string 'v
  | Op_Filter "subscribe_filter option"
  | Op_AutoLayers "u32 list"
  | Op_Arena f64_ops "u64 option"

fun apply_op :: "'v session_op \<Rightarrow> 'v session \<Rightarrow> 'v session" where
  "apply_op (Op_Step req pos fc fired) s = snd (session_step req pos fc fired s)"
| "apply_op (Op_Replay req h) s = snd (session_replay req h s)"
| "apply_op (Op_Create uuid now tier cid) s = snd (checkpoint_create_with_id uuid now tier cid s)"
| "apply_op (Op_Delete cid) s = snd (checkpoint_delete cid s)"
| "apply_op (Op_Restore cid) s = snd (checkpoint_restore cid s)"
| "apply_op (Op_Bookmark uuid now tick name) s = snd (checkpoint_bookmark uuid now tick name s)"
| "apply_op (Op_Branch t) s = advance_worldline_segment t s"
| "apply_op (Op_SetIntervention r) s = set_intervention r s"
| "apply_op (Op_ClearIntervention i) s = snd (clear_intervention i s)"
| "apply_op (Op_DefineView n v) s = snd (define_view n v s)"
| "apply_op (Op_Filter f) s = set_event_filter f s"
| "apply_op (Op_AutoLayers ls) s = set_auto_checkpoint_layers ls s"
| "apply_op (Op_Arena F b) s = update_arena_utilization F b s"

definition apply_ops :: "'v session_op list \<Rightarrow> 'v session \<Rightarrow> 'v session" where
  "apply_ops ops s = fold apply_op ops s"

fun spares :: "string \<Rightarrow> 'v session_op \<Rightarrow> bool" where
  "spares c (Op_Delete cid) = (cid \<noteq> c)"
| "spares c (Op_Create uuid now tier cid) = (unwrap_or cid uuid \<noteq> c)"
| "spares c _ = True"

text \<open>The checkpoint \<open>c\<close> exists and was captured at the position \<open>p\<close>.\<close>

definition captured_at :: "'v session \<Rightarrow> string \<Rightarrow> tick_position \<Rightarrow> bool" where
  "captured_at s c p \<longleftrightarrow> c \<in> cr_id ` set (ss_checkpoints (s_state s)) \<and> map_of (s_checkpoint_positions s) c = Some p"

lemma captured_at_cong:
  "cr_id ` set (ss_checkpoints (s_state s')) = cr_id ` set (ss_checkpoints (s_state s)) \<Longrightarrow>
   s_checkpoint_positions s' = s_checkpoint_positions s \<Longrightarrow> captured_at s' c p = captured_at s c p"
  by (simp add: captured_at_def)

lemma captured_at_seat [simp]: "captured_at (seat_at pos s) c p = captured_at s c p"
  by (rule captured_at_cong) (simp_all add: seat_at_def)

lemma captured_at_create:
  "captured_at s c p \<Longrightarrow> unwrap_or cid uuid \<noteq> c \<Longrightarrow>
    captured_at (snd (checkpoint_create_with_id uuid now tier cid s)) c p"
  by (auto simp: captured_at_def checkpoint_create_with_id_def Let_def update_conv' split: option.splits)

lemma captured_at_delete:
  "captured_at s c p \<Longrightarrow> cid \<noteq> c \<Longrightarrow> captured_at (snd (checkpoint_delete cid s)) c p"
  by (auto simp: captured_at_def checkpoint_delete_def Let_def delete_conv')

lemma captured_at_bookmark:
  "captured_at s c p \<Longrightarrow> captured_at (snd (checkpoint_bookmark uuid now tick name s)) c p"
  by (auto simp: captured_at_def checkpoint_bookmark_def Let_def set_map [of cr_id, symmetric]
      set_update_first_map simp del: set_map)

lemma captured_at_setters [simp]:
  "captured_at (advance_worldline_segment t s) c p = captured_at s c p"
  "captured_at (set_intervention r s) c p = captured_at s c p"
  "captured_at (snd (clear_intervention i s)) c p = captured_at s c p"
  "captured_at (set_event_filter f s) c p = captured_at s c p"
  "captured_at (set_auto_checkpoint_layers ls s) c p = captured_at s c p"
  "captured_at (update_arena_utilization F b s) c p = captured_at s c p"
  by (simp_all add: captured_at_def advance_worldline_segment_def set_intervention_def clear_intervention_def
      set_event_filter_def set_auto_checkpoint_layers_def update_arena_utilization_def split: option.split)

lemma captured_at_op: "captured_at s c p \<Longrightarrow> spares c op \<Longrightarrow> captured_at (apply_op op s) c p"
proof (cases op)
  case (Op_Step req pos fc fired)
  then show "captured_at s c p \<Longrightarrow> ?thesis" by (simp add: session_step_def Let_def split: sum.split)
next
  case (Op_Replay req h)
  then show "captured_at s c p \<Longrightarrow> ?thesis"
    by (simp add: session_replay_def Let_def split: sum.split option.split prod.split)
next
  case (Op_Restore cid)
  then show "captured_at s c p \<Longrightarrow> ?thesis"
    by (simp add: checkpoint_restore_def Let_def captured_at_def split: option.split)
next
  case (Op_DefineView n v)
  then show "captured_at s c p \<Longrightarrow> ?thesis"
    by (simp add: define_view_def Let_def captured_at_def split: sum.split)
qed (simp_all add: captured_at_create captured_at_delete captured_at_bookmark)

lemma captured_at_ops:
  "captured_at s c p \<Longrightarrow> list_all (spares c) ops \<Longrightarrow> captured_at (apply_ops ops s) c p"
  by (induction ops arbitrary: s) (simp_all add: apply_ops_def captured_at_op)

lemma restore_captured:
  assumes "captured_at s c p"
  shows "\<exists>body. checkpoint_restore c s = (Ok body, map_state (\<lambda>st. st\<lparr>ss_tick_id := Some (tp_tick_id p),
      ss_position := Some p\<rparr>) s) \<and> map_option cp_restored_to (env_data body) = Some (Some p)"
proof -
  obtain k where "find_checkpoint s c = Some k"
    using assms unfolding captured_at_def find_checkpoint_def
    by (metis (mono_tags, lifting) find_None_iff image_iff not_None_eq)
  then show ?thesis
    using assms by (simp add: checkpoint_restore_def captured_at_def checkpoint_position_def
        checkpoint_envelope_def envelope_def Let_def)
qed

lemma create_captures:
  "ss_position (s_state s) = Some p \<Longrightarrow>
    captured_at (snd (checkpoint_create_with_id uuid now tier cid s)) (unwrap_or cid uuid) p"
  by (simp add: captured_at_def checkpoint_create_with_id_def Let_def update_conv')

text \<open>C12: A checkpoint captured while the session is at a position brings the session back to exactly that
  position, whatever happens in between: any steps, replays, rewinds, other checkpoints, bookmarks,
  branches, interventions and views, as long as the checkpoint is not deleted and no other is created
  under its identifier. The restored tick, the restored position and the position reported to the
  client all agree.\<close>

theorem checkpoint_survives_history:
  assumes "ss_position (s_state s) = Some p" and "list_all (spares (unwrap_or cid uuid)) ops"
  shows "\<exists>body s'. checkpoint_restore (unwrap_or cid uuid)
      (apply_ops ops (snd (checkpoint_create_with_id uuid now tier cid s))) = (Ok body, s')
    \<and> ss_position (s_state s') = Some p \<and> ss_tick_id (s_state s') = Some (tp_tick_id p)
    \<and> map_option cp_restored_to (env_data body) = Some (Some p)"
  using restore_captured [OF captured_at_ops [OF create_captures [OF assms(1)] assms(2)]]
  by fastforce

definition demo_position :: "u64 \<Rightarrow> tick_position" where
  "demo_position t = \<lparr>tp_tick_id = t, tp_direction = Forward, tp_rank = None, tp_layer = 3,
     tp_component = ''mlp'', tp_event = TE_Output, tp_replay_of = None, tp_phase = Decode,
     tp_token_position = None, tp_clock = None\<rparr>"

definition demo_step :: step_request where
  "demo_step = \<lparr>sr_direction = Forward, sr_count = 1, sr_granularity = None, sr_envelope = Env_Full,
     sr_run_to = None, sr_tokens = None\<rparr>"

definition demo_session :: "unit session" where
  "demo_session = map_state (\<lambda>st. st\<lparr>ss_status := Stopped, ss_tick_id := Some 5,
     ss_position := Some (demo_position 5)\<rparr>) Session_new"

theorem checkpoint_survives_history_witness:
  "\<exists>body s'. checkpoint_restore ''a''
      (apply_ops [Op_Step demo_step (demo_position 6) False [], Op_Branch 6, Op_Delete ''b'',
         Op_Create ''d'' 0 None None]
        (snd (checkpoint_create_with_id ''a'' 0 None None demo_session))) = (Ok body, s')
    \<and> ss_position (s_state s') = Some (demo_position 5) \<and> ss_tick_id (s_state s') = Some 5
    \<and> map_option cp_restored_to (env_data body) = Some (Some (demo_position 5))"
  using checkpoint_survives_history [of demo_session "demo_position 5" None "''a''"
      "[Op_Step demo_step (demo_position 6) False [], Op_Branch 6, Op_Delete ''b'', Op_Create ''d'' 0 None None]" 0 None]
  by (simp add: demo_session_def demo_position_def)

section \<open>Rewinding\<close>

definition candidates :: "u64 \<Rightarrow> (string \<times> tick_position) list \<Rightarrow> (string \<times> u64) set" where
  "candidates target ps = {(c, tp_tick_id p) |c p. (c, p) \<in> set ps \<and> tp_tick_id p < target}"

definition latest :: "(string \<times> u64) option \<Rightarrow> (string \<times> u64) set \<Rightarrow> bool" where
  "latest best A = (case best of None \<Rightarrow> A = {} | Some x \<Rightarrow> x \<in> A \<and> (\<forall>y \<in> A. snd y \<le> snd x))"

lemma best_before_latest:
  "latest best A \<Longrightarrow> latest (best_before target ps best) (A \<union> candidates target ps)"
proof (induction ps arbitrary: best A)
  case Nil
  then show ?case by (simp add: candidates_def)
next
  case (Cons x ps)
  obtain c p where x: "x = (c, p)" by (cases x)
  define new where "new = (if tp_tick_id p < target then {(c, tp_tick_id p)} else {})"
  have "latest (if tp_tick_id p < target \<and> (case best of None \<Rightarrow> True | Some (_, t) \<Rightarrow> tp_tick_id p > t)
      then Some (c, tp_tick_id p) else best) (A \<union> new)"
    using Cons.prems by (fastforce simp: latest_def new_def not_less split: option.splits)
  moreover have "candidates target (x # ps) = new \<union> candidates target ps"
    by (auto simp: candidates_def x new_def)
  ultimately show ?case
    using Cons.IH [of _ "A \<union> new"] by (simp add: x Un_assoc)
qed

lemma candidates_best:
  assumes "distinct (map fst ps)"
  shows "latest (best_before t ps None) {(c, tp_tick_id p) |c p. map_of ps c = Some p \<and> tp_tick_id p < t}"
  using best_before_latest [of None "{}" t ps] assms by (simp add: candidates_def latest_def)

text \<open>The checkpoint chosen for a backward step is a latest captured one strictly before the target
  tick, whatever the iteration order of the map of captured positions; none is chosen exactly when
  none was captured before it.\<close>

theorem find_checkpoint_before_latest:
  assumes "distinct (map fst (s_checkpoint_positions s))"
  shows "case find_checkpoint_before t s of
      None \<Rightarrow> \<not> (\<exists>c p. map_of (s_checkpoint_positions s) c = Some p \<and> tp_tick_id p < t)
    | Some c \<Rightarrow> \<exists>p. map_of (s_checkpoint_positions s) c = Some p \<and> tp_tick_id p < t
        \<and> (\<forall>c' p'. map_of (s_checkpoint_positions s) c' = Some p' \<and> tp_tick_id p' < t
             \<longrightarrow> tp_tick_id p' \<le> tp_tick_id p)"
proof (cases "best_before t (s_checkpoint_positions s) None")
  case None
  then show ?thesis
    using candidates_best [OF assms, of t] by (simp add: find_checkpoint_before_def latest_def)
next
  case (Some x)
  note best = candidates_best [OF assms, of t, unfolded Some latest_def option.case]
  then obtain c p where x: "x = (c, tp_tick_id p)" "map_of (s_checkpoint_positions s) c = Some p" "tp_tick_id p < t"
    by blast
  moreover have "tp_tick_id p' \<le> tp_tick_id p"
    if "map_of (s_checkpoint_positions s) c' = Some p'" "tp_tick_id p' < t" for c' p'
    using bspec [OF conjunct2 [OF best], of "(c', tp_tick_id p')"] that x(1) by auto
  ultimately show ?thesis
    using Some by (auto simp: find_checkpoint_before_def)
qed

definition demo_captured :: "unit session" where
  "demo_captured = demo_session\<lparr>s_checkpoint_positions :=
     [(''a'', demo_position 3), (''b'', demo_position 7), (''c'', demo_position 9)]\<rparr>"

theorem find_checkpoint_before_latest_witness:
  "\<exists>c p. find_checkpoint_before 9 demo_captured = Some c
     \<and> map_of (s_checkpoint_positions demo_captured) c = Some p \<and> tp_tick_id p < 9 \<and> 7 \<le> tp_tick_id p"
proof -
  let ?m = "map_of (s_checkpoint_positions demo_captured)"
  have "distinct (map fst (s_checkpoint_positions demo_captured))" by (simp add: demo_captured_def)
  note found = find_checkpoint_before_latest [OF this, of 9]
  have b: "?m ''b'' = Some (demo_position 7)" "tp_tick_id (demo_position 7) = 7"
    by (simp_all add: demo_captured_def demo_position_def)
  show ?thesis
  proof (cases "find_checkpoint_before 9 demo_captured")
    case None
    then have "\<not> (\<exists>c p. ?m c = Some p \<and> tp_tick_id p < 9)" using found by simp
    moreover have "tp_tick_id (demo_position 7) < 9" by (simp add: b(2))
    ultimately show ?thesis using b(1) by blast
  next
    case (Some c)
    then obtain p where p: "?m c = Some p" "tp_tick_id p < 9"
      "\<forall>c' p'. ?m c' = Some p' \<and> tp_tick_id p' < 9 \<longrightarrow> tp_tick_id p' \<le> tp_tick_id p"
      using found by auto
    have "tp_tick_id (demo_position 7) < 9" by (simp add: b(2))
    then have "7 \<le> tp_tick_id p" using p(3) b by metis
    then show ?thesis using Some p by blast
  qed
qed

end
