(* ===== verification/Session_Discovery.thy ===== *)
theory Session_Discovery
  imports Session_Invariant
begin

text \<open>
  Discovery queries: what they find, and which of the patterns they suggest find something when sent
  back.
\<close>

section \<open>What a query finds\<close>

definition discovered :: "'v session \<Rightarrow> string \<Rightarrow> discover_match list" where
  "discovered s pat = (case discover s pat of
     Inl _ \<Rightarrow> [] | Inr env \<Rightarrow> (case env_data env of None \<Rightarrow> [] | Some d \<Rightarrow> ds_matches d))"

definition suggested :: "'v session \<Rightarrow> string \<Rightarrow> string list" where
  "suggested s pat = (case discover s pat of
     Inl _ \<Rightarrow> [] | Inr env \<Rightarrow> (case env_data env of None \<Rightarrow> [] | Some d \<Rightarrow> ds_suggestions d))"

lemma sort_key_Nil [simp]: "sort_key f xs = [] \<longleftrightarrow> xs = []"
  using set_sort [of f xs] by (metis set_empty)

lemma discovered_empty_iff:
  assumes "ss_status (s_state s) = Stopped" "DiscoverPattern_parse pat = Some p"
  shows "discovered s pat = [] \<longleftrightarrow> \<not> (\<exists>e \<in> set (s_catalog s). DiscoverPattern_matches p e)"
  using assms by (simp add: discovered_def discover_def bind_result_def envelope_def Let_def filter_empty_conv)

lemma suggested_eq:
  assumes "ss_status (s_state s) = Stopped" "DiscoverPattern_parse pat = Some p"
  shows "suggested s pat = (if discovered s pat = [] then suggest_patterns s pat p else [])"
  using assms by (simp add: suggested_def discovered_def discover_def bind_result_def envelope_def Let_def)

section \<open>Suggestions\<close>

text \<open>The catalog entries that agree with a pattern but for the component, and perhaps the layer.\<close>

definition agrees :: "bool \<Rightarrow> discover_pattern \<Rightarrow> probe_point_entry \<Rightarrow> bool" where
  "agrees respect_layer p e \<longleftrightarrow> PatternSeg_matches (dp_family p) (pp_family e)
     \<and> (\<not> respect_layer \<or> PatternSeg_matches (dp_layer p) (show_u32 (pp_layer e)))
     \<and> PatternSeg_matches (dp_event p) (pp_event e)"

definition with_component :: "string \<Rightarrow> string \<Rightarrow> string" where
  "with_component pat c = (let segs = split_on CHR '':'' pat in
     segs ! 0 @ '':'' @ segs ! 1 @ '':'' @ segs ! 2 @ '':'' @ c @ '':'' @ segs ! 4)"

lemma set_collect_canonicals:
  "set (collect_canonicals s p (split_on CHR '':'' pat) b) =
     with_component pat ` pp_canonical ` {e \<in> set (s_catalog s). agrees b p e}"
  by (auto simp: collect_canonicals_def with_component_def agrees_def Let_def)

lemma suggest_patterns_set:
  "set (suggest_patterns s pat p) =
     with_component pat ` pp_canonical ` {e \<in> set (s_catalog s).
       agrees (\<exists>e' \<in> set (s_catalog s). agrees True p e') p e}"
proof -
  have "collect_canonicals s p (split_on CHR '':'' pat) True = []
      \<longleftrightarrow> \<not> (\<exists>e' \<in> set (s_catalog s). agrees True p e')"
    using set_collect_canonicals [of s p pat True] by (auto simp: set_empty [symmetric] simp del: set_empty)
  then show ?thesis
    by (simp add: suggest_patterns_def Let_def set_collect_canonicals)
qed

text \<open>Canonical names can stand as a segment of a pattern.\<close>

definition segment_name :: "string \<Rightarrow> bool" where
  "segment_name c \<longleftrightarrow> c \<noteq> [] \<and> c \<noteq> ''*'' \<and> CHR '':'' \<notin> set c"

lemma catalog_segment_names: "e \<in> set (default_catalog fam nl nh dim) \<Longrightarrow> segment_name (pp_canonical e)"
  by (auto simp: default_catalog_def catalog_components_def Let_def segment_name_def)

lemma parse_with_component:
  assumes "DiscoverPattern_parse pat = Some p" "segment_name c"
  shows "DiscoverPattern_parse (with_component pat c) = Some (p\<lparr>dp_component := Lit c\<rparr>)"
proof -
  obtain a b l k e where segs: "split_on CHR '':'' pat = [a, b, l, k, e]" "[] \<notin> set [a, b, l, k, e]"
    and p: "p = \<lparr>dp_family = PatternSeg_parse a, dp_layer = PatternSeg_parse l,
                 dp_component = PatternSeg_parse k, dp_event = PatternSeg_parse e\<rparr>"
    using assms(1) by (auto simp: DiscoverPattern_parse_def Let_def length_Suc_conv numeral_eq_Suc split: if_splits)
  have "\<forall>t \<in> set [a, b, l, k, e]. CHR '':'' \<notin> set t" using split_on_no_seps segs(1) by metis
  then have "split_on CHR '':'' (with_component pat c) = [a, b, l, c, e]"
    using assms(2) split_join [of "[a, b, l, c, e]" "CHR '':''"]
    by (simp add: with_component_def segs segment_name_def)
  then show ?thesis
    using assms(2) segs(2) by (auto simp: DiscoverPattern_parse_def p segment_name_def PatternSeg_parse_def)
qed

lemma matches_component:
  "DiscoverPattern_matches (p\<lparr>dp_component := Lit c\<rparr>) e \<longleftrightarrow> agrees True p e \<and> pp_canonical e = c"
  by (auto simp: DiscoverPattern_matches_def agrees_def)

text \<open>C21: The patterns suggested for a query that found nothing find something when sent back exactly when
  the catalog of the attached model has an entry that agrees with the query but for its component.
  When the layer of the query does not exist, the suggestions keep it, and none of them matches.\<close>

theorem discover_suggestions_valid:
  assumes "ss_status (s_state s) = Stopped" "s_catalog s = default_catalog fam nl nh dim"
    and "DiscoverPattern_parse pat = Some p" "sugg \<in> set (suggested s pat)"
  shows "discovered s sugg \<noteq> [] \<longleftrightarrow> (\<exists>e \<in> set (s_catalog s). agrees True p e)"
proof -
  define some_agree where "some_agree = (\<exists>e' \<in> set (s_catalog s). agrees True p e')"
  have "sugg \<in> set (suggest_patterns s pat p)"
    using assms(4) suggested_eq [OF assms(1,3)] by (simp split: if_splits)
  then obtain e where e: "e \<in> set (s_catalog s)" "agrees some_agree p e"
    "sugg = with_component pat (pp_canonical e)"
    by (auto simp: suggest_patterns_set some_agree_def)
  have "segment_name (pp_canonical e)" using e(1) catalog_segment_names assms(2) by metis
  then have "discovered s sugg = [] \<longleftrightarrow>
      \<not> (\<exists>e' \<in> set (s_catalog s). agrees True p e' \<and> pp_canonical e' = pp_canonical e)"
    using discovered_empty_iff [OF assms(1) parse_with_component [OF assms(3)]] e(3)
    by (simp add: matches_component)
  then show ?thesis
    using e(1,2) unfolding some_agree_def by (cases some_agree) (auto simp: some_agree_def)
qed

definition demo_model :: "unit session" where
  "demo_model = (map_state (\<lambda>st. st\<lparr>ss_status := Stopped\<rparr>) Session_new)
     \<lparr>s_catalog := default_catalog ''gpt2'' 1 4 8\<rparr>"

theorem discover_suggestions_valid_witness:
  "(discovered demo_model ''gpt2:*:0:mlp:output'' \<noteq> [] \<longleftrightarrow> (\<exists>e \<in> set (s_catalog demo_model).
      agrees True \<lparr>dp_family = Lit ''gpt2'', dp_layer = Lit ''0'', dp_component = Lit ''mpl'', dp_event = Lit ''output''\<rparr> e))
   \<and> (discovered demo_model ''gpt2:*:7:mlp:output'' \<noteq> [] \<longleftrightarrow> (\<exists>e \<in> set (s_catalog demo_model).
      agrees True \<lparr>dp_family = Lit ''gpt2'', dp_layer = Lit ''7'', dp_component = Lit ''mpl'', dp_event = Lit ''output''\<rparr> e))"
proof (intro conjI)
  have st: "ss_status (s_state demo_model) = Stopped" "s_catalog demo_model = default_catalog ''gpt2'' 1 4 8"
    by (simp_all add: demo_model_def)
  have "DiscoverPattern_parse ''gpt2:*:0:mpl:output'' = Some \<lparr>dp_family = Lit ''gpt2'', dp_layer = Lit ''0'',
      dp_component = Lit ''mpl'', dp_event = Lit ''output''\<rparr>"
    "''gpt2:*:0:mlp:output'' \<in> set (suggested demo_model ''gpt2:*:0:mpl:output'')"
    "DiscoverPattern_parse ''gpt2:*:7:mpl:output'' = Some \<lparr>dp_family = Lit ''gpt2'', dp_layer = Lit ''7'',
      dp_component = Lit ''mpl'', dp_event = Lit ''output''\<rparr>"
    "''gpt2:*:7:mlp:output'' \<in> set (suggested demo_model ''gpt2:*:7:mpl:output'')"
    by code_simp+
  from discover_suggestions_valid [OF st this(1,2)] discover_suggestions_valid [OF st this(3,4)]
  show "discovered demo_model ''gpt2:*:0:mlp:output'' \<noteq> [] \<longleftrightarrow> (\<exists>e \<in> set (s_catalog demo_model).
      agrees True \<lparr>dp_family = Lit ''gpt2'', dp_layer = Lit ''0'', dp_component = Lit ''mpl'', dp_event = Lit ''output''\<rparr> e)"
    "discovered demo_model ''gpt2:*:7:mlp:output'' \<noteq> [] \<longleftrightarrow> (\<exists>e \<in> set (s_catalog demo_model).
      agrees True \<lparr>dp_family = Lit ''gpt2'', dp_layer = Lit ''7'', dp_component = Lit ''mpl'', dp_event = Lit ''output''\<rparr> e)"
    by this
qed

end
