(* ===== verification/Worker_Clock.thy ===== *)
theory Worker_Clock
  imports Protocol_Types
begin

text \<open>
  The worker's tick cursor, \<^verbatim>\<open>crates/rocket-surgeon-worker/src/tick.rs\<close>, and the planning of a step,
  \<^verbatim>\<open>crates/rocket-surgeon-worker/src/step_driver.rs\<close>. The start time of the session is left out of the
  state: the nanoseconds elapsed since then are an argument where the clock is read.
\<close>

section \<open>The cursor\<close>

record TickState =
  tk_rank :: u32
  tk_layer :: u32
  tk_component :: string
  tk_call_index :: u32
  tk_step_count :: u64
  tk_phase :: phase
  tk_token :: u64
  tk_operator :: u64
  tk_token_position :: "u64 option"

definition TickState_new :: "u32 \<Rightarrow> TickState" where
  "TickState_new rank =
     \<lparr>tk_rank = rank, tk_layer = 0, tk_component = '''', tk_call_index = 0, tk_step_count = 0,
      tk_phase = Prefill, tk_token = 0, tk_operator = 0, tk_token_position = None\<rparr>"

definition TickState_advance :: "string \<Rightarrow> u32 \<Rightarrow> u32 \<Rightarrow> TickState \<Rightarrow> TickState" where
  "TickState_advance component layer call_index t =
     t\<lparr>tk_operator := tk_operator t + 1, tk_layer := layer, tk_component := component,
       tk_call_index := call_index, tk_step_count := tk_step_count t + 1,
       tk_token_position := Some (tk_token t)\<rparr>"

definition TickState_advance_token :: "TickState \<Rightarrow> TickState" where
  "TickState_advance_token t =
     (let t = t\<lparr>tk_token := tk_token t + 1, tk_operator := 0, tk_token_position := Some (tk_token t + 1)\<rparr> in
      if tk_phase t = Prefill then t\<lparr>tk_phase := Decode\<rparr> else t)"

definition set_phase :: "phase \<Rightarrow> TickState \<Rightarrow> TickState" where
  "set_phase p t = t\<lparr>tk_phase := p\<rparr>"

definition set_token_position :: "u64 \<Rightarrow> TickState \<Rightarrow> TickState" where
  "set_token_position pos t = t\<lparr>tk_token := pos, tk_token_position := Some pos\<rparr>"

definition tick_id :: "TickState \<Rightarrow> u64" where "tick_id t = tk_operator t"

definition to_tick_position :: "u64 \<Rightarrow> TickState \<Rightarrow> tick_position" where
  "to_tick_position elapsed_ns t =
     \<lparr>tp_tick_id = tk_operator t, tp_direction = Forward, tp_rank = Some (tk_rank t), tp_layer = tk_layer t,
      tp_component = tk_component t, tp_event = TE_Output, tp_replay_of = None, tp_phase = tk_phase t,
      tp_token_position = tk_token_position t,
      tp_clock = Some \<lparr>tc_token = tk_token t, tc_operator = tk_operator t,
                       tc_wall_ns = saturating_add elapsed_ns 1\<rparr>\<rparr>"

section \<open>Planning a step\<close>

record StepPlan =
  pl_ticks_to_drain :: u32
  pl_granularity :: tick_granularity

definition plan_step :: "u32 \<Rightarrow> tick_granularity option \<Rightarrow> StepPlan" where
  "plan_step count granularity =
     \<lparr>pl_ticks_to_drain = count, pl_granularity = unwrap_or granularity G_Component\<rparr>"

datatype DrainState = Counting | Draining

definition is_layer_boundary :: "u32 option \<Rightarrow> u32 \<Rightarrow> bool" where
  "is_layer_boundary current_layer new_layer =
     (case current_layer of None \<Rightarrow> False | Some prev \<Rightarrow> new_layer \<noteq> prev)"

section \<open>Facts\<close>

lemma wall_ns_positive: "tc_wall_ns (the (tp_clock (to_tick_position elapsed t))) \<noteq> 0"
proof -
  have "unat (saturating_add elapsed (1 :: u64)) \<noteq> 0" by (simp add: unat_saturating_add)
  then show ?thesis by (auto simp: to_tick_position_def)
qed

lemma TickState_advance_simps [simp]:
  "tk_operator (TickState_advance c l i t) = tk_operator t + 1" "tk_token (TickState_advance c l i t) = tk_token t"
  "tk_layer (TickState_advance c l i t) = l" "tk_rank (TickState_advance c l i t) = tk_rank t"
  "tk_phase (TickState_advance c l i t) = tk_phase t" "tk_step_count (TickState_advance c l i t) = tk_step_count t + 1"
  by (simp_all add: TickState_advance_def)

lemma TickState_advance_token_simps [simp]:
  "tk_operator (TickState_advance_token t) = 0" "tk_token (TickState_advance_token t) = tk_token t + 1"
  "tk_token_position (TickState_advance_token t) = Some (tk_token t + 1)" "tk_rank (TickState_advance_token t) = tk_rank t"
  by (simp_all add: TickState_advance_token_def Let_def)

end
