(* ===== verification/Worker_Adapter.thy ===== *)
theory Worker_Adapter
  imports Probe_Grammar Text "HOL-Library.AList" "HOL-Library.Char_ord" "HOL-Library.List_Lexorder"
begin

text \<open>
  The model adapter of the worker, \<^verbatim>\<open>crates/rocket-surgeon-worker/src/adapter.rs\<close>: it maps the modules of a
  loaded model to canonical components and gives each one a probe point. The declarations of the two
  model families are the tables of the source. The set that collects the vocabulary is a list without
  duplicates, sorted at the end.
\<close>

section \<open>Declarations\<close>

record FusedComponent =
  fc_canonical :: string
  fc_split_dim :: int
  fc_split_size :: nat

datatype ModuleMapping = Direct string | Fused "FusedComponent list" | Container | Skip

datatype ModuleMatcher = TypeAndName string string "string option" | TypeOnly string

record FamilyDeclaration =
  fd_model_types :: "string list"
  fd_mappings :: "(ModuleMatcher \<times> ModuleMapping) list"

record MappedComponent =
  ma_module_path :: string
  ma_canonical :: string
  ma_layer_index :: "u32 option"
  ma_call_index :: u32
  ma_mapping :: ModuleMapping
  ma_probe_point :: string

record ComponentMap =
  cm_components :: "MappedComponent list"
  cm_model_family :: string
  cm_vocabulary :: "string list"

record RawModule =
  rm_path :: string
  rm_type_name :: string
  rm_attr_name :: string

record ModelConfig =
  mg_model_type :: string
  mg_num_layers :: u32
  mg_num_heads :: u32
  mg_hidden_size :: u32
  mg_num_kv_heads :: "u32 option"

definition llama_declaration :: FamilyDeclaration where
  "llama_declaration = \<lparr>fd_model_types = [''llama'', ''mistral'', ''codellama''],
     fd_mappings = [
       (TypeOnly ''LlamaAttention'', Container),
       (TypeOnly ''LlamaSdpaAttention'', Container),
       (TypeOnly ''LlamaFlashAttention2'', Container),
       (TypeOnly ''MistralAttention'', Container),
       (TypeOnly ''MistralSdpaAttention'', Container),
       (TypeOnly ''MistralFlashAttention2'', Container),
       (TypeOnly ''LlamaMLP'', Container),
       (TypeOnly ''MistralMLP'', Container),
       (TypeOnly ''LlamaDecoderLayer'', Container),
       (TypeOnly ''MistralDecoderLayer'', Container),
       (TypeAndName ''LlamaRMSNorm'' ''input_layernorm'' None, Direct ''ln1''),
       (TypeAndName ''LlamaRMSNorm'' ''post_attention_layernorm'' None, Direct ''ln2''),
       (TypeAndName ''LlamaRMSNorm'' ''norm'' None, Direct ''ln_final''),
       (TypeAndName ''MistralRMSNorm'' ''input_layernorm'' None, Direct ''ln1''),
       (TypeAndName ''MistralRMSNorm'' ''post_attention_layernorm'' None, Direct ''ln2''),
       (TypeAndName ''MistralRMSNorm'' ''norm'' None, Direct ''ln_final''),
       (TypeAndName ''Linear'' ''q_proj'' None, Direct ''q_proj''),
       (TypeAndName ''Linear'' ''k_proj'' None, Direct ''k_proj''),
       (TypeAndName ''Linear'' ''v_proj'' None, Direct ''v_proj''),
       (TypeAndName ''Linear'' ''o_proj'' None, Direct ''o_proj''),
       (TypeAndName ''Linear'' ''gate_proj'' None, Direct ''gate_proj''),
       (TypeAndName ''Linear'' ''up_proj'' None, Direct ''up_proj''),
       (TypeAndName ''Linear'' ''down_proj'' None, Direct ''down_proj''),
       (TypeOnly ''LlamaRotaryEmbedding'', Skip),
       (TypeAndName ''Embedding'' ''embed_tokens'' None, Direct ''embed''),
       (TypeAndName ''Linear'' ''lm_head'' None, Direct ''lm_head'')]\<rparr>"

definition gpt2_declaration :: FamilyDeclaration where
  "gpt2_declaration = \<lparr>fd_model_types = [''gpt2''],
     fd_mappings = [
       (TypeOnly ''GPT2Attention'', Container),
       (TypeOnly ''GPT2MLP'', Container),
       (TypeOnly ''GPT2Block'', Container),
       (TypeAndName ''LayerNorm'' ''ln_1'' None, Direct ''ln1''),
       (TypeAndName ''LayerNorm'' ''ln_2'' None, Direct ''ln2''),
       (TypeAndName ''LayerNorm'' ''ln_f'' None, Direct ''ln_final''),
       (TypeAndName ''Conv1D'' ''c_attn'' None, Fused [\<lparr>fc_canonical = ''q_proj'', fc_split_dim = - 1, fc_split_size = 0\<rparr>, \<lparr>fc_canonical = ''k_proj'', fc_split_dim = - 1, fc_split_size = 0\<rparr>, \<lparr>fc_canonical = ''v_proj'', fc_split_dim = - 1, fc_split_size = 0\<rparr>]),
       (TypeAndName ''Conv1D'' ''c_proj'' (Some ''attn''), Direct ''o_proj''),
       (TypeAndName ''Conv1D'' ''c_fc'' None, Direct ''up_proj''),
       (TypeAndName ''Conv1D'' ''c_proj'' (Some ''mlp''), Direct ''down_proj''),
       (TypeAndName ''Embedding'' ''wte'' None, Direct ''embed''),
       (TypeAndName ''Embedding'' ''wpe'' None, Direct ''pos_embed''),
       (TypeAndName ''Linear'' ''lm_head'' None, Direct ''lm_head''),
       (TypeOnly ''Dropout'', Skip),
       (TypeOnly ''NewGELUActivation'', Skip)]\<rparr>"

definition FAMILIES :: "FamilyDeclaration list" where
  "FAMILIES = [llama_declaration, gpt2_declaration]"

definition family_declaration :: "string \<Rightarrow> FamilyDeclaration option" where
  "family_declaration model_type = List.find (\<lambda>decl. model_type \<in> set (fd_model_types decl)) FAMILIES"

section \<open>Resolution\<close>

fun first_number :: "string list \<Rightarrow> u32 option" where
  "first_number [] = None"
| "first_number (segment # rest) = (case parse_u32 segment of Some idx \<Rightarrow> Some idx | None \<Rightarrow> first_number rest)"

definition extract_layer_index :: "string \<Rightarrow> u32 option" where
  "extract_layer_index path = first_number (split_on CHR ''.'' path)"

fun matches_module :: "ModuleMatcher \<Rightarrow> RawModule \<Rightarrow> bool" where
  "matches_module (TypeOnly type_name) m = (rm_type_name m = type_name)"
| "matches_module (TypeAndName type_name attr_name path_contains) m =
     (rm_type_name m = type_name \<and> rm_attr_name m = attr_name \<and>
      (case path_contains of None \<Rightarrow> True | Some pat \<Rightarrow> str_contains (rm_path m) pat))"

text \<open>\<^verbatim>\<open>format!("{family_name}:{rank}:{layer}:{canonical}:0:output")\<close>.\<close>

definition probe_point_text :: "string \<Rightarrow> u32 \<Rightarrow> u32 \<Rightarrow> string \<Rightarrow> string" where
  "probe_point_text family_name rank layer canonical =
     family_name @ '':'' @ show_u32 rank @ '':'' @ show_u32 layer @ '':'' @ canonical @ '':0:output''"

definition component_for :: "string \<Rightarrow> u32 \<Rightarrow> RawModule \<Rightarrow> string \<Rightarrow> ModuleMapping \<Rightarrow> MappedComponent" where
  "component_for family_name rank m canonical mapping =
     (let layer_index = extract_layer_index (rm_path m) in
      \<lparr>ma_module_path = rm_path m, ma_canonical = canonical, ma_layer_index = layer_index, ma_call_index = 0,
       ma_mapping = mapping,
       ma_probe_point = probe_point_text family_name rank (unwrap_or layer_index 0) canonical\<rparr>)"

definition resolve_fused :: "ModelConfig \<Rightarrow> FusedComponent \<Rightarrow> FusedComponent" where
  "resolve_fused config fc =
     (if fc_split_size fc = 0 then fc\<lparr>fc_split_size := unat (mg_hidden_size config)\<rparr> else fc)"

text \<open>
  The body of the loop over the modules: the first matching rule decides. It returns the components
  found, the words for the vocabulary and the container paths.
\<close>

definition resolve_module ::
  "FamilyDeclaration \<Rightarrow> ModelConfig \<Rightarrow> u32 \<Rightarrow> RawModule \<Rightarrow> MappedComponent list \<times> string list \<times> string list" where
  "resolve_module decl config rank m =
     (let family_name = mg_model_type config in
      case List.find (\<lambda>(matcher, _). matches_module matcher m) (fd_mappings decl) of
        Some (_, Skip) \<Rightarrow> ([], [], [])
      | Some (_, Container) \<Rightarrow> ([], [], [rm_path m])
      | Some (_, Direct canonical) \<Rightarrow>
          ([component_for family_name rank m canonical (Direct canonical)], [canonical], [])
      | Some (_, Fused fused_comps) \<Rightarrow>
          ([component_for family_name rank m (''_fused.'' @ rm_attr_name m) (Fused (map (resolve_fused config) fused_comps))],
           map fc_canonical fused_comps, [])
      | None \<Rightarrow>
          (let canonical = ''_raw.'' @ rm_path m in
           ([component_for family_name rank m canonical (Direct canonical)], [canonical], [])))"

definition resolve_with_containers ::
  "RawModule list \<Rightarrow> ModelConfig \<Rightarrow> u32 \<Rightarrow> (string, ComponentMap \<times> string list) result" where
  "resolve_with_containers modules config rank =
     (case family_declaration (mg_model_type config) of
        None \<Rightarrow> Err (''unsupported model family: '' @ mg_model_type config)
      | Some decl \<Rightarrow>
          let found = map (resolve_module decl config rank) modules in
          Ok (\<lparr>cm_components = concat (map fst found), cm_model_family = mg_model_type config,
               cm_vocabulary = sort (remdups (concat (map (fst \<circ> snd) found)))\<rparr>,
              concat (map (snd \<circ> snd) found)))"

definition resolve :: "RawModule list \<Rightarrow> ModelConfig \<Rightarrow> u32 \<Rightarrow> (string, ComponentMap) result" where
  "resolve modules config rank = bind_result (resolve_with_containers modules config rank) (\<lambda>(cmap, _). Ok cmap)"

text \<open>
  A pair that occurs twice in the execution order keeps its last position; a component that does not
  occur sorts last. The sort is stable.
\<close>

fun last_position :: "'a \<Rightarrow> nat \<Rightarrow> 'a list \<Rightarrow> nat option" where
  "last_position x i [] = None"
| "last_position x i (y # ys) =
     (case last_position x (Suc i) ys of Some j \<Rightarrow> Some j | None \<Rightarrow> if x = y then Some i else None)"

definition apply_execution_order :: "ComponentMap \<Rightarrow> (string \<times> u32) list \<Rightarrow> ComponentMap" where
  "apply_execution_order cmap execution_order = cmap\<lparr>cm_components :=
     sort_key (\<lambda>c. unwrap_or (last_position (ma_module_path c, ma_call_index c) 0 execution_order) (2 ^ 64 - 1))
       (cm_components cmap)\<rparr>"

section \<open>The probe points of the components\<close>

definition component_point :: "string \<Rightarrow> u32 \<Rightarrow> u32 \<Rightarrow> string \<Rightarrow> probe_point" where
  "component_point family_name rank layer canonical =
     \<lparr>pt_model = Name family_name, pt_rank = Num rank, pt_layer = Num layer,
      pt_component = Path [Named canonical], pt_call_index = Num 0, pt_event = Name ''output''\<rparr>"

lemma output_identifier: "is_identifier ''output''"
  by (simp add: is_identifier_def ident_char_def is_ascii_alphanumeric_def is_ascii_alphabetic_def)

lemma parse_probe_point_text:
  assumes "is_identifier family_name" "is_identifier canonical"
  shows "ProbePoint_parse render (probe_point_text family_name rank layer canonical) =
    Ok (component_point family_name rank layer canonical)"
proof -
  have "show_u32 0 = ''0''" by code_simp
  then have "probe_point_text family_name rank layer canonical = show_point (component_point family_name rank layer canonical)"
    by (simp add: probe_point_text_def show_point_def component_point_def)
  moreover have "point_ok (component_point family_name rank layer canonical)"
    using assms output_identifier by (simp add: point_ok_def component_point_def)
  ultimately show ?thesis
    by (simp add: ProbePoint_parse_def parse_all_def point_print)
qed

text \<open>An underscore cannot start a component, so such a text is not a probe point.\<close>

lemma parse_underscore:
  assumes "is_identifier family_name"
  shows "ProbePoint_parse render (probe_point_text family_name rank layer (CHR ''_'' # c)) =
    Err (render (probe_point_text family_name rank layer (CHR ''_'' # c)))"
proof -
  have "alpha1 (CHR ''_'' # x) = Backtrack" for x
    by (simp add: alpha1_def take_while1_def is_ascii_alphabetic_def)
  then have "component_or_wild_p (CHR ''_'' # x) = Backtrack" for x
    by (simp add: component_or_wild_p_def alt2_right wildcard_fails separated1_def component_seg_p_def identifier_p_def)
  moreover have "name_or_wild_p (family_name @ CHR '':'' # x) = POk (Name family_name) (CHR '':'' # x)" for x
    using name_print [of "Name family_name" "CHR '':'' # x"] assms by simp
  moreover have "num_or_wild_p (show_u32 n @ CHR '':'' # x) = POk (Num n) (CHR '':'' # x)" for n x
    using num_print [of "CHR '':'' # x" "Num n"] by simp
  ultimately show ?thesis
    by (simp add: ProbePoint_parse_def parse_all_def probe_point_parser_def probe_point_text_def colon_def)
qed

lemma family_model_identifier:
  "family_declaration t = Some decl \<Longrightarrow> is_identifier t \<and> decl \<in> set FAMILIES"
  by (auto simp: family_declaration_def FAMILIES_def llama_declaration_def gpt2_declaration_def is_identifier_def
      ident_char_def is_ascii_alphanumeric_def is_ascii_alphabetic_def is_ascii_digit_def split: if_splits)

fun direct_name_ok :: "ModuleMapping \<Rightarrow> bool" where
  "direct_name_ok (Direct c) = is_identifier c"
| "direct_name_ok _ = True"

lemma direct_names: "decl \<in> set FAMILIES \<Longrightarrow> (m, mapping) \<in> set (fd_mappings decl) \<Longrightarrow> direct_name_ok mapping"
proof -
  have "list_all (\<lambda>decl. list_all (direct_name_ok \<circ> snd) (fd_mappings decl)) FAMILIES" by code_simp
  then show "decl \<in> set FAMILIES \<Longrightarrow> (m, mapping) \<in> set (fd_mappings decl) \<Longrightarrow> direct_name_ok mapping"
    by (fastforce simp: list_all_iff)
qed

lemma identifier_head: "is_identifier c \<Longrightarrow> \<not> starts_with ''_'' c"
  by (cases c) (auto simp: is_identifier_def starts_with_def is_ascii_alphabetic_def)

text \<open>What a module resolves to: at most one component, named after the module's rule or marked by an underscore.\<close>

lemma resolve_module_component:
  assumes "decl \<in> set FAMILIES" "c \<in> set (fst (resolve_module decl config rank m))"
  shows "\<exists>mapping. c = component_for (mg_model_type config) rank m (ma_canonical c) mapping \<and>
    (is_identifier (ma_canonical c) \<or> starts_with ''_'' (ma_canonical c))"
proof (cases "List.find (\<lambda>(matcher, _). matches_module matcher m) (fd_mappings decl)")
  case None
  with assms(2) show ?thesis
    by (auto simp: resolve_module_def Let_def component_for_def starts_with_def)
next
  case (Some r)
  then have "direct_name_ok (snd r)" using direct_names [OF assms(1)] find_Some_mem [OF Some] by (metis prod.collapse)
  with Some assms(2) show ?thesis
    by (cases r; cases "snd r") (auto simp: resolve_module_def Let_def component_for_def starts_with_def)
qed

text \<open>C35: what the probe point of a resolved component denotes. For every model the adapter accepts, the text
  it attaches to a component parses to the point of that family, rank, layer and canonical name when the
  component has a canonical name of its family's table, and is no probe point at all for the fused and
  unrecognised modules, whose names start with an underscore: no pattern, not even a wildcard, selects them.
\<close>

theorem resolve_probe_points:
  assumes "resolve_with_containers modules config rank = Ok (cmap, containers)" "c \<in> set (cm_components cmap)"
  shows "ProbePoint_parse render (ma_probe_point c) =
    (if starts_with ''_'' (ma_canonical c) then Err (render (ma_probe_point c))
     else Ok (component_point (cm_model_family cmap) rank (unwrap_or (ma_layer_index c) 0) (ma_canonical c)))"
proof -
  obtain decl where decl: "family_declaration (mg_model_type config) = Some decl"
    and cmap: "cm_components cmap = concat (map (fst \<circ> resolve_module decl config rank) modules)"
      "cm_model_family cmap = mg_model_type config"
    using assms(1) by (auto simp: resolve_with_containers_def Let_def comp_def split: option.splits)
  note fam = family_model_identifier [OF decl]
  obtain m where "c \<in> set (fst (resolve_module decl config rank m))"
    using assms(2) by (auto simp: cmap)
  from resolve_module_component [OF _ this] fam obtain mapping
    where c: "c = component_for (mg_model_type config) rank m (ma_canonical c) mapping"
      and name: "is_identifier (ma_canonical c) \<or> starts_with ''_'' (ma_canonical c)" by blast
  have point: "ma_probe_point c = probe_point_text (mg_model_type config) rank (unwrap_or (ma_layer_index c) 0) (ma_canonical c)"
    by (subst (1 2) c) (simp add: component_for_def Let_def)
  show ?thesis
  proof (cases "starts_with ''_'' (ma_canonical c)")
    case True
    then obtain t where "ma_canonical c = CHR ''_'' # t" by (cases "ma_canonical c") (auto simp: starts_with_def)
    then show ?thesis using True fam by (simp add: point parse_underscore)
  next
    case False
    then show ?thesis using name fam by (simp add: point cmap parse_probe_point_text)
  qed
qed

definition demo_c_attn :: RawModule where
  "demo_c_attn = \<lparr>rm_path = ''transformer.h.0.attn.c_attn'', rm_type_name = ''Conv1D'', rm_attr_name = ''c_attn''\<rparr>"

definition demo_c_proj :: RawModule where
  "demo_c_proj = \<lparr>rm_path = ''transformer.h.1.mlp.c_proj'', rm_type_name = ''Conv1D'', rm_attr_name = ''c_proj''\<rparr>"

definition demo_config :: ModelConfig where
  "demo_config = \<lparr>mg_model_type = ''gpt2'', mg_num_layers = 2, mg_num_heads = 4, mg_hidden_size = 8, mg_num_kv_heads = None\<rparr>"

theorem resolve_probe_points_witness:
  "\<exists>cmap containers c d. resolve_with_containers [demo_c_attn, demo_c_proj] demo_config 0 = Ok (cmap, containers) \<and>
     c \<in> set (cm_components cmap) \<and> d \<in> set (cm_components cmap) \<and>
     (\<forall>render. ProbePoint_parse render (ma_probe_point c) = Err (render (ma_probe_point c))) \<and>
     (\<forall>render. ProbePoint_parse render (ma_probe_point d) = Ok (component_point ''gpt2'' 0 1 ''down_proj''))"
proof -
  let ?c = "component_for ''gpt2'' 0 demo_c_attn ''_fused.c_attn''
    (Fused (map (\<lambda>n. \<lparr>fc_canonical = n, fc_split_dim = - 1, fc_split_size = 8\<rparr>) [''q_proj'', ''k_proj'', ''v_proj'']))"
  let ?d = "component_for ''gpt2'' 0 demo_c_proj ''down_proj'' (Direct ''down_proj'')"
  let ?map = "\<lparr>cm_components = [?c, ?d], cm_model_family = ''gpt2'',
    cm_vocabulary = sort (remdups [''q_proj'', ''k_proj'', ''v_proj'', ''down_proj''])\<rparr>"
  have decl: "family_declaration ''gpt2'' = Some gpt2_declaration"
    by (simp add: family_declaration_def FAMILIES_def llama_declaration_def gpt2_declaration_def)
  have contains: "str_contains ''transformer.h.1.mlp.c_proj'' ''mlp''" "\<not> str_contains ''transformer.h.1.mlp.c_proj'' ''attn''"
    by code_simp+
  have "resolve_module gpt2_declaration demo_config 0 demo_c_attn = ([?c], [''q_proj'', ''k_proj'', ''v_proj''], [])"
    by (simp add: resolve_module_def gpt2_declaration_def demo_config_def demo_c_attn_def demo_c_proj_def resolve_fused_def)
  moreover have "resolve_module gpt2_declaration demo_config 0 demo_c_proj = ([?d], [''down_proj''], [])"
    by (simp add: resolve_module_def gpt2_declaration_def demo_config_def demo_c_attn_def demo_c_proj_def contains)
  moreover have "mg_model_type demo_config = ''gpt2''" by (simp add: demo_config_def)
  ultimately have r: "resolve_with_containers [demo_c_attn, demo_c_proj] demo_config 0 = Ok (?map, [])"
    using decl by (simp add: resolve_with_containers_def Let_def del: sort_key_simps)
  have num: "parse_u32 ''1'' = Some 1" "parse_u32 ''transformer'' = None" "parse_u32 ''h'' = None"
    by (simp_all add: parse_u32_def parse_unsigned_def strip_plus_def is_ascii_digit_def digit_value_def)
  have names: "starts_with ''_'' (ma_canonical ?c)" "\<not> starts_with ''_'' (ma_canonical ?d)"
    "ma_canonical ?d = ''down_proj''" "unwrap_or (ma_layer_index ?d) 0 = 1"
    by (simp_all add: component_for_def Let_def starts_with_def demo_c_attn_def demo_c_proj_def extract_layer_index_def num)
  show ?thesis
  proof (intro exI conjI allI)
    show "resolve_with_containers [demo_c_attn, demo_c_proj] demo_config 0 = Ok (?map, [])" by (rule r)
    show "ProbePoint_parse render (ma_probe_point ?c) = Err (render (ma_probe_point ?c))" for render
      using resolve_probe_points [OF r, of ?c render] names(1) by simp
    show "ProbePoint_parse render (ma_probe_point ?d) = Ok (component_point ''gpt2'' 0 1 ''down_proj'')" for render
      using resolve_probe_points [OF r, of ?d render] names(2) unfolding names(3,4) by simp
  qed simp_all
qed

end
