(* ===== verification/Worker_Capture.thy ===== *)
theory Worker_Capture
  imports Worker_Adapter Protocol_Messages Host_Messages
begin

text \<open>
  Which components a request selects: \<^verbatim>\<open>crates/rocket-surgeon-worker/src/capture.rs\<close>, the control part of
  a replay, \<^verbatim>\<open>crates/rocket-surgeon-worker/src/replay.rs\<close>, and the parsing helpers of
  \<^verbatim>\<open>crates/rocket-surgeon-worker/src/dispatch.rs\<close>. A slice that does not exist panics: the outer
  \<^const>\<open>None\<close> of \<open>extract_head_index\<close>.
\<close>

section \<open>Capture\<close>

datatype CaptureMode = CaptureNone | CaptureSummary | CaptureFull

definition capture_mode :: "nat \<Rightarrow> CaptureMode" where
  "capture_mode active_probes_count = (if active_probes_count = 0 then CaptureNone else CaptureSummary)"

definition should_capture ::
  "(string \<Rightarrow> parse_error) \<Rightarrow> ComponentMap \<Rightarrow> string \<Rightarrow> u32 \<Rightarrow> (probe_definition \<times> probe_point) list \<Rightarrow> bool" where
  "should_capture render cmap module_path call_index active_probes =
     (case List.find (\<lambda>c. ma_module_path c = module_path \<and> ma_call_index c = call_index) (cm_components cmap) of
        None \<Rightarrow> False
      | Some c \<Rightarrow>
          (case ProbePoint_parse render (ma_probe_point c) of
             Inl _ \<Rightarrow> False
           | Inr target \<Rightarrow> list_ex (\<lambda>(_, pp). ProbePoint_matches pp target) active_probes))"

definition strip_bracket_suffix :: "string \<Rightarrow> string" where
  "strip_bracket_suffix s = (case find_char CHR ''['' s of Some pos \<Rightarrow> take pos s | None \<Rightarrow> s)"

definition parse_target_text :: "string \<Rightarrow> string" where
  "parse_target_text target =
     (let segments = split_on CHR '':'' target in
      if length segments = 5
      then segments ! 0 @ '':'' @ segments ! 1 @ '':'' @ segments ! 2 @ '':'' @ strip_bracket_suffix (segments ! 3)
        @ '':*:'' @ segments ! 4
      else target)"

definition probe_matches_target :: "(string \<Rightarrow> parse_error) \<Rightarrow> string \<Rightarrow> string \<Rightarrow> bool" where
  "probe_matches_target render probe_pt target =
     (case ProbePoint_parse render probe_pt of
        Inl _ \<Rightarrow> False
      | Inr point \<Rightarrow>
          (case ProbePoint_parse render (parse_target_text target) of
             Inl _ \<Rightarrow> False
           | Inr tgt \<Rightarrow> ProbePoint_matches point tgt))"

section \<open>Replay control\<close>

record ReplayContext =
  rc_checkpoint_id :: string
  rc_verify :: bool
  rc_deterministic :: bool
  rc_cosine_threshold :: f64
  rc_mre_threshold :: f64
  rc_stop_at :: "replay_stop_at option"
  rc_interventions :: "intervention_recipe list"
  rc_divergences :: "divergence list"
  rc_ticks_replayed :: u32

definition ReplayContext_from_request :: "host_replay_request \<Rightarrow> ReplayContext" where
  "ReplayContext_from_request req =
     \<lparr>rc_checkpoint_id = hrq_checkpoint_id req, rc_verify = hrq_verify req,
      rc_deterministic = hrq_deterministic req, rc_cosine_threshold = hrq_cosine_threshold req,
      rc_mre_threshold = hrq_mre_threshold req, rc_stop_at = hrq_stop_at req,
      rc_interventions = hrq_interventions req, rc_divergences = [], rc_ticks_replayed = 0\<rparr>"

definition should_stop :: "ReplayContext \<Rightarrow> u32 \<Rightarrow> string \<Rightarrow> bool" where
  "should_stop c layer component =
     (case rc_stop_at c of
        Some stop \<Rightarrow> layer = rsa_layer stop \<and> component = rsa_component stop
      | None \<Rightarrow> False)"

section \<open>Paths, heads and checkpoint names\<close>

definition layer_index_from_path :: "string \<Rightarrow> u32 option" where
  "layer_index_from_path path =
     (let parts = split_on CHR ''.'' path;
          after = dropWhile (\<lambda>s. s \<noteq> ''layers'') parts
      in case (case after of _ # s # _ \<Rightarrow> parse_u32 s | _ \<Rightarrow> None) of
           Some n \<Rightarrow> Some n
         | None \<Rightarrow> first_number parts)"

fun build_layer_container_map :: "(u32 \<times> string) list \<Rightarrow> string list \<Rightarrow> (u32 \<times> string) list" where
  "build_layer_container_map m [] = m"
| "build_layer_container_map m (path # paths) =
     (case layer_index_from_path path of
        None \<Rightarrow> build_layer_container_map m paths
      | Some layer_idx \<Rightarrow>
          build_layer_container_map
            (case map_of m layer_idx of
               Some existing \<Rightarrow> if length path < length existing then AList.update layer_idx path m else m
             | None \<Rightarrow> AList.update layer_idx path m) paths)"

definition is_safe_checkpoint_id :: "string \<Rightarrow> bool" where
  "is_safe_checkpoint_id i \<longleftrightarrow> i \<noteq> [] \<and> CHR ''/'' \<notin> set i \<and> CHR 0x5C \<notin> set i \<and> \<not> str_contains i ''..'' \<and> CHR 0x00 \<notin> set i"

definition ATTENTION_HEAD_COMPONENTS :: "string list" where
  "ATTENTION_HEAD_COMPONENTS = [''o_proj'', ''q_proj'', ''k_proj'', ''v_proj'']"

text \<open>
  The slice \<^verbatim>\<open>comp[bracket_start + 1..comp.len() - 1]\<close> panics when the bracket is the last byte, and when
  the last byte is not a character of its own.
\<close>

definition continuation_byte :: "char \<Rightarrow> bool" where
  "continuation_byte c \<longleftrightarrow> (let b = of_char c :: nat in 128 \<le> b \<and> b < 192)"

definition extract_head_index :: "string \<Rightarrow> (string \<times> u32) option option" where
  "extract_head_index target =
     (let segments = split_on CHR '':'' target in
      if length segments \<noteq> 5 then Some None
      else let cmp = segments ! 3 in
        case find_char CHR ''['' cmp of
          None \<Rightarrow> Some None
        | Some bracket_start \<Rightarrow>
            if length cmp - 1 < bracket_start + 1 \<or> continuation_byte (last cmp) then None
            else Some (case parse_u32 (take (length cmp - 1 - (bracket_start + 1)) (drop (bracket_start + 1) cmp)) of
                None \<Rightarrow> None
              | Some idx \<Rightarrow>
                  Some (segments ! 0 @ '':'' @ segments ! 1 @ '':'' @ segments ! 2 @ '':'' @ take bracket_start cmp
                    @ '':'' @ segments ! 4, idx)))"

definition build_tick_probe_point :: "string \<Rightarrow> u32 \<Rightarrow> u32 \<Rightarrow> string \<Rightarrow> u32 \<Rightarrow> probe_point" where
  "build_tick_probe_point model_family rank layer canonical call_index =
     \<lparr>pt_model = Name model_family, pt_rank = Num rank, pt_layer = Num layer,
      pt_component = Path [Named canonical], pt_call_index = Num call_index, pt_event = Name ''output''\<rparr>"

end
