(* ===== verification/Worker_Kv.thy ===== *)
theory Worker_Kv
  imports Host_Messages "HOL-Library.AList"
begin

text \<open>
  The key/value cache of the worker, \<^verbatim>\<open>crates/rocket-surgeon-worker/src/kv.rs\<close>: eviction and pinning of
  token positions, reads and interventions. Floating-point arithmetic on bit patterns is a parameter.
\<close>

section \<open>The state\<close>

definition DEFAULT_LAYERS :: u32 where "DEFAULT_LAYERS = 4"
definition DEFAULT_HEADS :: u32 where "DEFAULT_HEADS = 4"
definition DEFAULT_POSITIONS :: u64 where "DEFAULT_POSITIONS = 8"

record KvCacheState =
  kc_evicted :: "(u64 \<times> u64) list"
  kc_pinned :: "u64 list"

definition KvCacheState_new :: KvCacheState where
  "KvCacheState_new = \<lparr>kc_evicted = [], kc_pinned = []\<rparr>"

definition kv_evict :: "u64 \<Rightarrow> u64 \<Rightarrow> KvCacheState \<Rightarrow> bool \<times> KvCacheState" where
  "kv_evict position tick c =
     (if position \<in> set (kc_pinned c) then (False, c)
      else (map_of (kc_evicted c) position = None, c\<lparr>kc_evicted := AList.update position tick (kc_evicted c)\<rparr>))"

definition kv_pin :: "u64 \<Rightarrow> KvCacheState \<Rightarrow> KvCacheState" where
  "kv_pin position c =
     c\<lparr>kc_pinned := List.insert position (kc_pinned c), kc_evicted := AList.delete position (kc_evicted c)\<rparr>"

definition kv_is_evicted :: "u64 \<Rightarrow> KvCacheState \<Rightarrow> bool" where
  "kv_is_evicted position c \<longleftrightarrow> map_of (kc_evicted c) position \<noteq> None"

definition kv_evicted_at :: "u64 \<Rightarrow> KvCacheState \<Rightarrow> u64 option" where
  "kv_evicted_at position c = map_of (kc_evicted c) position"

definition kv_reset :: "KvCacheState \<Rightarrow> KvCacheState" where
  "kv_reset c = c\<lparr>kc_evicted := [], kc_pinned := []\<rparr>"

section \<open>Reading\<close>

record kv_f64_ops =
  fo_of_u32 :: "u32 \<Rightarrow> f64"
  fo_add :: "f64 \<Rightarrow> f64 \<Rightarrow> f64"
  fo_mul :: "f64 \<Rightarrow> f64 \<Rightarrow> f64"
  fo_div :: "f64 \<Rightarrow> f64 \<Rightarrow> f64"

text \<open>The literals \<^verbatim>\<open>10.0\<close>, \<^verbatim>\<open>0.1\<close>, \<^verbatim>\<open>4.0\<close> and \<^verbatim>\<open>1.5\<close> by their bits.\<close>

definition kv_salt :: "u32 \<Rightarrow> u64 \<Rightarrow> u32 \<Rightarrow> bool \<Rightarrow> u64" where
  "kv_salt layer position head is_key =
     ucast layer * 31 + position * 17 + ucast head * 7 + (if is_key then 1 else 0)"

definition kv_metric_value :: "kv_f64_ops \<Rightarrow> kv_metric \<Rightarrow> u32 \<Rightarrow> u64 \<Rightarrow> u32 \<Rightarrow> bool \<Rightarrow> f64" where
  "kv_metric_value F metric layer position head is_key =
     (let base = fo_add F (fo_div F (fo_of_u32 F (ucast (kv_salt layer position head is_key mod 99))) 0x4024000000000000)
            0x3FB999999999999A
      in case metric of
           Metric_L2Norm \<Rightarrow> base
         | Metric_Mean \<Rightarrow> fo_div F base 0x4010000000000000
         | Metric_AbsMax \<Rightarrow> fo_mul F base 0x3FF8000000000000)"

definition default_range :: "'a::len word \<Rightarrow> 'a word list" where
  "default_range n = map word_of_nat [0..<unat n]"

definition resolve_dims ::
  "u32 list option \<Rightarrow> u64 list option \<Rightarrow> u32 list option \<Rightarrow> u32 list \<times> u64 list \<times> u32 list" where
  "resolve_dims layers positions heads =
     (unwrap_or layers (default_range DEFAULT_LAYERS), unwrap_or positions (default_range DEFAULT_POSITIONS),
      unwrap_or heads (default_range DEFAULT_HEADS))"

definition kv_entry :: "kv_f64_ops \<Rightarrow> host_kv_read_request \<Rightarrow> KvCacheState \<Rightarrow> u32 \<Rightarrow> u64 \<Rightarrow> u32 \<Rightarrow> kv_cache_entry" where
  "kv_entry F req c layer position head =
     (let want_k = (hkq_slot req = Slot_K \<or> hkq_slot req = Slot_Both);
          want_v = (hkq_slot req = Slot_V \<or> hkq_slot req = Slot_Both);
          (k_metric, v_metric, overlay) =
            (if kv_is_evicted position c then (None, None, Some Ov_Evicted)
             else (if want_k then Some (kv_metric_value F (hkq_metric req) layer position head True) else None,
                   if want_v then Some (kv_metric_value F (hkq_metric req) layer position head False) else None,
                   None))
      in \<lparr>ke_layer = layer, ke_position = position, ke_head = head, ke_k_metric = k_metric,
          ke_v_metric = v_metric, ke_overlay = overlay\<rparr>)"

definition kv_read :: "kv_f64_ops \<Rightarrow> host_kv_read_request \<Rightarrow> KvCacheState \<Rightarrow> host_kv_read_response" where
  "kv_read F req c =
     (let (layers, positions, heads) = resolve_dims (hkq_layers req) (hkq_positions req) (hkq_heads req) in
      \<lparr>hk_entries = concat (map (\<lambda>layer. concat (map (\<lambda>position. map (kv_entry F req c layer position) heads) positions)) layers),
       hk_evicted = concat (map (\<lambda>position. case kv_evicted_at position c of
           Some tick \<Rightarrow> [\<lparr>kei_position = position, kei_evicted_at_tick = tick\<rparr>] | None \<Rightarrow> []) positions)\<rparr>)"

section \<open>Intervening\<close>

fun evict_all :: "u64 \<Rightarrow> u64 list \<Rightarrow> u64 \<Rightarrow> KvCacheState \<Rightarrow> u64 \<times> KvCacheState" where
  "evict_all tick [] n c = (n, c)"
| "evict_all tick (pos # ps) n c =
     (let (fresh, c) = kv_evict pos tick c in evict_all tick ps (if fresh then n + 1 else n) c)"

definition kv_intervene ::
  "host_kv_intervene_request \<Rightarrow> u64 \<Rightarrow> KvCacheState \<Rightarrow> host_kv_intervene_response \<times> KvCacheState" where
  "kv_intervene req current_tick c =
     (let heads = unwrap_or (hxq_heads req) (default_range DEFAULT_HEADS);
          head_count = word_of_nat (max (length heads) 1) :: u64;
          slot_factor = (case hxq_slot req of Slot_Both \<Rightarrow> 2 | Slot_K \<Rightarrow> 1 | Slot_V \<Rightarrow> 1) :: u64;
          (applied_op, touched_positions, c) =
            (case hxq_operation req of
               Op_Evict \<Rightarrow> (let (n, c) = evict_all current_tick (hxq_positions req) 0 c in (''evict'', n, c))
             | Op_Pin \<Rightarrow> (''pin'', word_of_nat (length (hxq_positions req)), fold kv_pin (hxq_positions req) c)
             | Op_Zero \<Rightarrow> (''zero'', word_of_nat (length (hxq_positions req)), c)
             | Op_Scale _ \<Rightarrow> (''scale'', word_of_nat (length (hxq_positions req)), c))
      in (\<lparr>hx_slots_modified = touched_positions * word_of_nat (max (length (hxq_layers req)) 1) * head_count * slot_factor,
           hx_applied_op = applied_op\<rparr>, c))"

section \<open>What interventions do to positions\<close>

lemma evict_all_state:
  "map_of (kc_evicted (snd (evict_all tick ps n c))) p =
     (if p \<in> set ps \<and> p \<notin> set (kc_pinned c) then Some tick else map_of (kc_evicted c) p)"
  "kc_pinned (snd (evict_all tick ps n c)) = kc_pinned c"
  by (induction ps arbitrary: n c) (auto simp: kv_evict_def update_conv' Let_def split: if_splits)

lemma pin_all_state:
  "map_of (kc_evicted (fold kv_pin ps c)) p = (if p \<in> set ps then None else map_of (kc_evicted c) p)"
  "set (kc_pinned (fold kv_pin ps c)) = set (kc_pinned c) \<union> set ps"
  by (induction ps arbitrary: c) (auto simp: kv_pin_def delete_conv')

lemma intervene_evicted:
  "kv_evicted_at p (snd (kv_intervene req tick c)) =
     (if p \<in> set (hxq_positions req) then
        (case hxq_operation req of
           Op_Evict \<Rightarrow> if p \<in> set (kc_pinned c) then kv_evicted_at p c else Some tick
         | Op_Pin \<Rightarrow> None
         | _ \<Rightarrow> kv_evicted_at p c)
      else kv_evicted_at p c)"
  by (simp add: kv_intervene_def kv_evicted_at_def Let_def evict_all_state pin_all_state
      split: kv_intervene_op.splits prod.splits) (metis evict_all_state(1) snd_conv)

lemma intervene_pinned:
  "set (kc_pinned (snd (kv_intervene req tick c))) =
     set (kc_pinned c) \<union> (if hxq_operation req = Op_Pin then set (hxq_positions req) else {})"
  by (simp add: kv_intervene_def Let_def pin_all_state split: kv_intervene_op.splits prod.splits)
    (metis evict_all_state(2) snd_conv)

definition kv_run :: "(host_kv_intervene_request \<times> u64) list \<Rightarrow> KvCacheState \<Rightarrow> KvCacheState" where
  "kv_run reqs c = fold (\<lambda>(req, tick) c. snd (kv_intervene req tick c)) reqs c"

text \<open>
  The specification of a position: what the interventions so far say of it, latest first. A pin is
  final; before one, the latest eviction counts.
\<close>

datatype kv_status = Live | EvictedAt u64 | Pinned

fun kv_next :: "u64 \<Rightarrow> host_kv_intervene_request \<times> u64 \<Rightarrow> kv_status \<Rightarrow> kv_status" where
  "kv_next p (req, tick) Pinned = Pinned"
| "kv_next p (req, tick) s =
     (if p \<notin> set (hxq_positions req) then s
      else case hxq_operation req of Op_Evict \<Rightarrow> EvictedAt tick | Op_Pin \<Rightarrow> Pinned | _ \<Rightarrow> s)"

definition kv_status_of :: "KvCacheState \<Rightarrow> u64 \<Rightarrow> kv_status" where
  "kv_status_of c p =
     (if p \<in> set (kc_pinned c) then Pinned
      else case kv_evicted_at p c of Some t \<Rightarrow> EvictedAt t | None \<Rightarrow> Live)"

definition kv_sound :: "KvCacheState \<Rightarrow> bool" where
  "kv_sound c \<longleftrightarrow> (\<forall>p \<in> set (kc_pinned c). kv_evicted_at p c = None)"

lemma kv_sound_intervene: "kv_sound c \<Longrightarrow> kv_sound (snd (kv_intervene req tick c))"
  by (auto simp: kv_sound_def intervene_evicted intervene_pinned split: if_splits kv_intervene_op.splits)

lemma kv_status_intervene:
  "kv_sound c \<Longrightarrow> kv_status_of (snd (kv_intervene req tick c)) p = kv_next p (req, tick) (kv_status_of c p)"
  by (auto simp: kv_status_of_def kv_sound_def intervene_evicted intervene_pinned
      split: option.splits kv_intervene_op.splits)

lemma kv_run_status:
  "kv_sound c \<Longrightarrow> kv_sound (kv_run reqs c) \<and> kv_status_of (kv_run reqs c) p = fold (kv_next p) reqs (kv_status_of c p)"
  unfolding kv_run_def
  by (induction reqs arbitrary: c) (auto simp: kv_sound_intervene kv_status_intervene)

text \<open>C36: a read reports exactly what the interventions did. After any sequence of interventions, the entry of
  a position carries the eviction overlay, and no norms, iff the abstract history of that position ends
  evicted, and otherwise the norms of the slots asked for; a pinned position is never reported evicted
  again; and the eviction list gives the tick of the latest eviction.
\<close>

theorem kv_read_reports_history:
  fixes reqs :: "(host_kv_intervene_request \<times> u64) list" and F :: kv_f64_ops and req :: host_kv_read_request
  defines "st \<equiv> \<lambda>p. fold (kv_next p) reqs Live" and "resp \<equiv> kv_read F req (kv_run reqs KvCacheState_new)"
  shows "(\<forall>e \<in> set (hk_entries resp).
      (case st (ke_position e) of
         EvictedAt _ \<Rightarrow> ke_overlay e = Some Ov_Evicted \<and> ke_k_metric e = None \<and> ke_v_metric e = None
       | _ \<Rightarrow> ke_overlay e = None \<and> (ke_k_metric e \<noteq> None \<longleftrightarrow> hkq_slot req \<noteq> Slot_V) \<and>
              (ke_v_metric e \<noteq> None \<longleftrightarrow> hkq_slot req \<noteq> Slot_K))) \<and>
    set (hk_evicted resp) = {\<lparr>kei_position = p, kei_evicted_at_tick = t\<rparr> | p t.
      p \<in> set (fst (snd (resolve_dims (hkq_layers req) (hkq_positions req) (hkq_heads req)))) \<and> st p = EvictedAt t}"
proof -
  let ?c = "kv_run reqs KvCacheState_new"
  have new: "kv_sound KvCacheState_new" "kv_status_of KvCacheState_new p = Live" for p
    by (simp_all add: kv_sound_def KvCacheState_new_def kv_status_of_def kv_evicted_at_def)
  have run: "kv_sound ?c" "kv_status_of ?c p = st p" for p
    using kv_run_status [OF new(1), of reqs p] new(2) by (simp_all add: st_def)
  have at: "kv_evicted_at p ?c = (case st p of EvictedAt t \<Rightarrow> Some t | _ \<Rightarrow> None)" for p
    using run(1) run(2) [of p, symmetric]
    by (auto simp: kv_status_of_def kv_sound_def split: option.splits)
  then have ev: "kv_is_evicted p ?c \<longleftrightarrow> (\<exists>t. st p = EvictedAt t)" for p
    using at [of p] by (simp add: kv_is_evicted_def kv_evicted_at_def split: kv_status.splits)
  have entry: "case st (ke_position e) of
         EvictedAt _ \<Rightarrow> ke_overlay e = Some Ov_Evicted \<and> ke_k_metric e = None \<and> ke_v_metric e = None
       | _ \<Rightarrow> ke_overlay e = None \<and> (ke_k_metric e \<noteq> None \<longleftrightarrow> hkq_slot req \<noteq> Slot_V) \<and>
              (ke_v_metric e \<noteq> None \<longleftrightarrow> hkq_slot req \<noteq> Slot_K)" if "e = kv_entry F req ?c l p h" for e l p h
    using that by (cases "hkq_slot req") (auto simp: kv_entry_def Let_def ev split: kv_status.splits)
  have es: "\<exists>l p h. e = kv_entry F req ?c l p h" if "e \<in> set (hk_entries resp)" for e
    using that by (auto simp: resp_def kv_read_def split: prod.splits)
  have "set (hk_evicted resp) = {\<lparr>kei_position = p, kei_evicted_at_tick = t\<rparr> | p t.
      p \<in> set (fst (snd (resolve_dims (hkq_layers req) (hkq_positions req) (hkq_heads req)))) \<and> st p = EvictedAt t}"
    by (auto simp: resp_def kv_read_def at split: prod.splits kv_status.splits)
  with es entry show ?thesis by blast
qed

definition demo_intervene :: "kv_intervene_op \<Rightarrow> u64 list \<Rightarrow> host_kv_intervene_request" where
  "demo_intervene op ps = \<lparr>hxq_model_handle = 1, hxq_layers = [0], hxq_positions = ps, hxq_heads = None,
     hxq_slot = Slot_Both, hxq_operation = op\<rparr>"

definition demo_read :: host_kv_read_request where
  "demo_read = \<lparr>hkq_model_handle = 1, hkq_layers = Some [0], hkq_positions = Some [3, 4], hkq_heads = Some [0],
     hkq_slot = Slot_K, hkq_metric = Metric_Mean\<rparr>"

definition demo_ops :: kv_f64_ops where
  "demo_ops = \<lparr>fo_of_u32 = ucast, fo_add = (+), fo_mul = (*), fo_div = (\<lambda>a b. a)\<rparr>"

theorem kv_read_reports_history_witness:
  "(let reqs = [(demo_intervene Op_Pin [4], 1), (demo_intervene Op_Evict [3, 4], 5)];
        resp = kv_read demo_ops demo_read (kv_run reqs KvCacheState_new)
    in fold (kv_next 3) reqs Live = EvictedAt 5 \<and> fold (kv_next 4) reqs Live = Pinned \<and>
       (\<exists>e \<in> set (hk_entries resp). ke_position e = 3 \<and> ke_overlay e = Some Ov_Evicted) \<and>
       (\<exists>e \<in> set (hk_entries resp). ke_position e = 4 \<and> ke_overlay e = None) \<and>
       set (hk_evicted resp) = {\<lparr>kei_position = 3, kei_evicted_at_tick = 5\<rparr>})"
proof -
  let ?reqs = "[(demo_intervene Op_Pin [4], 1), (demo_intervene Op_Evict [3, 4], 5)]"
  let ?resp = "kv_read demo_ops demo_read (kv_run ?reqs KvCacheState_new)"
  have st: "fold (kv_next 3) ?reqs Live = EvictedAt 5" "fold (kv_next 4) ?reqs Live = Pinned"
    by (simp_all add: demo_intervene_def)
  have pos: "ke_position (kv_entry F req c l p h) = p" for F req c l p h
    by (simp add: kv_entry_def Let_def)
  let ?e = "kv_entry demo_ops demo_read (kv_run ?reqs KvCacheState_new) 0 3 0"
    and ?f = "kv_entry demo_ops demo_read (kv_run ?reqs KvCacheState_new) 0 4 0"
  have e: "?e \<in> set (hk_entries ?resp)" "ke_position ?e = 3" and f: "?f \<in> set (hk_entries ?resp)" "ke_position ?f = 4"
    by (simp_all add: kv_read_def resolve_dims_def demo_read_def pos)
  note main = kv_read_reports_history [of demo_ops demo_read ?reqs]
  have "ke_overlay ?e = Some Ov_Evicted" "ke_overlay ?f = None"
    using bspec [OF conjunct1 [OF main] e(1)] bspec [OF conjunct1 [OF main] f(1)] unfolding e(2) f(2) st by simp_all
  moreover have "{\<lparr>kei_position = p, kei_evicted_at_tick = t\<rparr> | p t. p \<in> {3, 4} \<and> st p = EvictedAt t} =
      {\<lparr>kei_position = 3, kei_evicted_at_tick = 5\<rparr>}" if "st 3 = EvictedAt 5" "st 4 = Pinned" for st :: "u64 \<Rightarrow> kv_status"
    using that by auto
  from this [of "\<lambda>p. fold (kv_next p) ?reqs Live", OF st] conjunct2 [OF main]
  have "set (hk_evicted ?resp) = {\<lparr>kei_position = 3, kei_evicted_at_tick = 5\<rparr>}"
    by (simp add: resolve_dims_def demo_read_def del: fold_simps)
  ultimately show ?thesis
    using st e f unfolding Let_def by blast
qed

end
