(* ===== verification/Worker_Arena.thy ===== *)
theory Worker_Arena
  imports Byte_Layout Decimal Text "HOL-Library.AList" "HOL-Library.Multiset"
begin

text \<open>
  The checkpoint arena of the worker, \<^verbatim>\<open>crates/rocket-surgeon-worker/src/checkpoint.rs\<close>: one anonymous
  mapping cut into equal slots, a free list, an index from (checkpoint, layer) to slot descriptors and
  the order in which checkpoints were created. The mapping is a byte list, a pointer into it is an
  offset; whether \<^verbatim>\<open>mmap\<close> succeeds is an argument. Sizes and slot numbers are natural numbers: \<open>new\<close>
  rejects a capacity that does not fit 64 bits, so no product of a slot number and the slot size wraps.
  A panic (a failed assertion, an index outside a vector) is the outer \<^const>\<open>None\<close>. Hash maps are
  association lists; the one place where their order could show, the search in
  \<open>slot_info_for_checkpoint\<close>, is shown to have at most one match.
\<close>

section \<open>Slot headers\<close>

definition SLOT_MAGIC :: u32 where "SLOT_MAGIC = 0x434B5054"
definition SLOT_HEADER_SIZE :: nat where "SLOT_HEADER_SIZE = 64"

datatype DtypeTag = TagFloat16 | TagBfloat16 | TagFloat32 | TagFloat64

fun DtypeTag_as_u8 :: "DtypeTag \<Rightarrow> u8" where
  "DtypeTag_as_u8 TagFloat16 = 0"
| "DtypeTag_as_u8 TagBfloat16 = 1"
| "DtypeTag_as_u8 TagFloat32 = 2"
| "DtypeTag_as_u8 TagFloat64 = 3"

definition DtypeTag_from_u8 :: "u8 \<Rightarrow> DtypeTag option" where
  "DtypeTag_from_u8 v =
     (if v = 0 then Some TagFloat16 else if v = 1 then Some TagBfloat16
      else if v = 2 then Some TagFloat32 else if v = 3 then Some TagFloat64 else None)"

fun to_torch_str :: "DtypeTag \<Rightarrow> string" where
  "to_torch_str TagFloat16 = ''torch.float16''"
| "to_torch_str TagBfloat16 = ''torch.bfloat16''"
| "to_torch_str TagFloat32 = ''torch.float32''"
| "to_torch_str TagFloat64 = ''torch.float64''"

definition from_torch_str :: "string \<Rightarrow> DtypeTag option" where
  "from_torch_str s =
     (if s = ''torch.float16'' then Some TagFloat16
      else if s = ''torch.bfloat16'' then Some TagBfloat16
      else if s = ''torch.float32'' then Some TagFloat32
      else if s = ''torch.float64'' then Some TagFloat64 else None)"

record SlotHeader =
  sh_magic :: u32
  sh_dtype :: DtypeTag
  sh_ndim :: u8
  sh_shape :: "u64 list"
  sh_byte_len :: u64

text \<open>\<^verbatim>\<open>[u64; 6]\<close> is a list of length 6.\<close>

definition SlotHeader_write_to :: "SlotHeader \<Rightarrow> bytes \<Rightarrow> bytes" where
  "SlotHeader_write_to h buf =
     (let buf = write_at 0 (u32_to_le_bytes (sh_magic h)) buf;
          buf = buf[4 := DtypeTag_as_u8 (sh_dtype h)];
          buf = buf[5 := sh_ndim h];
          buf = write_at 6 [0, 0] buf;
          buf = write_words u64_to_le_bytes 8 8 (sh_shape h) buf
      in write_at 56 (u64_to_le_bytes (sh_byte_len h)) buf)"

definition SlotHeader_read_from :: "bytes \<Rightarrow> SlotHeader option" where
  "SlotHeader_read_from buf =
     (let magic = u32_from_le_bytes (read_at 0 4 buf) in
      if magic \<noteq> SLOT_MAGIC then None
      else case DtypeTag_from_u8 (buf ! 4) of
        None \<Rightarrow> None
      | Some dtype \<Rightarrow>
          Some \<lparr>sh_magic = magic, sh_dtype = dtype, sh_ndim = buf ! 5,
                sh_shape = read_words u64_from_le_bytes 8 8 6 buf,
                sh_byte_len = u64_from_le_bytes (read_at 56 8 buf)\<rparr>)"

definition align_up :: "usize \<Rightarrow> usize \<Rightarrow> usize" where
  "align_up val align = and (val + align - 1) (not (align - 1))"

section \<open>The arena\<close>

record SlotDescriptor =
  sd_offset :: nat
  sd_checkpoint_id :: string
  sd_layer_idx :: u32

record CheckpointArena =
  ar_mem :: bytes
  ar_capacity :: nat
  ar_slot_size :: nat
  ar_num_slots :: nat
  ar_free_list :: "nat list"
  ar_slots :: "SlotDescriptor list"
  ar_index :: "((string \<times> u32) \<times> nat) list"
  ar_checkpoint_slots :: "(string \<times> nat list) list"
  ar_checkpoint_order :: "string list"

text \<open>The messages of the \<^verbatim>\<open>anyhow\<close> errors, with the values they print.\<close>

datatype arena_error =
    CapacityOverflow nat nat
  | CapacityZero
  | MmapFailed nat
  | ArenaExhausted
  | CheckpointNotFound string
  | TooManySlots nat
  | SpillIo
  | SpillTooShort
  | SpillBadMagic
  | SpillBadVersion u32
  | SpillTruncatedIndex
  | SpillBadDtype nat
  | SpillTruncated u64 nat
  | SpillTooLarge u64 nat
  | SpillCrcMismatch u32 u32 u32

definition CheckpointArena_new :: "bool \<Rightarrow> nat \<Rightarrow> nat \<Rightarrow> (arena_error, CheckpointArena) result option" where
  "CheckpointArena_new mapped slot_size num_slots =
     (if \<not> SLOT_HEADER_SIZE \<le> slot_size then None
      else Some (
        let capacity = slot_size * num_slots in
        if \<not> capacity < 2 ^ 64 then Err (CapacityOverflow slot_size num_slots)
        else if capacity = 0 then Err CapacityZero
        else if \<not> mapped then Err (MmapFailed capacity)
        else Ok \<lparr>ar_mem = replicate capacity 0, ar_capacity = capacity, ar_slot_size = slot_size,
                 ar_num_slots = num_slots, ar_free_list = rev [0..<num_slots], ar_slots = [],
                 ar_index = [], ar_checkpoint_slots = [], ar_checkpoint_order = []\<rparr>))"

definition available :: "CheckpointArena \<Rightarrow> nat" where
  "available a = length (ar_free_list a)"

definition default_header :: "nat \<Rightarrow> SlotHeader" where
  "default_header slot_size =
     \<lparr>sh_magic = SLOT_MAGIC, sh_dtype = TagFloat32, sh_ndim = 0, sh_shape = replicate 6 0,
      sh_byte_len = word_of_nat (slot_size - SLOT_HEADER_SIZE)\<rparr>"

definition update_header :: "nat \<Rightarrow> SlotHeader \<Rightarrow> CheckpointArena \<Rightarrow> CheckpointArena" where
  "update_header slot_ptr h a =
     a\<lparr>ar_mem := write_at slot_ptr (SlotHeader_write_to h (replicate SLOT_HEADER_SIZE 0)) (ar_mem a)\<rparr>"

text \<open>
  A vector's \<^verbatim>\<open>pop\<close> takes from the end: the free list is kept with its end last, as in the code.
\<close>

definition alloc_slot ::
  "string \<Rightarrow> u32 \<Rightarrow> CheckpointArena \<Rightarrow> (arena_error, nat \<times> SlotHeader) result \<times> CheckpointArena" where
  "alloc_slot checkpoint_id layer_idx a =
     (if ar_free_list a = [] then (Err ArenaExhausted, a)
      else
        let slot_idx = last (ar_free_list a);
            offset = slot_idx * ar_slot_size a;
            header = default_header (ar_slot_size a);
            a = update_header offset header (a\<lparr>ar_free_list := butlast (ar_free_list a)\<rparr>);
            desc_idx = length (ar_slots a);
            slots = (case map_of (ar_checkpoint_slots a) checkpoint_id of None \<Rightarrow> [] | Some ss \<Rightarrow> ss);
            is_new = (map_of (ar_checkpoint_slots a) checkpoint_id = None)
        in (Ok (offset, header),
            a\<lparr>ar_slots := ar_slots a @ [\<lparr>sd_offset = offset, sd_checkpoint_id = checkpoint_id, sd_layer_idx = layer_idx\<rparr>],
              ar_index := AList.update (checkpoint_id, layer_idx) desc_idx (ar_index a),
              ar_checkpoint_slots := AList.update checkpoint_id (slots @ [slot_idx]) (ar_checkpoint_slots a),
              ar_checkpoint_order :=
                (if is_new then ar_checkpoint_order a @ [checkpoint_id] else ar_checkpoint_order a)\<rparr>))"

definition read_header :: "CheckpointArena \<Rightarrow> nat \<Rightarrow> SlotHeader option" where
  "read_header a off = SlotHeader_read_from (read_at off SLOT_HEADER_SIZE (ar_mem a))"

definition get_slot :: "string \<Rightarrow> u32 \<Rightarrow> CheckpointArena \<Rightarrow> (nat \<times> SlotHeader) option option" where
  "get_slot checkpoint_id layer_idx a =
     (case map_of (ar_index a) (checkpoint_id, layer_idx) of
        None \<Rightarrow> Some None
      | Some desc_idx \<Rightarrow>
          if desc_idx < length (ar_slots a)
          then let off = sd_offset (ar_slots a ! desc_idx) in
            Some (map_option (\<lambda>h. (off, h)) (read_header a off))
          else None)"

definition free_checkpoint :: "string \<Rightarrow> CheckpointArena \<Rightarrow> CheckpointArena" where
  "free_checkpoint checkpoint_id a =
     (case map_of (ar_checkpoint_slots a) checkpoint_id of
        None \<Rightarrow> a
      | Some slot_indices \<Rightarrow>
          a\<lparr>ar_checkpoint_slots := AList.delete checkpoint_id (ar_checkpoint_slots a),
            ar_free_list := ar_free_list a @ slot_indices,
            ar_index := filter (\<lambda>kv. fst (fst kv) \<noteq> checkpoint_id) (ar_index a),
            ar_checkpoint_order := filter (\<lambda>i. i \<noteq> checkpoint_id) (ar_checkpoint_order a)\<rparr>)"

text \<open>\<^verbatim>\<open>debug_assert!\<close> is compiled out in the release profile, so the snapshot is not looked at.\<close>

type_synonym ArenaSnapshot = nat

definition snapshot :: "CheckpointArena \<Rightarrow> ArenaSnapshot" where
  "snapshot a = length (ar_free_list a)"

definition rollback :: "ArenaSnapshot \<Rightarrow> string \<Rightarrow> CheckpointArena \<Rightarrow> CheckpointArena" where
  "rollback snap checkpoint_id a = free_checkpoint checkpoint_id a"

definition oldest_checkpoint :: "CheckpointArena \<Rightarrow> string option" where
  "oldest_checkpoint a = (case ar_checkpoint_order a of [] \<Rightarrow> None | i # _ \<Rightarrow> Some i)"

definition sub_segment :: "string \<Rightarrow> u32 option" where
  "sub_segment i =
     (if starts_with ''sub-'' i then parse_u32 (hd (split_on (CHR ''-'') (drop 4 i))) else None)"

definition oldest_evictable :: "u32 \<Rightarrow> CheckpointArena \<Rightarrow> string option" where
  "oldest_evictable current_segment a =
     (case List.find (\<lambda>i. case sub_segment i of None \<Rightarrow> False | Some seg \<Rightarrow> seg \<noteq> current_segment)
         (ar_checkpoint_order a) of
        Some i \<Rightarrow> Some i
      | None \<Rightarrow> List.find (starts_with ''auto-'') (ar_checkpoint_order a))"

fun find_at :: "SlotDescriptor list \<Rightarrow> nat \<Rightarrow> ((string \<times> u32) \<times> nat) list \<Rightarrow> nat option option" where
  "find_at slots off [] = Some None"
| "find_at slots off ((k, d) # al) =
     (if d < length slots
      then if sd_offset (slots ! d) = off then Some (Some d) else find_at slots off al
      else None)"

definition slot_info :: "CheckpointArena \<Rightarrow> nat \<Rightarrow> (u32 \<times> nat \<times> SlotHeader) option option" where
  "slot_info a slot_idx =
     (let off = slot_idx * ar_slot_size a in
      case find_at (ar_slots a) off (ar_index a) of
        None \<Rightarrow> None
      | Some None \<Rightarrow> Some None
      | Some (Some d) \<Rightarrow>
          Some (map_option (\<lambda>h. (sd_layer_idx (ar_slots a ! d), off, h)) (read_header a off)))"

fun filter_map :: "('a \<Rightarrow> 'b option option) \<Rightarrow> 'a list \<Rightarrow> 'b list option" where
  "filter_map f [] = Some []"
| "filter_map f (x # xs) =
     (case f x of
        None \<Rightarrow> None
      | Some r \<Rightarrow> map_option (\<lambda>ys. case r of None \<Rightarrow> ys | Some y \<Rightarrow> y # ys) (filter_map f xs))"

definition slot_info_for_checkpoint :: "string \<Rightarrow> CheckpointArena \<Rightarrow> (u32 \<times> nat \<times> SlotHeader) list option" where
  "slot_info_for_checkpoint checkpoint_id a =
     (case map_of (ar_checkpoint_slots a) checkpoint_id of
        None \<Rightarrow> Some []
      | Some slot_indices \<Rightarrow> filter_map (slot_info a) slot_indices)"

lemmas arena_defs = alloc_slot_def update_header_def free_checkpoint_def

section \<open>The header codec\<close>

lemma DtypeTag_from_as_u8 [simp]: "DtypeTag_from_u8 (DtypeTag_as_u8 t) = Some t"
  by (cases t) (simp_all add: DtypeTag_from_u8_def)

lemma from_to_torch_str [simp]: "from_torch_str (to_torch_str t) = Some t"
  by (cases t) (simp_all add: from_torch_str_def)

text \<open>The fields that both the slot header and the entries of a spill file start with.\<close>

definition shape_layout :: "u32 \<Rightarrow> u8 \<Rightarrow> u8 \<Rightarrow> u64 list \<Rightarrow> bytes" where
  "shape_layout w dt nd sh = u32_to_le_bytes w @ [dt, nd, 0, 0] @ concat (map u64_to_le_bytes sh)"

lemma length_shape_layout [simp]: "length sh = 6 \<Longrightarrow> length (shape_layout w dt nd sh) = 56"
  by (simp add: shape_layout_def length_concat_words [where w = 8])

lemma shape_writes:
  assumes "length sh = 6" "56 \<le> m"
  shows "write_words u64_to_le_bytes 8 8 sh (write_at 6 [0, 0]
    ((write_at 0 (u32_to_le_bytes w) (replicate m 0))[4 := dt, 5 := nd])) =
    shape_layout w dt nd sh @ replicate (m - 56) 0"
proof -
  have w1: "write_at 0 (u32_to_le_bytes w) (replicate m 0) = u32_to_le_bytes w @ replicate (m - 4) 0"
    using write_field [of 0 "[]" "u32_to_le_bytes w" m 0] assms(2) by simp
  have w2: "(u32_to_le_bytes w @ replicate (m - 4) 0)[4 := dt, 5 := nd] =
      (u32_to_le_bytes w @ [dt, nd]) @ replicate (m - 6) 0"
    using assms(2) by (subst update_field, simp, simp, subst update_field) simp_all
  have w3: "write_at 6 [0, 0] ((u32_to_le_bytes w @ [dt, nd]) @ replicate (m - 6) 0) =
      (u32_to_le_bytes w @ [dt, nd, 0, 0]) @ replicate (m - 8) 0"
    using assms(2) by (subst write_field) simp_all
  show ?thesis
    unfolding w1 w2 w3 using assms by (subst write_words_gap) (simp_all add: shape_layout_def)
qed

lemma shape_reads:
  fixes w :: u32 and dt nd :: u8 and post :: bytes
  assumes "length sh = 6"
  defines "d \<equiv> shape_layout w dt nd sh @ post"
  shows "read_at 0 4 d = u32_to_le_bytes w" "d ! 4 = dt" "d ! 5 = nd"
    "read_words u64_from_le_bytes 8 8 6 d = sh" "56 \<le> off \<Longrightarrow> read_at off n d = read_at (off - 56) n post"
proof -
  show "read_at 0 4 d = u32_to_le_bytes w"
    by (simp add: d_def shape_layout_def read_at_left read_at_all)
  show "d ! 4 = dt" "d ! 5 = nd"
    by (simp_all add: d_def shape_layout_def nth_append)
  show "56 \<le> off \<Longrightarrow> read_at off n d = read_at (off - 56) n post"
    using assms(1) by (simp add: d_def read_at_right)
  have "read_words u64_from_le_bytes 8 8 6 ((u32_to_le_bytes w @ [dt, nd, 0, 0]) @ concat (map u64_to_le_bytes sh) @ post) = sh"
    using assms(1) by (intro read_words_concat) simp_all
  then show "read_words u64_from_le_bytes 8 8 6 d = sh"
    by (simp add: d_def shape_layout_def)
qed

definition header_ok :: "SlotHeader \<Rightarrow> bool" where
  "header_ok h \<longleftrightarrow> sh_magic h = SLOT_MAGIC \<and> length (sh_shape h) = 6"

lemma SlotHeader_write_layout:
  "length (sh_shape h) = 6 \<Longrightarrow> SlotHeader_write_to h (replicate SLOT_HEADER_SIZE 0) =
     shape_layout (sh_magic h) (DtypeTag_as_u8 (sh_dtype h)) (sh_ndim h) (sh_shape h)
       @ u64_to_le_bytes (sh_byte_len h)"
  using write_field [of 56 "shape_layout (sh_magic h) (DtypeTag_as_u8 (sh_dtype h)) (sh_ndim h) (sh_shape h)"
      "u64_to_le_bytes (sh_byte_len h)" 8 0]
  by (simp add: SlotHeader_write_to_def Let_def SLOT_HEADER_SIZE_def shape_writes)

lemma length_SlotHeader_write [simp]:
  "length (sh_shape h) = 6 \<Longrightarrow> length (SlotHeader_write_to h (replicate SLOT_HEADER_SIZE 0)) = SLOT_HEADER_SIZE"
  by (simp add: SlotHeader_write_layout) (simp add: SLOT_HEADER_SIZE_def)

lemma SlotHeader_read_write:
  "header_ok h \<Longrightarrow> SlotHeader_read_from (SlotHeader_write_to h (replicate SLOT_HEADER_SIZE 0)) = Some h"
  by (simp add: header_ok_def SlotHeader_write_layout SlotHeader_read_from_def shape_reads Let_def
      read_at_all)

lemma default_header_ok [simp]: "header_ok (default_header n)"
  by (simp add: header_ok_def default_header_def)

lemma header_ok_shape [simp]: "header_ok h \<Longrightarrow> length (sh_shape h) = 6"
  by (simp add: header_ok_def)

section \<open>The invariant\<close>

text \<open>
  Every slot is either free or held by exactly one checkpoint, and is so exactly once; the index names
  descriptors of slots held by the checkpoint of its key, no two keys name the same slot, and the
  order lists the checkpoints that hold slots.
\<close>

definition index_ok :: "CheckpointArena \<Rightarrow> bool" where
  "index_ok a \<longleftrightarrow>
     (\<forall>i l d. map_of (ar_index a) (i, l) = Some d \<longrightarrow>
        d < length (ar_slots a) \<and> sd_layer_idx (ar_slots a ! d) = l \<and>
        (\<exists>s ss. map_of (ar_checkpoint_slots a) i = Some ss \<and> s \<in> set ss \<and>
           sd_offset (ar_slots a ! d) = s * ar_slot_size a)) \<and>
     (\<forall>k k' d d'. map_of (ar_index a) k = Some d \<longrightarrow> map_of (ar_index a) k' = Some d' \<longrightarrow>
        sd_offset (ar_slots a ! d) = sd_offset (ar_slots a ! d') \<longrightarrow> k = k')"

definition geometry_ok :: "CheckpointArena \<Rightarrow> bool" where
  "geometry_ok a \<longleftrightarrow> SLOT_HEADER_SIZE \<le> ar_slot_size a \<and>
     ar_capacity a = ar_slot_size a * ar_num_slots a \<and> ar_capacity a < 2 ^ 64 \<and>
     length (ar_mem a) = ar_capacity a"

definition held_slots :: "(string \<times> nat list) list \<Rightarrow> nat multiset" where
  "held_slots al = mset (concat (map snd al))"

definition arena_inv :: "CheckpointArena \<Rightarrow> bool" where
  "arena_inv a \<longleftrightarrow> geometry_ok a \<and>
     mset (ar_free_list a) + held_slots (ar_checkpoint_slots a) = mset [0..<ar_num_slots a] \<and>
     distinct (map fst (ar_checkpoint_slots a)) \<and> distinct (map fst (ar_index a)) \<and>
     distinct (ar_checkpoint_order a) \<and> set (ar_checkpoint_order a) = fst ` set (ar_checkpoint_slots a) \<and>
     index_ok a"

definition lookup_slots :: "(string \<times> nat list) list \<Rightarrow> string \<Rightarrow> nat list" where
  "lookup_slots al i = (case map_of al i of None \<Rightarrow> [] | Some ss \<Rightarrow> ss)"

lemma held_slots_update:
  "distinct (map fst al) \<Longrightarrow>
   held_slots (AList.update k v al) + mset (lookup_slots al k) = held_slots al + mset v"
proof (induction al)
  case (Cons x xs)
  then show ?case
    by (cases x) (auto simp: held_slots_def lookup_slots_def ac_simps map_of_eq_None_iff [symmetric])
qed (simp add: held_slots_def lookup_slots_def)

lemma delete_absent: "k \<notin> fst ` set al \<Longrightarrow> AList.delete k al = al"
  by (induction al) auto

lemma held_slots_delete:
  "distinct (map fst al) \<Longrightarrow> held_slots (AList.delete k al) + mset (lookup_slots al k) = held_slots al"
proof (induction al)
  case (Cons x xs)
  then show ?case
    by (cases x) (auto simp: held_slots_def lookup_slots_def ac_simps delete_absent)
qed (simp add: held_slots_def lookup_slots_def)

lemma held_slots_lookup: "map_of al k = Some ss \<Longrightarrow> mset ss \<subseteq># held_slots al"
  by (induction al) (auto simp: held_slots_def subset_mset.add_increasing subset_mset.add_increasing2 split: if_splits)

lemma held_slots_two:
  assumes "map_of al k = Some ss" "map_of al k' = Some ss'" "k \<noteq> k'"
  shows "mset ss + mset ss' \<subseteq># held_slots al"
  using assms
proof (induction al)
  case (Cons x xs)
  obtain y ys where x: "x = (y, ys)" by (cases x)
  have tl: "held_slots (x # xs) = mset ys + held_slots xs" by (simp add: x held_slots_def)
  consider "y = k" | "y = k'" | "y \<noteq> k" "y \<noteq> k'" by blast
  then show ?case
  proof cases
    case 1
    with Cons.prems show ?thesis unfolding tl using held_slots_lookup [of xs k' ss'] by (simp add: x)
  next
    case 2
    with Cons.prems show ?thesis unfolding tl using held_slots_lookup [of xs k ss] by (simp add: x add.commute)
  next
    case 3
    with Cons show ?thesis unfolding tl by (simp add: x subset_mset.add_increasing)
  qed
qed simp

lemma distinct_once: "(\<And>x. count (mset xs) x \<le> 1) \<Longrightarrow> distinct xs"
  by (simp add: distinct_count_atmost_1 le_antisym count_greater_eq_one_iff del: One_nat_def)

lemma slots_partition:
  assumes "arena_inv a"
  shows "distinct (ar_free_list a)" "s \<in> set (ar_free_list a) \<Longrightarrow> s < ar_num_slots a"
    "map_of (ar_checkpoint_slots a) i = Some ss \<Longrightarrow> distinct ss"
    "map_of (ar_checkpoint_slots a) i = Some ss \<Longrightarrow> s \<in> set ss \<Longrightarrow> s < ar_num_slots a \<and> s \<notin> set (ar_free_list a)"
    "map_of (ar_checkpoint_slots a) i = Some ss \<Longrightarrow> map_of (ar_checkpoint_slots a) j = Some ts \<Longrightarrow>
      s \<in> set ss \<Longrightarrow> s \<in> set ts \<Longrightarrow> i = j"
proof -
  let ?h = "held_slots (ar_checkpoint_slots a)"
  have all: "mset (ar_free_list a) + ?h = mset [0..<ar_num_slots a]"
    using assms by (simp add: arena_inv_def)
  have once: "count (mset (ar_free_list a)) x + count ?h x \<le> 1" for x
    using arg_cong [OF all, of "\<lambda>m. count m x"] distinct_count_atmost_1 [of "[0..<ar_num_slots a]"]
    by (simp del: mset_upt count_mset)
  have below: "x < ar_num_slots a" if "x \<in># mset (ar_free_list a) + ?h" for x
    using that unfolding all by simp
  have apart: "x \<notin># ?h" if "x \<in> set (ar_free_list a)" for x
  proof
    assume "x \<in># ?h"
    then have "0 < count ?h x" by simp
    moreover have "0 < count (mset (ar_free_list a)) x" using that by (simp add: count_greater_zero_iff)
    ultimately show False using once [of x] by linarith
  qed
  show "distinct (ar_free_list a)"
    using once by (intro distinct_once) (metis add_leD1)
  show "s \<in> set (ar_free_list a) \<Longrightarrow> s < ar_num_slots a" using below [of s] by simp
  assume i: "map_of (ar_checkpoint_slots a) i = Some ss"
  note sub = mset_subset_eqD [OF held_slots_lookup [OF i]]
  show "distinct ss"
    using once mset_subset_eq_count [OF held_slots_lookup [OF i]]
    by (intro distinct_once) (metis add_leD2 le_trans)
  show "s < ar_num_slots a \<and> s \<notin> set (ar_free_list a)" if "s \<in> set ss"
    using below [of s] sub [of s] that apart [of s] by auto
  show "i = j" if j: "map_of (ar_checkpoint_slots a) j = Some ts" and s: "s \<in> set ss" "s \<in> set ts"
  proof (rule ccontr)
    assume "i \<noteq> j"
    then have "count (mset ss + mset ts) s \<le> count ?h s"
      by (intro mset_subset_eq_count held_slots_two [OF i j])
    moreover have "0 < count (mset ss) s" "0 < count (mset ts) s"
      using s by (simp_all add: count_greater_zero_iff)
    ultimately show False using once [of s] unfolding count_union by linarith
  qed
qed

section \<open>The operations keep the invariant\<close>

lemma slot_fits:
  "geometry_ok a \<Longrightarrow> s < ar_num_slots a \<Longrightarrow>
   s * ar_slot_size a + ar_slot_size a \<le> length (ar_mem a) \<and> SLOT_HEADER_SIZE \<le> ar_slot_size a"
  using mult_le_mono2 [of "Suc s" "ar_num_slots a" "ar_slot_size a"] by (simp add: geometry_ok_def mult.commute)

lemma slots_apart:
  assumes "s \<noteq> t" shows "s * n + n \<le> t * n \<or> t * n + n \<le> s * (n :: nat)"
proof (cases "s < t")
  case True
  then show ?thesis using mult_le_mono1 [of "Suc s" t n] by simp
next
  case False
  then show ?thesis using assms mult_le_mono1 [of "Suc t" s n] by simp
qed

lemma new_inv:
  assumes "CheckpointArena_new mapped slot_size num_slots = Some (Ok a)"
  shows "arena_inv a \<and> available a = num_slots"
  using assms
  by (auto simp: CheckpointArena_new_def arena_inv_def geometry_ok_def index_ok_def held_slots_def
      available_def Let_def split: if_splits)

lemma update_header_simps [simp]:
  "ar_capacity (update_header p h a) = ar_capacity a" "ar_slot_size (update_header p h a) = ar_slot_size a"
  "ar_num_slots (update_header p h a) = ar_num_slots a" "ar_free_list (update_header p h a) = ar_free_list a"
  "ar_slots (update_header p h a) = ar_slots a" "ar_index (update_header p h a) = ar_index a"
  "ar_checkpoint_slots (update_header p h a) = ar_checkpoint_slots a"
  "ar_checkpoint_order (update_header p h a) = ar_checkpoint_order a"
  by (simp_all add: update_header_def)

text \<open>Writes to the mapping do not touch the bookkeeping.\<close>

lemma index_ok_mem [simp]: "index_ok (a\<lparr>ar_mem := m\<rparr>) = index_ok a"
  by (simp add: index_ok_def)

lemma arena_inv_mem:
  "arena_inv a \<Longrightarrow> length m = length (ar_mem a) \<Longrightarrow> arena_inv (a\<lparr>ar_mem := m\<rparr>)"
  by (simp add: arena_inv_def geometry_ok_def)

lemma update_header_inv:
  "arena_inv a \<Longrightarrow> length (sh_shape h) = 6 \<Longrightarrow> p + SLOT_HEADER_SIZE \<le> length (ar_mem a) \<Longrightarrow>
   arena_inv (update_header p h a)"
  unfolding update_header_def by (rule arena_inv_mem) simp_all

lemma index_ok_slot:
  assumes "index_ok a" "map_of (ar_index a) (i, l) = Some d"
  obtains s ss where "d < length (ar_slots a)" "sd_layer_idx (ar_slots a ! d) = l"
    "map_of (ar_checkpoint_slots a) i = Some ss" "s \<in> set ss" "sd_offset (ar_slots a ! d) = s * ar_slot_size a"
  using assms unfolding index_ok_def by blast

lemma index_ok_inj:
  "index_ok a \<Longrightarrow> map_of (ar_index a) k = Some d \<Longrightarrow> map_of (ar_index a) k' = Some d' \<Longrightarrow>
   sd_offset (ar_slots a ! d) = sd_offset (ar_slots a ! d') \<Longrightarrow> k = k'"
  unfolding index_ok_def by blast

lemma index_ok_alloc:
  fixes a :: CheckpointArena and i :: string and l :: u32
  assumes inv: "arena_inv a" and s: "s \<in> set (ar_free_list a)"
    and slots: "ar_slots b = ar_slots a @ [\<lparr>sd_offset = s * ar_slot_size a, sd_checkpoint_id = i, sd_layer_idx = l\<rparr>]"
    and index: "map_of (ar_index b) = (map_of (ar_index a))((i, l) \<mapsto> length (ar_slots a))"
    and cs: "map_of (ar_checkpoint_slots b) =
      (map_of (ar_checkpoint_slots a))(i \<mapsto> lookup_slots (ar_checkpoint_slots a) i @ [s])"
    and sz: "ar_slot_size b = ar_slot_size a"
  shows "index_ok b"
proof -
  have iok: "index_ok a" and pos: "0 < ar_slot_size a"
    using inv by (auto simp: arena_inv_def geometry_ok_def SLOT_HEADER_SIZE_def)
  have old: "d < length (ar_slots a) \<and> sd_layer_idx (ar_slots b ! d) = l' \<and> sd_offset (ar_slots b ! d) \<noteq> s * ar_slot_size a \<and>
      sd_offset (ar_slots b ! d) = sd_offset (ar_slots a ! d) \<and>
      (\<exists>t ss. map_of (ar_checkpoint_slots b) j = Some ss \<and> t \<in> set ss \<and> sd_offset (ar_slots b ! d) = t * ar_slot_size a)"
    if key: "map_of (ar_index a) (j, l') = Some d" for j l' d
  proof -
    obtain t ss where t: "d < length (ar_slots a)" "sd_layer_idx (ar_slots a ! d) = l'"
      "map_of (ar_checkpoint_slots a) j = Some ss" "t \<in> set ss" "sd_offset (ar_slots a ! d) = t * ar_slot_size a"
      using index_ok_slot [OF iok key] .
    moreover from t(3,4) have "t \<noteq> s" using slots_partition(4) [OF inv] s by blast
    ultimately show ?thesis
      using pos by (auto simp: slots cs nth_append lookup_slots_def)
  qed
  have new: "sd_offset (ar_slots b ! length (ar_slots a)) = s * ar_slot_size a"
      "sd_layer_idx (ar_slots b ! length (ar_slots a)) = l"
    by (simp_all add: slots)
  show ?thesis
    unfolding index_ok_def
  proof (intro conjI allI impI)
    fix j l' d assume key: "map_of (ar_index b) (j, l') = Some d"
    have "d < length (ar_slots b) \<and> sd_layer_idx (ar_slots b ! d) = l' \<and>
      (\<exists>t ss. map_of (ar_checkpoint_slots b) j = Some ss \<and> t \<in> set ss \<and> sd_offset (ar_slots b ! d) = t * ar_slot_size b)"
    proof (cases "(j, l') = (i, l)")
      case True
      then show ?thesis using key new by (auto simp: index cs sz slots)
    next
      case False
      then have "map_of (ar_index a) (j, l') = Some d" using key by (auto simp: index)
      from old [OF this] show ?thesis unfolding sz
        by (intro conjI) (simp add: slots, blast, blast)
    qed
    then show "d < length (ar_slots b)" "sd_layer_idx (ar_slots b ! d) = l'"
      "\<exists>t ss. map_of (ar_checkpoint_slots b) j = Some ss \<and> t \<in> set ss \<and> sd_offset (ar_slots b ! d) = t * ar_slot_size b"
      by blast+
  next
    fix k k' d d' assume k: "map_of (ar_index b) k = Some d" "map_of (ar_index b) k' = Some d'"
      and eq: "sd_offset (ar_slots b ! d) = sd_offset (ar_slots b ! d')"
    have off: "sd_offset (ar_slots b ! e) = sd_offset (ar_slots a ! e)" "sd_offset (ar_slots b ! e) \<noteq> s * ar_slot_size a"
      if "map_of (ar_index a) q = Some e" for q e
      using old [of "fst q" "snd q" e] that by simp_all
    show "k = k'"
      using k eq off [of k d] off [of k' d'] new(1) index_ok_inj [OF iok, of k d k' d']
      by (cases "k = (i, l)"; cases "k' = (i, l)") (simp_all add: index)
  qed
qed

lemma alloc_slot_fields:
  fixes i :: string and l :: u32
  assumes "ar_free_list a \<noteq> []"
  defines "s \<equiv> last (ar_free_list a)" and "b \<equiv> snd (alloc_slot i l a)"
  shows "fst (alloc_slot i l a) = Ok (s * ar_slot_size a, default_header (ar_slot_size a))"
    "ar_mem b = ar_mem (update_header (s * ar_slot_size a) (default_header (ar_slot_size a)) a)"
    "ar_capacity b = ar_capacity a" "ar_slot_size b = ar_slot_size a" "ar_num_slots b = ar_num_slots a"
    "ar_free_list b = butlast (ar_free_list a)"
    "ar_slots b = ar_slots a @ [\<lparr>sd_offset = s * ar_slot_size a, sd_checkpoint_id = i, sd_layer_idx = l\<rparr>]"
    "ar_index b = AList.update (i, l) (length (ar_slots a)) (ar_index a)"
    "ar_checkpoint_slots b = AList.update i (lookup_slots (ar_checkpoint_slots a) i @ [s]) (ar_checkpoint_slots a)"
    "ar_checkpoint_order b =
      (if map_of (ar_checkpoint_slots a) i = None then ar_checkpoint_order a @ [i] else ar_checkpoint_order a)"
  using assms by (simp_all add: alloc_slot_def Let_def lookup_slots_def update_header_def)

lemma map_of_filter_key:
  "map_of (filter (\<lambda>kv. P (fst kv)) al) k = (if P k then map_of al k else None)"
  by (induction al) auto

lemma alloc_slot_inv:
  assumes "arena_inv a"
  shows "arena_inv (snd (alloc_slot i l a))"
proof (cases "ar_free_list a = []")
  case True
  with assms show ?thesis by (simp add: alloc_slot_def)
next
  case False
  let ?b = "snd (alloc_slot i l a)"
  note b = alloc_slot_fields [OF False, of i l]
  let ?s = "last (ar_free_list a)"
  have s: "?s \<in> set (ar_free_list a)" using False by simp
  note inv = assms [unfolded arena_inv_def]
  have geo: "geometry_ok ?b"
    using slot_fits [of a ?s] slots_partition(2) [OF assms s] inv
    by (simp add: geometry_ok_def b update_header_def)
  have "mset (ar_free_list a) = mset (butlast (ar_free_list a)) + {#?s#}"
    using arg_cong [OF append_butlast_last_id [OF False], of mset] by simp
  then have part: "mset (ar_free_list ?b) + held_slots (ar_checkpoint_slots ?b) = mset [0..<ar_num_slots ?b]"
    using inv held_slots_update [of "ar_checkpoint_slots a" i "lookup_slots (ar_checkpoint_slots a) i @ [?s]"]
    by (simp add: b(5,6,9))
  have idx: "index_ok ?b"
    using b by (intro index_ok_alloc [OF assms s]) (simp_all add: update_conv')
  have keys: "distinct (map fst (ar_checkpoint_slots ?b))" "distinct (map fst (ar_index ?b))"
    using inv by (simp_all add: b distinct_update)
  have order: "distinct (ar_checkpoint_order ?b)" "set (ar_checkpoint_order ?b) = fst ` set (ar_checkpoint_slots ?b)"
    using inv by (auto simp: b fst_set_update map_of_eq_None_iff weak_map_of_SomeI)
  show ?thesis using geo part keys order idx by (simp add: arena_inv_def)
qed

lemma free_checkpoint_inv:
  assumes "arena_inv a"
  shows "arena_inv (free_checkpoint i a)"
proof (cases "map_of (ar_checkpoint_slots a) i")
  case None
  with assms show ?thesis by (simp add: free_checkpoint_def)
next
  case (Some ss)
  let ?b = "free_checkpoint i a"
  note inv = assms [unfolded arena_inv_def]
  have idx: "map_of (ar_index ?b) = (\<lambda>k. if fst k \<noteq> i then map_of (ar_index a) k else None)"
    using map_of_filter_key [of "\<lambda>k. fst k \<noteq> i" "ar_index a"]
    by (simp add: free_checkpoint_def Some fun_eq_iff)
  have "index_ok ?b"
  proof -
    have iok: "index_ok a" using inv by blast
    have cs: "map_of (ar_checkpoint_slots ?b) = (map_of (ar_checkpoint_slots a))(i := None)"
      "ar_slots ?b = ar_slots a" "ar_slot_size ?b = ar_slot_size a"
      by (simp_all add: free_checkpoint_def Some delete_conv')
    show ?thesis
      unfolding index_ok_def
    proof (intro conjI allI impI)
      fix j l d assume "map_of (ar_index ?b) (j, l) = Some d"
      then have j: "j \<noteq> i" "map_of (ar_index a) (j, l) = Some d" by (auto simp: idx split: if_splits)
      from index_ok_slot [OF iok j(2)] j(1)
      show "d < length (ar_slots ?b)" "sd_layer_idx (ar_slots ?b ! d) = l"
        "\<exists>s ss. map_of (ar_checkpoint_slots ?b) j = Some ss \<and> s \<in> set ss \<and> sd_offset (ar_slots ?b ! d) = s * ar_slot_size ?b"
        unfolding cs by (metis, metis, metis fun_upd_other)
    next
      fix k k' d d' assume "map_of (ar_index ?b) k = Some d" "map_of (ar_index ?b) k' = Some d'"
        and "sd_offset (ar_slots ?b ! d) = sd_offset (ar_slots ?b ! d')"
      then show "k = k'"
        using index_ok_inj [OF iok, of k d k' d'] by (auto simp: idx cs split: if_splits)
    qed
  qed
  moreover have "mset (ar_free_list ?b) + held_slots (ar_checkpoint_slots ?b) = mset [0..<ar_num_slots ?b]"
    using inv held_slots_delete [of "ar_checkpoint_slots a" i, symmetric]
    by (simp add: free_checkpoint_def Some lookup_slots_def add.assoc) (simp add: ac_simps)
  moreover have "distinct (map fst (filter P xs))" if "distinct (map fst xs)" for P and xs :: "((string \<times> u32) \<times> nat) list"
    using that by (induction xs) auto
  ultimately show ?thesis
    using inv by (auto simp: arena_inv_def free_checkpoint_def Some geometry_ok_def distinct_delete fst_set_delete)
qed

end
