(* ===== verification/Checkpoint_Spec.thy ===== *)
theory Checkpoint_Spec
  imports Main
begin

text \<open>
  The contract of a checkpoint store, as its clients rely on it: a bounded store of entries under
  (checkpoint, layer) keys. Storing an entry that fits into a store with room adds it and leaves every
  other entry alone; freeing a checkpoint removes its entries and no others and gives room back. The
  client lemmas are about storing the layers of one checkpoint one after the other.
\<close>

locale checkpoint_store =
  fixes inv :: "'s \<Rightarrow> bool"
    and view :: "'s \<Rightarrow> ('i \<times> 'l \<Rightarrow> 'e option)"
    and room :: "'s \<Rightarrow> nat"
    and fits :: "'s \<Rightarrow> 'e \<Rightarrow> bool"
    and store :: "'i \<times> 'l \<Rightarrow> 'e \<Rightarrow> 's \<Rightarrow> 's"
    and free :: "'i \<Rightarrow> 's \<Rightarrow> 's"
  assumes store_inv: "\<And>s k e. inv s \<Longrightarrow> 0 < room s \<Longrightarrow> fits s e \<Longrightarrow> inv (store k e s)"
    and store_view: "\<And>s k e. inv s \<Longrightarrow> 0 < room s \<Longrightarrow> fits s e \<Longrightarrow> view (store k e s) = (view s)(k \<mapsto> e)"
    and store_room: "\<And>s k e. 0 < room s \<Longrightarrow> room (store k e s) = room s - 1"
    and store_fits: "\<And>s k e e'. fits (store k e s) e' = fits s e'"
    and free_inv: "\<And>s i. inv s \<Longrightarrow> inv (free i s)"
    and free_view: "\<And>s i. inv s \<Longrightarrow> view (free i s) = (\<lambda>k. if fst k = i then None else view s k)"
    and free_room: "\<And>s i. room s \<le> room (free i s)"
begin

definition store_all :: "'i \<Rightarrow> ('l \<times> 'e) list \<Rightarrow> 's \<Rightarrow> 's" where
  "store_all i es s = fold (\<lambda>(l, e). store (i, l) e) es s"

lemma store_all_simps [simp]:
  "store_all i [] s = s" "store_all i ((l, e) # es) s = store_all i es (store (i, l) e s)"
  by (simp_all add: store_all_def)

lemma store_all_ok:
  assumes "inv s" "length es \<le> room s" "\<forall>e \<in> snd ` set es. fits s e"
  shows "inv (store_all i es s)" "room (store_all i es s) = room s - length es"
  using assms by (induction es arbitrary: s) (auto simp: store_inv store_room store_fits)

lemma store_all_view:
  assumes "inv s" "length es \<le> room s" "\<forall>e \<in> snd ` set es. fits s e" "distinct (map fst es)"
  shows "view (store_all i es s) (j, l) =
    (if j = i \<and> l \<in> fst ` set es then map_of es l else view s (j, l))"
  using assms
proof (induction es arbitrary: s)
  case (Cons x es)
  obtain m e where x: "x = (m, e)" by (cases x)
  with Cons.prems have room: "0 < room s" "fits s e" by auto
  have "view (store_all i es (store (i, m) e s)) (j, l) =
      (if j = i \<and> l \<in> fst ` set es then map_of es l else view (store (i, m) e s) (j, l))"
    using Cons.prems room x by (intro Cons.IH) (auto simp: store_inv store_room store_fits)
  then show ?case
    using Cons.prems x by (auto simp: store_view [OF Cons.prems(1) room])
qed simp

text \<open>Entries that are a function of their layer may be stored more than once.\<close>

lemma store_all_map_view:
  assumes "inv s" "length ls \<le> room s" "\<forall>l \<in> set ls. fits s (f l)"
  shows "view (store_all i (map (\<lambda>l. (l, f l)) ls) s) (j, l) =
    (if j = i \<and> l \<in> set ls then Some (f l) else view s (j, l))"
  using assms
proof (induction ls arbitrary: s)
  case (Cons m ls)
  then have room: "0 < room s" "fits s (f m)" by auto
  have "view (store_all i (map (\<lambda>l. (l, f l)) ls) (store (i, m) (f m) s)) (j, l) =
      (if j = i \<and> l \<in> set ls then Some (f l) else view (store (i, m) (f m) s) (j, l))"
    using Cons.prems room by (intro Cons.IH) (auto simp: store_inv store_room store_fits)
  then show ?case by (auto simp: store_view [OF Cons.prems(1) room])
qed simp

text \<open>A checkpoint whose entries were saved, freed and stored again is back as it was.\<close>

lemma restore_all:
  assumes "inv s" "length es \<le> room (free i s)" "\<forall>e \<in> snd ` set es. fits (free i s) e"
    and "distinct (map fst es)" "map_of es = (\<lambda>l. view s (i, l))"
  shows "view (store_all i es (free i s)) = view s"
proof
  fix k :: "'i \<times> 'l"
  obtain j l where k: "k = (j, l)" by (cases k)
  have "view s (i, l) = None" if "l \<notin> fst ` set es"
    using that map_of_eq_None_iff [of es l] assms(5) by simp
  then show "view (store_all i es (free i s)) k = view s k"
    using store_all_view [OF free_inv [OF assms(1)] assms(2-4), of i j l] fun_cong [OF assms(5), of l]
    by (auto simp: k free_view [OF assms(1)])
qed

end

end
