(* ===== verification/Worker_Arena_Store.thy ===== *)
theory Worker_Arena_Store
  imports Worker_Arena Checkpoint_Spec
begin

text \<open>
  What the checkpoint arena stores: under each (checkpoint, layer) key of the index, the header of the
  slot and as many data bytes as the header announces and the slot holds. Allocating a slot and filling
  it, as creating and reloading a checkpoint do, and freeing a checkpoint implement the contract of
  \<^verbatim>\<open>Checkpoint_Spec\<close>: in particular a write to one slot never changes another one.
\<close>

type_synonym entry = "SlotHeader \<times> bytes"

definition slot_entry :: "CheckpointArena \<Rightarrow> nat \<Rightarrow> entry option" where
  "slot_entry a off =
     map_option (\<lambda>h. (h, read_at (off + SLOT_HEADER_SIZE)
         (min (unat (sh_byte_len h)) (ar_slot_size a - SLOT_HEADER_SIZE)) (ar_mem a)))
       (read_header a off)"

definition arena_view :: "CheckpointArena \<Rightarrow> string \<times> u32 \<Rightarrow> entry option" where
  "arena_view a k =
     (case map_of (ar_index a) k of None \<Rightarrow> None | Some d \<Rightarrow> slot_entry a (sd_offset (ar_slots a ! d)))"

definition entry_fits :: "CheckpointArena \<Rightarrow> entry \<Rightarrow> bool" where
  "entry_fits a e \<longleftrightarrow> header_ok (fst e) \<and> unat (sh_byte_len (fst e)) = length (snd e) \<and>
     length (snd e) \<le> ar_slot_size a - SLOT_HEADER_SIZE"

text \<open>\<^verbatim>\<open>copy_nonoverlapping(data, slot_ptr.add(SLOT_HEADER_SIZE), len)\<close>.\<close>

definition copy_data :: "nat \<Rightarrow> bytes \<Rightarrow> CheckpointArena \<Rightarrow> CheckpointArena" where
  "copy_data slot_ptr data a = a\<lparr>ar_mem := write_at (slot_ptr + SLOT_HEADER_SIZE) data (ar_mem a)\<rparr>"

definition store_slot :: "string \<times> u32 \<Rightarrow> entry \<Rightarrow> CheckpointArena \<Rightarrow> CheckpointArena" where
  "store_slot k e a =
     (case alloc_slot (fst k) (snd k) a of
        (Err _, a) \<Rightarrow> a
      | (Ok (slot_ptr, _), a) \<Rightarrow> copy_data slot_ptr (snd e) (update_header slot_ptr (fst e) a))"

section \<open>Slots do not overlap\<close>

lemma read_at_read_at: "o' + n \<le> m \<Longrightarrow> read_at o' n (read_at off m xs) = read_at (off + o') n xs"
  by (simp add: read_at_def drop_take min_def add.commute)

lemma slot_entry_cong:
  assumes "read_at off (ar_slot_size a) (ar_mem b) = read_at off (ar_slot_size a) (ar_mem a)"
    and "ar_slot_size b = ar_slot_size a" "SLOT_HEADER_SIZE \<le> ar_slot_size a"
  shows "slot_entry b off = slot_entry a off"
proof -
  have "read_at (off + o') n (ar_mem b) = read_at (off + o') n (ar_mem a)" if "o' + n \<le> ar_slot_size a" for o' n
    using read_at_read_at [OF that, of off "ar_mem b"] read_at_read_at [OF that, of off "ar_mem a"] assms(1) by simp
  from this [of 0 SLOT_HEADER_SIZE] this [of SLOT_HEADER_SIZE] show ?thesis
    using assms(2,3) by (simp add: slot_entry_def read_header_def)
qed

lemma write_other_slot:
  assumes "geometry_ok a" "s < ar_num_slots a" "t < ar_num_slots a" "s \<noteq> t"
    and "length m = length (ar_mem a)" "o' + length d \<le> ar_slot_size a"
  shows "read_at (t * ar_slot_size a) (ar_slot_size a) (write_at (s * ar_slot_size a + o') d m) =
    read_at (t * ar_slot_size a) (ar_slot_size a) m"
  using slot_fits [OF assms(1,2)] slot_fits [OF assms(1,3)] slots_apart [OF assms(4), of "ar_slot_size a"] assms(5,6)
  by (intro read_write_disjoint) auto

lemma slot_entry_written:
  assumes "entry_fits a e" "p + ar_slot_size a \<le> length (ar_mem a)" "SLOT_HEADER_SIZE \<le> ar_slot_size a"
  shows "slot_entry (copy_data p (snd e) (update_header p (fst e) a)) p = Some e"
proof -
  obtain h data where e: "e = (h, data)" by (cases e)
  let ?m = "write_at p (SlotHeader_write_to h (replicate SLOT_HEADER_SIZE 0)) (ar_mem a)"
  have len: "length ?m = length (ar_mem a)"
    using assms by (simp add: e entry_fits_def)
  have "read_at p SLOT_HEADER_SIZE (write_at (p + SLOT_HEADER_SIZE) data ?m) = read_at p SLOT_HEADER_SIZE ?m"
    using assms by (intro read_write_disjoint) (auto simp: len e entry_fits_def)
  also have "\<dots> = SlotHeader_write_to h (replicate SLOT_HEADER_SIZE 0)"
    using assms by (intro read_write_same) (auto simp: e entry_fits_def)
  finally have hdr: "read_header (copy_data p data (update_header p h a)) p = Some h"
    using assms(1) by (simp add: read_header_def copy_data_def update_header_def SlotHeader_read_write e entry_fits_def)
  have "read_at (p + SLOT_HEADER_SIZE) (length data) (write_at (p + SLOT_HEADER_SIZE) data ?m) = data"
    using assms by (intro read_write_same) (auto simp: len e entry_fits_def)
  with hdr assms(1) show ?thesis
    by (simp add: slot_entry_def copy_data_def update_header_def e entry_fits_def min_def)
qed

section \<open>Storing and freeing\<close>

lemma store_slot_eq:
  "ar_free_list a \<noteq> [] \<Longrightarrow> store_slot k e a =
     (let b = snd (alloc_slot (fst k) (snd k) a); p = last (ar_free_list a) * ar_slot_size a
      in copy_data p (snd e) (update_header p (fst e) b))"
  by (simp add: store_slot_def alloc_slot_def Let_def)

lemma copy_data_simps [simp]:
  "ar_capacity (copy_data p d a) = ar_capacity a" "ar_slot_size (copy_data p d a) = ar_slot_size a"
  "ar_num_slots (copy_data p d a) = ar_num_slots a" "ar_free_list (copy_data p d a) = ar_free_list a"
  "ar_slots (copy_data p d a) = ar_slots a" "ar_index (copy_data p d a) = ar_index a"
  "ar_checkpoint_slots (copy_data p d a) = ar_checkpoint_slots a"
  "ar_checkpoint_order (copy_data p d a) = ar_checkpoint_order a"
  by (simp_all add: copy_data_def)

lemma copy_data_inv:
  "arena_inv a \<Longrightarrow> p + SLOT_HEADER_SIZE + length d \<le> length (ar_mem a) \<Longrightarrow> arena_inv (copy_data p d a)"
  unfolding copy_data_def by (rule arena_inv_mem) simp_all

lemma entry_fits_slot:
  "entry_fits a e \<Longrightarrow> SLOT_HEADER_SIZE \<le> ar_slot_size a \<Longrightarrow>
   SLOT_HEADER_SIZE + length (snd e) \<le> ar_slot_size a \<and> header_ok (fst e)"
  by (auto simp: entry_fits_def)

lemma next_slot:
  assumes "arena_inv a" "ar_free_list a \<noteq> []"
  defines "s \<equiv> last (ar_free_list a)"
  shows "s < ar_num_slots a" "s \<in> set (ar_free_list a)" "geometry_ok a"
    "s * ar_slot_size a + ar_slot_size a \<le> length (ar_mem a)" "SLOT_HEADER_SIZE \<le> ar_slot_size a"
  using slots_partition(2) [OF assms(1), of s] slot_fits [of a s] assms
  by (auto simp: arena_inv_def)

lemma alloc_mem_length:
  "arena_inv a \<Longrightarrow> length (ar_mem (snd (alloc_slot i l a))) = length (ar_mem a)"
  using alloc_slot_inv [of a i l] alloc_slot_fields [of a i l]
  by (cases "ar_free_list a = []") (auto simp: arena_inv_def geometry_ok_def alloc_slot_def)

lemma store_slot_inv:
  assumes "arena_inv a" "ar_free_list a \<noteq> []" "entry_fits a e"
  shows "arena_inv (store_slot k e a)"
proof -
  let ?b = "snd (alloc_slot (fst k) (snd k) a)" and ?p = "last (ar_free_list a) * ar_slot_size a"
  note s = next_slot [OF assms(1,2)]
  have len: "length (ar_mem ?b) = length (ar_mem a)" by (rule alloc_mem_length [OF assms(1)])
  have upd: "arena_inv (update_header ?p (fst e) ?b)"
    using s assms(3) len by (intro update_header_inv alloc_slot_inv assms(1)) (auto simp: entry_fits_def)
  have "length (ar_mem (update_header ?p (fst e) ?b)) = length (ar_mem a)"
    using s assms(3) by (simp add: update_header_def entry_fits_def len)
  then show ?thesis
    using copy_data_inv [OF upd, of ?p "snd e"] s(4) entry_fits_slot [OF assms(3) s(5)]
    by (simp add: store_slot_eq [OF assms(2)] Let_def)
qed

lemma store_slot_index:
  assumes "ar_free_list a \<noteq> []"
  shows "ar_index (store_slot k e a) = AList.update k (length (ar_slots a)) (ar_index a)"
    "ar_slots (store_slot k e a) = ar_slots a @ [\<lparr>sd_offset = last (ar_free_list a) * ar_slot_size a,
       sd_checkpoint_id = fst k, sd_layer_idx = snd k\<rparr>]"
    "ar_slot_size (store_slot k e a) = ar_slot_size a" "ar_free_list (store_slot k e a) = butlast (ar_free_list a)"
  using alloc_slot_fields [OF assms, of "fst k" "snd k"]
  by (simp_all add: store_slot_eq [OF assms] Let_def)

lemma store_slot_other:
  assumes "arena_inv a" "ar_free_list a \<noteq> []" "entry_fits a e" "t < ar_num_slots a" "t \<noteq> last (ar_free_list a)"
  shows "slot_entry (store_slot k e a) (t * ar_slot_size a) = slot_entry a (t * ar_slot_size a)"
proof -
  let ?s = "last (ar_free_list a)" and ?b = "snd (alloc_slot (fst k) (snd k) a)"
  note s = next_slot [OF assms(1,2)]
  have w: "read_at (t * ar_slot_size a) (ar_slot_size a) (write_at (?s * ar_slot_size a + o') d m) =
      read_at (t * ar_slot_size a) (ar_slot_size a) m"
    if "length m = length (ar_mem a)" "o' + length d \<le> ar_slot_size a" for o' d m
    using write_other_slot [OF s(3,1) assms(4) assms(5) [symmetric] that] .
  have h: "read_at (t * ar_slot_size a) (ar_slot_size a) (ar_mem (update_header (?s * ar_slot_size a) h b)) =
      read_at (t * ar_slot_size a) (ar_slot_size a) (ar_mem b) \<and>
      length (ar_mem (update_header (?s * ar_slot_size a) h b)) = length (ar_mem a)"
    if "length (ar_mem b) = length (ar_mem a)" "header_ok h" for h b
    using w [OF that(1), of 0] that s by (simp add: update_header_def)
  have len: "length (ar_mem ?b) = length (ar_mem a)" by (rule alloc_mem_length [OF assms(1)])
  have "read_at (t * ar_slot_size a) (ar_slot_size a) (ar_mem (store_slot k e a)) =
      read_at (t * ar_slot_size a) (ar_slot_size a) (ar_mem ?b)"
    using h [OF len, of "fst e"] entry_fits_slot [OF assms(3) s(5)]
      w [of "ar_mem (update_header (?s * ar_slot_size a) (fst e) ?b)" SLOT_HEADER_SIZE "snd e"]
    by (simp add: store_slot_eq [OF assms(2)] Let_def copy_data_def)
  also have "\<dots> = read_at (t * ar_slot_size a) (ar_slot_size a) (ar_mem a)"
    using h [OF refl, of "default_header (ar_slot_size a)"]
    by (simp add: alloc_slot_fields(2) [OF assms(2)])
  finally show ?thesis
    by (rule slot_entry_cong) (simp_all add: store_slot_index [OF assms(2)] s)
qed

lemma store_slot_view:
  assumes "arena_inv a" "ar_free_list a \<noteq> []" "entry_fits a e"
  shows "arena_view (store_slot k e a) = (arena_view a)(k \<mapsto> e)"
proof
  fix q
  note s = next_slot [OF assms(1,2)] and f = store_slot_index [OF assms(2), of k e]
  let ?b = "snd (alloc_slot (fst k) (snd k) a)" and ?p = "last (ar_free_list a) * ar_slot_size a"
  show "arena_view (store_slot k e a) q = ((arena_view a)(k \<mapsto> e)) q"
  proof (cases "q = k")
    case True
    have "entry_fits ?b e"
      using assms(3) by (simp add: entry_fits_def alloc_slot_fields [OF assms(2)])
    then have "slot_entry (store_slot k e a) ?p = Some e"
      using s alloc_slot_fields(4) [OF assms(2), of "fst k" "snd k"]
      by (simp add: store_slot_eq [OF assms(2)] Let_def slot_entry_written alloc_mem_length [OF assms(1)])
    with True show ?thesis by (simp add: arena_view_def f update_conv')
  next
    case False
    show ?thesis
    proof (cases "map_of (ar_index a) q")
      case None
      with False show ?thesis by (simp add: arena_view_def f update_conv')
    next
      case (Some d)
      have iok: "index_ok a" using assms(1) by (simp add: arena_inv_def)
      obtain t ss where t: "d < length (ar_slots a)" "map_of (ar_checkpoint_slots a) (fst q) = Some ss" "t \<in> set ss"
        "sd_offset (ar_slots a ! d) = t * ar_slot_size a"
        using index_ok_slot [OF iok, of "fst q" "snd q" d] Some by (metis prod.collapse)
      then have "t < ar_num_slots a" "t \<noteq> last (ar_free_list a)"
        using slots_partition(4) [OF assms(1) t(2,3)] s(2) by auto
      with False Some t show ?thesis
        by (simp add: arena_view_def f update_conv' nth_append store_slot_other [OF assms])
    qed
  qed
qed

lemma free_checkpoint_view:
  assumes "arena_inv a"
  shows "arena_view (free_checkpoint i a) = (\<lambda>k. if fst k = i then None else arena_view a k)"
proof (cases "map_of (ar_checkpoint_slots a) i")
  case None
  have "map_of (ar_index a) k = None" if "fst k = i" for k
  proof (cases "map_of (ar_index a) k")
    case (Some d)
    then show ?thesis
      using index_ok_slot [of a "fst k" "snd k" d] assms None that by (auto simp: arena_inv_def)
  qed
  with None show ?thesis by (auto simp: free_checkpoint_def arena_view_def fun_eq_iff)
next
  case (Some ss)
  then show ?thesis
    using map_of_filter_key [of "\<lambda>k. fst k \<noteq> i" "ar_index a"]
    by (simp add: free_checkpoint_def arena_view_def fun_eq_iff slot_entry_def read_header_def split: option.split)
qed

text \<open>The arena is a checkpoint store.\<close>

interpretation arena: checkpoint_store arena_inv arena_view available entry_fits store_slot free_checkpoint
proof
  fix a k e e' i
  show "arena_inv a \<Longrightarrow> 0 < available a \<Longrightarrow> entry_fits a e \<Longrightarrow> arena_inv (store_slot k e a)"
    by (rule store_slot_inv) (auto simp: available_def)
  show "arena_inv a \<Longrightarrow> 0 < available a \<Longrightarrow> entry_fits a e \<Longrightarrow>
      arena_view (store_slot k e a) = (arena_view a)(k \<mapsto> e)"
    by (rule store_slot_view) (auto simp: available_def)
  show "0 < available a \<Longrightarrow> available (store_slot k e a) = available a - 1"
    by (simp add: available_def store_slot_index)
  show "entry_fits (store_slot k e a) e' = entry_fits a e'"
    by (cases "ar_free_list a = []") (simp add: store_slot_def alloc_slot_def, simp add: entry_fits_def store_slot_index)
  show "arena_inv a \<Longrightarrow> arena_inv (free_checkpoint i a)" by (rule free_checkpoint_inv)
  show "arena_inv a \<Longrightarrow> arena_view (free_checkpoint i a) = (\<lambda>k. if fst k = i then None else arena_view a k)"
    by (rule free_checkpoint_view)
  show "available a \<le> available (free_checkpoint i a)"
    by (simp add: available_def free_checkpoint_def split: option.split)
qed

end
