(* ===== verification/Worker_Step.thy ===== *)
theory Worker_Step
  imports Worker_Clock Worker_Capture Worker_Kv Worker_Arena_Store Dispatch Shm_Ring
begin

text \<open>
  The worker's state and the handlers that step a forward pass, set its probes and touch its cache
  (\<^verbatim>\<open>crates/rocket-surgeon-worker/src/dispatch.rs\<close>). The model runs in Python: a tensor is a value of an
  arbitrary type, the operations on it are the record \<open>bridge_ops\<close>, and the values that the result
  mailbox delivers during one request are the argument \<open>msgs\<close>, in order; when they run out, the wait
  has timed out; with each of them comes whether the mailbox could be made ready again and whether the
  answer could be put. What the handler puts into the resume mailbox is collected in order: \<open>None\<close> lets the
  forward pass go on with its own output, \<open>Some t\<close> replaces the output. A panic is the outer
  \<^const>\<open>None\<close>. The Python objects of the hooks and mailboxes themselves are left out.
\<close>

section \<open>The state\<close>

record 't worker_state =
  ws_component_map :: "ComponentMap option"
  ws_component_index :: "((string \<times> u32) \<times> nat) list"
  ws_module_paths :: "string list"
  ws_container_paths :: "string list"
  ws_model_handle :: "u64 option"
  ws_rank :: u32
  ws_num_layers :: u32
  ws_num_heads :: u32
  ws_hidden_dim :: u32
  ws_tick_state :: TickState
  ws_forward_pass :: "bool option"
  ws_last_outputs :: "((string \<times> u32) \<times> 't) list option"
  ws_active_probes :: "(probe_definition \<times> probe_point) list"
  ws_shm_ring :: "producer option"
  ws_checkpoint_arena :: "CheckpointArena option"
  ws_kv_cache :: KvCacheState

text \<open>Of a forward pass only its flag \<^verbatim>\<open>forward_complete\<close> is kept.\<close>

definition WorkerState_new :: "'t worker_state" where
  "WorkerState_new =
     \<lparr>ws_component_map = None, ws_component_index = [], ws_module_paths = [], ws_container_paths = [],
      ws_model_handle = None, ws_rank = 0, ws_num_layers = 0, ws_num_heads = 0, ws_hidden_dim = 0,
      ws_tick_state = TickState_new 0, ws_forward_pass = None, ws_last_outputs = None, ws_active_probes = [],
      ws_shm_ring = None, ws_checkpoint_arena = None, ws_kv_cache = KvCacheState_new\<rparr>"

fun index_components :: "nat \<Rightarrow> MappedComponent list \<Rightarrow> ((string \<times> u32) \<times> nat) list" where
  "index_components i [] = []"
| "index_components i (c # cs) = ((ma_module_path c, ma_call_index c), i) # index_components (Suc i) cs"

text \<open>Collecting into a map keeps the last value of a key.\<close>

definition build_component_index :: "ComponentMap \<Rightarrow> ((string \<times> u32) \<times> nat) list" where
  "build_component_index cmap = fold (\<lambda>(k, i) m. AList.update k i m) (index_components 0 (cm_components cmap)) []"

record 't mb_item =
  mi_path :: string
  mi_call_index :: u32
  mi_output :: "'t option"
  mi_restore :: "(string, unit) result"
  mi_put :: "(string, unit) result"

record 't bridge_ops =
  br_resume :: "(string, unit) result"
  br_clone :: "'t \<Rightarrow> (string, 't) result"
  br_shape :: "'t \<Rightarrow> (string, int list) result"
  br_head_slice :: "'t \<Rightarrow> u32 \<Rightarrow> u32 \<Rightarrow> (string, 't) result"
  br_set_head :: "'t \<Rightarrow> u32 \<Rightarrow> u32 \<Rightarrow> 't \<Rightarrow> (string, 't) result"
  br_apply :: "intervention_recipe list \<Rightarrow> 't \<Rightarrow> string \<Rightarrow> u32 \<Rightarrow> u32 \<Rightarrow> string \<Rightarrow> u64 \<Rightarrow> u64
    \<Rightarrow> (string, 't \<times> string list) result"

definition FORWARD_COMPLETE_SENTINEL :: string where
  "FORWARD_COMPLETE_SENTINEL = ''__forward_complete__''"

definition model_family_of :: "'t worker_state \<Rightarrow> string" where
  "model_family_of w = (case ws_component_map w of None \<Rightarrow> ''unknown'' | Some m \<Rightarrow> cm_model_family m)"

section \<open>Probes\<close>

text \<open>\<open>secs n\<close> is the system time, in seconds, when the \<open>n\<close>-th event of the request is made.\<close>

fun evaluate_probes ::
  "(nat \<Rightarrow> nat) \<Rightarrow> 't worker_state \<Rightarrow> probe_point \<Rightarrow> u32 \<Rightarrow> (probe_definition \<times> probe_point) list
   \<Rightarrow> probe_fired_event list \<Rightarrow> probe_fired_event list \<times> bool" where
  "evaluate_probes secs w current_point remaining_budget [] events = (events, False)"
| "evaluate_probes secs w current_point remaining_budget ((pd, pattern) # rest) events =
     (if \<not> ProbePoint_matches pattern current_point then evaluate_probes secs w current_point remaining_budget rest events
      else if unat remaining_budget \<le> length events then (events, True)
      else evaluate_probes secs w current_point remaining_budget rest
        (events @ [\<lparr>fe_probe_id = pd_id pd, fe_point = show_point current_point, fe_tick_id = tick_id (ws_tick_state w),
           fe_tensor_summary = None, fe_action = pd_action pd, fe_timestamp = show_nat (secs (length events)),
           fe_rank = ws_rank w\<rparr>]))"

section \<open>Interventions\<close>

text \<open>Recipes for one head of the component, with the head, and recipes for whole outputs.\<close>

fun split_recipes ::
  "string \<Rightarrow> intervention_recipe list
   \<Rightarrow> ((intervention_recipe \<times> u32) list \<times> intervention_recipe list) option" where
  "split_recipes canonical [] = Some ([], [])"
| "split_recipes canonical (recipe # rest) =
     (case extract_head_index (ir_target recipe) of
        None \<Rightarrow> None
      | Some head \<Rightarrow>
          map_option (\<lambda>(hs, rs).
            case head of
              None \<Rightarrow> (hs, recipe # rs)
            | Some (stripped_target, head_idx) \<Rightarrow>
                let base_comp = unwrap_or (case drop 3 (split_on CHR '':'' stripped_target) of [] \<Rightarrow> None | b # _ \<Rightarrow> Some b) []
                in if base_comp \<in> set ATTENTION_HEAD_COMPONENTS \<and> base_comp = canonical
                   then ((recipe\<lparr>ir_target := stripped_target\<rparr>, head_idx) # hs, rs)
                   else (hs, rs))
            (split_recipes canonical rest))"

fun apply_heads ::
  "'t bridge_ops \<Rightarrow> 't worker_state \<Rightarrow> u32 \<Rightarrow> string \<Rightarrow> u64 \<Rightarrow> (intervention_recipe \<times> u32) list \<Rightarrow> 't \<Rightarrow> string list
   \<Rightarrow> (string, 't \<times> string list) result option" where
  "apply_heads B w layer canonical hdl [] current fired = Some (Ok (current, fired))"
| "apply_heads B w layer canonical hdl ((recipe, head_idx) # rest) current fired =
     (case br_shape B current of
        Inl e \<Rightarrow> Some (Err e)
      | Inr shape \<Rightarrow>
          if shape = [] \<or> ws_num_heads w = 0 then None
          else
            let hidden = word_of_int (last shape) :: u32;
                head_dim = hidden div ws_num_heads w;
                start = head_idx * head_dim;
                fin = start + head_dim
            in case br_head_slice B current start fin of
                 Inl e \<Rightarrow> Some (Err e)
               | Inr head_slice \<Rightarrow>
                   (case br_apply B [recipe] head_slice (model_family_of w) (ws_rank w) layer canonical (tick_id (ws_tick_state w)) hdl of
                      Inl e \<Rightarrow> Some (Err e)
                    | Inr (modified, f) \<Rightarrow>
                        (case br_set_head B current start fin modified of
                           Inl e \<Rightarrow> Some (Err e)
                         | Inr current \<Rightarrow> apply_heads B w layer canonical hdl rest current (fired @ f))))"

definition try_apply_interventions ::
  "'t bridge_ops \<Rightarrow> 't worker_state \<Rightarrow> host_step_request \<Rightarrow> 't option \<Rightarrow> u32 \<Rightarrow> string \<Rightarrow> u64
   \<Rightarrow> (string, ('t \<times> string list) option) result option" where
  "try_apply_interventions B w req output layer canonical hdl =
     (if hsq_interventions req = [] then Some (Ok None)
      else case output of
        None \<Rightarrow> Some (Ok None)
      | Some out \<Rightarrow>
          (case split_recipes canonical (hsq_interventions req) of
             None \<Rightarrow> None
           | Some (head_recipes, regular_recipes) \<Rightarrow>
               (case (if head_recipes = [] then Ok out else br_clone B out) of
                  Inl e \<Rightarrow> Some (Err e)
                | Inr current \<Rightarrow>
                    (case apply_heads B w layer canonical hdl head_recipes current [] of
                       None \<Rightarrow> None
                     | Some (Inl e) \<Rightarrow> Some (Err e)
                     | Some (Inr (current, fired)) \<Rightarrow>
                         (case (if regular_recipes = [] then Ok (current, [])
                                else br_apply B regular_recipes current (model_family_of w) (ws_rank w) layer canonical
                                  (tick_id (ws_tick_state w)) hdl) of
                            Inl e \<Rightarrow> Some (Err e)
                          | Inr (current, f) \<Rightarrow>
                              let all_fired = fired @ f in
                              Some (Ok (if all_fired = [] then None else Some (current, all_fired))))))))"

section \<open>The step loop\<close>

record 't step_acc =
  sa_worker :: "'t worker_state"
  sa_ticks :: u32
  sa_tracking :: "u32 option"
  sa_drain :: DrainState
  sa_events :: "probe_fired_event list"
  sa_truncated :: bool
  sa_fired :: "string list"
  sa_puts :: "'t option list"

definition stash_output :: "string \<Rightarrow> u32 \<Rightarrow> 't option \<Rightarrow> 't worker_state \<Rightarrow> 't worker_state" where
  "stash_output path call_index output w =
     (case (output, ws_last_outputs w) of
        (Some t, Some lo) \<Rightarrow> w\<lparr>ws_last_outputs := Some (AList.update (path, call_index) t lo)\<rparr>
      | _ \<Rightarrow> w)"

definition locate :: "'t worker_state \<Rightarrow> string \<Rightarrow> u32 \<Rightarrow> (string \<times> u32) option" where
  "locate w path call_index =
     (case map_of (ws_component_index w) (path, call_index) of
        Some idx \<Rightarrow>
          (case ws_component_map w of
             None \<Rightarrow> None
           | Some cmap \<Rightarrow>
               if idx < length (cm_components cmap)
               then let c = cm_components cmap ! idx in Some (ma_canonical c, unwrap_or (ma_layer_index c) 0)
               else None)
      | None \<Rightarrow> Some (''_raw.'' @ path, 0))"

definition probe_tick :: "(nat \<Rightarrow> nat) \<Rightarrow> u32 \<Rightarrow> u32 \<Rightarrow> string \<Rightarrow> u32 \<Rightarrow> 't step_acc \<Rightarrow> 't step_acc" where
  "probe_tick secs max_events layer canonical call_index acc =
     (let w = sa_worker acc in
      if \<not> sa_truncated acc \<and> ws_active_probes w \<noteq> [] then
        let current_point = build_tick_probe_point (model_family_of w) (ws_rank w) layer canonical call_index;
            budget = saturating_sub max_events (word_of_nat (length (sa_events acc)));
            (new_events, trunc) = evaluate_probes (\<lambda>n. secs (length (sa_events acc) + n)) w current_point budget
              (ws_active_probes w) []
        in acc\<lparr>sa_events := sa_events acc @ new_events, sa_truncated := trunc\<rparr>
      else acc)"

text \<open>Counting a tick: whether the loop stops here.\<close>

definition count_tick :: "StepPlan \<Rightarrow> u32 \<Rightarrow> 't step_acc \<Rightarrow> bool \<times> 't step_acc" where
  "count_tick plan layer acc =
     (if pl_granularity plan = G_Layer then
        (if is_layer_boundary (sa_tracking acc) layer then
           if sa_drain acc = Draining then (True, acc)
           else
             let acc = acc\<lparr>sa_ticks := sa_ticks acc + 1\<rparr>;
                 acc = (if pl_ticks_to_drain plan \<le> sa_ticks acc then acc\<lparr>sa_drain := Draining\<rparr> else acc)
             in (False, acc\<lparr>sa_tracking := Some layer\<rparr>)
         else (False, acc\<lparr>sa_tracking := Some layer\<rparr>))
      else
        let acc = acc\<lparr>sa_ticks := sa_ticks acc + 1\<rparr> in (pl_ticks_to_drain plan \<le> sa_ticks acc, acc))"

definition put_result :: "('t \<times> string list) option \<Rightarrow> 't step_acc \<Rightarrow> 't step_acc" where
  "put_result r acc =
     (case r of
        Some (modified, fired) \<Rightarrow> acc\<lparr>sa_fired := sa_fired acc @ fired, sa_puts := sa_puts acc @ [Some modified]\<rparr>
      | None \<Rightarrow> acc\<lparr>sa_puts := sa_puts acc @ [None]\<rparr>)"

text \<open>The loop returns whether the forward pass completed.\<close>

fun step_loop ::
  "'t bridge_ops \<Rightarrow> (nat \<Rightarrow> nat) \<Rightarrow> StepPlan \<Rightarrow> host_step_request \<Rightarrow> u64 \<Rightarrow> (string, 't mb_item) result list \<Rightarrow> 't step_acc
   \<Rightarrow> ((string, bool) result \<times> 't step_acc) option" where
  "step_loop B secs plan req hdl [] acc = Some (Err ''mailbox wait timed out'', acc)"
| "step_loop B secs plan req hdl (m # msgs) acc =
     (case m of
        Inl e \<Rightarrow> Some (Err e, acc)
      | Inr item \<Rightarrow>
          let w = stash_output (mi_path item) (mi_call_index item) (mi_output item) (sa_worker acc);
              acc = acc\<lparr>sa_worker := w\<rparr>
          in case mi_restore item of
             Inl e \<Rightarrow> Some (Err e, acc)
           | Inr _ \<Rightarrow>
             if mi_path item = FORWARD_COMPLETE_SENTINEL then Some (Ok True, acc)
             else case locate w (mi_path item) (mi_call_index item) of
               None \<Rightarrow> None
             | Some (canonical, layer) \<Rightarrow>
                 let w = w\<lparr>ws_tick_state := TickState_advance canonical layer (mi_call_index item) (ws_tick_state w)\<rparr>;
                     acc = probe_tick secs (unwrap_or (hsq_max_events req) 256) layer canonical (mi_call_index item)
                       (acc\<lparr>sa_worker := w\<rparr>)
                 in case try_apply_interventions B w req (mi_output item) layer canonical hdl of
                      None \<Rightarrow> None
                    | Some (Inl e) \<Rightarrow> Some (Err e, acc)
                    | Some (Inr r) \<Rightarrow>
                        (case count_tick plan layer acc of
                           (True, acc) \<Rightarrow> Some (Ok False, acc)
                         | (False, acc) \<Rightarrow>
                             (case mi_put item of
                                Inl e \<Rightarrow> Some (Err e, acc)
                              | Inr _ \<Rightarrow> step_loop B secs plan req hdl msgs (put_result r acc))))"

text \<open>
  A forward pass that completed is dropped, with its clock, before the next step. \<open>setup\<close> is the outcome
  of the bridge calls that start a new pass; the outputs of the old one are cleared before them.
\<close>

definition drop_completed :: "'t worker_state \<Rightarrow> 't worker_state" where
  "drop_completed w =
     (if ws_forward_pass w = Some True then w\<lparr>ws_forward_pass := None, ws_tick_state := TickState_new (ws_rank w)\<rparr> else w)"

definition ensure_forward_pass :: "(string, unit) result \<Rightarrow> 't worker_state \<Rightarrow> (string, unit) result \<times> 't worker_state" where
  "ensure_forward_pass setup w =
     (if ws_forward_pass w \<noteq> None then (Ok (), w)
      else let w = w\<lparr>ws_last_outputs := Some []\<rparr> in
        case setup of
          Inl e \<Rightarrow> (Err e, w)
        | Inr _ \<Rightarrow> (Ok (), w\<lparr>ws_forward_pass := Some False\<rparr>))"

definition run_step_loop ::
  "'t bridge_ops \<Rightarrow> (nat \<Rightarrow> nat) \<Rightarrow> u64 \<Rightarrow> (string, unit) result \<Rightarrow> (string, 't mb_item) result list \<Rightarrow> u64 \<Rightarrow> host_step_request
   \<Rightarrow> 't worker_state \<Rightarrow> ((string, host_step_response) result \<times> 't worker_state \<times> 't option list) option" where
  "run_step_loop B secs elapsed_ns setup msgs hdl req w =
     (let plan = plan_step (hsq_count req) (hsq_granularity req);
          w = drop_completed w;
          resuming = (ws_forward_pass w \<noteq> None)
      in case ensure_forward_pass setup w of
           (Inl e, w) \<Rightarrow> Some (Err e, w, [])
         | (Inr _, w) \<Rightarrow>
             let acc = \<lparr>sa_worker = w, sa_ticks = 0,
                   sa_tracking = (if resuming then Some (tk_layer (ws_tick_state w)) else None), sa_drain = Counting,
                   sa_events = [], sa_truncated = False, sa_fired = [],
                   sa_puts = (if resuming then [None] else [])\<rparr>
             in case (if resuming then br_resume B else Ok ()) of
               Inl e \<Rightarrow> Some (Err e, w, [])
             | Inr _ \<Rightarrow> case step_loop B secs plan req hdl msgs acc of
                  None \<Rightarrow> None
                | Some (Inl e, acc) \<Rightarrow> Some (Err e, sa_worker acc, sa_puts acc)
                | Some (Inr forward_complete, acc) \<Rightarrow>
                    let w = sa_worker acc;
                        w = (if forward_complete
                             then w\<lparr>ws_forward_pass := map_option (\<lambda>_. True) (ws_forward_pass w),
                                    ws_tick_state := TickState_advance_token (ws_tick_state w)\<rparr>
                             else w)
                    in Some (Ok \<lparr>hs_position = to_tick_position elapsed_ns (ws_tick_state w), hs_events = sa_events acc,
                          hs_forward_complete = forward_complete, hs_events_truncated = sa_truncated acc,
                          hs_fired_interventions = sa_fired acc\<rparr>, w, sa_puts acc))"

section \<open>The handlers\<close>

record 'v worker_codec =
  wc_empty_object :: 'v
  wc_step :: "'v \<Rightarrow> (string, host_step_request) result"
  wc_update_probes :: "'v \<Rightarrow> (string, host_update_probes_request) result"
  wc_kv_read :: "'v \<Rightarrow> (string, host_kv_read_request) result"
  wc_kv_intervene :: "'v \<Rightarrow> (string, host_kv_intervene_request) result"
  wc_configure_hooks :: "'v \<Rightarrow> (string, unit) result"
  ws_of_step :: "host_step_response \<Rightarrow> (string, 'v) result"
  ws_of_update_probes :: "u32 \<Rightarrow> (string, 'v) result"
  ws_of_kv_read :: "host_kv_read_response \<Rightarrow> (string, 'v) result"
  ws_of_kv_intervene :: "host_kv_intervene_response \<Rightarrow> (string, 'v) result"
  ws_of_configure_hooks :: "u32 \<Rightarrow> u32 \<Rightarrow> (string, 'v) result"

definition worker_params :: "'v worker_codec \<Rightarrow> ('v \<Rightarrow> (string, 'r) result) \<Rightarrow> 'v request \<Rightarrow> ('v response, 'r) result" where
  "worker_params C de rq =
     (case de (unwrap_or (rq_params rq) (wc_empty_object C)) of
        Inr r \<Rightarrow> Ok r
      | Inl e \<Rightarrow> Err (bare_error (rq_id rq) INVALID_PARAMS (''Invalid params: '' @ e)))"

definition internal_error :: "request_id \<Rightarrow> string \<Rightarrow> 'v response" where
  "internal_error i m = bare_error i INTERNAL_ERROR m"

definition worker_reply :: "request_id \<Rightarrow> (string, 'v) result \<Rightarrow> 'v response" where
  "worker_reply i r = (case r of
     Inr v \<Rightarrow> Response_success i v
   | Inl e \<Rightarrow> internal_error i (''serialization failed: '' @ e))"

text \<open>The guard that the model handle of a request is that of the loaded model.\<close>

definition validate_handle :: "'t worker_state \<Rightarrow> u64 \<Rightarrow> (string, u64) result" where
  "validate_handle w req_handle =
     (case ws_model_handle w of
        None \<Rightarrow> Err ''No model loaded''
      | Some hdl \<Rightarrow>
          if req_handle \<noteq> hdl then Err (''model handle mismatch: expected '' @ show_u64 hdl @ '', got '' @ show_u64 req_handle)
          else Ok hdl)"

definition handle_host_step ::
  "'t bridge_ops \<Rightarrow> 'v worker_codec \<Rightarrow> (nat \<Rightarrow> nat) \<Rightarrow> u64 \<Rightarrow> (string, unit) result \<Rightarrow> (string, 't mb_item) result list \<Rightarrow> 'v request
   \<Rightarrow> 't worker_state \<Rightarrow> ('v response \<times> 't worker_state \<times> 't option list) option" where
  "handle_host_step B C secs elapsed_ns setup msgs rq w =
     (case worker_params C (wc_step C) rq of
        Inl resp \<Rightarrow> Some (resp, w, [])
      | Inr req \<Rightarrow>
          (case validate_handle w (hsq_model_handle req) of
             Inl e \<Rightarrow> Some (internal_error (rq_id rq) e, w, [])
           | Inr hdl \<Rightarrow>
               if ws_component_map w = None then Some (internal_error (rq_id rq) ''No component map available'', w, [])
               else map_option (\<lambda>(r, w', puts).
                 (case r of
                    Inr resp \<Rightarrow> worker_reply (rq_id rq) (ws_of_step C resp)
                  | Inl e \<Rightarrow> internal_error (rq_id rq) (''step failed: '' @ e), w', puts))
                 (run_step_loop B secs elapsed_ns setup msgs hdl req w)))"

definition handle_host_update_probes ::
  "(string \<Rightarrow> parse_error) \<Rightarrow> 'v worker_codec \<Rightarrow> 'v request \<Rightarrow> 't worker_state \<Rightarrow> 'v response \<times> 't worker_state" where
  "handle_host_update_probes render C rq w =
     (case worker_params C (wc_update_probes C) rq of
        Inl resp \<Rightarrow> (resp, w)
      | Inr req \<Rightarrow>
          let parsed = concat (map (\<lambda>probe. case ProbePoint_parse render (pd_point probe) of
                Inr pp \<Rightarrow> [(probe, pp)] | Inl _ \<Rightarrow> []) (huq_active_probes req))
          in (worker_reply (rq_id rq) (ws_of_update_probes C (word_of_nat (length parsed))), w\<lparr>ws_active_probes := parsed\<rparr>))"

definition handle_host_configure_hooks :: "'v worker_codec \<Rightarrow> 'v request \<Rightarrow> 'v response" where
  "handle_host_configure_hooks C rq =
     (case worker_params C (wc_configure_hooks C) rq of
        Inl resp \<Rightarrow> resp
      | Inr _ \<Rightarrow> worker_reply (rq_id rq) (ws_of_configure_hooks C 0 0))"

definition handle_host_kv_read :: "kv_f64_ops \<Rightarrow> 'v worker_codec \<Rightarrow> 'v request \<Rightarrow> 't worker_state \<Rightarrow> 'v response" where
  "handle_host_kv_read F C rq w =
     (case worker_params C (wc_kv_read C) rq of
        Inl resp \<Rightarrow> resp
      | Inr req \<Rightarrow>
          (case validate_handle w (hkq_model_handle req) of
             Inl e \<Rightarrow> internal_error (rq_id rq) e
           | Inr _ \<Rightarrow> worker_reply (rq_id rq) (ws_of_kv_read C (kv_read F req (ws_kv_cache w)))))"

definition handle_host_kv_intervene :: "'v worker_codec \<Rightarrow> 'v request \<Rightarrow> 't worker_state \<Rightarrow> 'v response \<times> 't worker_state" where
  "handle_host_kv_intervene C rq w =
     (case worker_params C (wc_kv_intervene C) rq of
        Inl resp \<Rightarrow> (resp, w)
      | Inr req \<Rightarrow>
          (case validate_handle w (hxq_model_handle req) of
             Inl e \<Rightarrow> (internal_error (rq_id rq) e, w)
           | Inr _ \<Rightarrow>
               (case kv_intervene req (tick_id (ws_tick_state w)) (ws_kv_cache w) of
                  (resp, cache) \<Rightarrow> (worker_reply (rq_id rq) (ws_of_kv_intervene C resp), w\<lparr>ws_kv_cache := cache\<rparr>))))"

section \<open>Steps\<close>

lemma evaluate_probes_budget:
  "length events \<le> unat budget \<Longrightarrow> length (fst (evaluate_probes secs w pt budget ps events)) \<le> unat budget"
  by (induction secs w pt budget ps events rule: evaluate_probes.induct) (auto simp: not_le)

lemma probe_tick_simps [simp]:
  "sa_worker (probe_tick secs m l c i acc) = sa_worker acc" "sa_ticks (probe_tick secs m l c i acc) = sa_ticks acc"
  "sa_puts (probe_tick secs m l c i acc) = sa_puts acc" "sa_fired (probe_tick secs m l c i acc) = sa_fired acc"
  "sa_tracking (probe_tick secs m l c i acc) = sa_tracking acc" "sa_drain (probe_tick secs m l c i acc) = sa_drain acc"
  by (auto simp: probe_tick_def Let_def split: prod.splits)

lemma probe_tick_budget:
  fixes acc :: "'t step_acc"
  assumes "length (sa_events acc) \<le> unat m"
  shows "length (sa_events (probe_tick secs m l c i acc)) \<le> unat m"
proof -
  let ?n = "word_of_nat (length (sa_events acc)) :: u32"
  have n: "unat ?n = length (sa_events acc)"
    using assms unat_lt [of m] by (simp add: unat_of_nat)
  have "length (fst (evaluate_probes s w pt (saturating_sub m ?n) ps [])) \<le> unat m - length (sa_events acc)" for s and w :: "'t worker_state" and pt ps
    using evaluate_probes_budget [of "[]" "saturating_sub m ?n"] n by (simp add: unat_saturating_sub)
  then show ?thesis
    using assms by (simp add: probe_tick_def Let_def split_beta le_diff_conv2 add.commute)
qed

lemma put_result_simps [simp]:
  "sa_worker (put_result r acc) = sa_worker acc" "sa_ticks (put_result r acc) = sa_ticks acc"
  "sa_events (put_result r acc) = sa_events acc" "length (sa_puts (put_result r acc)) = Suc (length (sa_puts acc))"
  by (auto simp: put_result_def split: option.splits prod.splits)

lemma stash_output_simps [simp]:
  "ws_tick_state (stash_output p c t w) = ws_tick_state w" "ws_forward_pass (stash_output p c t w) = ws_forward_pass w"
  by (auto simp: stash_output_def split: option.splits)

lemma count_tick_events [simp]: "sa_events (snd (count_tick plan l acc)) = sa_events acc"
  by (simp add: count_tick_def Let_def)

text \<open>One round of the loop, when it yields a result: it ends, or a tick was counted.\<close>

lemma step_loop_cases:
  assumes "step_loop B secs plan req hdl msgs acc = Some (Ok fc, acc')"
  obtains (complete) "fc" "\<exists>w. acc' = acc\<lparr>sa_worker := w\<rparr> \<and> ws_tick_state w = ws_tick_state (sa_worker acc)"
  | (tick) item rest acc1 layer r where "msgs = Inr item # rest"
      "tk_operator (ws_tick_state (sa_worker acc1)) = tk_operator (ws_tick_state (sa_worker acc)) + 1"
      "sa_ticks acc1 = sa_ticks acc" "sa_puts acc1 = sa_puts acc" "sa_fired acc1 = sa_fired acc"
      "length (sa_events acc) \<le> unat (unwrap_or (hsq_max_events req) 256) \<Longrightarrow>
        length (sa_events acc1) \<le> unat (unwrap_or (hsq_max_events req) 256)"
      "fst (count_tick plan layer acc1) \<and> \<not> fc \<and> acc' = snd (count_tick plan layer acc1) \<or>
       \<not> fst (count_tick plan layer acc1) \<and>
        step_loop B secs plan req hdl rest (put_result r (snd (count_tick plan layer acc1))) = Some (Ok fc, acc')"
proof -
  obtain item rest where m: "msgs = Inr item # rest"
    using assms by (cases msgs) (auto split: sum.splits)
  let ?w = "stash_output (mi_path item) (mi_call_index item) (mi_output item) (sa_worker acc)"
  have ready: "mi_restore item = Ok ()" using assms by (cases "mi_restore item") (auto simp: m Let_def)
  show thesis
  proof (cases "mi_path item = FORWARD_COMPLETE_SENTINEL")
    case True
    then show thesis using assms ready by (intro complete) (auto simp: m Let_def intro!: exI [of _ ?w])
  next
    case False
    then obtain canonical layer where loc: "locate ?w (mi_path item) (mi_call_index item) = Some (canonical, layer)"
      using assms ready by (auto simp: m Let_def split: option.splits)
    let ?w1 = "?w\<lparr>ws_tick_state := TickState_advance canonical layer (mi_call_index item) (ws_tick_state ?w)\<rparr>"
    let ?acc1 = "probe_tick secs (unwrap_or (hsq_max_events req) 256) layer canonical (mi_call_index item) (acc\<lparr>sa_worker := ?w1\<rparr>)"
    obtain r where r: "try_apply_interventions B ?w1 req (mi_output item) layer canonical hdl = Some (Ok r)"
      using assms ready False loc by (auto simp: m Let_def split: option.splits sum.splits)
    have ev: "length (sa_events acc) \<le> unat (unwrap_or (hsq_max_events req) 256) \<Longrightarrow>
        length (sa_events ?acc1) \<le> unat (unwrap_or (hsq_max_events req) 256)"
      by (rule probe_tick_budget) simp
    obtain stop acc2 where ct: "count_tick plan layer ?acc1 = (stop, acc2)" by fastforce
    show thesis
      using assms ready False loc r ct ev
      by (intro tick [OF m, of ?acc1 layer r]) (auto simp: m Let_def split: bool.splits sum.splits)
  qed
qed

lemma step_loop_events:
  assumes "step_loop B secs plan req hdl msgs acc = Some (Ok fc, acc')"
    and "length (sa_events acc) \<le> unat (unwrap_or (hsq_max_events req) 256)"
  shows "length (sa_events acc') \<le> unat (unwrap_or (hsq_max_events req) 256)"
  using assms
proof (induction msgs arbitrary: acc)
  case (Cons m msgs)
  from Cons.prems(1) show ?case
  proof (cases rule: step_loop_cases)
    case complete
    then show ?thesis using Cons.prems(2) by auto
  next
    case (tick item rest acc1 layer r)
    then show ?thesis using Cons.prems(2) Cons.IH [of "put_result r (snd (count_tick plan layer acc1))"] by auto
  qed
qed simp

lemma step_loop_component:
  assumes "pl_granularity plan \<noteq> G_Layer" "step_loop B secs plan req hdl msgs acc = Some (Ok False, acc')"
    and "sa_ticks acc < pl_ticks_to_drain plan"
  shows "tk_operator (ws_tick_state (sa_worker acc')) =
      tk_operator (ws_tick_state (sa_worker acc)) + word_of_nat (unat (pl_ticks_to_drain plan) - unat (sa_ticks acc)) \<and>
    length (sa_puts acc') = length (sa_puts acc) + (unat (pl_ticks_to_drain plan) - unat (sa_ticks acc) - 1)"
  using assms(2,3)
proof (induction msgs arbitrary: acc)
  case (Cons m msgs)
  let ?n = "unat (pl_ticks_to_drain plan)"
  have succ: "unat (sa_ticks acc + 1) = Suc (unat (sa_ticks acc))"
    using Cons.prems(2) unat_lt [of "pl_ticks_to_drain plan"]
    by (simp add: unat_add_no_wrap word_less_nat_alt)
  have lt: "unat (sa_ticks acc) < ?n" using Cons.prems(2) by (simp add: word_less_nat_alt)
  from Cons.prems(1) show ?case
  proof (cases rule: step_loop_cases)
    case (tick item rest acc1 layer r)
    let ?acc2 = "acc1\<lparr>sa_ticks := sa_ticks acc + 1\<rparr>"
    have ct: "count_tick plan layer acc1 = (pl_ticks_to_drain plan \<le> sa_ticks acc + 1, ?acc2)"
      using assms(1) tick(3) by (simp add: count_tick_def Let_def)
    show ?thesis
    proof (cases "pl_ticks_to_drain plan \<le> sa_ticks acc + 1")
      case True
      then have "?n - unat (sa_ticks acc) = 1" using lt succ by (simp add: word_le_nat_alt)
      with True tick(2,4,7) ct show ?thesis by simp
    next
      case False
      then have rest: "step_loop B secs plan req hdl msgs (put_result r ?acc2) = Some (Ok False, acc')"
        using tick(1,7) ct by auto
      have "sa_ticks (put_result r ?acc2) < pl_ticks_to_drain plan" using False by (simp add: not_le)
      from Cons.IH [OF rest this] have
        "tk_operator (ws_tick_state (sa_worker acc')) =
           tk_operator (ws_tick_state (sa_worker acc)) + 1 + word_of_nat (?n - Suc (unat (sa_ticks acc)))"
        "length (sa_puts acc') = Suc (length (sa_puts acc)) + (?n - Suc (unat (sa_ticks acc)) - 1)"
        using tick(2,4) by (simp_all add: succ)
      moreover have "?n - unat (sa_ticks acc) = Suc (?n - Suc (unat (sa_ticks acc)))"
        "Suc (unat (sa_ticks acc)) < ?n"
        using lt False succ by (simp_all add: word_le_nat_alt)
      ultimately show ?thesis by (simp add: add.assoc)
    qed
  qed simp
qed simp

end
