(* ===== verification/Worker_Step_Contract.thy ===== *)
theory Worker_Step_Contract
  imports Worker_Step
begin

text \<open>
  What a step of the worker does: how far it moves the clock, how it hands the forward pass back, how many
  probe events it reports, and which of the interventions sent along reach the model.
\<close>

section \<open>Component steps\<close>

lemma run_step_loop_Ok:
  assumes "run_step_loop B secs elapsed setup msgs hdl req w = Some (Ok resp, w', puts)" "\<not> hs_forward_complete resp"
  obtains acc acc' where
    "step_loop B secs (plan_step (hsq_count req) (hsq_granularity req)) req hdl msgs acc = Some (Ok False, acc')"
    "sa_ticks acc = 0" "sa_events acc = []" "sa_fired acc = []"
    "sa_puts acc = (if ws_forward_pass w = Some False then [None] else [])"
    "ws_tick_state (sa_worker acc) = ws_tick_state (drop_completed w)"
    "w' = sa_worker acc'" "puts = sa_puts acc'"
    "resp = \<lparr>hs_position = to_tick_position elapsed (ws_tick_state w'), hs_events = sa_events acc',
       hs_forward_complete = False, hs_events_truncated = sa_truncated acc', hs_fired_interventions = sa_fired acc'\<rparr>"
proof -
  let ?w = "drop_completed w"
  have resume: "ws_forward_pass ?w \<noteq> None \<longleftrightarrow> ws_forward_pass w = Some False"
    by (auto simp: drop_completed_def)
  obtain w1 where w1: "ensure_forward_pass setup ?w = (Ok (), w1)"
    using assms(1) by (auto simp: run_step_loop_def Let_def split: prod.splits sum.splits)
  have t1: "ws_tick_state w1 = ws_tick_state ?w"
    using w1 by (auto simp: ensure_forward_pass_def Let_def split: if_splits sum.splits)
  let ?acc = "\<lparr>sa_worker = w1, sa_ticks = 0,
     sa_tracking = (if ws_forward_pass ?w \<noteq> None then Some (tk_layer (ws_tick_state w1)) else None), sa_drain = Counting,
     sa_events = [], sa_truncated = False, sa_fired = [], sa_puts = (if ws_forward_pass ?w \<noteq> None then [None] else [])\<rparr>"
  have resumed: "(if ws_forward_pass ?w \<noteq> None then br_resume B else Ok ()) = Ok ()"
    using assms(1) w1 by (cases "br_resume B") (auto simp: run_step_loop_def Let_def split: if_splits)
  obtain fc acc' where loop: "step_loop B secs (plan_step (hsq_count req) (hsq_granularity req)) req hdl msgs ?acc = Some (Ok fc, acc')"
    using assms(1) w1 resumed
    by (auto simp: run_step_loop_def Let_def simp del: not_None_eq split: option.split_asm prod.splits sum.split_asm)
  with assms w1 resumed have "\<not> fc" by (auto simp: run_step_loop_def Let_def simp del: not_None_eq)
  with loop assms(1) w1 t1 resume resumed show thesis
    by (intro that [of ?acc acc']) (auto simp: run_step_loop_def Let_def simp del: not_None_eq)
qed

text \<open>C29: a component step of \<open>n\<close> ticks that succeeds before the end of the forward pass advances the operator
  clock by exactly \<open>n\<close>, reports that clock as its position, and answers the forward pass exactly once for
  every tick but the last: the pass is left waiting at the tick the step stopped at, and the next step
  answers it first. The number of probe events stays within the budget of the request.
\<close>

theorem component_step_exact:
  assumes "run_step_loop B secs elapsed setup msgs hdl req w = Some (Ok resp, w', puts)" "\<not> hs_forward_complete resp"
    and "hsq_granularity req \<noteq> Some G_Layer" "0 < hsq_count req"
  shows "tk_operator (ws_tick_state w') = tk_operator (ws_tick_state (drop_completed w)) + ucast (hsq_count req) \<and>
    tp_tick_id (hs_position resp) = tk_operator (ws_tick_state w') \<and>
    length puts = unat (hsq_count req) - 1 + (if ws_forward_pass w = Some False then 1 else 0) \<and>
    length (hs_events resp) \<le> unat (unwrap_or (hsq_max_events req) 256)"
proof -
  let ?plan = "plan_step (hsq_count req) (hsq_granularity req)"
  obtain acc acc' where run: "step_loop B secs ?plan req hdl msgs acc = Some (Ok False, acc')" "sa_ticks acc = 0"
    "sa_events acc = []" "sa_puts acc = (if ws_forward_pass w = Some False then [None] else [])"
    "ws_tick_state (sa_worker acc) = ws_tick_state (drop_completed w)" "w' = sa_worker acc'" "puts = sa_puts acc'"
    "resp = \<lparr>hs_position = to_tick_position elapsed (ws_tick_state w'), hs_events = sa_events acc',
       hs_forward_complete = False, hs_events_truncated = sa_truncated acc', hs_fired_interventions = sa_fired acc'\<rparr>"
    using run_step_loop_Ok [OF assms(1,2)] by metis
  have plan: "pl_granularity ?plan \<noteq> G_Layer" "pl_ticks_to_drain ?plan = hsq_count req"
    using assms(3) by (cases "hsq_granularity req"; simp add: plan_step_def)+
  have "word_of_nat (unat (hsq_count req)) = (ucast (hsq_count req) :: u64)" by simp
  with step_loop_component [OF plan(1) run(1)] step_loop_events [OF run(1)] run(2-) plan(2) assms(4) show ?thesis
    by (auto simp: to_tick_position_def)
qed

section \<open>Interventions at the stop\<close>

lemma step_loop_single:
  assumes "pl_granularity plan \<noteq> G_Layer" "pl_ticks_to_drain plan \<le> 1" "sa_ticks acc = 0"
    and "step_loop B secs plan req hdl msgs acc = Some (Ok False, acc')"
  shows "sa_puts acc' = sa_puts acc \<and> sa_fired acc' = sa_fired acc"
  using assms(4)
proof (cases rule: step_loop_cases)
  case (tick item rest acc1 layer r)
  have "count_tick plan layer acc1 = (True, acc1\<lparr>sa_ticks := 1\<rparr>)"
    using assms(1-3) tick(3) by (simp add: count_tick_def Let_def)
  with tick show ?thesis by simp
qed simp

text \<open>C37: single-stepping loses interventions. A component step of one tick applies the recipes of the request
  to the output it stops at and then throws the result away: whatever the recipes are and whatever they
  do, no tensor is put back to the forward pass and none is reported as fired; the next step lets the
  pass go on with the original output.
\<close>

theorem single_step_drops_interventions:
  assumes "run_step_loop B secs elapsed setup msgs hdl req w = Some (Ok resp, w', puts)" "\<not> hs_forward_complete resp"
    and "hsq_granularity req \<noteq> Some G_Layer" "hsq_count req = 1"
  shows "hs_fired_interventions resp = [] \<and> puts = (if ws_forward_pass w = Some False then [None] else [])"
proof -
  let ?plan = "plan_step (hsq_count req) (hsq_granularity req)"
  obtain acc acc' where run: "step_loop B secs ?plan req hdl msgs acc = Some (Ok False, acc')" "sa_ticks acc = 0"
    "sa_fired acc = []" "sa_puts acc = (if ws_forward_pass w = Some False then [None] else [])" "puts = sa_puts acc'"
    "resp = \<lparr>hs_position = to_tick_position elapsed (ws_tick_state w'), hs_events = sa_events acc',
       hs_forward_complete = False, hs_events_truncated = sa_truncated acc', hs_fired_interventions = sa_fired acc'\<rparr>"
    using run_step_loop_Ok [OF assms(1,2)] by metis
  have "pl_granularity ?plan \<noteq> G_Layer" "pl_ticks_to_drain ?plan \<le> 1"
    using assms(3,4) by (cases "hsq_granularity req"; simp add: plan_step_def)+
  from step_loop_single [OF this run(2,1)] run(3-) show ?thesis by simp
qed

definition demo_bridge :: "nat bridge_ops" where
  "demo_bridge = \<lparr>br_resume = Ok (), br_clone = Ok, br_shape = (\<lambda>_. Ok [8]), br_head_slice = (\<lambda>t _ _. Ok t), br_set_head = (\<lambda>t _ _ _. Ok t),
     br_apply = (\<lambda>rs t _ _ _ _ _ _. Ok (t + 1, map ir_target rs))\<rparr>"

definition demo_recipe :: intervention_recipe where
  "demo_recipe = \<lparr>ir_id = None, ir_type = T_Ablate, ir_target = ''gpt2:0:0:mlp:0:output'', ir_params = P_Ablate Ablate_Zero None None,
     ir_condition = None, ir_priority = 0, ir_mode = Replace\<rparr>"

definition demo_step :: "u32 \<Rightarrow> host_step_request" where
  "demo_step n = \<lparr>hsq_model_handle = 1, hsq_count = n, hsq_direction = Forward, hsq_granularity = None, hsq_max_events = None,
     hsq_interventions = [demo_recipe], hsq_input_ids = None\<rparr>"

definition demo_item :: "nat \<Rightarrow> (string, nat mb_item) result" where
  "demo_item v = Ok \<lparr>mi_path = ''h.0.mlp'', mi_call_index = 0, mi_output = Some v, mi_restore = Ok (), mi_put = Ok ()\<rparr>"

lemma demo_recipe_head: "extract_head_index (ir_target demo_recipe) = Some None"
  by (simp add: demo_recipe_def extract_head_index_def Let_def)

lemmas demo_run_defs = run_step_loop_def drop_completed_def ensure_forward_pass_def WorkerState_new_def plan_step_def
  demo_step_def demo_item_def demo_bridge_def stash_output_def FORWARD_COMPLETE_SENTINEL_def locate_def probe_tick_def
  try_apply_interventions_def demo_recipe_head count_tick_def put_result_def Let_def
  word_le_nat_alt

theorem component_step_exact_witness:
  "\<exists>resp w' puts. run_step_loop demo_bridge (\<lambda>n. n) 5 (Ok ()) [demo_item 7, demo_item 8, demo_item 9] 1 (demo_step 2) WorkerState_new =
      Some (Ok resp, w', puts) \<and> \<not> hs_forward_complete resp \<and> tk_operator (ws_tick_state w') = 2 \<and> length puts = 1"
proof -
  obtain resp w' puts where run: "run_step_loop demo_bridge (\<lambda>n. n) 5 (Ok ()) [demo_item 7, demo_item 8, demo_item 9] 1 (demo_step 2)
      WorkerState_new = Some (Ok resp, w', puts)" "\<not> hs_forward_complete resp"
    by (simp add: demo_run_defs)
  have "hsq_granularity (demo_step 2) \<noteq> Some G_Layer" "0 < hsq_count (demo_step 2)" by (simp_all add: demo_step_def)
  from component_step_exact [OF run this] run show ?thesis
    by (auto simp: demo_step_def drop_completed_def WorkerState_new_def TickState_new_def)
qed

theorem single_step_drops_interventions_witness:
  "\<exists>resp w' puts. run_step_loop demo_bridge (\<lambda>n. n) 5 (Ok ()) [demo_item 7] 1 (demo_step 1) WorkerState_new =
      Some (Ok resp, w', puts) \<and> puts = [] \<and> hs_fired_interventions resp = [] \<and>
      try_apply_interventions demo_bridge w' (demo_step 1) (Some 7) 0 ''_raw.h.0.mlp'' 1 = Some (Ok (Some (8, [ir_target demo_recipe])))"
proof -
  obtain resp w' puts where run: "run_step_loop demo_bridge (\<lambda>n. n) 5 (Ok ()) [demo_item 7] 1 (demo_step 1)
      WorkerState_new = Some (Ok resp, w', puts)" "\<not> hs_forward_complete resp"
    by (simp add: demo_run_defs)
  have "hsq_granularity (demo_step 1) \<noteq> Some G_Layer" "hsq_count (demo_step 1) = 1" by (simp_all add: demo_step_def)
  from single_step_drops_interventions [OF run this] have "puts = []" "hs_fired_interventions resp = []"
    by (simp_all add: WorkerState_new_def)
  moreover have "try_apply_interventions demo_bridge w' (demo_step 1) (Some 7) 0 ''_raw.h.0.mlp'' 1 =
      Some (Ok (Some (8, [ir_target demo_recipe])))"
    by (simp add: try_apply_interventions_def demo_step_def demo_recipe_head demo_bridge_def Let_def)
  ultimately show ?thesis using run by blast
qed

section \<open>Targets with an open bracket\<close>

lemma find_char_append: "c \<notin> set s \<Longrightarrow> find_char c (s @ c # t) = Some (length s)"
  by (induction s) auto

lemma identifier_plain: "is_identifier n \<Longrightarrow> CHR '':'' \<notin> set n \<and> CHR ''['' \<notin> set n"
  using identifier_ident_chars [of n] by (auto simp: list_all_iff)

definition open_bracket_target :: "string \<Rightarrow> string \<Rightarrow> string" where
  "open_bracket_target family_name canonical = family_name @ '':*:*:'' @ canonical @ ''[:output''"

lemma open_bracket_split:
  assumes "is_identifier family_name" "is_identifier canonical"
  shows "split_on CHR '':'' (open_bracket_target family_name canonical) =
    [family_name, ''*'', ''*'', canonical @ ''['', ''output'']"
proof -
  have "open_bracket_target family_name canonical = join_on CHR '':'' [family_name, ''*'', ''*'', canonical @ ''['', ''output'']"
    by (simp add: open_bracket_target_def)
  then show ?thesis
    using assms identifier_plain split_join [of "[family_name, ''*'', ''*'', canonical @ ''['', ''output'']" "CHR '':''"] by simp
qed

text \<open>
  The head index is read from the slice between the first opening bracket and the last byte of the
  component, which starts after its end when the component ends with its first bracket.
\<close>

lemma open_bracket_head:
  assumes "split_on CHR '':'' t = [a, b, c, name @ ''['', e]" "CHR ''['' \<notin> set name"
  shows "extract_head_index t = None"
  using find_char_append [OF assms(2), of "[]"] by (simp add: extract_head_index_def assms(1))

text \<open>When the target is matched against the components the bracket is stripped.\<close>

lemma open_bracket_matches:
  assumes "is_identifier family_name" "is_identifier canonical"
  shows "probe_matches_target render (probe_point_text family_name rank layer canonical) (open_bracket_target family_name canonical)"
proof -
  let ?t = "open_bracket_target family_name canonical"
  note seg = open_bracket_split [OF assms]
  have find: "find_char CHR ''['' (canonical @ ''['') = Some (length canonical)"
    using identifier_plain [OF assms(2)] by (simp add: find_char_append)
  let ?q = "\<lparr>pt_model = Name family_name, pt_rank = NumWild, pt_layer = NumWild, pt_component = Path [Named canonical],
     pt_call_index = NumWild, pt_event = Name ''output''\<rparr>"
  have "parse_target_text ?t = show_point ?q"
    by (simp add: parse_target_text_def seg strip_bracket_suffix_def find show_point_def Let_def)
  moreover have "point_ok ?q" using assms output_identifier by (simp add: point_ok_def)
  ultimately have "ProbePoint_parse render (parse_target_text ?t) = Ok ?q"
    by (simp add: ProbePoint_parse_def parse_all_def point_print)
  then show ?thesis
    by (simp add: probe_matches_target_def parse_probe_point_text [OF assms] component_point_def ProbePoint_matches_def)
qed

text \<open>A target without a bracket in its component names no head.\<close>

definition names_no_head :: "string \<Rightarrow> bool" where
  "names_no_head target \<longleftrightarrow>
     (let segments = split_on CHR '':'' target in length segments \<noteq> 5 \<or> CHR ''['' \<notin> set (segments ! 3))"

lemma find_char_absent: "c \<notin> set s \<Longrightarrow> find_char c s = None"
  by (induction s) auto

lemma names_no_head_extract: "names_no_head t \<Longrightarrow> extract_head_index t = Some None"
  by (auto simp: names_no_head_def extract_head_index_def Let_def find_char_absent)

end
