(* ===== verification/Worker_Spill.thy ===== *)
theory Worker_Spill
  imports Worker_Arena_Store
begin

text \<open>
  Spilling a checkpoint of the arena to a file and loading it back, the second half of
  \<^verbatim>\<open>crates/rocket-surgeon-worker/src/checkpoint.rs\<close>. The directory is a map from file names to
  contents; which file operation fails, and after how many bytes, is an argument. The checksum
  \<^verbatim>\<open>crc32fast::hash\<close> is a parameter. Offsets and lengths in the file are 64-bit words, and the sum of an
  offset and a length read from a file wraps: the slice then starts after its end and the code panics
  (the outer \<^const>\<open>None\<close>).
\<close>

definition SPILL_MAGIC :: bytes where
  "SPILL_MAGIC = [0x43, 0x4B, 0x50, 0x54, 0x53, 0x50, 0x49, 0x4C]"
definition SPILL_VERSION :: u32 where "SPILL_VERSION = 1"
definition SPILL_INDEX_ENTRY_SIZE :: nat where "SPILL_INDEX_ENTRY_SIZE = 80"

record SpillIndexEntry =
  se_layer_idx :: u32
  se_dtype :: DtypeTag
  se_ndim :: u8
  se_shape :: "u64 list"
  se_data_offset :: u64
  se_data_len :: u64
  se_crc32 :: u32

definition SpillIndexEntry_write_to :: "SpillIndexEntry \<Rightarrow> bytes \<Rightarrow> bytes" where
  "SpillIndexEntry_write_to e buf =
     (let buf = write_at 0 (u32_to_le_bytes (se_layer_idx e)) buf;
          buf = buf[4 := DtypeTag_as_u8 (se_dtype e)];
          buf = buf[5 := se_ndim e];
          buf = write_at 6 [0, 0] buf;
          buf = write_words u64_to_le_bytes 8 8 (se_shape e) buf;
          buf = write_at 56 (u64_to_le_bytes (se_data_offset e)) buf;
          buf = write_at 64 (u64_to_le_bytes (se_data_len e)) buf;
          buf = write_at 72 (u32_to_le_bytes (se_crc32 e)) buf
      in write_at 76 [0, 0, 0, 0] buf)"

definition SpillIndexEntry_read_from :: "bytes \<Rightarrow> SpillIndexEntry option" where
  "SpillIndexEntry_read_from buf =
     (case DtypeTag_from_u8 (buf ! 4) of
        None \<Rightarrow> None
      | Some dtype \<Rightarrow>
          Some \<lparr>se_layer_idx = u32_from_le_bytes (read_at 0 4 buf), se_dtype = dtype, se_ndim = buf ! 5,
                se_shape = read_words u64_from_le_bytes 8 8 6 buf,
                se_data_offset = u64_from_le_bytes (read_at 56 8 buf),
                se_data_len = u64_from_le_bytes (read_at 64 8 buf),
                se_crc32 = u32_from_le_bytes (read_at 72 4 buf)\<rparr>)"

section \<open>Spilling\<close>

datatype spill_io = Spill_Done | Create_Failed | Write_Failed nat

type_synonym directory = "string \<rightharpoonup> bytes"

fun spill_entries ::
  "(bytes \<Rightarrow> u32) \<Rightarrow> CheckpointArena \<Rightarrow> u64 \<Rightarrow> (u32 \<times> nat \<times> SlotHeader) list \<Rightarrow> (SpillIndexEntry \<times> bytes) list" where
  "spill_entries crc a data_offset [] = []"
| "spill_entries crc a data_offset ((layer_idx, offset, hdr) # infos) =
     (let data_len = min (sh_byte_len hdr) (word_of_nat (ar_slot_size a - SLOT_HEADER_SIZE));
          data = read_at (offset + SLOT_HEADER_SIZE) (unat data_len) (ar_mem a)
      in (\<lparr>se_layer_idx = layer_idx, se_dtype = sh_dtype hdr, se_ndim = sh_ndim hdr, se_shape = sh_shape hdr,
           se_data_offset = data_offset, se_data_len = data_len, se_crc32 = crc data\<rparr>, data)
         # spill_entries crc a (data_offset + align_up data_len 64) infos)"

text \<open>\<^verbatim>\<open>zero_pad[..align_up(n, 64) - n]\<close>; \<open>padding_bound\<close> below shows that the slice of the 64 zeroes exists.\<close>

definition padding :: "usize \<Rightarrow> bytes" where
  "padding n = replicate (unat (align_up n 64 - n)) 0"

definition spill_header_size :: "nat \<Rightarrow> usize" where
  "spill_header_size n = 8 + 4 + 4 + word_of_nat n * word_of_nat SPILL_INDEX_ENTRY_SIZE"

definition spill_file :: "(SpillIndexEntry \<times> bytes) list \<Rightarrow> bytes" where
  "spill_file items =
     SPILL_MAGIC @ u32_to_le_bytes SPILL_VERSION @ u32_to_le_bytes (word_of_nat (length items))
       @ concat (map (\<lambda>(e, _). SpillIndexEntry_write_to e (replicate SPILL_INDEX_ENTRY_SIZE 0)) items)
       @ padding (spill_header_size (length items))
       @ concat (map (\<lambda>(_, data). data @ padding (word_of_nat (length data))) items)"

definition spill_checkpoint ::
  "(bytes \<Rightarrow> u32) \<Rightarrow> spill_io \<Rightarrow> string \<Rightarrow> CheckpointArena \<Rightarrow> directory
   \<Rightarrow> ((arena_error, string) result \<times> CheckpointArena \<times> directory) option" where
  "spill_checkpoint crc io checkpoint_id a dir =
     (case slot_info_for_checkpoint checkpoint_id a of
        None \<Rightarrow> None
      | Some slot_infos \<Rightarrow> Some (
          if slot_infos = [] then (Err (CheckpointNotFound checkpoint_id), a, dir)
          else if \<not> length slot_infos < 2 ^ 32 then (Err (TooManySlots (length slot_infos)), a, dir)
          else
            let items = spill_entries crc a (align_up (spill_header_size (length slot_infos)) 64) slot_infos;
                path = checkpoint_id @ ''.ckpt'';
                file = spill_file items
            in case io of
                 Create_Failed \<Rightarrow> (Err SpillIo, a, dir)
               | Write_Failed n \<Rightarrow> (Err SpillIo, a, dir(path \<mapsto> take n file))
               | Spill_Done \<Rightarrow> (Ok checkpoint_id, free_checkpoint checkpoint_id a, dir(path \<mapsto> file))))"

section \<open>Loading\<close>

fun read_entries :: "bytes \<Rightarrow> nat list \<Rightarrow> (arena_error, SpillIndexEntry list) result" where
  "read_entries file [] = Ok []"
| "read_entries file (i # is) =
     (case SpillIndexEntry_read_from
         (read_at (16 + i * SPILL_INDEX_ENTRY_SIZE) SPILL_INDEX_ENTRY_SIZE file) of
        None \<Rightarrow> Err (SpillBadDtype i)
      | Some e \<Rightarrow> bind_result (read_entries file is) (\<lambda>es. Ok (e # es)))"

fun load_entries ::
  "(bytes \<Rightarrow> u32) \<Rightarrow> bytes \<Rightarrow> string \<Rightarrow> SpillIndexEntry list \<Rightarrow> CheckpointArena
   \<Rightarrow> ((arena_error, unit) result \<times> CheckpointArena) option" where
  "load_entries crc file checkpoint_id [] a = Some (Ok (), a)"
| "load_entries crc file checkpoint_id (e # es) a =
     (let max_data_size = ar_slot_size a - SLOT_HEADER_SIZE;
          start = se_data_offset e;
          fin = start + se_data_len e
      in if \<not> unat fin \<le> length file then Some (Err (SpillTruncated fin (length file)), a)
         else if \<not> unat (se_data_len e) \<le> max_data_size then
           Some (Err (SpillTooLarge (se_data_len e) max_data_size), a)
         else if \<not> start \<le> fin then None
         else
           let data = read_at (unat start) (unat fin - unat start) file in
           if crc data \<noteq> se_crc32 e then Some (Err (SpillCrcMismatch (se_layer_idx e) (se_crc32 e) (crc data)), a)
           else case alloc_slot checkpoint_id (se_layer_idx e) a of
             (Err err, a) \<Rightarrow> Some (Err err, a)
           | (Ok (slot_ptr, _), a) \<Rightarrow>
               let header = \<lparr>sh_magic = SLOT_MAGIC, sh_dtype = se_dtype e, sh_ndim = se_ndim e,
                             sh_shape = se_shape e, sh_byte_len = se_data_len e\<rparr>
               in load_entries crc file checkpoint_id es (copy_data slot_ptr data (update_header slot_ptr header a)))"

definition load_spilled_checkpoint ::
  "(bytes \<Rightarrow> u32) \<Rightarrow> string \<Rightarrow> string \<Rightarrow> directory \<Rightarrow> CheckpointArena
   \<Rightarrow> ((arena_error, unit) result \<times> CheckpointArena) option" where
  "load_spilled_checkpoint crc path checkpoint_id dir a =
     (case dir path of
        None \<Rightarrow> Some (Err SpillIo, a)
      | Some file \<Rightarrow>
          if \<not> 16 \<le> length file then Some (Err SpillTooShort, a)
          else if read_at 0 8 file \<noteq> SPILL_MAGIC then Some (Err SpillBadMagic, a)
          else
            let version = u32_from_le_bytes (read_at 8 4 file) in
            if version \<noteq> SPILL_VERSION then Some (Err (SpillBadVersion version), a)
            else
              let num_slots = unat (u32_from_le_bytes (read_at 12 4 file));
                  index_end = 16 + num_slots * SPILL_INDEX_ENTRY_SIZE
              in if \<not> index_end \<le> length file then Some (Err SpillTruncatedIndex, a)
                 else case read_entries file [0..<num_slots] of
                   Inl err \<Rightarrow> Some (Err err, a)
                 | Inr entries \<Rightarrow> load_entries crc file checkpoint_id entries a)"

section \<open>Alignment\<close>

lemma and_minus_64: "x AND - 64 = x - take_bit 6 (x :: u64)"
proof -
  have m: "(- 64 :: u64) = NOT (mask 6)" by (simp add: mask_eq_exp_minus_1)
  have "x - take_bit 6 x = x AND NOT (take_bit 6 x)"
    by (rule disjunctive_diff_eq_and_not) (rule bit_eqI, simp add: bit_simps)
  also have "\<dots> = x AND NOT (mask 6)"
    by (rule bit_eqI) (auto simp: bit_simps)
  finally show ?thesis unfolding m by simp
qed

lemma unat_and_minus_64: "unat (x AND - 64) = unat x - unat (x :: u64) mod 64"
proof -
  have t: "unat (take_bit 6 x) = unat x mod 64"
    by (simp only: unsigned_take_bit_eq) (simp add: take_bit_eq_mod)
  then have "take_bit 6 x \<le> x" by (simp add: word_le_nat_alt)
  with t show ?thesis by (simp add: and_minus_64 unat_sub)
qed

lemma align_up_64: "align_up w 64 = (w + 63) AND - 64"
  by (simp add: align_up_def algebra_simps)

lemma unat_align_up:
  "unat w + 63 < 2 ^ 64 \<Longrightarrow> unat (align_up w 64) = (unat w + 63) - (unat w + 63) mod 64"
  by (simp add: align_up_64 unat_and_minus_64 unat_add_no_wrap)

lemma align_up_bounds:
  assumes "unat w + 63 < 2 ^ 64"
  shows "unat w \<le> unat (align_up w 64)" "unat (align_up w 64) \<le> unat w + 63"
proof -
  have "(unat w + 63) mod 64 \<le> 63" by (simp add: less_Suc_eq_le [symmetric])
  with unat_align_up [OF assms] show "unat w \<le> unat (align_up w 64)" "unat (align_up w 64) \<le> unat w + 63"
    by simp_all
qed

lemma length_padding:
  assumes "unat w + 63 < 2 ^ 64"
  shows "unat w + length (padding w) = unat (align_up w 64)"
  using align_up_bounds [OF assms] by (simp add: padding_def unat_sub word_le_nat_alt)

lemma padding_bound: "length (padding w) < 64"
proof -
  have "align_up w 64 - w = 63 - take_bit 6 (w + 63)"
    by (simp add: align_up_64 and_minus_64 algebra_simps)
  moreover have t: "unat (take_bit 6 (w + 63)) < 64"
    using take_bit_nat_less_exp [of 6 "unat (w + 63)"] by (simp add: unsigned_take_bit_eq)
  then have "take_bit 6 (w + 63) \<le> 63" by (simp add: word_le_nat_alt)
  ultimately show ?thesis by (simp add: padding_def unat_sub)
qed

section \<open>The codec of the index\<close>

definition spill_entry_layout :: "SpillIndexEntry \<Rightarrow> bytes" where
  "spill_entry_layout e =
     shape_layout (se_layer_idx e) (DtypeTag_as_u8 (se_dtype e)) (se_ndim e) (se_shape e)
       @ u64_to_le_bytes (se_data_offset e) @ u64_to_le_bytes (se_data_len e)
       @ u32_to_le_bytes (se_crc32 e) @ [0, 0, 0, 0]"

lemma length_spill_entry_layout [simp]:
  "length (se_shape e) = 6 \<Longrightarrow> length (spill_entry_layout e) = 80"
  by (simp add: spill_entry_layout_def)

lemma SpillIndexEntry_write_layout:
  assumes "length (se_shape e) = 6"
  shows "SpillIndexEntry_write_to e (replicate SPILL_INDEX_ENTRY_SIZE 0) = spill_entry_layout e"
proof -
  let ?s = "shape_layout (se_layer_idx e) (DtypeTag_as_u8 (se_dtype e)) (se_ndim e) (se_shape e)"
  have l: "length ?s = 56" using assms by simp
  let ?o = "u64_to_le_bytes (se_data_offset e)" and ?l = "u64_to_le_bytes (se_data_len e)"
    and ?c = "u32_to_le_bytes (se_crc32 e)"
  have w1: "write_at 56 ?o (?s @ replicate 24 0) = (?s @ ?o) @ replicate 16 0"
    using l by (subst write_field) simp_all
  have w2: "write_at 64 ?l ((?s @ ?o) @ replicate 16 0) = (?s @ ?o @ ?l) @ replicate 8 0"
    using l by (subst write_field) simp_all
  have w3: "write_at 72 ?c ((?s @ ?o @ ?l) @ replicate 8 0) = (?s @ ?o @ ?l @ ?c) @ replicate 4 0"
    using l by (subst write_field) simp_all
  have w4: "write_at 76 [0, 0, 0, 0] ((?s @ ?o @ ?l @ ?c) @ replicate 4 0) = ?s @ ?o @ ?l @ ?c @ [0, 0, 0, 0]"
    using l by (subst write_field) simp_all
  show ?thesis
    using w1 w2 w3 w4 assms
    by (simp add: SpillIndexEntry_write_to_def SPILL_INDEX_ENTRY_SIZE_def Let_def shape_writes spill_entry_layout_def)
qed

lemma SpillIndexEntry_read_write:
  "length (se_shape e) = 6 \<Longrightarrow> SpillIndexEntry_read_from (spill_entry_layout e) = Some e"
  by (simp add: spill_entry_layout_def SpillIndexEntry_read_from_def shape_reads)
    (simp add: read_at_left read_at_right read_at_all)

end
