(* ===== verification/Worker_Spill_Roundtrip.thy ===== *)
theory Worker_Spill_Roundtrip
  imports Worker_Spill
begin

text \<open>
  A checkpoint that is spilled and loaded back is the checkpoint it was. The listing of a checkpoint's
  slots is its part of the arena's contents, each layer once and whatever the order of the index; the
  entries of the file point at the data they were made from; loading them stores them one after the other.
\<close>

section \<open>The slots of a checkpoint\<close>

lemma find_at_total:
  assumes "\<forall>kv \<in> set al. snd kv < length slots"
  shows "\<exists>r. find_at slots off al = Some r \<and>
    (r = None \<longrightarrow> (\<forall>kv \<in> set al. sd_offset (slots ! snd kv) \<noteq> off)) \<and>
    (\<forall>d. r = Some d \<longrightarrow> d \<in> snd ` set al \<and> sd_offset (slots ! d) = off)"
  using assms by (induction slots off al rule: find_at.induct) auto

lemma filter_map_total:
  "\<forall>x \<in> set xs. f x = Some (r x) \<Longrightarrow> filter_map f xs = Some (List.map_filter r xs)"
  by (induction xs) (auto simp: List.map_filter_def split: option.splits)

lemma set_map_filter: "set (List.map_filter r xs) = {y. \<exists>x \<in> set xs. r x = Some y}"
  by (force simp: List.map_filter_def)

lemma length_map_filter: "length (List.map_filter r xs) \<le> length xs"
  by (simp add: List.map_filter_def)

lemma distinct_map_filter:
  assumes "distinct xs" "\<And>x y u v. x \<in> set xs \<Longrightarrow> y \<in> set xs \<Longrightarrow> r x = Some u \<Longrightarrow> r y = Some v \<Longrightarrow> g u = g v \<Longrightarrow> x = y"
  shows "distinct (map g (List.map_filter r xs))"
  using assms
  by (auto simp: List.map_filter_def distinct_map inj_on_def)

definition saved_entry :: "CheckpointArena \<Rightarrow> u32 \<times> nat \<times> SlotHeader \<Rightarrow> u32 \<times> entry" where
  "saved_entry a = (\<lambda>(l, p, h). (l, h, read_at (p + SLOT_HEADER_SIZE)
     (min (unat (sh_byte_len h)) (ar_slot_size a - SLOT_HEADER_SIZE)) (ar_mem a)))"

lemma fst_saved_entry [simp]: "fst (saved_entry a x) = fst x"
  by (simp add: saved_entry_def split: prod.splits)

text \<open>A slot held by a checkpoint is listed under the one key of the index that names it.\<close>

lemma slot_info_listed:
  assumes "arena_inv a" "map_of (ar_checkpoint_slots a) i = Some ss" "s \<in> set ss"
  shows "\<exists>r. slot_info a s = Some r \<and>
    (\<forall>l p h. r = Some (l, p, h) \<longleftrightarrow> p = s * ar_slot_size a \<and> read_header a p = Some h \<and>
       (\<exists>d. map_of (ar_index a) (i, l) = Some d \<and> sd_offset (ar_slots a ! d) = p))"
proof -
  let ?p = "s * ar_slot_size a"
  have iok: "index_ok a" and dist: "distinct (map fst (ar_index a))" and pos: "0 < ar_slot_size a"
    using assms(1) by (auto simp: arena_inv_def geometry_ok_def SLOT_HEADER_SIZE_def)
  have mem: "(k, d) \<in> set (ar_index a) \<longleftrightarrow> map_of (ar_index a) k = Some d" for k d
    using dist by simp
  have owner: "j = i \<and> sd_layer_idx (ar_slots a ! d) = l"
    if key: "map_of (ar_index a) (j, l) = Some d" and off: "sd_offset (ar_slots a ! d) = ?p" for j l d
  proof -
    obtain t ts where "sd_layer_idx (ar_slots a ! d) = l" "map_of (ar_checkpoint_slots a) j = Some ts" "t \<in> set ts"
      "sd_offset (ar_slots a ! d) = t * ar_slot_size a"
      using index_ok_slot [OF iok key] .
    moreover from this(4) off pos have "t = s" by simp
    ultimately show ?thesis using slots_partition(5) [OF assms(1) assms(2), of j ts s] assms(3) by blast
  qed
  have "\<forall>kv \<in> set (ar_index a). snd kv < length (ar_slots a)"
    using index_ok_slot [OF iok] mem by (metis prod.collapse)
  from find_at_total [OF this, of ?p] obtain r where r: "find_at (ar_slots a) ?p (ar_index a) = Some r"
    "r = None \<longrightarrow> (\<forall>kv \<in> set (ar_index a). sd_offset (ar_slots a ! snd kv) \<noteq> ?p)"
    "\<forall>d. r = Some d \<longrightarrow> d \<in> snd ` set (ar_index a) \<and> sd_offset (ar_slots a ! d) = ?p" by blast
  show ?thesis
  proof (cases r)
    case None
    then have "map_of (ar_index a) (i, l) = Some d \<Longrightarrow> sd_offset (ar_slots a ! d) \<noteq> ?p" for l d
      using r(2) mem [of "(i, l)" d] by force
    moreover have "slot_info a s = Some None" by (simp add: slot_info_def Let_def r(1) None)
    ultimately show ?thesis by blast
  next
    case (Some d)
    with r(3) have d: "d \<in> snd ` set (ar_index a)" and off: "sd_offset (ar_slots a ! d) = ?p" by blast+
    then obtain j l where "((j, l), d) \<in> set (ar_index a)" by auto
    then have jl: "map_of (ar_index a) (j, l) = Some d" by (simp only: mem)
    have j: "j = i" "sd_layer_idx (ar_slots a ! d) = l" using owner [OF jl off] by auto
    have "l' = l" if "map_of (ar_index a) (i, l') = Some d'" "sd_offset (ar_slots a ! d') = ?p" for l' d'
      using index_ok_inj [OF iok that(1) jl] that(2) off by simp
    then have iff: "(\<exists>d'. map_of (ar_index a) (i, l') = Some d' \<and> sd_offset (ar_slots a ! d') = ?p) \<longleftrightarrow> l' = l" for l'
      using jl off j(1) by blast
    have "slot_info a s = Some (map_option (\<lambda>h. (l, ?p, h)) (read_header a ?p))"
      by (simp add: slot_info_def Let_def r(1) Some j)
    moreover have "p = ?p \<and> read_header a p = Some h \<and>
        (\<exists>d. map_of (ar_index a) (i, l') = Some d \<and> sd_offset (ar_slots a ! d) = p) \<longleftrightarrow>
        p = ?p \<and> read_header a ?p = Some h \<and> l' = l" for l' p h
      using iff [of l'] by blast
    ultimately show ?thesis by (cases "read_header a ?p") auto
  qed
qed

definition listed :: "CheckpointArena \<Rightarrow> string \<Rightarrow> u32 \<times> nat \<times> SlotHeader \<Rightarrow> bool" where
  "listed a i = (\<lambda>(l, p, h). read_header a p = Some h \<and>
     (\<exists>d. map_of (ar_index a) (i, l) = Some d \<and> sd_offset (ar_slots a ! d) = p))"

lemma slot_info_iff:
  assumes "arena_inv a" "map_of (ar_checkpoint_slots a) i = Some ss" "s \<in> set ss"
  shows "slot_info a s = Some (the (slot_info a s))"
    "the (slot_info a s) = Some x \<longleftrightarrow> fst (snd x) = s * ar_slot_size a \<and> listed a i x"
proof -
  obtain r where r: "slot_info a s = Some r"
    "\<And>l p h. r = Some (l, p, h) \<longleftrightarrow> p = s * ar_slot_size a \<and> read_header a p = Some h \<and>
       (\<exists>d. map_of (ar_index a) (i, l) = Some d \<and> sd_offset (ar_slots a ! d) = p)"
    using slot_info_listed [OF assms] by blast
  then show "slot_info a s = Some (the (slot_info a s))" by simp
  obtain l p h where "x = (l, p, h)" by (cases x)
  then show "the (slot_info a s) = Some x \<longleftrightarrow> fst (snd x) = s * ar_slot_size a \<and> listed a i x"
    by (simp only: r option.sel listed_def prod.case fst_conv snd_conv)
qed

lemma listed_layer:
  "listed a i x \<Longrightarrow> listed a i y \<Longrightarrow> fst x = fst y \<Longrightarrow> x = y"
  by (auto simp: listed_def split: prod.splits)

lemma listed_slot:
  assumes "arena_inv a" "listed a i x" "map_of (ar_checkpoint_slots a) i = Some ss"
  shows "\<exists>s \<in> set ss. fst (snd x) = s * ar_slot_size a"
proof -
  obtain l p h d where x: "x = (l, p, h)" "map_of (ar_index a) (i, l) = Some d" "sd_offset (ar_slots a ! d) = p"
    using assms(2) by (auto simp: listed_def split: prod.splits)
  have "index_ok a" using assms(1) by (simp add: arena_inv_def)
  from index_ok_slot [OF this x(2)] obtain s where "s \<in> set ss" "sd_offset (ar_slots a ! d) = s * ar_slot_size a"
    using assms(3) by (metis option.inject)
  with x show ?thesis by auto
qed

lemma listed_view:
  "arena_view a (i, l) = Some e \<longleftrightarrow> (\<exists>x. listed a i x \<and> saved_entry a x = (l, e))"
  by (cases "map_of (ar_index a) (i, l)") (auto simp: listed_def arena_view_def slot_entry_def saved_entry_def)

lemma listed_absent:
  assumes "arena_inv a" "map_of (ar_checkpoint_slots a) i = None"
  shows "\<not> listed a i x"
proof
  assume "listed a i x"
  then obtain l d where "map_of (ar_index a) (i, l) = Some d"
    by (auto simp: listed_def split: prod.splits)
  moreover have "index_ok a" using assms(1) by (simp add: arena_inv_def)
  ultimately show False using index_ok_slot [of a i l d] assms(2) by (metis option.distinct(1))
qed

lemma slot_infos:
  assumes "arena_inv a"
  obtains infos where "slot_info_for_checkpoint i a = Some infos" "distinct (map fst infos)"
    "length infos \<le> length (lookup_slots (ar_checkpoint_slots a) i)" "set infos = {x. listed a i x}"
proof (cases "map_of (ar_checkpoint_slots a) i")
  case None
  then show ?thesis
    using listed_absent [OF assms None] by (intro that [of "[]"]) (simp_all add: slot_info_for_checkpoint_def)
next
  case (Some ss)
  let ?r = "\<lambda>s. the (slot_info a s)"
  let ?infos = "List.map_filter ?r ss"
  note iff = slot_info_iff [OF assms Some]
  have pos: "0 < ar_slot_size a"
    using assms by (auto simp: arena_inv_def geometry_ok_def SLOT_HEADER_SIZE_def)
  have dist: "distinct (map fst ?infos)"
  proof (rule distinct_map_filter)
    show "distinct ss" by (rule slots_partition(3) [OF assms Some])
    fix s t u v assume "s \<in> set ss" "t \<in> set ss" "?r s = Some u" "?r t = Some v" "fst u = fst v"
    then have "fst (snd u) = s * ar_slot_size a" "fst (snd v) = t * ar_slot_size a" "u = v"
      using iff(2) listed_layer by blast+
    with pos show "s = t" by simp
  qed
  have "set ?infos = {x. listed a i x}"
    using iff(2) listed_slot [OF assms _ Some] unfolding set_map_filter by blast
  moreover have "slot_info_for_checkpoint i a = Some ?infos"
    using filter_map_total [of ss "slot_info a" ?r] iff(1) by (simp add: slot_info_for_checkpoint_def Some)
  ultimately show ?thesis
    using dist length_map_filter [of ?r ss] that by (simp add: lookup_slots_def Some)
qed

lemma slot_infos_view:
  assumes "set infos = {x. listed a i x}" "distinct (map fst infos)"
  shows "map_of (map (saved_entry a) infos) = (\<lambda>l. arena_view a (i, l))"
proof
  fix l
  have "map_of (map (saved_entry a) infos) l = Some e \<longleftrightarrow> arena_view a (i, l) = Some e" for e
  proof -
    have "distinct (map fst (map (saved_entry a) infos))" using assms(2) by (simp add: comp_def)
    from map_of_eq_Some_iff [OF this, of l e] show ?thesis
      unfolding listed_view using assms(1) by (auto simp: image_iff) (metis mem_Collect_eq)+
  qed
  then show "map_of (map (saved_entry a) infos) l = arena_view a (i, l)" by (metis not_Some_eq)
qed

section \<open>Loading what was spilled\<close>

lemma alloc_store:
  "0 < available c \<Longrightarrow> alloc_slot i l c =
     (Ok (last (ar_free_list c) * ar_slot_size c, default_header (ar_slot_size c)), snd (alloc_slot i l c))"
  using alloc_slot_fields(1) [of c i l] by (simp add: available_def prod_eq_iff)

text \<open>One entry of the file: its data lie where it says, and loading it stores what was saved.\<close>

lemma load_spill_step:
  assumes room: "0 < available c" and fits: "entry_fits c e" and fl: "file = pre @ snd e @ post"
    and off: "length pre = unat off" and len: "length file < 2 ^ 64"
  shows "load_entries crc file i (\<lparr>se_layer_idx = l, se_dtype = sh_dtype (fst e), se_ndim = sh_ndim (fst e),
      se_shape = sh_shape (fst e), se_data_offset = off, se_data_len = sh_byte_len (fst e), se_crc32 = crc (snd e)\<rparr> # es) c =
    load_entries crc file i es (store_slot (i, l) e c)"
proof -
  have n: "unat (sh_byte_len (fst e)) = length (snd e)" and max: "length (snd e) \<le> ar_slot_size c - SLOT_HEADER_SIZE"
    using fits by (simp_all add: entry_fits_def)
  have fin: "unat (off + sh_byte_len (fst e)) = unat off + length (snd e)"
    using len off by (simp add: fl n unat_add_no_wrap)
  have data: "read_at (unat off) (length (snd e)) file = snd e"
    using off by (simp add: fl read_at_def)
  have hdr: "\<lparr>sh_magic = SLOT_MAGIC, sh_dtype = sh_dtype (fst e), sh_ndim = sh_ndim (fst e), sh_shape = sh_shape (fst e),
      sh_byte_len = sh_byte_len (fst e)\<rparr> = fst e"
    using fits by (simp add: entry_fits_def header_ok_def)
  have inside: "unat off + length (snd e) \<le> length file" using off by (simp add: fl)
  obtain q h0 b where "alloc_slot i l c = (Ok (q, h0), b)"
    using alloc_store [OF room, of i l] by blast
  then show ?thesis
    using inside max by (simp add: fin data hdr n word_le_nat_alt store_slot_def Let_def)
qed

lemma padded_length:
  assumes "unat w + 63 < 2 ^ 64" "n = unat w"
  shows "n + length (padding (word_of_nat n)) = unat (align_up w 64)"
  using length_padding [OF assms(1)] assms(2) by simp

definition blob :: "(SpillIndexEntry \<times> bytes) list \<Rightarrow> bytes" where
  "blob items = concat (map (\<lambda>(_, data). data @ padding (word_of_nat (length data))) items)"

lemma load_spill_entries:
  assumes "\<forall>x \<in> set infos. entry_fits c (snd (saved_entry a x))" "ar_slot_size a < 2 ^ 64"
    and "ar_slot_size c = ar_slot_size a" "length infos \<le> available c"
    and "length pre = unat off" "length (pre @ blob (spill_entries crc a off infos)) < 2 ^ 64"
  shows "load_entries crc (pre @ blob (spill_entries crc a off infos)) i (map fst (spill_entries crc a off infos)) c =
    Some (Ok (), arena.store_all i (map (saved_entry a) infos) c)"
  using assms
proof (induction infos arbitrary: pre off c)
  case (Cons x infos)
  obtain l p h where x: "x = (l, p, h)" by (cases x)
  define data where "data = snd (snd (saved_entry a x))"
  have e: "saved_entry a x = (l, h, data)" by (simp add: x data_def saved_entry_def)
  have fits: "entry_fits c (h, data)" using Cons.prems(1) e by simp
  then have n: "unat (sh_byte_len h) = length data" "length data \<le> ar_slot_size a - SLOT_HEADER_SIZE"
    using Cons.prems(3) by (simp_all add: entry_fits_def)
  have sz: "unat (word_of_nat (ar_slot_size a - SLOT_HEADER_SIZE) :: u64) = ar_slot_size a - SLOT_HEADER_SIZE"
    using Cons.prems(2) by (simp add: unat_of_nat)
  have dl: "min (sh_byte_len h) (word_of_nat (ar_slot_size a - SLOT_HEADER_SIZE)) = sh_byte_len h"
    using n sz by (simp add: min_def word_le_nat_alt)
  have rd: "read_at (p + SLOT_HEADER_SIZE) (length data) (ar_mem a) = data"
    using n by (simp add: data_def x saved_entry_def min_def)
  let ?off = "off + align_up (sh_byte_len h) 64" and ?pad = "padding (word_of_nat (length data))"
  define rest where "rest = spill_entries crc a ?off infos"
  have items: "spill_entries crc a off (x # infos) =
    (\<lparr>se_layer_idx = l, se_dtype = sh_dtype h, se_ndim = sh_ndim h, se_shape = sh_shape h,
      se_data_offset = off, se_data_len = sh_byte_len h, se_crc32 = crc data\<rparr>, data) # rest"
    by (simp add: x dl n rd rest_def Let_def)
  have pad: "length data + length ?pad = unat (align_up (sh_byte_len h) 64)"
    using n Cons.prems(2) by (intro padded_length) (auto simp: SLOT_HEADER_SIZE_def)
  let ?pre = "pre @ data @ ?pad"
  have fl: "pre @ blob (spill_entries crc a off (x # infos)) = ?pre @ blob rest"
    by (simp add: items blob_def)
  have pre: "length ?pre = unat ?off"
    using Cons.prems(5,6) pad unfolding fl by (simp add: unat_add_no_wrap)
  have room: "0 < available c" using Cons.prems(4) by simp
  have "load_entries crc (?pre @ blob rest) i (map fst rest) (store_slot (i, l) (h, data) c) =
      Some (Ok (), arena.store_all i (map (saved_entry a) infos) (store_slot (i, l) (h, data) c))"
    unfolding rest_def
  proof (rule Cons.IH)
    show "\<forall>y \<in> set infos. entry_fits (store_slot (i, l) (h, data) c) (snd (saved_entry a y))"
      using Cons.prems(1) by (simp add: arena.store_fits)
    show "ar_slot_size (store_slot (i, l) (h, data) c) = ar_slot_size a"
      using Cons.prems(3) room by (simp add: store_slot_index available_def)
    show "length infos \<le> available (store_slot (i, l) (h, data) c)"
      using Cons.prems(4) room by (simp add: arena.store_room)
    show "length (?pre @ blob (spill_entries crc a ?off infos)) < 2 ^ 64"
      using Cons.prems(6) unfolding fl rest_def .
  qed (use Cons.prems(2) pre in simp_all)
  moreover have "load_entries crc (?pre @ blob rest) i
      (\<lparr>se_layer_idx = l, se_dtype = sh_dtype h, se_ndim = sh_ndim h, se_shape = sh_shape h,
        se_data_offset = off, se_data_len = sh_byte_len h, se_crc32 = crc data\<rparr> # map fst rest) c =
      load_entries crc (?pre @ blob rest) i (map fst rest) (store_slot (i, l) (h, data) c)"
    using load_spill_step [OF room fits, of "?pre @ blob rest" pre "?pad @ blob rest" off crc i l "map fst rest"]
      Cons.prems(5,6) unfolding fl by simp
  ultimately show ?case
    unfolding fl by (simp add: items e)
qed simp

lemma length_concat_const: "\<forall>x \<in> set xss. length x = w \<Longrightarrow> length (concat xss) = w * length xss"
  by (induction xss) auto

lemma read_entries_total:
  "\<forall>i \<in> set is. SpillIndexEntry_read_from (read_at (16 + i * SPILL_INDEX_ENTRY_SIZE) SPILL_INDEX_ENTRY_SIZE file) = Some (f i)
   \<Longrightarrow> read_entries file is = Ok (map f is)"
  by (induction "is") auto

lemma length_spill_entries [simp]: "length (spill_entries crc a off infos) = length infos"
  by (induction crc a off infos rule: spill_entries.induct) (simp_all add: Let_def)

lemma spill_entries_shapes:
  assumes "\<forall>x \<in> set infos. header_ok (fst (snd (saved_entry a x)))" "it \<in> set (spill_entries crc a off infos)"
  shows "length (se_shape (fst it)) = 6"
  using assms
  by (induction crc a off infos rule: spill_entries.induct) (auto simp: Let_def saved_entry_def header_ok_def)

text \<open>Data lengths: a file made from the slots of an arena is not much longer than the arena.\<close>

lemma blob_length:
  assumes "\<forall>x \<in> set infos. entry_fits a (snd (saved_entry a x))" "SLOT_HEADER_SIZE \<le> ar_slot_size a" "ar_slot_size a < 2 ^ 64"
  shows "length (blob (spill_entries crc a off infos)) \<le> length infos * ar_slot_size a"
  using assms(1)
proof (induction infos arbitrary: off)
  case (Cons x infos)
  obtain l p h where x: "x = (l, p, h)" by (cases x)
  let ?n = "min (sh_byte_len h) (word_of_nat (ar_slot_size a - SLOT_HEADER_SIZE)) :: u64"
  let ?d = "read_at (p + SLOT_HEADER_SIZE) (unat ?n) (ar_mem a)"
  have "length ?d \<le> unat ?n" by (simp add: read_at_def)
  also have "unat ?n \<le> unat (word_of_nat (ar_slot_size a - SLOT_HEADER_SIZE) :: u64)"
    by (simp add: min_def word_le_nat_alt)
  also have "\<dots> = ar_slot_size a - SLOT_HEADER_SIZE"
    using assms(3) by (simp add: unat_of_nat)
  finally have "length ?d + length (padding (word_of_nat (length ?d))) \<le> ar_slot_size a"
    using padding_bound [of "word_of_nat (length ?d)"] assms(2) by (simp add: SLOT_HEADER_SIZE_def)
  moreover have "length (blob (spill_entries crc a (off + align_up ?n 64) infos)) \<le> length infos * ar_slot_size a"
    using Cons by simp
  ultimately show ?case
    by (simp add: x blob_def Let_def)
qed (simp add: blob_def)

lemma unat_spill_header_size: "n < 2 ^ 32 \<Longrightarrow> unat (spill_header_size n) = 16 + n * 80"
  by (simp add: spill_header_size_def SPILL_INDEX_ENTRY_SIZE_def unat_word_ariths unat_of_nat)

text \<open>The file read back: its index is the list of entries, and the rest is the data.\<close>

definition spill_front :: "(SpillIndexEntry \<times> bytes) list \<Rightarrow> bytes" where
  "spill_front items = SPILL_MAGIC @ u32_to_le_bytes SPILL_VERSION @ u32_to_le_bytes (word_of_nat (length items))
       @ concat (map (\<lambda>(e, _). SpillIndexEntry_write_to e (replicate SPILL_INDEX_ENTRY_SIZE 0)) items)
       @ padding (spill_header_size (length items))"

lemma load_spill_file:
  assumes n: "length items < 2 ^ 32" and shapes: "\<forall>it \<in> set items. length (se_shape (fst it)) = 6"
    and dir: "dir path = Some (spill_file items)"
  shows "load_spilled_checkpoint crc path i dir c = load_entries crc (spill_front items @ blob items) i (map fst items) c"
    and "length (spill_front items) = unat (align_up (spill_header_size (length items)) 64)"
proof -
  let ?front = "SPILL_MAGIC @ u32_to_le_bytes SPILL_VERSION @ u32_to_le_bytes (word_of_nat (length items))"
  let ?idx = "concat (map (\<lambda>it. spill_entry_layout (fst it)) items)"
  have enc: "map (\<lambda>(e, _). SpillIndexEntry_write_to e (replicate SPILL_INDEX_ENTRY_SIZE 0)) items =
      map (\<lambda>it. spill_entry_layout (fst it)) items"
    by (rule map_cong [OF refl]) (use shapes in \<open>auto simp: SpillIndexEntry_write_layout split: prod.splits\<close>)
  have idx: "length ?idx = 80 * length items"
    using shapes by (subst length_concat_const [where w = 80]) auto
  have magic: "length SPILL_MAGIC = 8" by (simp add: SPILL_MAGIC_def)
  then have front: "length ?front = 16" by simp
  have pre: "spill_front items = ?front @ ?idx @ padding (spill_header_size (length items))"
    by (simp add: spill_front_def enc)
  show "length (spill_front items) = unat (align_up (spill_header_size (length items)) 64)"
    using length_padding [of "spill_header_size (length items)"] unat_spill_header_size [OF n] front idx n
    by (simp add: pre)
  have fl: "spill_file items = ?front @ ?idx @ (padding (spill_header_size (length items)) @ blob items)"
    by (simp add: spill_file_def enc blob_def)
  have entry: "SpillIndexEntry_read_from (read_at (16 + k * SPILL_INDEX_ENTRY_SIZE) SPILL_INDEX_ENTRY_SIZE (spill_file items)) =
      Some (fst (items ! k))" if k: "k < length items" for k
  proof -
    have "read_at (16 + k * 80) 80 (spill_file items) = read_at (k * 80) 80 ?idx"
      unfolding fl using front idx k by (subst read_at_right) (auto simp: read_at_left)
    also have "\<dots> = spill_entry_layout (fst (items ! k))"
      using read_concat_nth [of "map (\<lambda>it. spill_entry_layout (fst it)) items" 80 k] shapes k by simp
    finally show ?thesis
      using shapes k by (simp add: SPILL_INDEX_ENTRY_SIZE_def SpillIndexEntry_read_write)
  qed
  have "read_entries (spill_file items) [0..<length items] = Ok (map (\<lambda>k. fst (items ! k)) [0..<length items])"
    using entry by (intro read_entries_total) simp
  also have "map (\<lambda>k. fst (items ! k)) [0..<length items] = map fst items"
    by (rule nth_equalityI) simp_all
  finally have entries: "read_entries (spill_file items) [0..<length items] = Ok (map fst items)" .
  have reads: "read_at 0 8 (spill_file items) = SPILL_MAGIC" "read_at 8 4 (spill_file items) = u32_to_le_bytes SPILL_VERSION"
    "read_at 12 4 (spill_file items) = u32_to_le_bytes (word_of_nat (length items))"
    unfolding fl append_assoc
    using read_at_all [of SPILL_MAGIC 8] by (simp_all add: magic read_at_left read_at_right read_at_all)
  have len: "16 + length items * SPILL_INDEX_ENTRY_SIZE \<le> length (spill_file items)"
    unfolding fl using front idx by (simp add: SPILL_INDEX_ENTRY_SIZE_def)
  have cnt: "unat (word_of_nat (length items) :: u32) = length items"
    using n by (simp add: unat_of_nat)
  have "load_spilled_checkpoint crc path i dir c = load_entries crc (spill_file items) i (map fst items) c"
    using len le_trans [OF le_add1 len] entries by (simp add: load_spilled_checkpoint_def dir Let_def reads cnt)
  also have "spill_file items = spill_front items @ blob items" by (simp add: fl pre)
  finally show "load_spilled_checkpoint crc path i dir c = load_entries crc (spill_front items @ blob items) i (map fst items) c" .
qed

lemma held_le_num_slots:
  assumes "arena_inv a"
  shows "length (lookup_slots (ar_checkpoint_slots a) i) \<le> ar_num_slots a"
proof (cases "map_of (ar_checkpoint_slots a) i")
  case (Some ss)
  have "size (mset ss) \<le> size (mset (ar_free_list a) + held_slots (ar_checkpoint_slots a))"
    using held_slots_lookup [OF Some] by (intro size_mset_mono) (simp add: subset_mset.add_increasing)
  also have "\<dots> = size (mset [0..<ar_num_slots a])"
    using assms by (simp only: arena_inv_def)
  finally show ?thesis by (simp add: lookup_slots_def Some)
qed (simp add: lookup_slots_def)

text \<open>Loading the file made from a list of slots stores them, under whatever name and in whatever arena.\<close>

lemma load_spilled_stores:
  assumes "\<forall>x \<in> set infos. entry_fits a (snd (saved_entry a x))" "SLOT_HEADER_SIZE \<le> ar_slot_size a"
    and "ar_slot_size c = ar_slot_size a" "length infos \<le> available c"
    and n: "length infos < 2 ^ 32" and cap: "length infos * ar_slot_size a \<le> 2 ^ 63" and small: "ar_slot_size a < 2 ^ 64"
    and dir: "dir path = Some (spill_file (spill_entries crc a (align_up (spill_header_size (length infos)) 64) infos))"
  shows "load_spilled_checkpoint crc path i dir c = Some (Ok (), arena.store_all i (map (saved_entry a) infos) c)"
proof -
  let ?off = "align_up (spill_header_size (length infos)) 64"
  let ?items = "spill_entries crc a ?off infos"
  have shapes: "\<forall>it \<in> set ?items. length (se_shape (fst it)) = 6"
    using spill_entries_shapes [of infos a _ crc ?off] assms(1) by (auto simp: entry_fits_def)
  have load: "load_spilled_checkpoint crc path i dir c = load_entries crc (spill_front ?items @ blob ?items) i (map fst ?items) c"
    using n dir by (intro load_spill_file(1) shapes) simp_all
  have pre: "length (spill_front ?items) = unat ?off"
    using load_spill_file(2) [OF _ shapes, of dir path] n dir by simp
  have "unat (spill_header_size (length infos)) = 16 + length infos * 80"
    using n by (intro unat_spill_header_size) simp
  then have off: "unat ?off \<le> 16 + length infos * 80 + 63"
    using align_up_bounds(2) [of "spill_header_size (length infos)"] n by simp
  have "length (spill_front ?items @ blob ?items) < 2 ^ 64"
    using blob_length [OF assms(1,2) small, of crc ?off] cap off pre n by simp
  then show ?thesis
    unfolding load using assms(1,3) by (intro load_spill_entries small assms(3,4) pre) (simp_all add: entry_fits_def)
qed

text \<open>C25: spilling a checkpoint to disk and loading the file back restores the arena: with every entry of
  the checkpoint within its slot, both operations succeed, whatever the checksum function, the arena
  satisfies its invariant afterwards and holds exactly the entries it held before, for the spilled
  checkpoint and for every other one. The bounds on the arena's size keep the 64-bit offsets of the
  file from wrapping.
\<close>

theorem spill_load_roundtrip:
  assumes "arena_inv a" "arena_view a (i, l0) \<noteq> None" "\<And>l e. arena_view a (i, l) = Some e \<Longrightarrow> entry_fits a e"
    and "ar_num_slots a < 2 ^ 32" "ar_capacity a \<le> 2 ^ 63"
  shows "\<exists>b dir'. spill_checkpoint crc Spill_Done i a dir = Some (Ok i, b, dir') \<and> arena_view b (i, l0) = None \<and>
    (\<exists>c. load_spilled_checkpoint crc (i @ ''.ckpt'') i dir' b = Some (Ok (), c) \<and>
       arena_inv c \<and> arena_view c = arena_view a)"
proof -
  obtain infos where infos: "slot_info_for_checkpoint i a = Some infos" "distinct (map fst infos)"
    "length infos \<le> length (lookup_slots (ar_checkpoint_slots a) i)" "set infos = {x. listed a i x}"
    using slot_infos [OF assms(1)] .
  note view = slot_infos_view [OF infos(4,2)]
  have ne: "infos \<noteq> []" using fun_cong [OF view, of l0] assms(2) by auto
  have fits: "\<forall>x \<in> set infos. entry_fits a (snd (saved_entry a x))"
    using assms(3) listed_view [of a i] infos(4) by (metis mem_Collect_eq prod.collapse)
  let ?b = "free_checkpoint i a"
  have room: "length infos \<le> available ?b" and sz: "ar_slot_size ?b = ar_slot_size a"
    using infos(3) by (auto simp: available_def free_checkpoint_def lookup_slots_def split: option.splits)
  have fitsb: "\<forall>x \<in> set infos. entry_fits ?b (snd (saved_entry a x))"
    using fits by (simp add: entry_fits_def sz)
  have geo: "geometry_ok a" using assms(1) by (simp add: arena_inv_def)
  have num: "length infos \<le> ar_num_slots a"
    using infos(3) held_le_num_slots [OF assms(1), of i] by (rule le_trans)
  then have n: "length infos < 2 ^ 32" using assms(4) by (rule le_less_trans)
  have cap: "length infos * ar_slot_size a \<le> 2 ^ 63"
    using le_trans [OF mult_le_mono1 [OF num, of "ar_slot_size a"]] assms(5) geo
    by (simp add: geometry_ok_def mult.commute)
  have "ar_slot_size a \<le> length infos * ar_slot_size a" using ne by (cases infos) simp_all
  from this cap have "ar_slot_size a \<le> 2 ^ 63" by (rule le_trans)
  then have small: "ar_slot_size a < 2 ^ 64" "SLOT_HEADER_SIZE \<le> ar_slot_size a"
    using geo by (simp_all add: geometry_ok_def)
  let ?c = "arena.store_all i (map (saved_entry a) infos) ?b"
  let ?dir = "dir(i @ ''.ckpt'' \<mapsto> spill_file (spill_entries crc a (align_up (spill_header_size (length infos)) 64) infos))"
  have "spill_checkpoint crc Spill_Done i a dir = Some (Ok i, ?b, ?dir)"
    using n by (simp add: spill_checkpoint_def infos(1) ne Let_def)
  moreover have "arena_view ?b (i, l0) = None" by (simp add: arena.free_view [OF assms(1)])
  moreover have "load_spilled_checkpoint crc (i @ ''.ckpt'') i ?dir ?b = Some (Ok (), ?c)"
    by (rule load_spilled_stores [OF fits small(2) sz room n cap small(1)]) simp
  moreover have "arena_inv ?c"
    using fitsb room by (intro arena.store_all_ok arena.free_inv assms(1)) simp_all
  moreover have "arena_view ?c = arena_view a"
    using fitsb infos(2) room view by (intro arena.restore_all assms(1)) (simp_all add: comp_def)
  ultimately show ?thesis by metis
qed

definition demo_new :: CheckpointArena where
  "demo_new = \<lparr>ar_mem = replicate 256 0, ar_capacity = 256, ar_slot_size = 128, ar_num_slots = 2,
     ar_free_list = [1, 0], ar_slots = [], ar_index = [], ar_checkpoint_slots = [], ar_checkpoint_order = []\<rparr>"

definition demo_entry :: entry where
  "demo_entry = (\<lparr>sh_magic = SLOT_MAGIC, sh_dtype = TagFloat16, sh_ndim = 1, sh_shape = [1, 0, 0, 0, 0, 0],
     sh_byte_len = 2\<rparr>, [7, 9])"

lemma demo_new: "CheckpointArena_new True 128 2 = Some (Ok demo_new)"
  by (simp add: CheckpointArena_new_def SLOT_HEADER_SIZE_def demo_new_def upt_rec)

lemma demo_stored:
  defines "a \<equiv> store_slot (''auto-1'', 3) demo_entry demo_new"
  shows "arena_inv a" "arena_view a = [(''auto-1'', 3) \<mapsto> demo_entry]" "entry_fits a demo_entry"
    "ar_num_slots a = 2" "ar_capacity a = 256" "ar_slot_size a = 128" "available a = 1"
    "lookup_slots (ar_checkpoint_slots a) ''auto-1'' = [0]"
proof -
  have new: "arena_inv demo_new" "0 < available demo_new" using new_inv [OF demo_new] by simp_all
  have fits: "entry_fits demo_new demo_entry"
    by (simp add: entry_fits_def demo_entry_def demo_new_def header_ok_def SLOT_HEADER_SIZE_def)
  show "arena_inv a" unfolding a_def by (rule arena.store_inv [OF new fits])
  have "arena_view demo_new = Map.empty" by (simp add: arena_view_def demo_new_def fun_eq_iff)
  then show "arena_view a = [(''auto-1'', 3) \<mapsto> demo_entry]"
    unfolding a_def by (simp add: arena.store_view [OF new fits])
  show "entry_fits a demo_entry" using fits unfolding a_def by (simp add: arena.store_fits)
  have free: "ar_free_list demo_new \<noteq> []" by (simp add: demo_new_def)
  show "ar_num_slots a = 2" "ar_capacity a = 256" "ar_slot_size a = 128" "available a = 1"
    "lookup_slots (ar_checkpoint_slots a) ''auto-1'' = [0]"
    unfolding a_def store_slot_eq [OF free] Let_def
    using alloc_slot_fields [OF free, of "''auto-1''" 3]
    by (simp_all add: available_def demo_new_def lookup_slots_def)
qed

theorem spill_load_roundtrip_witness:
  "\<exists>b dir'. spill_checkpoint (\<lambda>d. word_of_nat (length d)) Spill_Done ''auto-1''
       (store_slot (''auto-1'', 3) demo_entry demo_new) Map.empty = Some (Ok ''auto-1'', b, dir') \<and>
     arena_view b (''auto-1'', 3) = None \<and>
     (\<exists>c. load_spilled_checkpoint (\<lambda>d. word_of_nat (length d)) (''auto-1'' @ ''.ckpt'') ''auto-1'' dir' b = Some (Ok (), c) \<and>
        arena_inv c \<and> arena_view c = arena_view (store_slot (''auto-1'', 3) demo_entry demo_new))"
  by (rule spill_load_roundtrip [OF demo_stored(1)]) (auto simp: demo_stored split: if_splits)

section \<open>Loading an arbitrary file\<close>

lemma read_entries_shapes: "read_entries file is = Ok es \<Longrightarrow> e \<in> set es \<Longrightarrow> length (se_shape e) = 6"
proof (induction "is" arbitrary: es)
  case (Cons i "is")
  then show ?case
    by (auto simp: bind_result_eq_Inr SpillIndexEntry_read_from_def read_words_def split: option.splits)
qed simp

lemma no_wrap_le: "start \<le> start + n \<Longrightarrow> unat (start + n) = unat start + unat (n :: u64)"
  by (simp only: unat_plus_simple)

lemma load_entries_safe:
  assumes "arena_inv c" "\<forall>e \<in> set es. length (se_shape e) = 6" "load_entries crc file i es c = Some (r, c')"
  shows "arena_inv c' \<and> (\<forall>j l. j \<noteq> i \<longrightarrow> arena_view c' (j, l) = arena_view c (j, l))"
  using assms
proof (induction es arbitrary: c)
  case (Cons e es)
  let ?fin = "se_data_offset e + se_data_len e"
  let ?data = "read_at (unat (se_data_offset e)) (unat ?fin - unat (se_data_offset e)) file"
  let ?h = "\<lparr>sh_magic = SLOT_MAGIC, sh_dtype = se_dtype e, sh_ndim = se_ndim e, sh_shape = se_shape e,
    sh_byte_len = se_data_len e\<rparr>"
  show ?case
  proof (cases "c' = c")
    case False
    then have ok: "unat ?fin \<le> length file" "unat (se_data_len e) \<le> ar_slot_size c - SLOT_HEADER_SIZE"
      "se_data_offset e \<le> ?fin" and room: "0 < available c"
      using Cons.prems(3) by (auto simp: Let_def alloc_slot_def available_def split: if_splits)
    have "unat ?fin = unat (se_data_offset e) + unat (se_data_len e)" by (rule no_wrap_le [OF ok(3)])
    then have "length ?data = unat (se_data_len e)" using ok(1) by (simp add: length_read_at)
    with ok(2) Cons.prems(2) have fits: "entry_fits c (?h, ?data)"
      by (simp add: entry_fits_def header_ok_def)
    have "load_entries crc file i es (store_slot (i, se_layer_idx e) (?h, ?data) c) = Some (r, c')"
      using Cons.prems(3) False alloc_store [OF room, of i "se_layer_idx e"]
      by (auto simp: Let_def store_slot_def split: if_splits prod.splits sum.splits)
    from Cons.IH [OF arena.store_inv [OF Cons.prems(1) room fits] _ this] show ?thesis
      using Cons.prems(2) by (simp add: arena.store_view [OF Cons.prems(1) room fits])
  qed (use Cons.prems(1) in simp)
qed simp

text \<open>C34: loading a spill file never damages the arena: whatever the file holds and whether the load succeeds
  or stops with an error half way, the arena satisfies its invariant afterwards and the entries of every
  other checkpoint are what they were.
\<close>

theorem load_spilled_safe:
  assumes "arena_inv c" "load_spilled_checkpoint crc path i dir c = Some (r, c')"
  shows "arena_inv c' \<and> (\<forall>j l. j \<noteq> i \<longrightarrow> arena_view c' (j, l) = arena_view c (j, l))"
proof -
  have "c' = c \<or> (\<exists>file is es. read_entries file is = Ok es \<and> load_entries crc file i es c = Some (r, c'))"
    using assms(2) by (auto simp: load_spilled_checkpoint_def Let_def split: option.splits if_splits sum.splits)
  then show ?thesis
    using assms(1) load_entries_safe [OF assms(1)] read_entries_shapes by blast
qed

theorem load_spilled_safe_witness:
  "\<exists>dir c. load_spilled_checkpoint (\<lambda>d. word_of_nat (length d)) ''x.ckpt'' ''x'' dir
       (store_slot (''auto-1'', 3) demo_entry demo_new) = Some (Ok (), c) \<and>
     arena_inv c \<and> arena_view c (''auto-1'', 3) = Some demo_entry"
proof -
  let ?a = "store_slot (''auto-1'', 3) demo_entry demo_new" and ?crc = "\<lambda>d. word_of_nat (length d) :: u32"
  obtain infos where infos: "slot_info_for_checkpoint ''auto-1'' ?a = Some infos" "distinct (map fst infos)"
    "length infos \<le> length (lookup_slots (ar_checkpoint_slots ?a) ''auto-1'')" "set infos = {x. listed ?a ''auto-1'' x}"
    using slot_infos [OF demo_stored(1)] .
  have fits: "\<forall>x \<in> set infos. entry_fits ?a (snd (saved_entry ?a x))"
  proof
    fix x assume "x \<in> set infos"
    then have "arena_view ?a (''auto-1'', fst x) = Some (snd (saved_entry ?a x))"
      using infos(4) fst_saved_entry [of ?a x] unfolding listed_view by (metis mem_Collect_eq prod.collapse)
    then show "entry_fits ?a (snd (saved_entry ?a x))"
      using demo_stored(3) unfolding demo_stored(2) by (simp split: if_splits)
  qed
  have one: "length infos \<le> 1" using infos(3) unfolding demo_stored(8) by simp
  let ?dir = "Map.empty(''x.ckpt'' \<mapsto> spill_file (spill_entries ?crc ?a (align_up (spill_header_size (length infos)) 64) infos))"
  let ?c = "arena.store_all ''x'' (map (saved_entry ?a) infos) ?a"
  have "load_spilled_checkpoint ?crc ''x.ckpt'' ''x'' ?dir ?a = Some (Ok (), ?c)"
    using one by (intro load_spilled_stores fits) (simp_all add: demo_stored(6,7) SLOT_HEADER_SIZE_def)
  moreover from load_spilled_safe [OF demo_stored(1) this]
  have "arena_inv ?c" "arena_view ?c (''auto-1'', 3) = Some demo_entry"
    using demo_stored(2) by simp_all
  ultimately show ?thesis by blast
qed

end
