(* ===== verification/Checkpoint_Layers.thy ===== *)
theory Checkpoint_Layers
  imports Protocol_Types
begin

text \<open>
  \<^verbatim>\<open>checkpoint_layers\<close> of \<^verbatim>\<open>crates/rocket-surgeon-protocol/src/lib.rs\<close>, which
  the daemon and the worker share, over IEEE 754 operations on bit patterns.
\<close>

record f64_layer_ops =
  fl_of_u32 :: "u32 \<Rightarrow> f64"
  fl_sqrt :: "f64 \<Rightarrow> f64"
  fl_ceil :: "f64 \<Rightarrow> f64"
  fl_floor :: "f64 \<Rightarrow> f64"
  fl_mul :: "f64 \<Rightarrow> f64 \<Rightarrow> f64"
  fl_div :: "f64 \<Rightarrow> f64 \<Rightarrow> f64"
  fl_to_u32 :: "f64 \<Rightarrow> u32"

definition checkpoint_layers :: "f64_layer_ops \<Rightarrow> u32 \<Rightarrow> u32 list" where
  "checkpoint_layers L num_layers =
     (if num_layers \<le> 1 then []
      else let sqrt_l = fl_to_u32 L (fl_ceil L (fl_sqrt L (fl_of_u32 L num_layers)));
               interval = fl_div L (fl_of_u32 L num_layers) (fl_of_u32 L sqrt_l)
           in map (\<lambda>i. fl_to_u32 L (fl_floor L (fl_mul L (fl_of_u32 L (word_of_nat i)) interval))) [1..<unat sqrt_l])"

end
