(* ===== verification/Worker_Checkpoint.thy ===== *)
theory Worker_Checkpoint
  imports Worker_Step Worker_Spill_Roundtrip Checkpoint_Layers Orchestrator_Handle
begin

text \<open>
  Creating and restoring checkpoints in the worker: \<^verbatim>\<open>handle_host_checkpoint\<close> of
  \<^verbatim>\<open>crates/rocket-surgeon-worker/src/dispatch.rs\<close>. The functions of the bridge that copy tensors between Python and
  the arena are the record \<open>ckpt_ops\<close>: a capture writes bytes at the pointer it is given and answers
  with the type and the shape of the tensor, a restore is handed the bytes at a pointer and changes the
  captured outputs in place. An access outside the mapping is undefined in the code and the outer
  \<^const>\<open>None\<close> here. \<open>co_crowded\<close> is the floating-point test that more than 80\% of the slots are taken.
\<close>

section \<open>The bridge\<close>

type_synonym 't outputs = "((string \<times> u32) \<times> 't) list"

record 't ckpt_ops =
  co_available :: "'t outputs \<Rightarrow> string \<Rightarrow> u32 \<Rightarrow> (string, bool) result"
  co_capture :: "'t outputs \<Rightarrow> string \<Rightarrow> u32 \<Rightarrow> nat \<Rightarrow> bytes \<times> (string, string \<times> int list) result"
  co_rng :: "(string, bytes) result"
  co_restore :: "'t outputs \<Rightarrow> string \<Rightarrow> u32 \<Rightarrow> bytes \<Rightarrow> string \<Rightarrow> int list \<Rightarrow> 't outputs \<times> (string, unit) result"
  co_restore_rng :: "bytes \<Rightarrow> (string, unit) result"
  co_crowded :: "nat \<Rightarrow> u32 \<Rightarrow> bool"
  co_crc :: "bytes \<Rightarrow> u32"
  co_spill_io :: spill_io
  co_debug :: "string \<Rightarrow> string"
  co_layers :: f64_layer_ops

section \<open>Creating\<close>

definition RNG_LAYER :: u32 where "RNG_LAYER = - 1"

fun elem_size :: "DtypeTag \<Rightarrow> u64" where
  "elem_size TagFloat16 = 2"
| "elem_size TagBfloat16 = 2"
| "elem_size TagFloat32 = 4"
| "elem_size TagFloat64 = 8"

text \<open>The product of the dimensions wraps at 64 bits, and so does its product with the element size.\<close>

definition captured_header :: "DtypeTag \<Rightarrow> int list \<Rightarrow> SlotHeader" where
  "captured_header dtype shape =
     \<lparr>sh_magic = SLOT_MAGIC, sh_dtype = dtype, sh_ndim = word_of_nat (min (length shape) 6),
      sh_shape = map word_of_int (take 6 shape) @ replicate (6 - length (take 6 shape)) 0,
      sh_byte_len = word_of_int (prod_list shape) * elem_size dtype\<rparr>"

definition debug_dims :: "int list \<Rightarrow> string" where
  "debug_dims shape = ''['' @ join_with '', '' (map show_int shape) @ '']''"

fun capture_layers ::
  "'t ckpt_ops \<Rightarrow> (u32 \<times> string) list \<Rightarrow> 't outputs \<Rightarrow> string \<Rightarrow> u32 list \<Rightarrow> u64 \<Rightarrow> CheckpointArena
   \<Rightarrow> ((string, u64) result \<times> CheckpointArena) option" where
  "capture_layers ops containers lo checkpoint_id [] total_bytes a = Some (Ok total_bytes, a)"
| "capture_layers ops containers lo checkpoint_id (layer # layers) total_bytes a =
     (case map_of containers layer of
        None \<Rightarrow> capture_layers ops containers lo checkpoint_id layers total_bytes a
      | Some container_path \<Rightarrow>
          (case co_available ops lo container_path 0 of
             Inl e \<Rightarrow> Some (Err e, a)
           | Inr present \<Rightarrow>
               if \<not> present then capture_layers ops containers lo checkpoint_id layers total_bytes a
               else case alloc_slot checkpoint_id layer a of
                 (Inl e, a) \<Rightarrow> Some (Err ''checkpoint arena exhausted'', a)
               | (Inr (slot_ptr, _), a) \<Rightarrow>
                   let data_len = ar_slot_size a - SLOT_HEADER_SIZE in
                   (case co_capture ops lo container_path 0 data_len of
                      (data, r) \<Rightarrow>
                        if data_len < length data then None
                        else let a = copy_data slot_ptr data a in
                          (case r of
                             Inl e \<Rightarrow> Some (Err e, a)
                           | Inr (dtype_str, shape) \<Rightarrow>
                               let dtype = unwrap_or (from_torch_str dtype_str) TagFloat32;
                                   header = captured_header dtype shape
                               in if \<not> list_all (\<lambda>d. 0 \<le> d) shape then
                                    Some (Err (''negative dimension in shape '' @ debug_dims shape @ '' for layer '' @ show_u32 layer), a)
                                  else capture_layers ops containers lo checkpoint_id layers
                                    (total_bytes + sh_byte_len header) (update_header slot_ptr header a)))))"

text \<open>The copy of the generator state is not bounded by the slot.\<close>

definition rng_header :: "bytes \<Rightarrow> SlotHeader" where
  "rng_header rng_bytes =
     \<lparr>sh_magic = SLOT_MAGIC, sh_dtype = TagFloat32, sh_ndim = 1,
      sh_shape = [word_of_nat (length rng_bytes), 0, 0, 0, 0, 0], sh_byte_len = word_of_nat (length rng_bytes)\<rparr>"

definition capture_rng :: "'t ckpt_ops \<Rightarrow> string \<Rightarrow> CheckpointArena \<Rightarrow> CheckpointArena option" where
  "capture_rng ops checkpoint_id a =
     (case co_rng ops of
        Inl _ \<Rightarrow> Some a
      | Inr rng_bytes \<Rightarrow>
          (case alloc_slot checkpoint_id RNG_LAYER a of
             (Inl _, a) \<Rightarrow> Some a
           | (Inr (rng_ptr, _), a) \<Rightarrow>
               if ar_capacity a < rng_ptr + SLOT_HEADER_SIZE + length rng_bytes then None
               else Some (copy_data rng_ptr rng_bytes (update_header rng_ptr (rng_header rng_bytes) a))))"

definition spill_oldest ::
  "'t ckpt_ops \<Rightarrow> string \<Rightarrow> CheckpointArena \<Rightarrow> directory \<Rightarrow> (CheckpointArena \<times> directory) option" where
  "spill_oldest ops checkpoint_id a dir =
     (if co_crowded ops (available a) (word_of_nat (ar_num_slots a)) then
        (case oldest_checkpoint a of
           None \<Rightarrow> Some (a, dir)
         | Some oldest \<Rightarrow>
             if starts_with ''auto-'' oldest \<and> oldest \<noteq> checkpoint_id
             then map_option snd (spill_checkpoint (co_crc ops) (co_spill_io ops) oldest a dir)
             else Some (a, dir))
      else Some (a, dir))"

fun created_tier :: "create_checkpoint_tier \<Rightarrow> checkpoint_tier" where
  "created_tier Create_Activation = Tier_Activation"
| "created_tier Create_FullSnapshot = Tier_FullSnapshot"

definition create_checkpoint ::
  "'t ckpt_ops \<Rightarrow> string list \<Rightarrow> u32 \<Rightarrow> 't outputs \<Rightarrow> string \<Rightarrow> create_checkpoint_tier \<Rightarrow> CheckpointArena \<Rightarrow> directory
   \<Rightarrow> ((string, host_checkpoint_response) result \<times> CheckpointArena \<times> directory) option" where
  "create_checkpoint ops container_paths num_layers lo checkpoint_id tier a dir =
     (let containers = build_layer_container_map [] container_paths;
          layers = checkpoint_layers (co_layers ops) num_layers
      in case capture_layers ops containers lo checkpoint_id layers 0 a of
           None \<Rightarrow> None
         | Some (Inl e, a') \<Rightarrow>
             Some (Err (''checkpoint create failed: '' @ e), rollback (snapshot a) checkpoint_id a', dir)
         | Some (Inr total_bytes, a') \<Rightarrow>
             Option.bind (capture_rng ops checkpoint_id a') (\<lambda>a'.
               map_option (\<lambda>(a', dir').
                 (Ok \<lparr>hc_checkpoint_id = checkpoint_id, hc_tier = created_tier tier, hc_restored_to = None,
                      hc_bytes_captured = Some total_bytes\<rparr>, a', dir'))
                 (spill_oldest ops checkpoint_id a' dir)))"

section \<open>Restoring\<close>

definition read_slot :: "CheckpointArena \<Rightarrow> nat \<Rightarrow> SlotHeader \<Rightarrow> bytes option" where
  "read_slot a slot_ptr header =
     (let n = unat (sh_byte_len header) in
      if ar_capacity a < slot_ptr + SLOT_HEADER_SIZE + n then None
      else Some (read_at (slot_ptr + SLOT_HEADER_SIZE) n (ar_mem a)))"

definition stored_rng :: "string \<Rightarrow> CheckpointArena \<Rightarrow> bytes option option" where
  "stored_rng checkpoint_id a =
     (case get_slot checkpoint_id RNG_LAYER a of
        None \<Rightarrow> None
      | Some None \<Rightarrow> Some None
      | Some (Some (rng_ptr, rng_hdr)) \<Rightarrow> map_option Some (read_slot a rng_ptr rng_hdr))"

definition stored_shape :: "SlotHeader \<Rightarrow> int list" where
  "stored_shape header = map sint (take (unat (sh_ndim header)) (sh_shape header))"

fun restore_layers ::
  "'t ckpt_ops \<Rightarrow> (u32 \<times> string) list \<Rightarrow> string \<Rightarrow> CheckpointArena \<Rightarrow> (u32 \<times> nat \<times> SlotHeader) list \<Rightarrow> 't outputs
   \<Rightarrow> ((string, unit) result \<times> 't outputs) option" where
  "restore_layers ops containers checkpoint_id a [] lo = Some (Ok (), lo)"
| "restore_layers ops containers checkpoint_id a ((layer_idx, _, header) # infos) lo =
     (if layer_idx = RNG_LAYER then restore_layers ops containers checkpoint_id a infos lo
      else case map_of containers layer_idx of
        None \<Rightarrow> Some (Err (''no container path for layer '' @ show_u32 layer_idx), lo)
      | Some container_path \<Rightarrow>
          (case get_slot checkpoint_id layer_idx a of
             None \<Rightarrow> None
           | Some None \<Rightarrow> restore_layers ops containers checkpoint_id a infos lo
           | Some (Some (slot_ptr, _)) \<Rightarrow>
               (case read_slot a slot_ptr header of
                  None \<Rightarrow> None
                | Some data \<Rightarrow>
                    (case co_restore ops lo container_path 0 data (to_torch_str (sh_dtype header)) (stored_shape header) of
                       (lo, Inl e) \<Rightarrow> Some (Err e, lo)
                     | (lo, Inr _) \<Rightarrow> restore_layers ops containers checkpoint_id a infos lo))))"

text \<open>The generator state handed back, if any, is the last component; a failure to set it is only logged.\<close>

definition restore_checkpoint ::
  "'t ckpt_ops \<Rightarrow> string list \<Rightarrow> 't outputs option \<Rightarrow> string \<Rightarrow> CheckpointArena
   \<Rightarrow> ((string, host_checkpoint_response) result \<times> 't outputs option \<times> bytes option) option" where
  "restore_checkpoint ops container_paths last_outputs checkpoint_id a =
     (case slot_info_for_checkpoint checkpoint_id a of
        None \<Rightarrow> None
      | Some slot_infos \<Rightarrow>
          if slot_infos = [] then
            Some (Err (''checkpoint '' @ checkpoint_id @ '' not found in arena''), last_outputs, None)
          else case last_outputs of
            None \<Rightarrow> Some (Err ''No captured activations'', last_outputs, None)
          | Some lo \<Rightarrow>
              (case stored_rng checkpoint_id a of
                 None \<Rightarrow> None
               | Some rng \<Rightarrow>
                   map_option (\<lambda>(r, lo').
                     (case r of
                        Inl e \<Rightarrow> Err (''checkpoint restore failed: '' @ e)
                      | Inr _ \<Rightarrow> Ok \<lparr>hc_checkpoint_id = checkpoint_id, hc_tier = Tier_Activation, hc_restored_to = None,
                          hc_bytes_captured = None\<rparr>, Some lo', rng))
                     (restore_layers ops (build_layer_container_map [] container_paths) checkpoint_id a slot_infos lo)))"

section \<open>The handler\<close>

record 'v ckpt_codec =
  kc_checkpoint :: "'v \<Rightarrow> (string, host_checkpoint_request) result"
  kc_of_checkpoint :: "host_checkpoint_response \<Rightarrow> (string, 'v) result"

fun checkpoint_id_of :: "host_checkpoint_request \<Rightarrow> string" where
  "checkpoint_id_of (HostCkpt_Create _ i _ _ _) = i"
| "checkpoint_id_of (HostCkpt_Restore _ i) = i"

fun checkpoint_handle_of :: "host_checkpoint_request \<Rightarrow> u64" where
  "checkpoint_handle_of (HostCkpt_Create hdl _ _ _ _) = hdl"
| "checkpoint_handle_of (HostCkpt_Restore hdl _) = hdl"

definition checkpoint_reply ::
  "'v ckpt_codec \<Rightarrow> request_id \<Rightarrow> (string, host_checkpoint_response) result \<Rightarrow> 'v response" where
  "checkpoint_reply K i r =
     (case r of
        Inl e \<Rightarrow> internal_error i e
      | Inr resp \<Rightarrow> worker_reply i (kc_of_checkpoint K resp))"

definition handle_host_checkpoint ::
  "'t ckpt_ops \<Rightarrow> 'v worker_codec \<Rightarrow> 'v ckpt_codec \<Rightarrow> 'v request \<Rightarrow> 't worker_state \<Rightarrow> directory
   \<Rightarrow> ('v response \<times> 't worker_state \<times> directory \<times> bytes option) option" where
  "handle_host_checkpoint ops C K rq w dir =
     (case worker_params C (kc_checkpoint K) rq of
        Inl resp \<Rightarrow> Some (resp, w, dir, None)
      | Inr req \<Rightarrow>
          let fail = (\<lambda>m. Some (internal_error (rq_id rq) m, w, dir, None)) in
          if \<not> is_safe_checkpoint_id (checkpoint_id_of req) then
            Some (bare_error (rq_id rq) INVALID_PARAMS (''invalid checkpoint_id: '' @ co_debug ops (checkpoint_id_of req)), w, dir, None)
          else case ws_model_handle w of
            None \<Rightarrow> fail ''No model loaded''
          | Some hdl \<Rightarrow>
              (case ws_checkpoint_arena w of
                 None \<Rightarrow> fail ''No checkpoint arena''
               | Some a \<Rightarrow>
                   (case validate_handle w (checkpoint_handle_of req) of
                      Inl e \<Rightarrow> fail e
                    | Inr _ \<Rightarrow>
                        (case req of
                           HostCkpt_Create _ checkpoint_id tier _ _ \<Rightarrow>
                             (case ws_last_outputs w of
                                None \<Rightarrow> fail (''No captured activations '' @ [CHR 0xE2, CHR 0x80, CHR 0x94] @ '' execute at least one step first'')
                              | Some lo \<Rightarrow>
                                  map_option (\<lambda>(r, a', dir').
                                    (checkpoint_reply K (rq_id rq) r, w\<lparr>ws_checkpoint_arena := Some a'\<rparr>, dir', None))
                                    (create_checkpoint ops (ws_container_paths w) (ws_num_layers w) lo checkpoint_id tier a dir))
                         | HostCkpt_Restore _ checkpoint_id \<Rightarrow>
                             map_option (\<lambda>(r, lo', rng).
                               (checkpoint_reply K (rq_id rq) r, w\<lparr>ws_last_outputs := lo'\<rparr>, dir, rng))
                               (restore_checkpoint ops (ws_container_paths w) (ws_last_outputs w) checkpoint_id a)))))"

end
