(* ===== verification/Checkpoint_Bridge.thy ===== *)
theory Checkpoint_Bridge
  imports Worker_Checkpoint
begin

text \<open>
  The Python functions that copy tensors between a model and the arena,
  \<^verbatim>\<open>python/rocket_surgeon/checkpoint.py\<close>. An output is a tensor or a tuple whose first element is one; only that
  element is copied. A tensor is its element type, its shape and its bytes. Of \<^verbatim>\<open>torch\<close> two things are
  used: a view of a whole buffer in a given type and shape exists exactly when the buffer is not
  empty and holds that many elements (\<open>buffer_view\<close>), and \<open>copy\<close> is what \<^verbatim>\<open>Tensor.copy_\<close> makes of its target,
  if it does not raise. The texts of exceptions are an argument.
\<close>

type_synonym tensor_repr = "DtypeTag \<times> int list \<times> bytes"

definition repr_ok :: "tensor_repr \<Rightarrow> bool" where
  "repr_ok = (\<lambda>(dt, shape, data). length shape \<le> 6 \<and> (\<forall>d \<in> set shape. 0 \<le> d \<and> d < 2 ^ 63) \<and>
     int (length data) = prod_list shape * uint (elem_size dt))"

definition same_kind :: "tensor_repr \<Rightarrow> tensor_repr \<Rightarrow> bool" where
  "same_kind = (\<lambda>(dt, shape, _) (dt', shape', _). dt = dt' \<and> shape = shape')"

datatype 'x py_value = Py_Tensor tensor_repr | Py_Tuple tensor_repr 'x

fun first_tensor :: "'x py_value \<Rightarrow> tensor_repr" where
  "first_tensor (Py_Tensor t) = t"
| "first_tensor (Py_Tuple t _) = t"

fun set_first :: "tensor_repr \<Rightarrow> 'x py_value \<Rightarrow> 'x py_value" where
  "set_first t (Py_Tensor _) = Py_Tensor t"
| "set_first t (Py_Tuple _ others) = Py_Tuple t others"

lemma first_set_first [simp]: "first_tensor (set_first t v) = t"
  by (cases v) simp_all

datatype py_exception =
    Missing_Key string u32
  | Exceeds_Slot int nat
  | Restore_Exceeds_Slot int nat
  | Bad_View nat "int list"
  | Bad_Dtype string
  | Nothing_To_Restore string u32
  | Copy_Failed

definition element_size :: "DtypeTag \<Rightarrow> nat" where
  "element_size dt = unat (elem_size dt)"

definition buffer_view :: "DtypeTag \<Rightarrow> int list \<Rightarrow> nat \<Rightarrow> bool" where
  "buffer_view dt shape n \<longleftrightarrow> 0 < n \<and> n mod element_size dt = 0 \<and> int (n div element_size dt) = prod_list shape \<and> (\<forall>d \<in> set shape. 0 \<le> d)"

definition activation_available :: "'x py_value outputs \<Rightarrow> string \<Rightarrow> u32 \<Rightarrow> bool" where
  "activation_available last_outputs component_path call_index \<longleftrightarrow> map_of last_outputs (component_path, call_index) \<noteq> None"

definition capture_activation ::
  "(py_exception \<Rightarrow> string) \<Rightarrow> 'x py_value outputs \<Rightarrow> string \<Rightarrow> u32 \<Rightarrow> nat \<Rightarrow> bytes \<times> (string, string \<times> int list) result" where
  "capture_activation exn last_outputs component_path call_index dst_len =
     (case map_of last_outputs (component_path, call_index) of
        None \<Rightarrow> ([], Err (exn (Missing_Key component_path call_index)))
      | Some v \<Rightarrow>
          (case first_tensor v of (dt, shape, d) \<Rightarrow>
             let nbytes = prod_list shape * int (element_size dt) in
             if nbytes > int dst_len then ([], Err (exn (Exceeds_Slot nbytes dst_len)))
             else if \<not> buffer_view dt shape dst_len then ([], Err (exn (Bad_View dst_len shape)))
             else (d, Ok (to_torch_str dt, shape))))"

text \<open>\<^verbatim>\<open>dtype_str.replace("torch.", "")\<close>\<close>

fun strip_torch :: "string \<Rightarrow> string" where
  "strip_torch [] = []"
| "strip_torch (c # s) = (if take 6 (c # s) = ''torch.'' then strip_torch (drop 5 s) else c # strip_torch s)"

definition torch_dtype :: "string \<Rightarrow> DtypeTag option" where
  "torch_dtype s = from_torch_str (''torch.'' @ strip_torch s)"

definition restore_activation ::
  "(tensor_repr \<Rightarrow> tensor_repr \<Rightarrow> tensor_repr option) \<Rightarrow> (py_exception \<Rightarrow> string) \<Rightarrow> 'x py_value outputs \<Rightarrow> string \<Rightarrow> u32 \<Rightarrow> bytes \<Rightarrow> string
   \<Rightarrow> int list \<Rightarrow> 'x py_value outputs \<times> (string, unit) result" where
  "restore_activation copy exn last_outputs component_path call_index src dtype_str shape =
     (let fail = (\<lambda>e. (last_outputs, Err (exn e))) in
      case torch_dtype dtype_str of
        None \<Rightarrow> fail (Bad_Dtype dtype_str)
      | Some dt \<Rightarrow>
          let nbytes = prod_list shape * int (element_size dt) in
          if nbytes > int (length src) then fail (Restore_Exceeds_Slot nbytes (length src))
          else if \<not> buffer_view dt shape (nat nbytes) then fail (Bad_View (nat nbytes) shape)
          else case map_of last_outputs (component_path, call_index) of
            None \<Rightarrow> fail (Nothing_To_Restore component_path call_index)
          | Some target \<Rightarrow>
              (case copy (first_tensor target) (dt, shape, take (nat nbytes) src) of
                 None \<Rightarrow> fail Copy_Failed
               | Some t \<Rightarrow> (AList.update (component_path, call_index) (set_first t target) last_outputs, Ok ())))"

text \<open>
  The bridge with these functions; the generator states, the file system and the rest stay those of \<open>ops\<close>. Two
  outputs of the model are taken not to share their storage.
\<close>

definition python_bridge ::
  "(tensor_repr \<Rightarrow> tensor_repr \<Rightarrow> tensor_repr option) \<Rightarrow> (py_exception \<Rightarrow> string) \<Rightarrow> 'x py_value ckpt_ops \<Rightarrow> 'x py_value ckpt_ops" where
  "python_bridge copy exn ops =
     ops\<lparr>co_available := (\<lambda>lo p c. Ok (activation_available lo p c)), co_capture := capture_activation exn,
         co_restore := restore_activation copy exn\<rparr>"

section \<open>What the worker relies on\<close>

text \<open>
  Capturing may fail, but when it succeeds the bytes at the pointer are those of the tensor; restoring
  into a tensor of the same type and shape makes it equal to the one the bytes came from.
\<close>

definition faithful_bridge :: "'t ckpt_ops \<Rightarrow> ('t \<Rightarrow> tensor_repr) \<Rightarrow> bool" where
  "faithful_bridge ops repr \<longleftrightarrow>
     (\<forall>lo p c. co_available ops lo p c = Ok (map_of lo (p, c) \<noteq> None)) \<and>
     (\<forall>lo p c n data res t. co_capture ops lo p c n = (data, Ok res) \<longrightarrow> map_of lo (p, c) = Some t \<longrightarrow> repr_ok (repr t) \<longrightarrow>
        (case repr t of (dt, shape, d) \<Rightarrow> data = d \<and> d \<noteq> [] \<and> res = (to_torch_str dt, shape))) \<and>
     (\<forall>lo p c dt shape d u. map_of lo (p, c) = Some u \<longrightarrow> same_kind (repr u) (dt, shape, d) \<longrightarrow> repr_ok (dt, shape, d) \<longrightarrow> d \<noteq> [] \<longrightarrow>
        (\<exists>t. co_restore ops lo p c d (to_torch_str dt) shape = (AList.update (p, c) t lo, Ok ()) \<and> repr t = (dt, shape, d)))"

lemma same_kind_refl [simp]: "same_kind r r"
  by (simp add: same_kind_def split_beta)

lemma element_size_pos [simp]: "0 < element_size dt" and uint_elem_size: "uint (elem_size dt) = int (element_size dt)"
  by (cases dt; simp add: element_size_def)+

lemma torch_dtype_to [simp]: "torch_dtype (to_torch_str dt) = Some dt"
  by (cases dt) (simp_all add: torch_dtype_def from_torch_str_def)

lemma view_of_repr:
  assumes "repr_ok (dt, shape, d)" "d \<noteq> []" shows "buffer_view dt shape (length d)"
proof -
  have len: "int (length d) = prod_list shape * int (element_size dt)" using assms(1) by (simp add: repr_ok_def uint_elem_size)
  then have "int (length d) mod int (element_size dt) = 0" "int (length d) div int (element_size dt) = prod_list shape" by simp_all
  then show ?thesis using assms by (simp add: buffer_view_def repr_ok_def flip: zmod_int zdiv_int)
qed

lemma view_exact:
  assumes "buffer_view dt shape n" "repr_ok (dt, shape, d)" shows "length d = n"
proof -
  have "prod_list shape = int (n div element_size dt)" "n mod element_size dt = 0" using assms(1) by (simp_all add: buffer_view_def)
  then have "int (length d) = int (n div element_size dt * element_size dt)" using assms(2) by (simp add: repr_ok_def uint_elem_size)
  also have "\<dots> = int n" using \<open>n mod element_size dt = 0\<close> by (simp add: minus_mod_eq_div_mult [symmetric])
  finally show ?thesis by simp
qed

text \<open>A capture succeeds only into a buffer of exactly the size of the tensor.\<close>

lemma capture_activation_Ok:
  assumes "capture_activation exn lo p c n = (data, Ok res)" "map_of lo (p, c) = Some v" "first_tensor v = (dt, shape, d)"
    and "repr_ok (dt, shape, d)"
  shows "data = d \<and> d \<noteq> [] \<and> res = (to_torch_str dt, shape) \<and> length d = n"
proof -
  have "buffer_view dt shape n" "data = d" "res = (to_torch_str dt, shape)"
    using assms(1-3) by (auto simp: capture_activation_def Let_def split: if_splits)
  moreover from this have "length d = n" "0 < n" using view_exact [OF _ assms(4)] by (auto simp: buffer_view_def)
  ultimately show ?thesis by auto
qed

definition copies_alike :: "(tensor_repr \<Rightarrow> tensor_repr \<Rightarrow> tensor_repr option) \<Rightarrow> bool" where
  "copies_alike copy \<longleftrightarrow> (\<forall>t s. same_kind t s \<longrightarrow> copy t s = Some s)"

lemma python_bridge_faithful:
  fixes ops :: "'x py_value ckpt_ops"
  assumes "copies_alike copy"
  shows "faithful_bridge (python_bridge copy exn ops) first_tensor"
  unfolding faithful_bridge_def
proof (intro conjI allI impI)
  fix lo :: "'x py_value outputs" and p c dt shape d u
  assume u: "map_of lo (p, c) = Some u" "same_kind (first_tensor u) (dt, shape, d)" and r: "repr_ok (dt, shape, d)" "d \<noteq> []"
  have n: "prod_list shape * int (element_size dt) = int (length d)" using r(1) by (simp add: repr_ok_def uint_elem_size)
  have "copy (first_tensor u) (dt, shape, d) = Some (dt, shape, d)" using assms u(2) by (simp only: copies_alike_def)
  then have "restore_activation copy exn lo p c d (to_torch_str dt) shape =
      (AList.update (p, c) (set_first (dt, shape, d) u) lo, Ok ())"
    using u(1) view_of_repr [OF r] by (simp add: restore_activation_def n Let_def)
  then show "\<exists>t. co_restore (python_bridge copy exn ops) lo p c d (to_torch_str dt) shape = (AList.update (p, c) t lo, Ok ()) \<and>
      first_tensor t = (dt, shape, d)"
    by (intro exI [of _ "set_first (dt, shape, d) u"]) (simp add: python_bridge_def)
next
  fix lo :: "'x py_value outputs" and p c n data res t
  assume a: "co_capture (python_bridge copy exn ops) lo p c n = (data, Ok res)" "map_of lo (p, c) = Some t" "repr_ok (first_tensor t)"
  obtain dt shape d where r: "first_tensor t = (dt, shape, d)" by (cases "first_tensor t")
  show "case first_tensor t of (dt, shape, d) \<Rightarrow> data = d \<and> d \<noteq> [] \<and> res = (to_torch_str dt, shape)"
    using capture_activation_Ok [OF a(1) [unfolded python_bridge_def, simplified] a(2) r] a(3) by (simp add: r)
qed (simp add: python_bridge_def activation_available_def)

end
