(* ===== verification/Worker_Arena_Invariant.thy ===== *)
theory Worker_Arena_Invariant
  imports Worker_Spill_Roundtrip
begin

text \<open>
  The life of an arena, from its creation through every operation its clients call on it, in any order:
  allocating, filling and freeing slots, spilling and loading. No slot is ever lost or handed out twice.
\<close>

inductive arena_step :: "CheckpointArena \<Rightarrow> CheckpointArena \<Rightarrow> bool" where
  alloc: "alloc_slot i l a = (r, b) \<Longrightarrow> arena_step a b"
| header: "s < ar_num_slots a \<Longrightarrow> length (sh_shape h) = 6 \<Longrightarrow> arena_step a (update_header (s * ar_slot_size a) h a)"
| data: "s < ar_num_slots a \<Longrightarrow> SLOT_HEADER_SIZE + length d \<le> ar_slot_size a \<Longrightarrow>
    arena_step a (copy_data (s * ar_slot_size a) d a)"
| free: "arena_step a (free_checkpoint i a)"
| rollback: "arena_step a (rollback snap i a)"
| spill: "spill_checkpoint crc io i a dir = Some (r, b, dir') \<Longrightarrow> arena_step a b"
| load: "load_spilled_checkpoint crc path i dir a = Some (r, b) \<Longrightarrow> arena_step a b"

inductive_cases arena_stepE: "arena_step a b"

lemma spill_arena:
  "spill_checkpoint crc io i a dir = Some (r, b, dir') \<Longrightarrow> b = a \<or> b = free_checkpoint i a"
  by (auto simp: spill_checkpoint_def Let_def split: option.splits if_splits spill_io.splits)

lemma slot_info_sizes:
  "ar_num_slots (snd (alloc_slot i l a)) = ar_num_slots a" "ar_num_slots (free_checkpoint i a) = ar_num_slots a"
  by (auto simp: alloc_slot_def free_checkpoint_def Let_def split: option.splits)

lemma load_entries_num_slots:
  "load_entries crc file i es a = Some (r, b) \<Longrightarrow> ar_num_slots b = ar_num_slots a"
proof (induction es arbitrary: a)
  case (Cons e es)
  show ?case
  proof (cases "alloc_slot i (se_layer_idx e) a")
    case (Pair x c)
    then have "ar_num_slots c = ar_num_slots a" using slot_info_sizes(1) [of i "se_layer_idx e" a] by simp
    with Cons Pair show ?thesis
      by (cases x) (auto simp: Let_def split: if_splits)
  qed
qed simp

lemma arena_step_inv:
  assumes "arena_step a b" "arena_inv a"
  shows "arena_inv b \<and> ar_num_slots b = ar_num_slots a"
proof -
  have geo: "geometry_ok a" using assms(2) by (simp add: arena_inv_def)
  from assms(1) show ?thesis
  proof cases
    case (alloc i l r)
    then show ?thesis using alloc_slot_inv [OF assms(2), of i l] slot_info_sizes(1) [of i l a] by simp
  next
    case (header s h)
    then show ?thesis
      using update_header_inv [OF assms(2), of h "s * ar_slot_size a"] slot_fits [OF geo, of s] by simp
  next
    case (data s d)
    then show ?thesis
      using copy_data_inv [OF assms(2), of "s * ar_slot_size a" d] slot_fits [OF geo, of s] by simp
  next
    case (free i)
    then show ?thesis using free_checkpoint_inv [OF assms(2)] by (simp add: slot_info_sizes)
  next
    case (rollback snap i)
    then show ?thesis using free_checkpoint_inv [OF assms(2)] by (simp add: rollback_def slot_info_sizes)
  next
    case (spill crc io i dir r dir')
    from spill_arena [OF this] show ?thesis
      using assms(2) free_checkpoint_inv [OF assms(2)] by (auto simp: slot_info_sizes)
  next
    case (load crc path i dir r)
    have "b = a \<or> (\<exists>file is es. read_entries file is = Ok es \<and> load_entries crc file i es a = Some (r, b))"
      using load by (auto simp: load_spilled_checkpoint_def Let_def split: option.splits if_splits sum.splits)
    then show ?thesis
      using assms(2) load_entries_safe [OF assms(2)] read_entries_shapes load_entries_num_slots by blast
  qed
qed

lemma arena_steps_inv:
  "arena_step\<^sup>*\<^sup>* a b \<Longrightarrow> arena_inv a \<Longrightarrow> arena_inv b \<and> ar_num_slots b = ar_num_slots a"
  by (induction rule: rtranclp_induct) (auto dest: arena_step_inv)

lemma new_num_slots: "CheckpointArena_new mapped slot_size n = Some (Ok a) \<Longrightarrow> ar_num_slots a = n"
  by (auto simp: CheckpointArena_new_def Let_def split: if_splits)

lemma mset_range: "mset xs = mset [0..<n] \<Longrightarrow> distinct xs \<and> set xs = {0..<n}"
  using mset_eq_setD [of xs "[0..<n]"] mset_eq_imp_distinct_iff [of xs "[0..<n]"] by simp

text \<open>C33: in every state an arena of \<open>n\<close> slots can reach, each of its slots is on the free list or in the
  list of exactly one checkpoint, once: the lists together are a permutation of \<open>0..<n\<close>. No slot leaks
  and none is allocated twice.
\<close>

theorem arena_slots_partitioned:
  assumes "CheckpointArena_new mapped slot_size n = Some (Ok a)" "arena_step\<^sup>*\<^sup>* a b"
  shows "distinct (ar_free_list b @ concat (map snd (ar_checkpoint_slots b))) \<and>
    set (ar_free_list b @ concat (map snd (ar_checkpoint_slots b))) = {0..<n} \<and>
    available b + length (concat (map snd (ar_checkpoint_slots b))) = n"
proof -
  have new: "arena_inv a" "ar_num_slots a = n"
    using new_inv [OF assms(1)] new_num_slots [OF assms(1)] by simp_all
  with arena_steps_inv [OF assms(2)] have "arena_inv b" "ar_num_slots b = n" by simp_all
  then have part: "mset (ar_free_list b @ concat (map snd (ar_checkpoint_slots b))) = mset [0..<n]"
    by (simp add: arena_inv_def held_slots_def)
  have "length (ar_free_list b @ concat (map snd (ar_checkpoint_slots b))) = n"
    using arg_cong [OF part, of size] by simp
  with mset_range [OF part] show ?thesis by (simp add: available_def)
qed

theorem arena_slots_partitioned_witness:
  "\<exists>a. arena_step\<^sup>*\<^sup>* demo_new a \<and> ar_free_list a = [1] \<and>
    distinct (ar_free_list a @ concat (map snd (ar_checkpoint_slots a)))"
proof -
  let ?b = "snd (alloc_slot ''auto-1'' 3 demo_new)"
  have "arena_step demo_new ?b" by (rule arena_step.alloc [where r = "fst (alloc_slot ''auto-1'' 3 demo_new)"]) simp
  then have "arena_step\<^sup>*\<^sup>* demo_new ?b" by simp
  moreover have "ar_free_list ?b = [1]"
    using alloc_slot_fields(6) [of demo_new "''auto-1''" 3] by (simp add: demo_new_def)
  moreover note arena_slots_partitioned [OF demo_new calculation(1)]
  ultimately show ?thesis by blast
qed

end
