(* ===== verification/Worker_Checkpoint_Roundtrip.thy ===== *)
theory Worker_Checkpoint_Roundtrip
  imports Checkpoint_Bridge Worker_Arena_Invariant
begin

text \<open>
  A checkpoint the worker created and restores puts the captured outputs back as they were. Captures are
  stores into the arena, whose contract (the interpretation \<open>arena\<close>) carries the proof. Of the Python side only
  that it copies tensors faithfully is used, which the functions of \<^verbatim>\<open>checkpoint.py\<close> do. But they capture a tensor
  only when it fills its slot exactly.
\<close>

section \<open>Captures are stores\<close>

lemma write_at_commute:
  assumes "off + length d \<le> off'" "off' + length d' \<le> length buf"
  shows "write_at off d (write_at off' d' buf) = write_at off' d' (write_at off d buf)"
  using assms by (intro nth_equalityI) (auto simp: nth_write_at)

lemma header_after_data:
  assumes "p + SLOT_HEADER_SIZE + length d \<le> length (ar_mem a)" "header_ok h"
  shows "update_header p h (copy_data p d a) = copy_data p d (update_header p h a)"
  using assms write_at_commute [of p "SlotHeader_write_to h (replicate SLOT_HEADER_SIZE 0)" "p + SLOT_HEADER_SIZE" d "ar_mem a"]
  by (simp add: update_header_def copy_data_def)

lemma header_ok_captured [simp]: "header_ok (captured_header dt sh)" "header_ok (rng_header d)"
  by (simp_all add: header_ok_def captured_header_def rng_header_def)

lemma alloc_eq:
  assumes "alloc_slot i l a = (r, b)"
  obtains (full) "available a = 0" "r = Err ArenaExhausted" "b = a"
  | (room) "0 < available a" "r = Ok (last (ar_free_list a) * ar_slot_size a, default_header (ar_slot_size a))"
      "b = snd (alloc_slot i l a)"
  using assms alloc_store [of a i l] by (cases "0 < available a") (auto simp: available_def alloc_slot_def)

text \<open>What the code writes after an allocation, in either order, is a store of the pair.\<close>

lemma store_slot_writes:
  fixes i :: string and l :: u32
  assumes "arena_inv a" "0 < available a"
  defines "p \<equiv> last (ar_free_list a) * ar_slot_size a" and "b \<equiv> snd (alloc_slot i l a)"
  shows "store_slot (i, l) (h, d) a = copy_data p d (update_header p h b)"
    "length d \<le> ar_slot_size a - SLOT_HEADER_SIZE \<Longrightarrow> header_ok h \<Longrightarrow>
      update_header p h (copy_data p d b) = store_slot (i, l) (h, d) a"
    "p + ar_slot_size a \<le> length (ar_mem b)" "arena_inv b" "ar_slot_size b = ar_slot_size a" "ar_capacity b = length (ar_mem b)"
proof -
  have free: "ar_free_list a \<noteq> []" using assms(2) by (simp add: available_def)
  note s = next_slot [OF assms(1) free]
  show st: "store_slot (i, l) (h, d) a = copy_data p d (update_header p h b)"
    by (simp add: store_slot_eq [OF free] p_def b_def Let_def)
  show len: "p + ar_slot_size a \<le> length (ar_mem b)"
    using s(4) by (simp add: p_def b_def alloc_mem_length [OF assms(1)])
  show "update_header p h (copy_data p d b) = store_slot (i, l) (h, d) a"
    if "length d \<le> ar_slot_size a - SLOT_HEADER_SIZE" "header_ok h"
    unfolding st using len s(5) that by (intro header_after_data) auto
  show "arena_inv b" unfolding b_def by (rule alloc_slot_inv [OF assms(1)])
  then show "ar_capacity b = length (ar_mem b)" by (simp add: arena_inv_def geometry_ok_def)
  show "ar_slot_size b = ar_slot_size a" unfolding b_def by (rule alloc_slot_fields(4) [OF free])
qed

section \<open>The arena stays consistent\<close>

lemma written_inv:
  fixes i :: string and l :: u32
  assumes "arena_inv a" "0 < available a" "header_ok h"
  defines "p \<equiv> last (ar_free_list a) * ar_slot_size a" and "b \<equiv> snd (alloc_slot i l a)"
  shows "p + SLOT_HEADER_SIZE + length d \<le> ar_capacity b \<Longrightarrow> arena_inv (copy_data p d b)"
    "p + SLOT_HEADER_SIZE + length d \<le> ar_capacity b \<Longrightarrow> arena_inv (update_header p h (copy_data p d b))"
    "p + SLOT_HEADER_SIZE + length d \<le> ar_capacity b \<Longrightarrow> arena_inv (copy_data p d (update_header p h b))"
proof -
  note w = store_slot_writes [OF assms(1,2), where i = i and l = l, folded p_def b_def]
  assume fits: "p + SLOT_HEADER_SIZE + length d \<le> ar_capacity b"
  show inv: "arena_inv (copy_data p d b)" using w fits by (intro copy_data_inv) auto
  have len: "length (ar_mem (copy_data p d b)) = length (ar_mem b)"
    using fits w(6) by (simp add: copy_data_def)
  show 2: "arena_inv (update_header p h (copy_data p d b))"
    using inv len fits w(6) assms(3) by (intro update_header_inv) auto
  show "arena_inv (copy_data p d (update_header p h b))"
    using 2 header_after_data [of p d b h] fits w(6) assms(3) by simp
qed

lemma capture_layers_inv:
  assumes "capture_layers ops cs lo i ls n a = Some (r, b)" "arena_inv a"
  shows "arena_inv b"
  using assms
proof (induction ls arbitrary: n a)
  case (Cons l ls)
  show ?case
  proof (cases "\<exists>path. map_of cs l = Some path \<and> co_available ops lo path 0 = Ok True")
    case False
    then show ?thesis
      using Cons by (auto split: option.splits sum.splits if_splits)
  next
    case True
    then obtain path where path: "map_of cs l = Some path" "co_available ops lo path 0 = Ok True" by blast
    let ?p = "last (ar_free_list a) * ar_slot_size a"
    define c where "c = snd (alloc_slot i l a)"
    obtain data res where cap: "co_capture ops lo path 0 (ar_slot_size a - SLOT_HEADER_SIZE) = (data, res)" by fastforce
    show ?thesis
    proof (cases "0 < available a")
      case True
      note w = store_slot_writes [OF Cons.prems(2) True, where i = i and l = l, folded c_def]
      have al: "alloc_slot i l a = (Ok (?p, default_header (ar_slot_size a)), c)"
        using alloc_store [OF True, of i l] by (simp only: c_def)
      have fits: "length data \<le> ar_slot_size a - SLOT_HEADER_SIZE" "SLOT_HEADER_SIZE \<le> ar_slot_size a"
        using Cons.prems path cap al w(5)
        by (auto simp: Let_def arena_inv_def geometry_ok_def split: prod.splits if_splits)
      then have "?p + SLOT_HEADER_SIZE + length data \<le> ar_capacity c" using w(3,6) by simp
      note inv = written_inv(1,2) [OF Cons.prems(2) True header_ok_captured(1), where i = i and l = l, folded c_def, OF this]
      show ?thesis
        using Cons.prems(1) Cons.IH inv path cap fits w(5) al
        by (auto simp: Let_def split: sum.splits if_splits)
    qed (use Cons.prems path in \<open>auto simp: alloc_slot_def available_def\<close>)
  qed
qed simp

lemma capture_rng_inv:
  assumes "capture_rng ops i a = Some b" "arena_inv a"
  shows "arena_inv b"
proof (cases "0 < available a")
  case True
  define c where "c = snd (alloc_slot i RNG_LAYER a)"
  note w = written_inv(3) [OF assms(2) True header_ok_captured(2), where i = i and l = RNG_LAYER, folded c_def]
  have "alloc_slot i RNG_LAYER a = (Ok (last (ar_free_list a) * ar_slot_size a, default_header (ar_slot_size a)), c)"
    using alloc_store [OF True, of i RNG_LAYER] by (simp only: c_def)
  with assms w show ?thesis by (auto simp: capture_rng_def split: sum.splits if_splits)
qed (use assms in \<open>auto simp: capture_rng_def alloc_slot_def available_def split: sum.splits\<close>)

lemma spill_oldest_arena:
  assumes "spill_oldest ops i a dir = Some (b, dir')"
  shows "b = a \<or> (\<exists>j. j \<noteq> i \<and> b = free_checkpoint j a)"
  using assms by (auto simp: spill_oldest_def dest!: spill_arena split: if_splits option.splits)

lemma create_checkpoint_inv:
  assumes "create_checkpoint ops paths n lo i tier a dir = Some (r, b, dir')" "arena_inv a"
  shows "arena_inv b"
  using assms
  by (auto simp: create_checkpoint_def Let_def rollback_def bind_eq_Some_conv split: option.splits sum.splits
      dest!: capture_layers_inv capture_rng_inv spill_oldest_arena intro: free_checkpoint_inv)

section \<open>The bridge\<close>

lemma faithful_capture:
  assumes "faithful_bridge ops repr" "co_capture ops lo p c n = (data, Ok res)" "map_of lo (p, c) = Some t"
    and "repr t = (dt, shape, d)" "repr_ok (repr t)"
  shows "data = d \<and> d \<noteq> [] \<and> res = (to_torch_str dt, shape)"
  using assms(1) [unfolded faithful_bridge_def, THEN conjunct2, THEN conjunct1, rule_format, OF assms(2,3,5)]
  by (simp add: assms(4))

lemma faithful_restore:
  assumes "faithful_bridge ops repr" "map_of lo (p, c) = Some u" "same_kind (repr u) (dt, shape, d)" "repr_ok (dt, shape, d)" "d \<noteq> []"
  obtains t where "co_restore ops lo p c d (to_torch_str dt) shape = (AList.update (p, c) t lo, Ok ())" "repr t = (dt, shape, d)"
  using assms(1) [unfolded faithful_bridge_def, THEN conjunct2, THEN conjunct2, rule_format, OF assms(2-5)] by blast

definition entry_of :: "tensor_repr \<Rightarrow> entry" where
  "entry_of = (\<lambda>(dt, shape, data). (captured_header dt shape, data))"

lemma entry_of_fits:
  assumes "repr_ok (dt, shape, data)" "length data \<le> ar_slot_size a - SLOT_HEADER_SIZE" "ar_slot_size a < 2 ^ 64"
  shows "entry_fits a (entry_of (dt, shape, data))"
proof -
  have "word_of_int (prod_list shape) * elem_size dt = (word_of_int (prod_list shape * uint (elem_size dt)) :: u64)"
    by (simp only: of_int_mult word_of_int_uint)
  also have "prod_list shape * uint (elem_size dt) = int (length data)"
    using assms(1) by (simp add: repr_ok_def)
  also have "word_of_int (int (length data)) = (word_of_nat (length data) :: u64)" by simp
  finally have "unat (word_of_int (prod_list shape) * elem_size dt) = length data"
    using assms(2,3) by (simp add: unat_of_nat SLOT_HEADER_SIZE_def)
  with assms(2) show ?thesis
    by (simp add: entry_fits_def entry_of_def) (simp add: captured_header_def)
qed

lemma stored_shape_captured:
  assumes "repr_ok (dt, shape, data)"
  shows "stored_shape (captured_header dt shape) = shape"
proof -
  have "sint (word_of_int d :: u64) = d" if "d \<in> set shape" for d
    using assms that by (auto simp: repr_ok_def signed_of_int signed_take_bit_int_eq_self)
  moreover have "length shape \<le> 6" using assms by (simp add: repr_ok_def)
  ultimately show ?thesis
    by (simp add: stored_shape_def captured_header_def unat_of_nat map_idI)
qed

section \<open>What a checkpoint holds\<close>

definition container_key :: "(u32 \<times> string) list \<Rightarrow> u32 \<Rightarrow> string \<times> u32" where
  "container_key cs l = (the (map_of cs l), 0)"

definition captured_layers :: "(u32 \<times> string) list \<Rightarrow> 't outputs \<Rightarrow> u32 list \<Rightarrow> u32 list" where
  "captured_layers cs lo = filter (\<lambda>l. map_of cs l \<noteq> None \<and> map_of lo (container_key cs l) \<noteq> None)"

definition captured_tensor_of :: "(u32 \<times> string) list \<Rightarrow> 't outputs \<Rightarrow> u32 \<Rightarrow> 't" where
  "captured_tensor_of cs lo l = the (map_of lo (container_key cs l))"

lemma capture_layers_stores:
  assumes bridge: "faithful_bridge ops repr" and ok: "\<And>k t. map_of lo k = Some t \<Longrightarrow> repr_ok (repr t)"
    and cap: "capture_layers ops cs lo i ls n a = Some (Ok m, b)" and inv: "arena_inv a"
  defines "f \<equiv> \<lambda>l. entry_of (repr (captured_tensor_of cs lo l))"
  shows "length (captured_layers cs lo ls) \<le> available a \<and> (\<forall>l \<in> set (captured_layers cs lo ls). entry_fits a (f l)) \<and>
    b = arena.store_all i (map (\<lambda>l. (l, f l)) (captured_layers cs lo ls)) a"
  using cap inv
proof (induction ls arbitrary: n a)
  case Nil
  then show ?case by (simp add: captured_layers_def)
next
  case (Cons l ls)
  have avail: "co_available ops lo p c = Ok (map_of lo (p, c) \<noteq> None)" for p c
    using bridge by (simp add: faithful_bridge_def)
  show ?case
  proof (cases "map_of cs l \<noteq> None \<and> map_of lo (container_key cs l) \<noteq> None")
    case False
    then have "capture_layers ops cs lo i ls n a = Some (Ok m, b)"
      using Cons.prems(1) by (auto simp: avail container_key_def split: option.splits)
    from Cons.IH [OF this Cons.prems(2)] False show ?thesis by (auto simp: captured_layers_def)
  next
    case True
    then obtain path t where path: "map_of cs l = Some path" "map_of lo (path, 0) = Some t"
      by (auto simp: container_key_def)
    obtain dt shape d where r: "repr t = (dt, shape, d)" by (cases "repr t")
    let ?p = "last (ar_free_list a) * ar_slot_size a"
    define c where "c = snd (alloc_slot i l a)"
    have room: "0 < available a"
      using Cons.prems(1) path by (auto simp: avail alloc_slot_def available_def)
    note w = store_slot_writes [OF Cons.prems(2) room, where i = i and l = l, folded c_def]
    have al: "alloc_slot i l a = (Ok (?p, default_header (ar_slot_size a)), c)"
      using alloc_store [OF room, of i l] by (simp only: c_def)
    obtain data res where cap: "co_capture ops lo path 0 (ar_slot_size a - SLOT_HEADER_SIZE) = (data, Ok res)"
      using Cons.prems(1) path al w(5) by (auto simp: avail Let_def split: prod.splits if_splits sum.splits)
    have res: "data = d" "res = (to_torch_str dt, shape)"
      using faithful_capture [OF bridge cap path(2) r ok [OF path(2)]] by simp_all
    have fits: "length d \<le> ar_slot_size a - SLOT_HEADER_SIZE"
      using Cons.prems(1) path al w(5) cap res by (auto simp: avail Let_def split: if_splits)
    have size: "ar_slot_size a < 2 ^ 64"
      using Cons.prems(2) room slots_partition(2) [OF Cons.prems(2), of "last (ar_free_list a)"]
        slot_fits [of a "last (ar_free_list a)"]
      by (auto simp: arena_inv_def geometry_ok_def available_def)
    have fl: "f l = (captured_header dt shape, d)"
      using path by (simp add: f_def captured_tensor_of_def container_key_def r entry_of_def)
    have ent: "entry_fits a (f l)"
      using entry_of_fits [of dt shape d a] ok [OF path(2)] r fits size by (simp add: fl entry_of_def)
    obtain n' where "capture_layers ops cs lo i ls n' (store_slot (i, l) (f l) a) = Some (Ok m, b)"
      using Cons.prems(1) path al w(2) [OF fits header_ok_captured(1), of dt shape] w(5) cap res fl
      by (auto simp: avail Let_def split: if_splits)
    from Cons.IH [OF this arena.store_inv [OF Cons.prems(2) room ent]] show ?thesis
      using True room ent by (auto simp: captured_layers_def arena.store_room arena.store_fits)
  qed
qed

text \<open>A successful creation captured each layer, into the data area of a slot.\<close>

lemma capture_layers_calls:
  assumes avail: "\<And>p c. co_available ops lo p c = Ok (map_of lo (p, c) \<noteq> None)"
    and "capture_layers ops cs lo i ls n a = Some (Ok m, b)" "l \<in> set (captured_layers cs lo ls)"
  shows "\<exists>data res. co_capture ops lo (fst (container_key cs l)) 0 (ar_slot_size a - SLOT_HEADER_SIZE) = (data, Ok res)"
  using assms(2,3)
proof (induction ls arbitrary: n a)
  case (Cons k ls)
  show ?case
  proof (cases "map_of cs k \<noteq> None \<and> map_of lo (container_key cs k) \<noteq> None")
    case False
    then have "capture_layers ops cs lo i ls n a = Some (Ok m, b)" "l \<in> set (captured_layers cs lo ls)"
      using Cons.prems by (auto simp: avail container_key_def captured_layers_def split: option.splits)
    then show ?thesis by (rule Cons.IH)
  next
    case True
    then obtain path t where path: "map_of cs k = Some path" "map_of lo (path, 0) = Some t" by (auto simp: container_key_def)
    obtain r a1 where al: "alloc_slot i k a = (r, a1)" by fastforce
    then obtain q where r: "r = Ok q" using Cons.prems(1) path by (cases r) (auto simp: avail)
    have size1: "ar_slot_size a1 = ar_slot_size a" using al by (auto simp: alloc_slot_def Let_def split: if_splits)
    obtain data res where cap: "co_capture ops lo path 0 (ar_slot_size a - SLOT_HEADER_SIZE) = (data, Ok res)"
      using Cons.prems(1) path al r size1 by (auto simp: avail Let_def split: prod.splits if_splits sum.splits)
    obtain n' a2 where rest: "capture_layers ops cs lo i ls n' a2 = Some (Ok m, b)" "ar_slot_size a2 = ar_slot_size a"
      using Cons.prems(1) path al r size1 cap
      by (auto simp: avail Let_def copy_data_def update_header_def split: prod.splits if_splits)
    show ?thesis
    proof (cases "l = k")
      case True
      then show ?thesis using cap path by (simp add: container_key_def)
    next
      case False
      then have "l \<in> set (captured_layers cs lo ls)" using Cons.prems(2) by (auto simp: captured_layers_def split: if_splits)
      from Cons.IH [OF rest(1) this] rest(2) show ?thesis by simp
    qed
  qed
qed (simp add: captured_layers_def)

lemma capture_rng_stores:
  assumes "arena_inv a" "0 < available a" "co_rng ops = Ok rng" "length rng \<le> ar_slot_size a - SLOT_HEADER_SIZE"
  shows "capture_rng ops i a = Some (store_slot (i, RNG_LAYER) (rng_header rng, rng) a)"
    "entry_fits a (rng_header rng, rng)"
proof -
  define c where "c = snd (alloc_slot i RNG_LAYER a)"
  note w = store_slot_writes [OF assms(1,2), where i = i and l = RNG_LAYER, folded c_def]
  have al: "alloc_slot i RNG_LAYER a = (Ok (last (ar_free_list a) * ar_slot_size a, default_header (ar_slot_size a)), c)"
    using alloc_store [OF assms(2), of i RNG_LAYER] by (simp only: c_def)
  have sz: "SLOT_HEADER_SIZE \<le> ar_slot_size a" "length (ar_mem c) < 2 ^ 64"
    using assms(1) w(4) w(6) by (auto simp: arena_inv_def geometry_ok_def)
  then show "capture_rng ops i a = Some (store_slot (i, RNG_LAYER) (rng_header rng, rng) a)"
    using assms(3,4) w(1,3,6) al by (simp add: capture_rng_def)
  have "length rng < 2 ^ 64" using assms(4) sz w(3) by linarith
  then show "entry_fits a (rng_header rng, rng)"
    using assms(4) by (simp add: entry_fits_def) (simp add: rng_header_def unat_of_nat)
qed

lemma stored_slot:
  assumes "arena_inv a" "arena_view a (i, l) = Some (h, d)" "entry_fits a (h, d)"
  obtains p where "get_slot i l a = Some (Some (p, h))" "read_slot a p h = Some d"
proof -
  obtain x where x: "map_of (ar_index a) (i, l) = Some x" "slot_entry a (sd_offset (ar_slots a ! x)) = Some (h, d)"
    using assms(2) by (auto simp: arena_view_def split: option.splits)
  have iok: "index_ok a" using assms(1) by (simp add: arena_inv_def)
  obtain s ss where s: "x < length (ar_slots a)" "map_of (ar_checkpoint_slots a) i = Some ss" "s \<in> set ss"
    "sd_offset (ar_slots a ! x) = s * ar_slot_size a"
    using index_ok_slot [OF iok x(1)] by metis
  have geo: "geometry_ok a" using assms(1) by (simp add: arena_inv_def)
  have "s < ar_num_slots a" using slots_partition(4) [OF assms(1) s(2,3)] by simp
  note inside = slot_fits [OF geo this]
  have hd: "read_header a (s * ar_slot_size a) = Some h" using x(2) s(4) by (auto simp: slot_entry_def)
  have "unat (sh_byte_len h) = length d" "length d \<le> ar_slot_size a - SLOT_HEADER_SIZE"
    using assms(3) by (simp_all add: entry_fits_def)
  moreover from this have "read_at (s * ar_slot_size a + SLOT_HEADER_SIZE) (length d) (ar_mem a) = d"
    using x(2) s(4) by (auto simp: slot_entry_def min_def)
  ultimately have "read_slot a (s * ar_slot_size a) h = Some d"
    using inside geo by (simp add: read_slot_def geometry_ok_def Let_def) linarith
  moreover have "get_slot i l a = Some (Some (s * ar_slot_size a, h))"
    using x(1) s(1,4) hd by (simp add: get_slot_def)
  ultimately show thesis by (rule that [rotated])
qed

section \<open>Restoring\<close>

lemma restore_layers_ok:
  fixes repr :: "'t \<Rightarrow> tensor_repr"
  assumes bridge: "faithful_bridge ops repr" and inv: "arena_inv b"
    and held: "\<And>l. l \<in> set ks \<Longrightarrow> arena_view b (i, l) = Some (entry_of (repr (T l))) \<and>
      entry_fits b (entry_of (repr (T l))) \<and> repr_ok (repr (T l)) \<and> snd (snd (repr (T l))) \<noteq> [] \<and> map_of cs l \<noteq> None"
    and T: "\<And>l l'. container_key cs l = container_key cs l' \<Longrightarrow> T l = T l'"
    and infos: "\<And>x. x \<in> set infos \<Longrightarrow> fst x \<noteq> RNG_LAYER \<Longrightarrow> fst x \<in> set ks \<and> snd (snd x) = fst (entry_of (repr (T (fst x))))"
    and kinds: "\<And>l. l \<in> set ks \<Longrightarrow> \<exists>u. map_of lo (container_key cs l) = Some u \<and> same_kind (repr u) (repr (T l))"
  shows "\<exists>lo'. restore_layers ops cs i b infos lo = Some (Ok (), lo') \<and>
    (\<forall>l \<in> fst ` set infos - {RNG_LAYER}. map_option repr (map_of lo' (container_key cs l)) = Some (repr (T l))) \<and>
    (\<forall>k. k \<notin> container_key cs ` (fst ` set infos - {RNG_LAYER}) \<longrightarrow> map_of lo' k = map_of lo k)"
  using infos kinds
proof (induction infos arbitrary: lo)
  case (Cons x infos)
  obtain l q h where x: "x = (l, q, h)" by (cases x)
  show ?case
  proof (cases "l = RNG_LAYER")
    case True
    with Cons.IH [of lo] Cons.prems x show ?thesis by auto
  next
    case False
    then have l: "l \<in> set ks" and h: "h = fst (entry_of (repr (T l)))" using Cons.prems(1) [of x] x by auto
    obtain dt shape d where r: "repr (T l) = (dt, shape, d)" by (cases "repr (T l)")
    have h': "h = captured_header dt shape" by (simp add: h r entry_of_def)
    note hl = held [OF l, unfolded r]
    obtain p where p: "get_slot i l b = Some (Some (p, h))" "read_slot b p h = Some d"
      using stored_slot [OF inv, of i l h d] hl by (auto simp: h' entry_of_def)
    obtain path where path: "map_of cs l = Some path" using hl by auto
    then have key: "container_key cs l = (path, 0)" by (simp add: container_key_def)
    obtain u where u: "map_of lo (path, 0) = Some u" "same_kind (repr u) (repr (T l))"
      using Cons.prems(2) [OF l] by (auto simp: key)
    obtain t where t: "co_restore ops lo path 0 d (to_torch_str dt) shape = (AList.update (path, 0) t lo, Ok ())"
      "repr t = repr (T l)"
      using faithful_restore [OF bridge u(1), of dt shape d] u(2) hl r by auto
    define lo1 where "lo1 = AList.update (path, 0) t lo"
    have upd: "map_of lo1 k = (if k = (path, 0) then Some t else map_of lo k)" for k
      by (simp add: lo1_def update_conv')
    have shape: "stored_shape h = shape" and dt: "sh_dtype h = dt"
      using stored_shape_captured [of dt shape d] hl by (simp_all add: h') (simp add: captured_header_def)
    have "co_restore ops lo path 0 d (to_torch_str dt) shape = (lo1, Ok ())"
      unfolding lo1_def by (rule t(1))
    then have step: "restore_layers ops cs i b (x # infos) lo = restore_layers ops cs i b infos lo1"
      using False path p by (simp add: x shape dt)
    have same: "T l' = T l" if "container_key cs l' = (path, 0)" for l' using T [of l' l] that key by simp
    have "\<exists>u. map_of lo1 (container_key cs l') = Some u \<and> same_kind (repr u) (repr (T l'))" if "l' \<in> set ks" for l'
      using Cons.prems(2) [OF that] same [of l'] t(2) by (auto simp: upd)
    from Cons.IH [OF _ this] Cons.prems(1) obtain lo' where lo': "restore_layers ops cs i b infos lo1 = Some (Ok (), lo')"
      "\<forall>l \<in> fst ` set infos - {RNG_LAYER}. map_option repr (map_of lo' (container_key cs l)) = Some (repr (T l))"
      "\<forall>k. k \<notin> container_key cs ` (fst ` set infos - {RNG_LAYER}) \<longrightarrow> map_of lo' k = map_of lo1 k"
      by (auto simp del: restore_layers.simps)
    have "map_option repr (map_of lo' (path, 0)) = Some (repr (T l))"
    proof (cases "(path, 0) \<in> container_key cs ` (fst ` set infos - {RNG_LAYER})")
      case True
      then obtain l' where "l' \<in> fst ` set infos - {RNG_LAYER}" "container_key cs l' = (path, 0)" by force
      then show ?thesis using lo'(2) same [of l'] by metis
    next
      case False
      then show ?thesis using lo'(3) upd t(2) by simp
    qed
    moreover have "fst ` set (x # infos) - {RNG_LAYER} = insert l (fst ` set infos - {RNG_LAYER})"
      using False by (auto simp: x)
    ultimately show ?thesis using step lo' upd key by auto
  qed
qed simp

lemma view_absent:
  assumes "arena_inv a" "map_of (ar_checkpoint_slots a) i = None"
  shows "arena_view a (i, l) = None"
  using listed_absent [OF assms] listed_view [of a i l] by (metis not_None_eq)

lemma store_slot_size [simp]: "ar_slot_size (store_slot k e a) = ar_slot_size a"
  by (cases "ar_free_list a = []") (simp add: store_slot_def alloc_slot_def, simp add: store_slot_index)

lemma store_all_slot_size [simp]: "ar_slot_size (arena.store_all i es a) = ar_slot_size a"
  by (induction es arbitrary: a) auto

lemma free_slot_size [simp]: "ar_slot_size (free_checkpoint i a) = ar_slot_size a"
  by (simp add: free_checkpoint_def split: option.split)

lemma listed_entry:
  assumes "listed a i x"
  shows "\<exists>e. arena_view a (i, fst x) = Some e \<and> fst e = snd (snd x)"
proof -
  have "arena_view a (i, fst x) = Some (snd (saved_entry a x))"
    using assms fst_saved_entry [of a x] unfolding listed_view by (metis prod.collapse)
  then show ?thesis by (simp add: saved_entry_def split: prod.split)
qed

lemma listed_layers: "fst ` {x. listed a i x} = {l. arena_view a (i, l) \<noteq> None}"
proof (intro set_eqI iffI)
  fix l assume "l \<in> fst ` {x. listed a i x}"
  then show "l \<in> {l. arena_view a (i, l) \<noteq> None}" using listed_entry [of a i] by fastforce
next
  fix l assume "l \<in> {l. arena_view a (i, l) \<noteq> None}"
  then obtain e x where "listed a i x" "saved_entry a x = (l, e)" unfolding mem_Collect_eq listed_view not_None_eq by blast
  then show "l \<in> fst ` {x. listed a i x}" using fst_saved_entry [of a x] by (auto intro!: rev_image_eqI [of x])
qed

text \<open>After a successful creation the arena holds, for the checkpoint, the captured tensors and the generator state.\<close>

lemma created_view:
  assumes bridge: "faithful_bridge ops repr" and ok: "\<forall>k t. map_of lo k = Some t \<longrightarrow> repr_ok (repr t)"
    and inv: "arena_inv a" and fresh: "map_of (ar_checkpoint_slots a) i = None"
    and rng: "co_rng ops = Ok rng" "length rng \<le> ar_slot_size a - SLOT_HEADER_SIZE"
    and room: "length (checkpoint_layers (co_layers ops) n) < available a"
    and create: "create_checkpoint ops paths n lo i tier a dir = Some (Ok resp, b, dir')"
  defines "cs \<equiv> build_layer_container_map [] paths"
  defines "ks \<equiv> captured_layers cs lo (checkpoint_layers (co_layers ops) n)"
  shows "\<forall>l. arena_view b (i, l) = (if l = RNG_LAYER then Some (rng_header rng, rng)
      else if l \<in> set ks then Some (entry_of (repr (captured_tensor_of cs lo l))) else None)"
    and "entry_fits b (rng_header rng, rng)" and "\<forall>l \<in> set ks. entry_fits b (entry_of (repr (captured_tensor_of cs lo l)))"
    and "\<forall>l \<in> set ks. snd (snd (repr (captured_tensor_of cs lo l))) \<noteq> []"
proof -
  let ?f = "\<lambda>l. entry_of (repr (captured_tensor_of cs lo l))"
  obtain m a1 a2 where m: "capture_layers ops cs lo i (checkpoint_layers (co_layers ops) n) 0 a = Some (Ok m, a1)"
    and a2: "capture_rng ops i a1 = Some a2" and b: "spill_oldest ops i a2 dir = Some (b, dir')"
    using create by (auto simp: create_checkpoint_def cs_def Let_def bind_eq_Some_conv split: option.splits sum.splits)
  have st: "length ks \<le> available a" "\<forall>l \<in> set ks. entry_fits a (?f l)" "a1 = arena.store_all i (map (\<lambda>l. (l, ?f l)) ks) a"
    using capture_layers_stores [OF bridge ok [rule_format] m inv] by (simp_all add: ks_def)
  have "length ks \<le> length (checkpoint_layers (co_layers ops) n)" by (simp add: ks_def captured_layers_def)
  then have inv1: "arena_inv a1" "0 < available a1"
    using arena.store_all_ok [OF inv, of "map (\<lambda>l. (l, ?f l)) ks" i] st room by (auto simp: image_iff)
  have size: "ar_slot_size a1 = ar_slot_size a" by (simp add: st(3))
  note rs = capture_rng_stores [OF inv1 rng(1) rng(2) [folded size]]
  have a2': "a2 = store_slot (i, RNG_LAYER) (rng_header rng, rng) a1" using a2 rs(1) by simp
  have v1: "arena_view a1 (i, l) = (if l \<in> set ks then Some (?f l) else None)" for l
    using arena.store_all_map_view [OF inv st(1,2), of i i l] by (simp add: st(3) view_absent [OF inv fresh])
  have v2: "arena_view a2 (i, l) = (if l = RNG_LAYER then Some (rng_header rng, rng) else if l \<in> set ks then Some (?f l) else None)" for l
    using v1 [of l] by (simp add: a2' arena.store_view [OF inv1 rs(2)])
  have inv2: "arena_inv a2" using arena.store_inv [OF inv1 rs(2)] by (simp add: a2')
  have "ar_slot_size b = ar_slot_size a" "\<forall>l. arena_view b (i, l) = arena_view a2 (i, l)"
    using spill_oldest_arena [OF b] by (auto simp: a2' size arena.free_view [OF inv2 [unfolded a2']])
  then show "\<forall>l. arena_view b (i, l) = (if l = RNG_LAYER then Some (rng_header rng, rng)
      else if l \<in> set ks then Some (entry_of (repr (captured_tensor_of cs lo l))) else None)"
    "entry_fits b (rng_header rng, rng)" "\<forall>l \<in> set ks. entry_fits b (?f l)"
    using v2 rs(2) st(2) by (simp_all add: entry_fits_def size)
  show "\<forall>l \<in> set ks. snd (snd (repr (captured_tensor_of cs lo l))) \<noteq> []"
  proof
    fix l assume l: "l \<in> set ks"
    have avail: "co_available ops lo p c = Ok (map_of lo (p, c) \<noteq> None)" for p c
      using bridge by (simp add: faithful_bridge_def)
    obtain t where t: "map_of lo (container_key cs l) = Some t" using l by (auto simp: ks_def captured_layers_def)
    obtain data res where cap: "co_capture ops lo (fst (container_key cs l)) 0 (ar_slot_size a - SLOT_HEADER_SIZE) = (data, Ok res)"
      using capture_layers_calls [OF avail m l [unfolded ks_def]] by blast
    obtain dt shape d where r: "repr t = (dt, shape, d)" by (cases "repr t")
    have key: "map_of lo (fst (container_key cs l), 0) = Some t" using t by (simp add: container_key_def)
    have "repr_ok (repr t)" using ok t by blast
    from faithful_capture [OF bridge cap key r this] have "d \<noteq> []" by blast
    then show "snd (snd (repr (captured_tensor_of cs lo l))) \<noteq> []" by (simp add: captured_tensor_of_def t r)
  qed
qed

definition captured_keys :: "'t ckpt_ops \<Rightarrow> string list \<Rightarrow> u32 \<Rightarrow> 't outputs \<Rightarrow> (string \<times> u32) set" where
  "captured_keys ops paths n lo =
     (let cs = build_layer_container_map [] paths in
      container_key cs ` set (captured_layers cs lo (checkpoint_layers (co_layers ops) n)))"

text \<open>C27: a checkpoint that the worker reported as created restores what was captured. Take an arena with
  room for the checkpointed layers and the generator state, a name not in use and a bridge that copies
  tensors as documented, and let the creation succeed. Then a restore succeeds after any further work on
  the model that keeps type and shape of the captured outputs: each of them has again the tensor it had, every
  other output is left alone, and the generator state handed back is the one captured, even when the
  creation spilled an older checkpoint to disk.
\<close>

theorem worker_checkpoint_roundtrip:
  assumes "faithful_bridge ops repr" and "\<forall>k t. map_of lo k = Some t \<longrightarrow> repr_ok (repr t)"
    and "arena_inv a" and "map_of (ar_checkpoint_slots a) i = None"
    and "co_rng ops = Ok rng" and "length rng \<le> ar_slot_size a - SLOT_HEADER_SIZE"
    and "length (checkpoint_layers (co_layers ops) n) < available a"
    and "RNG_LAYER \<notin> set (checkpoint_layers (co_layers ops) n)"
    and "create_checkpoint ops paths n lo i tier a dir = Some (Ok resp, b, dir')"
    and "\<forall>k \<in> captured_keys ops paths n lo. \<exists>t u. map_of lo k = Some t \<and> map_of lo2 k = Some u \<and> same_kind (repr u) (repr t)"
  shows "\<exists>lo3. restore_checkpoint ops paths (Some lo2) i b =
      Some (Ok \<lparr>hc_checkpoint_id = i, hc_tier = Tier_Activation, hc_restored_to = None, hc_bytes_captured = None\<rparr>,
        Some lo3, Some rng) \<and>
    (\<forall>k. if k \<in> captured_keys ops paths n lo then map_option repr (map_of lo3 k) = map_option repr (map_of lo k)
      else map_of lo3 k = map_of lo2 k)"
proof -
  let ?cs = "build_layer_container_map [] paths"
  let ?ks = "captured_layers ?cs lo (checkpoint_layers (co_layers ops) n)" and ?T = "captured_tensor_of ?cs lo"
  note v = created_view [OF assms(1-7,9)]
  have inv: "arena_inv b" by (rule create_checkpoint_inv [OF assms(9,3)])
  have ks: "l \<noteq> RNG_LAYER \<and> map_of ?cs l \<noteq> None \<and> map_of lo (container_key ?cs l) = Some (?T l)" if "l \<in> set ?ks" for l
    using that assms(8) by (auto simp: captured_layers_def captured_tensor_of_def)
  obtain infos where infos: "slot_info_for_checkpoint i b = Some infos" "set infos = {x. listed b i x}"
    using slot_infos [OF inv] by metis
  have layers: "fst ` set infos - {RNG_LAYER} = set ?ks" "infos \<noteq> []"
    using v(1) ks listed_layers [of b i] unfolding infos(2) [symmetric] by (auto split: if_splits)
  have hdr: "snd (snd x) = fst (entry_of (repr (?T (fst x))))" if "x \<in> set infos" "fst x \<in> set ?ks" for x
    using listed_entry [of b i x] that v(1) ks [OF that(2)] by (simp add: infos(2))
  have "\<exists>lo3. restore_layers ops ?cs i b infos lo2 = Some (Ok (), lo3) \<and>
    (\<forall>l \<in> fst ` set infos - {RNG_LAYER}. map_option repr (map_of lo3 (container_key ?cs l)) = Some (repr (?T l))) \<and>
    (\<forall>k. k \<notin> container_key ?cs ` (fst ` set infos - {RNG_LAYER}) \<longrightarrow> map_of lo3 k = map_of lo2 k)"
  proof (rule restore_layers_ok [OF assms(1) inv, where ks = ?ks])
    fix l assume l: "l \<in> set ?ks"
    have "repr_ok (repr (?T l))" using ks [OF l] assms(2) by blast
    with l ks [OF l] v show "arena_view b (i, l) = Some (entry_of (repr (?T l))) \<and>
      entry_fits b (entry_of (repr (?T l))) \<and> repr_ok (repr (?T l)) \<and> snd (snd (repr (?T l))) \<noteq> [] \<and> map_of ?cs l \<noteq> None" by auto
    show "\<exists>u. map_of lo2 (container_key ?cs l) = Some u \<and> same_kind (repr u) (repr (?T l))"
      using assms(10) l ks [OF l] by (auto simp: captured_keys_def Let_def)
  next
    fix x assume "x \<in> set infos" "fst x \<noteq> RNG_LAYER"
    moreover from this have "fst x \<in> set ?ks" using layers(1) by blast
    ultimately show "fst x \<in> set ?ks \<and> snd (snd x) = fst (entry_of (repr (?T (fst x))))" using hdr by blast
  qed (simp add: captured_tensor_of_def)
  then obtain lo3 where lo3: "restore_layers ops ?cs i b infos lo2 = Some (Ok (), lo3)"
    "\<forall>l \<in> set ?ks. map_option repr (map_of lo3 (container_key ?cs l)) = Some (repr (?T l))"
    "\<forall>k. k \<notin> container_key ?cs ` set ?ks \<longrightarrow> map_of lo3 k = map_of lo2 k"
    unfolding layers(1) by blast
  have "stored_rng i b = Some (Some rng)"
    using stored_slot [OF inv _ v(2), of i RNG_LAYER] v(1) by (force simp: stored_rng_def)
  then have "restore_checkpoint ops paths (Some lo2) i b =
      Some (Ok \<lparr>hc_checkpoint_id = i, hc_tier = Tier_Activation, hc_restored_to = None, hc_bytes_captured = None\<rparr>,
        Some lo3, Some rng)"
    using infos(1) layers(2) lo3(1) by (simp add: restore_checkpoint_def)
  moreover have "if k \<in> captured_keys ops paths n lo then map_option repr (map_of lo3 k) = map_option repr (map_of lo k)
      else map_of lo3 k = map_of lo2 k" for k
    using lo3(2) lo3(3) [rule_format, of k] ks by (auto simp: captured_keys_def Let_def)
  ultimately show ?thesis by blast
qed

text \<open>A small model with the Python functions: one tensor that fills the data area of a slot.\<close>

definition demo_bridge :: "unit py_value ckpt_ops" where
  "demo_bridge = python_bridge (\<lambda>t s. if same_kind t s then Some s else None) (\<lambda>_. ''error'')
     \<lparr>co_available = (\<lambda>_ _ _. Ok False), co_capture = (\<lambda>_ _ _ _. ([], Err [])), co_rng = Ok [1, 2, 3, 4],
      co_restore = (\<lambda>lo _ _ _ _ _. (lo, Err [])),
      co_restore_rng = (\<lambda>_. Ok ()), co_crowded = (\<lambda>_ _. False), co_crc = (\<lambda>_. 0), co_spill_io = Spill_Done, co_debug = id,
      co_layers = \<lparr>fl_of_u32 = ucast, fl_sqrt = id, fl_ceil = id, fl_floor = id, fl_mul = (*), fl_div = (\<lambda>x y. x), fl_to_u32 = ucast\<rparr>\<rparr>"

lemma demo_bridge_faithful: "faithful_bridge demo_bridge first_tensor"
  unfolding demo_bridge_def by (rule python_bridge_faithful) (simp add: copies_alike_def)

definition demo_tensor :: "u8 \<Rightarrow> tensor_repr" where
  "demo_tensor v = (TagFloat16, [32], replicate 64 v)"

definition demo_outputs :: "u8 \<Rightarrow> unit py_value outputs" where
  "demo_outputs v = [((''model.layers.2'', 0), Py_Tuple (demo_tensor v) ())]"

lemma demo_layers: "checkpoint_layers (co_layers demo_bridge) 2 = [2]"
  by (simp add: checkpoint_layers_def demo_bridge_def python_bridge_def upt_rec Let_def word_le_nat_alt)

lemma demo_containers: "build_layer_container_map [] [''model.layers.2''] = [(2, ''model.layers.2'')]"
  by (simp add: layer_index_from_path_def parse_u32_def parse_unsigned_def strip_plus_def is_ascii_digit_def digit_value_def Let_def)

lemmas demo_simps = demo_bridge_def python_bridge_def activation_available_def capture_activation_def buffer_view_def element_size_def

lemma demo_created:
  "create_checkpoint demo_bridge [''model.layers.2''] 2 (demo_outputs 7) ''c1'' Create_Activation demo_new Map.empty =
     Some (Ok \<lparr>hc_checkpoint_id = ''c1'', hc_tier = Tier_Activation, hc_restored_to = None, hc_bytes_captured = Some 64\<rparr>,
       store_slot (''c1'', RNG_LAYER) (rng_header [1, 2, 3, 4], [1, 2, 3, 4])
         (store_slot (''c1'', 2) (captured_header TagFloat16 [32], replicate 64 7) demo_new), Map.empty)"
proof -
  let ?e = "(captured_header TagFloat16 [32], replicate 64 7) :: entry"
  let ?a1 = "store_slot (''c1'', 2) ?e demo_new"
  have new: "arena_inv demo_new" "0 < available demo_new" "ar_slot_size demo_new = 128"
    using new_inv [OF demo_new] by (simp_all add: demo_new_def available_def)
  have ent: "entry_fits demo_new ?e"
    using entry_of_fits [of TagFloat16 "[32]" "replicate 64 7" demo_new] new(3)
    by (simp add: entry_of_def repr_ok_def SLOT_HEADER_SIZE_def)
  define c where "c = snd (alloc_slot ''c1'' 2 demo_new)"
  note w = store_slot_writes [OF new(1,2), where i = "''c1''" and l = 2, folded c_def]
  have al: "alloc_slot ''c1'' 2 demo_new =
      (Ok (last (ar_free_list demo_new) * ar_slot_size demo_new, default_header (ar_slot_size demo_new)), c)"
    using alloc_store [OF new(2), of "''c1''" 2] by (simp only: c_def)
  have cap: "capture_layers demo_bridge [(2, ''model.layers.2'')] (demo_outputs 7) ''c1'' [2] 0 demo_new = Some (Ok 64, ?a1)"
    using w(2) [OF _ header_ok_captured(1), of "replicate 64 7" TagFloat16 "[32]"] w(5) new(3)
    by (simp add: al Let_def demo_simps demo_outputs_def demo_tensor_def SLOT_HEADER_SIZE_def captured_header_def from_torch_str_def)
  have inv1: "arena_inv ?a1" "0 < available ?a1"
    using arena.store_inv [OF new(1,2) ent] arena.store_room [OF new(2)] by (simp_all add: demo_new_def available_def)
  have "capture_rng demo_bridge ''c1'' ?a1 = Some (store_slot (''c1'', RNG_LAYER) (rng_header [1, 2, 3, 4], [1, 2, 3, 4]) ?a1)"
    using new(3) by (intro capture_rng_stores(1) inv1) (simp_all add: demo_simps SLOT_HEADER_SIZE_def)
  then show ?thesis
    unfolding create_checkpoint_def demo_layers demo_containers Let_def cap by (simp add: spill_oldest_def demo_simps)
qed

theorem worker_checkpoint_roundtrip_witness:
  "\<exists>b lo3. create_checkpoint demo_bridge [''model.layers.2''] 2 (demo_outputs 7) ''c1'' Create_Activation demo_new Map.empty =
      Some (Ok \<lparr>hc_checkpoint_id = ''c1'', hc_tier = Tier_Activation, hc_restored_to = None, hc_bytes_captured = Some 64\<rparr>, b, Map.empty) \<and>
    restore_checkpoint demo_bridge [''model.layers.2''] (Some (demo_outputs 0)) ''c1'' b =
      Some (Ok \<lparr>hc_checkpoint_id = ''c1'', hc_tier = Tier_Activation, hc_restored_to = None, hc_bytes_captured = None\<rparr>,
        Some lo3, Some [1, 2, 3, 4]) \<and>
    map_option first_tensor (map_of lo3 (''model.layers.2'', 0)) = Some (demo_tensor 7)"
proof -
  have keys: "captured_keys demo_bridge [''model.layers.2''] 2 (demo_outputs 7) = {(''model.layers.2'', 0)}"
    unfolding captured_keys_def demo_layers demo_containers Let_def
    by (simp add: captured_layers_def container_key_def demo_outputs_def)
  have new: "arena_inv demo_new" using new_inv [OF demo_new] by simp
  have "\<exists>lo3. restore_checkpoint demo_bridge [''model.layers.2''] (Some (demo_outputs 0)) ''c1''
        (store_slot (''c1'', RNG_LAYER) (rng_header [1, 2, 3, 4], [1, 2, 3, 4])
          (store_slot (''c1'', 2) (captured_header TagFloat16 [32], replicate 64 7) demo_new)) =
      Some (Ok \<lparr>hc_checkpoint_id = ''c1'', hc_tier = Tier_Activation, hc_restored_to = None, hc_bytes_captured = None\<rparr>,
        Some lo3, Some [1, 2, 3, 4]) \<and>
    (\<forall>k. if k \<in> captured_keys demo_bridge [''model.layers.2''] 2 (demo_outputs 7)
      then map_option first_tensor (map_of lo3 k) = map_option first_tensor (map_of (demo_outputs 7) k)
      else map_of lo3 k = map_of (demo_outputs 0) k)"
    by (rule worker_checkpoint_roundtrip [OF demo_bridge_faithful _ new _ _ _ _ _ demo_created])
      (simp_all add: demo_layers keys, simp_all add: demo_outputs_def demo_tensor_def repr_ok_def same_kind_def demo_new_def
        demo_bridge_def python_bridge_def SLOT_HEADER_SIZE_def RNG_LAYER_def available_def)
  then obtain lo3 where lo3: "restore_checkpoint demo_bridge [''model.layers.2''] (Some (demo_outputs 0)) ''c1''
        (store_slot (''c1'', RNG_LAYER) (rng_header [1, 2, 3, 4], [1, 2, 3, 4])
          (store_slot (''c1'', 2) (captured_header TagFloat16 [32], replicate 64 7) demo_new)) =
      Some (Ok \<lparr>hc_checkpoint_id = ''c1'', hc_tier = Tier_Activation, hc_restored_to = None, hc_bytes_captured = None\<rparr>,
        Some lo3, Some [1, 2, 3, 4])"
    and all: "\<forall>k. if k \<in> {(''model.layers.2'', 0)}
      then map_option first_tensor (map_of lo3 k) = map_option first_tensor (map_of (demo_outputs 7) k)
      else map_of lo3 k = map_of (demo_outputs 0) k" unfolding keys by blast
  have "map_option first_tensor (map_of lo3 (''model.layers.2'', 0)) = Some (demo_tensor 7)"
    using all [THEN spec, of "(''model.layers.2'', 0)"] by (simp add: demo_outputs_def del: map_option_eq_Some)
  with lo3 demo_created show ?thesis by blast
qed

section \<open>Captures must fill their slots\<close>

text \<open>C39: the Python function that captures a tensor makes a view of the whole data area of the slot and gives it
  the shape of the tensor, which only works when the tensor fills the area to the last byte. So the
  worker creates a checkpoint of activations only if every output it captures is exactly as long as the data area of a slot of
  its arena; a tensor that is shorter than its slot makes the creation fail.
\<close>

theorem capture_fills_slot:
  assumes "create_checkpoint (python_bridge copy exn ops) paths n lo i tier a dir = Some (Ok resp, b, dir')"
    and "\<forall>k v. map_of lo k = Some v \<longrightarrow> repr_ok (first_tensor v)"
    and "k \<in> captured_keys (python_bridge copy exn ops) paths n lo" "map_of lo k = Some v"
  shows "length (snd (snd (first_tensor v))) = ar_slot_size a - SLOT_HEADER_SIZE"
proof -
  let ?ops = "python_bridge copy exn ops" and ?cs = "build_layer_container_map [] paths"
  obtain m a1 where m: "capture_layers ?ops ?cs lo i (checkpoint_layers (co_layers ?ops) n) 0 a = Some (Ok m, a1)"
    using assms(1) by (auto simp: create_checkpoint_def Let_def split: option.splits sum.splits)
  obtain l where l: "l \<in> set (captured_layers ?cs lo (checkpoint_layers (co_layers ?ops) n))" "k = container_key ?cs l"
    using assms(3) by (auto simp: captured_keys_def Let_def)
  have avail: "co_available ?ops lo p c = Ok (map_of lo (p, c) \<noteq> None)" for p c
    by (simp add: python_bridge_def activation_available_def)
  obtain data res where cap: "capture_activation exn lo (fst k) 0 (ar_slot_size a - SLOT_HEADER_SIZE) = (data, Ok res)"
    using capture_layers_calls [OF avail m l(1)] l(2) by (auto simp: python_bridge_def)
  obtain dt shape d where r: "first_tensor v = (dt, shape, d)" by (cases "first_tensor v")
  have "map_of lo (fst k, 0) = Some v" using assms(4) l(2) by (simp add: container_key_def)
  moreover have "repr_ok (dt, shape, d)" using assms(2,4) r by metis
  ultimately show ?thesis using capture_activation_Ok [OF cap _ r] r by simp
qed

theorem capture_fills_slot_witness:
  "length (snd (snd (first_tensor (Py_Tuple (demo_tensor 7) ())))) = ar_slot_size demo_new - SLOT_HEADER_SIZE"
proof -
  have keys: "(''model.layers.2'', 0) \<in> captured_keys demo_bridge [''model.layers.2''] 2 (demo_outputs 7)"
    unfolding captured_keys_def demo_layers demo_containers Let_def
    by (simp add: captured_layers_def container_key_def demo_outputs_def)
  have ok: "\<forall>k v. map_of (demo_outputs 7) k = Some v \<longrightarrow> repr_ok (first_tensor v)"
    by (simp add: demo_outputs_def demo_tensor_def repr_ok_def)
  have v: "map_of (demo_outputs 7) (''model.layers.2'', 0) = Some (Py_Tuple (demo_tensor 7) ())" by (simp add: demo_outputs_def)
  show ?thesis by (rule capture_fills_slot [OF demo_created [unfolded demo_bridge_def] ok keys [unfolded demo_bridge_def] v])
qed

section \<open>A generator state that does not fit\<close>

text \<open>
  The copy of the generator state into its slot is not bounded: a state longer than the data area
  of a slot is written on into the next slot, whichever checkpoint holds it.
\<close>

lemma rng_overflows_slot:
  assumes "arena_inv a" "0 < available a" "co_rng ops = Ok rng" "ar_slot_size a - SLOT_HEADER_SIZE < length rng"
    and "capture_rng ops i a = Some b"
  shows "ar_mem b ! (last (ar_free_list a) * ar_slot_size a + ar_slot_size a) = rng ! (ar_slot_size a - SLOT_HEADER_SIZE)"
proof -
  let ?p = "last (ar_free_list a) * ar_slot_size a"
  define c where "c = snd (alloc_slot i RNG_LAYER a)"
  note w = store_slot_writes [OF assms(1,2), where i = i and l = RNG_LAYER, folded c_def]
  have al: "alloc_slot i RNG_LAYER a = (Ok (?p, default_header (ar_slot_size a)), c)"
    using alloc_store [OF assms(2), of i RNG_LAYER] by (simp only: c_def)
  have b: "b = copy_data ?p rng (update_header ?p (rng_header rng) c)" "?p + SLOT_HEADER_SIZE + length rng \<le> length (ar_mem c)"
    using assms(3,5) w(6) by (simp_all add: capture_rng_def al split: if_splits)
  have "length (ar_mem (update_header ?p (rng_header rng) c)) = length (ar_mem c)"
    using b(2) by (simp add: update_header_def)
  moreover have sz: "SLOT_HEADER_SIZE \<le> ar_slot_size a" using assms(1) by (simp add: arena_inv_def geometry_ok_def)
  moreover have "ar_slot_size a < SLOT_HEADER_SIZE + length rng" using sz assms(4) by linarith
  ultimately show ?thesis using b by (simp add: copy_data_def nth_write_at)
qed

end
