(* ===== verification/Worker_Replay.thy ===== *)
theory Worker_Replay
  imports Worker_Checkpoint
begin

text \<open>
  Replaying from a checkpoint: \<^verbatim>\<open>handle_host_replay\<close>, \<^verbatim>\<open>restore_checkpoint_for_replay\<close>,
  \<^verbatim>\<open>check_divergence_at_boundary\<close> and \<^verbatim>\<open>run_replay_loop\<close> of \<^verbatim>\<open>crates/rocket-surgeon-worker/src/dispatch.rs\<close>. As for
  a step, the values that the result mailbox delivers are the argument \<open>msgs\<close>; the bridge's comparison
  of a stored with a replayed tensor and the decimal text of a floating-point number are in the record
  \<open>replay_ops\<close>, with the outcomes of starting the pass and of switching PyTorch's deterministic mode.
  The effects on the outside are collected: the values put into the resume mailbox, the generator
  states set and the settings of the deterministic mode, each in order.
\<close>

record 't replay_ops =
  ro_compare :: "bytes \<Rightarrow> string \<Rightarrow> int list \<Rightarrow> 't \<Rightarrow> f64 \<Rightarrow> f64 \<Rightarrow> (string, (f64 \<times> f64) option) result"
  ro_fixed6 :: "f64 \<Rightarrow> string"
  ro_setup :: "(string, unit) result"
  ro_set_deterministic :: "bool \<Rightarrow> (string, unit) result"
  ro_elapsed_ns :: u64

record 't effects =
  ef_puts :: "'t option list"
  ef_rng :: "bytes list"
  ef_deterministic :: "bool list"

definition no_effects :: "'t effects" where
  "no_effects = \<lparr>ef_puts = [], ef_rng = [], ef_deterministic = []\<rparr>"

section \<open>Restoring before the replay\<close>

text \<open>Unlike the restore request, a failure to set the generator state ends the replay.\<close>

definition restore_checkpoint_for_replay ::
  "'t ckpt_ops \<Rightarrow> string \<Rightarrow> (u32 \<times> nat \<times> SlotHeader) list \<Rightarrow> (u32 \<times> string) list \<Rightarrow> 't worker_state
   \<Rightarrow> ((string, unit) result \<times> 't worker_state \<times> bytes list) option" where
  "restore_checkpoint_for_replay ops checkpoint_id slot_infos containers w =
     (case (ws_checkpoint_arena w, ws_last_outputs w) of
        (Some a, Some lo) \<Rightarrow>
          (case stored_rng checkpoint_id a of
             None \<Rightarrow> None
           | Some rng \<Rightarrow>
               (case (case rng of None \<Rightarrow> Ok () | Some d \<Rightarrow> co_restore_rng ops d) of
                  Inl e \<Rightarrow> Some (Err e, w, [])
                | Inr _ \<Rightarrow>
                    map_option (\<lambda>(r, lo'). (r, w\<lparr>ws_last_outputs := Some lo'\<rparr>, case rng of None \<Rightarrow> [] | Some d \<Rightarrow> [d]))
                      (restore_layers ops containers checkpoint_id a slot_infos lo)))
      | _ \<Rightarrow> None)"

section \<open>Divergence\<close>

text \<open>
  The comparison is made at every tick whose layer has a slot, whatever the component of the tick.
\<close>

definition check_divergence_at_boundary ::
  "'t ckpt_ops \<Rightarrow> 't replay_ops \<Rightarrow> 't worker_state \<Rightarrow> u32 \<Rightarrow> string \<Rightarrow> 't option \<Rightarrow> u64 \<Rightarrow> ReplayContext
   \<Rightarrow> (string, ReplayContext) result option" where
  "check_divergence_at_boundary ops R w layer canonical output original_base_tick ctx =
     (if layer \<notin> set (checkpoint_layers (co_layers ops) (ws_num_layers w)) then Some (Ok ctx)
      else case ws_checkpoint_arena w of
        None \<Rightarrow> Some (Ok ctx)
      | Some a \<Rightarrow>
          (case get_slot (rc_checkpoint_id ctx) layer a of
             None \<Rightarrow> None
           | Some None \<Rightarrow> Some (Ok ctx)
           | Some (Some (slot_ptr, header)) \<Rightarrow>
               (case output of
                  None \<Rightarrow> Some (Ok ctx)
                | Some t \<Rightarrow>
                    (case read_slot a slot_ptr header of
                       None \<Rightarrow> None
                     | Some data \<Rightarrow>
                         Some (case ro_compare R data (to_torch_str (sh_dtype header)) (stored_shape header) t
                                 (rc_cosine_threshold ctx) (rc_mre_threshold ctx) of
                             Inl e \<Rightarrow> Err e
                           | Inr None \<Rightarrow> Ok ctx
                           | Inr (Some (cosine, mre)) \<Rightarrow>
                               Ok (ctx\<lparr>rc_divergences := rc_divergences ctx @
                                 [\<lparr>dv_tick_id = tick_id (ws_tick_state w), dv_original_tick_id = original_base_tick,
                                   dv_probe_point = model_family_of w @ '':0:'' @ show_u32 layer @ '':'' @ canonical @ '':output'',
                                   dv_cosine = cosine, dv_max_relative_error = mre,
                                   dv_message = ''Divergence at layer '' @ show_u32 layer @ '': cosine='' @ ro_fixed6 R cosine
                                     @ '', MRE='' @ ro_fixed6 R mre\<rparr>]\<rparr>))))))"

section \<open>The loop\<close>

text \<open>
  The state of the loop: the worker, the replay context with its divergences, the count of ticks and the
  values put. The interventions of a replay are applied to whole outputs, head indices included.
\<close>

record 't replay_acc =
  ra_worker :: "'t worker_state"
  ra_ctx :: ReplayContext
  ra_ticks :: u32
  ra_puts :: "'t option list"

definition replay_intervention ::
  "'t bridge_ops \<Rightarrow> 't worker_state \<Rightarrow> ReplayContext \<Rightarrow> 't option \<Rightarrow> u32 \<Rightarrow> string \<Rightarrow> u64 \<Rightarrow> (string, 't option) result" where
  "replay_intervention B w ctx output layer canonical hdl =
     (if rc_interventions ctx = [] then Ok None
      else case output of
        None \<Rightarrow> Ok None
      | Some t \<Rightarrow>
          (case br_apply B (rc_interventions ctx) t (model_family_of w) (ws_rank w) layer canonical
              (tick_id (ws_tick_state w)) hdl of
             Inl e \<Rightarrow> Err e
           | Inr (modified, fired) \<Rightarrow> Ok (if fired = [] then None else Some modified)))"

fun replay_loop ::
  "'t bridge_ops \<Rightarrow> 't ckpt_ops \<Rightarrow> 't replay_ops \<Rightarrow> u64 \<Rightarrow> u64 \<Rightarrow> (string, 't mb_item) result list \<Rightarrow> 't replay_acc
   \<Rightarrow> ((string, unit) result \<times> 't replay_acc) option" where
  "replay_loop B ops R hdl pre_replay_tick [] acc = Some (Err ''mailbox wait timed out'', acc)"
| "replay_loop B ops R hdl pre_replay_tick (m # msgs) acc =
     (case m of
        Inl e \<Rightarrow> Some (Err e, acc)
      | Inr item \<Rightarrow>
          let w = stash_output (mi_path item) (mi_call_index item) (mi_output item) (ra_worker acc) in
          case mi_restore item of
            Inl e \<Rightarrow> Some (Err e, acc\<lparr>ra_worker := w\<rparr>)
          | Inr _ \<Rightarrow>
          if mi_path item = FORWARD_COMPLETE_SENTINEL then
            Some (Ok (), acc\<lparr>ra_worker := w\<lparr>ws_forward_pass := map_option (\<lambda>_. True) (ws_forward_pass w)\<rparr>\<rparr>)
          else case locate w (mi_path item) (mi_call_index item) of
            None \<Rightarrow> None
          | Some (canonical, layer) \<Rightarrow>
              let w = w\<lparr>ws_tick_state := TickState_advance canonical layer (mi_call_index item) (ws_tick_state w)\<rparr>;
                  acc = acc\<lparr>ra_worker := w, ra_ticks := ra_ticks acc + 1\<rparr>
              in case (if rc_verify (ra_ctx acc)
                       then check_divergence_at_boundary ops R w layer canonical (mi_output item) pre_replay_tick (ra_ctx acc)
                       else Some (Ok (ra_ctx acc))) of
                   None \<Rightarrow> None
                 | Some (Inl e) \<Rightarrow> Some (Err e, acc)
                 | Some (Inr ctx) \<Rightarrow>
                     let acc = acc\<lparr>ra_ctx := ctx\<rparr> in
                     if should_stop ctx layer canonical then
                       (case mi_put item of
                          Inl e \<Rightarrow> Some (Err e, acc)
                        | Inr _ \<Rightarrow> Some (Ok (), acc\<lparr>ra_puts := ra_puts acc @ [None]\<rparr>))
                     else case replay_intervention B w ctx (mi_output item) layer canonical hdl of
                       Inl e \<Rightarrow> Some (Err e, acc)
                     | Inr r \<Rightarrow>
                         (case mi_put item of
                            Inl e \<Rightarrow> Some (Err e, acc)
                          | Inr _ \<Rightarrow> replay_loop B ops R hdl pre_replay_tick msgs (acc\<lparr>ra_puts := ra_puts acc @ [r]\<rparr>)))"

text \<open>The pass is started again from the beginning: its outputs are cleared before it runs.\<close>

definition run_replay_loop ::
  "'t bridge_ops \<Rightarrow> 't ckpt_ops \<Rightarrow> 't replay_ops \<Rightarrow> (string, 't mb_item) result list \<Rightarrow> u64 \<Rightarrow> ReplayContext \<Rightarrow> 't worker_state
   \<Rightarrow> ((string, host_replay_response) result \<times> 't worker_state \<times> 't option list) option" where
  "run_replay_loop B ops R msgs hdl ctx w =
     (let pre_replay_tick = tick_id (ws_tick_state w) in
      case ensure_forward_pass (ro_setup R) (w\<lparr>ws_forward_pass := None\<rparr>) of
        (Inl e, w) \<Rightarrow> Some (Err e, w, [])
      | (Inr _, w) \<Rightarrow>
          map_option (\<lambda>(r, acc).
            (case r of
               Inl e \<Rightarrow> Err e
             | Inr _ \<Rightarrow> Ok \<lparr>hr_ticks_replayed = ra_ticks acc,
                 hr_stopped_at = (to_tick_position (ro_elapsed_ns R) (ws_tick_state (ra_worker acc)))\<lparr>tp_replay_of := Some pre_replay_tick\<rparr>,
                 hr_divergences = rc_divergences (ra_ctx acc), hr_verified = (rc_divergences (ra_ctx acc) = [])\<rparr>,
             ra_worker acc, ra_puts acc))
            (replay_loop B ops R hdl pre_replay_tick msgs
              \<lparr>ra_worker = w, ra_ctx = ctx, ra_ticks = 0, ra_puts = []\<rparr>))"

text \<open>The deterministic mode is switched off only when the loop succeeded.\<close>

definition replay_deterministically ::
  "'t bridge_ops \<Rightarrow> 't ckpt_ops \<Rightarrow> 't replay_ops \<Rightarrow> (string, 't mb_item) result list \<Rightarrow> u64 \<Rightarrow> ReplayContext \<Rightarrow> 't worker_state
   \<Rightarrow> ((string, host_replay_response) result \<times> 't worker_state \<times> 't option list \<times> bool list) option" where
  "replay_deterministically B ops R msgs hdl ctx w =
     (case (if rc_deterministic ctx then ro_set_deterministic R True else Ok ()) of
        Inl e \<Rightarrow> Some (Err e, w, [], [])
      | Inr _ \<Rightarrow>
          let on = (if rc_deterministic ctx then [True] else []) in
          map_option (\<lambda>(r, w', puts).
            case r of
              Inl e \<Rightarrow> (Err e, w', puts, on)
            | Inr resp \<Rightarrow>
                if \<not> rc_deterministic ctx then (Ok resp, w', puts, [])
                else case ro_set_deterministic R False of
                  Inl e \<Rightarrow> (Err e, w', puts, on)
                | Inr _ \<Rightarrow> (Ok resp, w', puts, on @ [False]))
            (run_replay_loop B ops R msgs hdl ctx w))"

section \<open>The handler\<close>

record 'v replay_codec =
  vc_replay :: "'v \<Rightarrow> (string, host_replay_request) result"
  vc_of_replay :: "host_replay_response \<Rightarrow> (string, 'v) result"

definition handle_host_replay ::
  "'t bridge_ops \<Rightarrow> 't ckpt_ops \<Rightarrow> 't replay_ops \<Rightarrow> 'v worker_codec \<Rightarrow> 'v replay_codec \<Rightarrow> (string, 't mb_item) result list \<Rightarrow> 'v request
   \<Rightarrow> 't worker_state \<Rightarrow> ('v response \<times> 't worker_state \<times> 't effects) option" where
  "handle_host_replay B ops R C V msgs rq w =
     (let fail = (\<lambda>m. Some (internal_error (rq_id rq) m, w, no_effects)) in
      case worker_params C (vc_replay V) rq of
        Inl resp \<Rightarrow> Some (resp, w, no_effects)
      | Inr req \<Rightarrow>
          (case validate_handle w (hrq_model_handle req) of
             Inl e \<Rightarrow> fail e
           | Inr hdl \<Rightarrow>
               (case ws_checkpoint_arena w of
                  None \<Rightarrow> fail ''No checkpoint arena''
                | Some a \<Rightarrow>
                    (case slot_info_for_checkpoint (hrq_checkpoint_id req) a of
                       None \<Rightarrow> None
                     | Some slot_infos \<Rightarrow>
                         if slot_infos = [] then fail (''checkpoint '' @ hrq_checkpoint_id req @ '' not found in arena'')
                         else if ws_last_outputs w = None then fail ''No captured activations''
                         else case restore_checkpoint_for_replay ops (hrq_checkpoint_id req) slot_infos
                             (build_layer_container_map [] (ws_container_paths w)) w of
                           None \<Rightarrow> None
                         | Some (Inl e, w', rng) \<Rightarrow>
                             Some (internal_error (rq_id rq) (''checkpoint restore for replay failed: '' @ e), w',
                               no_effects\<lparr>ef_rng := rng\<rparr>)
                         | Some (Inr _, w', rng) \<Rightarrow>
                             map_option (\<lambda>(r, w'', puts, det).
                               (case r of
                                  Inr resp \<Rightarrow> worker_reply (rq_id rq) (vc_of_replay V resp)
                                | Inl e \<Rightarrow> internal_error (rq_id rq) (''replay failed: '' @ e),
                                w'', \<lparr>ef_puts = puts, ef_rng = rng, ef_deterministic = det\<rparr>))
                               (replay_deterministically B ops R msgs hdl (ReplayContext_from_request req) w')))))"

end
