(* ===== verification/Worker_Dispatch.thy ===== *)
theory Worker_Dispatch
  imports Worker_Replay Inspect
begin

text \<open>
  The remaining handlers of the worker and its dispatcher, \<^verbatim>\<open>crates/rocket-surgeon-worker/src/dispatch.rs\<close>:
  attaching and detaching a model, inspecting captured tensors, views and the export environment. The
  Python bridge, the environment variables, the process identifier and the outcomes of the system calls
  are the record \<open>host_env\<close>; shared-memory objects are threaded as \<open>objs\<close>. Registering the arena with CUDA
  and the registry of region names for signal handlers have no effect on the worker and are left out.
\<close>

section \<open>The environment\<close>

record ModelInfo =
  mo_handle :: u64
  mo_num_layers :: u32
  mo_num_heads :: u32
  mo_hidden_dim :: u32
  mo_module_tree :: "string list"

record ('t, 'v) host_env =
  he_load_model :: "string \<Rightarrow> string \<Rightarrow> string \<Rightarrow> (string, u64) result"
  he_metadata :: "u64 \<Rightarrow> (string, ModelInfo) result"
  he_config :: "u64 \<Rightarrow> (string, ModelConfig) result"
  he_modules :: "u64 \<Rightarrow> (string, RawModule list) result"
  he_execution_order :: "u64 \<Rightarrow> (string, (string \<times> u32) list) result"
  he_unload_model :: "u64 \<Rightarrow> (string, unit) result"
  he_pid :: u32
  he_os :: os_env
  he_mapped :: bool
  he_max_seq_len :: "string option"
  he_arena_mb :: "string option"
  he_tensor_bytes :: "'t \<Rightarrow> (string, bytes) result"
  he_tensor_shape :: "'t \<Rightarrow> (string, u64 list) result"
  he_tensor_dtype :: "'t \<Rightarrow> (string, string) result"
  he_tensor_device :: "'t \<Rightarrow> (string, string) result"
  he_hash :: "bytes \<Rightarrow> string"
  he_base64 :: "bytes \<Rightarrow> string"
  he_compute_view :: "u64 \<Rightarrow> 't outputs \<Rightarrow> built_in_view \<Rightarrow> 'v option \<Rightarrow> (string, 'v) result"
  he_export_env :: "u64 \<Rightarrow> (string, 'v) result"

record 'v host_codec2 =
  hc_attach :: "'v \<Rightarrow> (string, 'v host_attach_request) result"
  hc_detach :: "'v \<Rightarrow> (string, u64) result"
  hc_inspect :: "'v \<Rightarrow> (string, host_inspect_request) result"
  hc_view :: "'v \<Rightarrow> (string, 'v host_view_request) result"
  hc_export_env :: "'v \<Rightarrow> (string, u64) result"
  hc_of_attach :: "host_attach_response \<Rightarrow> (string, 'v) result"
  hc_of_detach :: "bool \<Rightarrow> (string, 'v) result"
  hc_of_inspect :: "host_inspect_response \<Rightarrow> (string, 'v) result"
  hc_of_view :: "'v host_view_response \<Rightarrow> (string, 'v) result"
  hc_of_export_env :: "'v host_export_env_response \<Rightarrow> (string, 'v) result"
  hc_get :: "'v \<Rightarrow> string \<Rightarrow> 'v option"
  hc_null :: 'v
  hc_is_null :: "'v \<Rightarrow> bool"

section \<open>Attaching\<close>

text \<open>The names of the data types as \<^verbatim>\<open>Debug\<close> prints them.\<close>

fun debug_dtype :: "dtype \<Rightarrow> string" where
  "debug_dtype Float16 = ''Float16''" | "debug_dtype Bfloat16 = ''Bfloat16''"
| "debug_dtype Float32 = ''Float32''" | "debug_dtype Float64 = ''Float64''"
| "debug_dtype Int8 = ''Int8''" | "debug_dtype Int16 = ''Int16''"
| "debug_dtype Int32 = ''Int32''" | "debug_dtype Int64 = ''Int64''"
| "debug_dtype Uint8 = ''Uint8''" | "debug_dtype DBool = ''Bool''"

definition attach_dtype :: "dtype option \<Rightarrow> (string, string) result" where
  "attach_dtype d = (case d of
     Some Float16 \<Rightarrow> Ok ''float16''
   | Some Bfloat16 \<Rightarrow> Ok ''bfloat16''
   | Some Float32 \<Rightarrow> Ok ''float32''
   | None \<Rightarrow> Ok ''float32''
   | Some other \<Rightarrow> Err (''Unsupported dtype: '' @ debug_dtype other))"

definition hex_digit :: "nat \<Rightarrow> char" where
  "hex_digit n = ''0123456789abcdef'' ! n"

text \<open>\<^verbatim>\<open>format!("{:08x}", pid)\<close>.\<close>

definition hex8 :: "u32 \<Rightarrow> string" where
  "hex8 w = map (\<lambda>i. hex_digit (unat w div 16 ^ (7 - i) mod 16)) [0..<8]"

definition ring_name :: "u32 \<Rightarrow> string" where
  "ring_name pid = ''/rs-'' @ hex8 pid @ ''-0''"

definition env_usize :: "string \<Rightarrow> usize option" where
  "env_usize s = map_option word_of_nat (parse_unsigned (2 ^ 64 - 1) s)"

text \<open>The geometry of the arena: sizes wrap at 64 bits, and a division by a slot size of zero panics.\<close>

definition arena_slot_size :: "u32 \<Rightarrow> usize \<Rightarrow> usize \<Rightarrow> usize" where
  "arena_slot_size hidden_dim max_seq_len dtype_size =
     word_of_nat SLOT_HEADER_SIZE + align_up (ucast hidden_dim * max_seq_len * dtype_size) 64"

definition arena_geometry ::
  "('t, 'v) host_env \<Rightarrow> f64_layer_ops \<Rightarrow> dtype option \<Rightarrow> ModelInfo \<Rightarrow> (usize \<times> usize) option" where
  "arena_geometry E L dt info =
     (let dtype_size = (case dt of Some Float16 \<Rightarrow> 2 | Some Bfloat16 \<Rightarrow> 2 | _ \<Rightarrow> 4);
          max_seq_len = unwrap_or (Option.bind (he_max_seq_len E) env_usize) 2048;
          slots_per_checkpoint = word_of_nat (length (checkpoint_layers L (mo_num_layers info))) + 1;
          num_checkpoint_slots = slots_per_checkpoint * 2 + 2;
          bytes_per_slot = arena_slot_size (mo_hidden_dim info) max_seq_len dtype_size
      in case Option.bind (he_arena_mb E) env_usize of
           Some mb \<Rightarrow>
             if bytes_per_slot = 0 then None
             else Some (bytes_per_slot, max (mb * 1024 * 1024 div bytes_per_slot) 2)
         | None \<Rightarrow> Some (bytes_per_slot, num_checkpoint_slots))"

definition release_ring :: "os_env \<Rightarrow> 't worker_state \<Rightarrow> shm_objects \<Rightarrow> ('t worker_state \<times> shm_objects) option" where
  "release_ring os w objs =
     (case ws_shm_ring w of
        None \<Rightarrow> Some (w, objs)
      | Some p \<Rightarrow>
          map_option (\<lambda>(_, objs'). (w\<lparr>ws_shm_ring := None\<rparr>, objs')) (ShmRegion_unlink os (reg_name (p_region p)) objs))"

definition create_ring :: "os_env \<Rightarrow> u32 \<Rightarrow> shm_objects \<Rightarrow> (producer option \<times> shm_objects) option" where
  "create_ring os pid objs =
     (case RingConfig_new 16 (64 * 1024 * 1024) of
        Inl _ \<Rightarrow> None
      | Inr config \<Rightarrow>
          map_option (\<lambda>(r, objs'). (case r of Inr p \<Rightarrow> Some p | Inl _ \<Rightarrow> None, objs'))
            (DoomRingProducer_create os (ring_name pid) config objs))"

text \<open>When the arena cannot be created, the one of an earlier attachment stays.\<close>

definition create_arena :: "('t, 'v) host_env \<Rightarrow> f64_layer_ops \<Rightarrow> dtype option \<Rightarrow> ModelInfo \<Rightarrow> 't worker_state \<Rightarrow> 't worker_state option" where
  "create_arena E L dt info w =
     (case arena_geometry E L dt info of
        None \<Rightarrow> None
      | Some (bytes_per_slot, num_slots) \<Rightarrow>
          (case CheckpointArena_new (he_mapped E) (unat bytes_per_slot) (unat num_slots) of
             None \<Rightarrow> None
           | Some (Inl _) \<Rightarrow> Some w
           | Some (Inr a) \<Rightarrow> Some (w\<lparr>ws_checkpoint_arena := Some a\<rparr>)))"

definition load_components ::
  "('t, 'v) host_env \<Rightarrow> u64 \<Rightarrow> u32 \<Rightarrow> (string, ModelInfo \<times> ModelConfig \<times> ComponentMap \<times> string list) result" where
  "load_components E hdl rank =
     (case he_metadata E hdl of
        Inl e \<Rightarrow> Err (''model_metadata failed: '' @ e)
      | Inr info \<Rightarrow>
          (case he_config E hdl of
             Inl e \<Rightarrow> Err (''model_config failed: '' @ e)
           | Inr config \<Rightarrow>
               (case he_modules E hdl of
                  Inl e \<Rightarrow> Err (''discover_modules failed: '' @ e)
                | Inr modules \<Rightarrow>
                    (case resolve_with_containers modules config rank of
                       Inl e \<Rightarrow> Err (''adapter resolution failed: '' @ e)
                     | Inr (cmap, container_paths) \<Rightarrow>
                         (case he_execution_order E hdl of
                            Inl e \<Rightarrow> Err (''discover_execution_order failed: '' @ e)
                          | Inr order \<Rightarrow> Ok (info, config, apply_execution_order cmap order, container_paths))))))"

definition install_model :: "ModelInfo \<Rightarrow> ComponentMap \<Rightarrow> string list \<Rightarrow> u32 \<Rightarrow> 't worker_state \<Rightarrow> 't worker_state" where
  "install_model info cmap container_paths rank w =
     w\<lparr>ws_component_index := build_component_index cmap, ws_module_paths := map ma_module_path (cm_components cmap),
       ws_container_paths := container_paths, ws_model_handle := Some (mo_handle info),
       ws_num_layers := mo_num_layers info, ws_num_heads := mo_num_heads info, ws_hidden_dim := mo_hidden_dim info,
       ws_component_map := Some cmap, ws_rank := rank, ws_tick_state := TickState_new rank, ws_forward_pass := None,
       ws_kv_cache := kv_reset (ws_kv_cache w)\<rparr>"

definition handle_host_attach ::
  "('t, 'v) host_env \<Rightarrow> f64_layer_ops \<Rightarrow> 'v worker_codec \<Rightarrow> 'v host_codec2 \<Rightarrow> 'v request \<Rightarrow> 't worker_state \<Rightarrow> shm_objects
   \<Rightarrow> ('v response \<times> 't worker_state \<times> shm_objects) option" where
  "handle_host_attach E L C H rq w objs =
     (case worker_params C (hc_attach H) rq of
        Inl resp \<Rightarrow> Some (resp, w, objs)
      | Inr req \<Rightarrow>
          (case attach_dtype (haq_dtype req) of
             Inl e \<Rightarrow> Some (bare_error (rq_id rq) INVALID_PARAMS e, w, objs)
           | Inr dtype_str \<Rightarrow>
               (case he_load_model E (haq_model_source req) (haq_device req) dtype_str of
                  Inl e \<Rightarrow> Some (internal_error (rq_id rq) (''load_model failed: '' @ e), w, objs)
                | Inr hdl \<Rightarrow>
                    (case load_components E hdl (haq_rank req) of
                       Inl e \<Rightarrow> Some (internal_error (rq_id rq) e, w, objs)
                     | Inr (info, config, cmap, container_paths) \<Rightarrow>
                         Option.bind (release_ring (he_os E) (install_model info cmap container_paths (haq_rank req) w) objs)
                           (\<lambda>(w, objs). Option.bind (create_ring (he_os E) (he_pid E) objs)
                             (\<lambda>(ring, objs). map_option (\<lambda>w.
                               (worker_reply (rq_id rq) (hc_of_attach H
                                 \<lparr>ha_model_handle = mo_handle info, ha_num_layers = mo_num_layers info,
                                  ha_num_heads = mo_num_heads info, ha_hidden_dim = mo_hidden_dim info,
                                  ha_module_tree = mo_module_tree info, ha_model_type = mg_model_type config,
                                  ha_component_vocabulary = cm_vocabulary cmap,
                                  ha_shm_name = map_option (reg_name \<circ> p_region) ring, ha_worker_pid = None\<rparr>), w, objs))
                               (create_arena E L (haq_dtype req) info (w\<lparr>ws_shm_ring := ring\<rparr>))))))))"

section \<open>Detaching\<close>

text \<open>The model handle of the request is not compared with the one loaded.\<close>

definition handle_host_detach ::
  "('t, 'v) host_env \<Rightarrow> 'v worker_codec \<Rightarrow> 'v host_codec2 \<Rightarrow> 'v request \<Rightarrow> 't worker_state \<Rightarrow> shm_objects
   \<Rightarrow> ('v response \<times> 't worker_state \<times> shm_objects \<times> 't effects) option" where
  "handle_host_detach E C H rq w objs =
     (case worker_params C (hc_detach H) rq of
        Inl resp \<Rightarrow> Some (resp, w, objs, no_effects)
      | Inr hdl \<Rightarrow>
          let fx = no_effects\<lparr>ef_puts := (if ws_forward_pass w = None then [] else [None])\<rparr>;
              w = w\<lparr>ws_forward_pass := None, ws_model_handle := None, ws_component_map := None, ws_component_index := [],
                    ws_module_paths := [], ws_container_paths := [], ws_last_outputs := None,
                    ws_kv_cache := kv_reset (ws_kv_cache w)\<rparr>
          in map_option (\<lambda>(w, objs).
               (case he_unload_model E hdl of
                  Inl e \<Rightarrow> internal_error (rq_id rq) (''unload_model failed: '' @ e)
                | Inr _ \<Rightarrow> worker_reply (rq_id rq) (hc_of_detach H True),
                w\<lparr>ws_checkpoint_arena := None\<rparr>, objs, fx))
               (release_ring (he_os E) w objs))"

section \<open>Inspecting\<close>

text \<open>The part of a tensor that belongs to one attention head.\<close>

definition head_part :: "'t bridge_ops \<Rightarrow> ('t, 'v) host_env \<Rightarrow> u32 \<Rightarrow> u32 \<Rightarrow> 't \<Rightarrow> (string, 't) result option" where
  "head_part B E num_heads hi t =
     (case he_tensor_shape E t of
        Inl e \<Rightarrow> Some (Err e)
      | Inr full_shape \<Rightarrow>
          if full_shape = [] \<or> num_heads = 0 then None
          else let hidden = ucast (last full_shape) :: u32;
                   head_dim = hidden div num_heads;
                   start = hi * head_dim
               in Some (br_head_slice B t start (start + head_dim)))"

definition tensor_facts :: "('t, 'v) host_env \<Rightarrow> 't \<Rightarrow> (string, bytes \<times> u64 list \<times> string \<times> string) result" where
  "tensor_facts E t =
     bind_result (he_tensor_bytes E t) (\<lambda>d. bind_result (he_tensor_shape E t) (\<lambda>sh.
     bind_result (he_tensor_dtype E t) (\<lambda>dt. bind_result (he_tensor_device E t) (\<lambda>dev. Ok (d, sh, dt, dev)))))"

definition mapped :: "MappedComponent \<Rightarrow> mapped_component" where
  "mapped c = \<lparr>mc_module_path = ma_module_path c, mc_canonical = ma_canonical c, mc_layer_index = ma_layer_index c\<rparr>"

definition capture_inline :: "('t, 'v) host_env \<Rightarrow> MappedComponent \<Rightarrow> bytes \<times> u64 list \<times> string \<times> string \<Rightarrow> captured_tensor" where
  "capture_inline E c = (\<lambda>(d, sh, dt, dev).
     \<lparr>ct_module_path = ma_module_path c, ct_canonical = ma_canonical c, ct_layer = unwrap_or (ma_layer_index c) 0,
      ct_shape = sh, ct_dtype = dt, ct_device = dev, ct_tensor_id = he_hash E d, ct_shm_name = None, ct_shm_offset = None,
      ct_byte_length = None, ct_data_base64 = Some (he_base64 E d)\<rparr>)"

text \<open>The bytes behind the ring's mapping are those of the object with its name.\<close>

definition ring_memory :: "producer option \<Rightarrow> shm_objects \<Rightarrow> bytes" where
  "ring_memory ring objs = (case ring of None \<Rightarrow> [] | Some p \<Rightarrow> unwrap_or (objs (reg_name (p_region p))) [])"

definition set_ring_memory :: "producer option \<Rightarrow> bytes \<Rightarrow> shm_objects \<Rightarrow> shm_objects" where
  "set_ring_memory ring mem objs = (case ring of None \<Rightarrow> objs | Some p \<Rightarrow> objs(reg_name (p_region p) \<mapsto> mem))"

fun collect_tensors ::
  "'t bridge_ops \<Rightarrow> ('t, 'v) host_env \<Rightarrow> u32 \<Rightarrow> 't outputs \<Rightarrow> u32 option \<Rightarrow> MappedComponent list \<Rightarrow> captured_tensor list
   \<Rightarrow> producer option \<Rightarrow> shm_objects \<Rightarrow> ((string, captured_tensor list) result \<times> producer option \<times> shm_objects) option" where
  "collect_tensors B E num_heads lo head_index [] res ring objs = Some (Ok res, ring, objs)"
| "collect_tensors B E num_heads lo head_index (c # cs) res ring objs =
     (case map_of lo (ma_module_path c, ma_call_index c) of
        None \<Rightarrow> collect_tensors B E num_heads lo head_index cs res ring objs
      | Some t \<Rightarrow>
          (case (if ma_canonical c \<in> set ATTENTION_HEAD_COMPONENTS
                 then (case head_index of None \<Rightarrow> Some (Ok t) | Some hi \<Rightarrow> head_part B E num_heads hi t)
                 else Some (Ok t)) of
             None \<Rightarrow> None
           | Some (Inl e) \<Rightarrow> Some (Err e, ring, objs)
           | Some (Inr t) \<Rightarrow>
               (case tensor_facts E t of
                  Inl e \<Rightarrow> Some (Err e, ring, objs)
                | Inr (d, sh, dt, dev) \<Rightarrow>
                    (case try_shm_publish d (he_hash E d) (mapped c) sh dt dev ring (ring_memory ring objs) of
                       None \<Rightarrow> None
                     | Some (ct, ring', mem) \<Rightarrow>
                         collect_tensors B E num_heads lo head_index cs
                           (res @ [case ct of Some ct \<Rightarrow> ct | None \<Rightarrow> capture_inline E c (d, sh, dt, dev)])
                           ring' (set_ring_memory ring' mem objs)))))"

definition handle_host_inspect ::
  "(string \<Rightarrow> parse_error) \<Rightarrow> 't bridge_ops \<Rightarrow> ('t, 'v) host_env \<Rightarrow> 'v worker_codec \<Rightarrow> 'v host_codec2 \<Rightarrow> 'v request
   \<Rightarrow> 't worker_state \<Rightarrow> shm_objects \<Rightarrow> ('v response \<times> 't worker_state \<times> shm_objects) option" where
  "handle_host_inspect render B E C H rq w objs =
     (case worker_params C (hc_inspect H) rq of
        Inl resp \<Rightarrow> Some (resp, w, objs)
      | Inr req \<Rightarrow>
          (case validate_handle w (hiq_model_handle req) of
             Inl e \<Rightarrow> Some (internal_error (rq_id rq) e, w, objs)
           | Inr _ \<Rightarrow>
               (case ws_component_map w of
                  None \<Rightarrow> Some (internal_error (rq_id rq) ''No component map available'', w, objs)
                | Some cmap \<Rightarrow>
                    let matched = filter (\<lambda>c. probe_matches_target render (ma_probe_point c) (hiq_target req)) (cm_components cmap) in
                    if matched = [] then
                      Some (data_response (rq_id rq) (ErrorData_new InvalidTarget
                        (''No components match target '' @ sq @ hiq_target req @ sq)), w, objs)
                    else case extract_head_index (hiq_target req) of
                      None \<Rightarrow> None
                    | Some head \<Rightarrow>
                        map_option (\<lambda>(r, ring, objs').
                          (case r of
                             Inl e \<Rightarrow> internal_error (rq_id rq) (''inspect failed: '' @ e)
                           | Inr tensors \<Rightarrow> worker_reply (rq_id rq) (hc_of_inspect H \<lparr>hi_tensors = tensors\<rparr>),
                           w\<lparr>ws_shm_ring := ring\<rparr>, objs'))
                          (case ws_last_outputs w of
                             None \<Rightarrow> Some (Ok [], ws_shm_ring w, objs)
                           | Some lo \<Rightarrow> collect_tensors B E (ws_num_heads w) lo (map_option snd head) matched [] (ws_shm_ring w) objs))))"

section \<open>Views and the export environment\<close>

definition view_error :: "request_id \<Rightarrow> string \<Rightarrow> 'v response" where
  "view_error i m =
     (if str_contains m ''VIEW_DATA_UNAVAILABLE'' then data_response i (ErrorData_new ViewDataUnavailable m)
      else if str_contains m ''CAPABILITY_NOT_SUPPORTED'' then data_response i (ErrorData_new CapabilityNotSupported m)
      else if str_contains m ''INVALID_PARAMS'' then data_response i (ErrorData_new InvalidParams m)
      else internal_error i m)"

definition handle_host_view ::
  "('t, 'v) host_env \<Rightarrow> 'v worker_codec \<Rightarrow> 'v host_codec2 \<Rightarrow> 'v request \<Rightarrow> 't worker_state \<Rightarrow> 'v response" where
  "handle_host_view E C H rq w =
     (case worker_params C (hc_view H) rq of
        Inl resp \<Rightarrow> resp
      | Inr req \<Rightarrow>
          if ws_model_handle w \<noteq> Some (hvq_model_handle req) then
            internal_error (rq_id rq) ''model handle mismatch or no model loaded''
          else case ws_last_outputs w of
            None \<Rightarrow> data_response (rq_id rq) (ErrorData_new ViewDataUnavailable
              (''No captured tensors '' @ [CHR 0xE2, CHR 0x80, CHR 0x94] @ '' execute at least one step first''))
          | Some lo \<Rightarrow>
              (case he_compute_view E (hvq_model_handle req) lo (hvq_view req) (hvq_params req) of
                 Inr d \<Rightarrow> worker_reply (rq_id rq) (hc_of_view H \<lparr>hv_view = hvq_view req, hv_data = d\<rparr>)
               | Inl e \<Rightarrow> view_error (rq_id rq) e))"

text \<open>Serializing the environment is unwrapped: a failure panics.\<close>

definition handle_host_export_env ::
  "('t, 'v) host_env \<Rightarrow> 'v worker_codec \<Rightarrow> 'v host_codec2 \<Rightarrow> 'v request \<Rightarrow> 'v response option" where
  "handle_host_export_env E C H rq =
     (case worker_params C (hc_export_env H) rq of
        Inl resp \<Rightarrow> Some resp
      | Inr hdl \<Rightarrow>
          (case he_export_env E hdl of
             Inl e \<Rightarrow> Some (internal_error (rq_id rq) (''collect_export_env failed: '' @ e))
           | Inr v \<Rightarrow>
               (case hc_of_export_env H \<lparr>xe_env = unwrap_or (hc_get H v ''env'') (hc_null H),
                   xe_model_info = unwrap_or (hc_get H v ''model_info'') (hc_null H),
                   xe_prompt = (case hc_get H v ''prompt'' of None \<Rightarrow> None | Some p \<Rightarrow> if hc_is_null H p then None else Some p)\<rparr> of
                  Inl _ \<Rightarrow> None
                | Inr j \<Rightarrow> Some (Response_success (rq_id rq) j))))"

section \<open>The dispatcher\<close>

definition i_HOST_CONFIGURE_HOOKS :: string where "i_HOST_CONFIGURE_HOOKS = ''_host/configure_hooks''"

text \<open>What surrounds one request: the bridge, the codecs, the values the mailbox delivers, the clocks.\<close>

record ('t, 'v) surroundings =
  su_render :: "string \<Rightarrow> parse_error"
  su_bridge :: "'t bridge_ops"
  su_ckpt :: "'t ckpt_ops"
  su_replay :: "'t replay_ops"
  su_env :: "('t, 'v) host_env"
  su_codec :: "'v worker_codec"
  su_ckpt_codec :: "'v ckpt_codec"
  su_replay_codec :: "'v replay_codec"
  su_host_codec :: "'v host_codec2"
  su_kv :: kv_f64_ops
  su_secs :: "nat \<Rightarrow> nat"
  su_msgs :: "(string, 't mb_item) result list"

record 't worker_world =
  ww_worker :: "'t worker_state"
  ww_objects :: shm_objects
  ww_spill :: directory

definition worker_dispatch ::
  "('t, 'v) surroundings \<Rightarrow> 'v request \<Rightarrow> 't worker_world \<Rightarrow> ('v response \<times> 't worker_world \<times> 't effects) option" where
  "worker_dispatch S rq ww =
     (let w = ww_worker ww; C = su_codec S; H = su_host_codec S; E = su_env S;
          keep = (\<lambda>r. (r, ww, no_effects))
      in if rq_method rq = i_HOST_ATTACH then
           map_option (\<lambda>(r, w', objs'). (r, ww\<lparr>ww_worker := w', ww_objects := objs'\<rparr>, no_effects))
             (handle_host_attach E (co_layers (su_ckpt S)) C H rq w (ww_objects ww))
         else if rq_method rq = i_HOST_DETACH then
           map_option (\<lambda>(r, w', objs', fx). (r, ww\<lparr>ww_worker := w', ww_objects := objs'\<rparr>, fx))
             (handle_host_detach E C H rq w (ww_objects ww))
         else if rq_method rq = i_HOST_CONFIGURE_HOOKS then Some (keep (handle_host_configure_hooks C rq))
         else if rq_method rq = i_HOST_STEP then
           map_option (\<lambda>(r, w', puts). (r, ww\<lparr>ww_worker := w'\<rparr>, no_effects\<lparr>ef_puts := puts\<rparr>))
             (handle_host_step (su_bridge S) C (su_secs S) (ro_elapsed_ns (su_replay S)) (ro_setup (su_replay S)) (su_msgs S) rq w)
         else if rq_method rq = i_HOST_UPDATE_PROBES then
           (case handle_host_update_probes (su_render S) C rq w of (r, w') \<Rightarrow> Some (r, ww\<lparr>ww_worker := w'\<rparr>, no_effects))
         else if rq_method rq = i_HOST_INSPECT then
           map_option (\<lambda>(r, w', objs'). (r, ww\<lparr>ww_worker := w', ww_objects := objs'\<rparr>, no_effects))
             (handle_host_inspect (su_render S) (su_bridge S) E C H rq w (ww_objects ww))
         else if rq_method rq = i_HOST_VIEW then Some (keep (handle_host_view E C H rq w))
         else if rq_method rq = i_HOST_KV_READ then Some (keep (handle_host_kv_read (su_kv S) C rq w))
         else if rq_method rq = i_HOST_KV_INTERVENE then
           (case handle_host_kv_intervene C rq w of (r, w') \<Rightarrow> Some (r, ww\<lparr>ww_worker := w'\<rparr>, no_effects))
         else if rq_method rq = i_HOST_EXPORT_ENV then map_option keep (handle_host_export_env E C H rq)
         else if rq_method rq = i_HOST_CHECKPOINT then
           map_option (\<lambda>(r, w', dir', rng). (r, ww\<lparr>ww_worker := w', ww_spill := dir'\<rparr>,
               no_effects\<lparr>ef_rng := (case rng of None \<Rightarrow> [] | Some d \<Rightarrow> [d])\<rparr>))
             (handle_host_checkpoint (su_ckpt S) C (su_ckpt_codec S) rq w (ww_spill ww))
         else if rq_method rq = i_HOST_REPLAY then
           map_option (\<lambda>(r, w', fx). (r, ww\<lparr>ww_worker := w'\<rparr>, fx))
             (handle_host_replay (su_bridge S) (su_ckpt S) (su_replay S) C (su_replay_codec S) (su_msgs S) rq w)
         else Some (keep (bare_error (rq_id rq) METHOD_NOT_FOUND (''Method not found: '' @ rq_method rq))))"

end
