(* ===== verification/Worker_Contract.thy ===== *)
theory Worker_Contract
  imports Worker_Dispatch Worker_Checkpoint_Roundtrip Worker_Step_Contract
begin

text \<open>
  Well-formed workers. Every handler takes a well-formed worker to a well-formed one and answers the
  request it was given; in a well-formed worker the lookup of a component cannot fail, so that stepping
  does not panic. The state that a request leaves alone is named by \<open>model_part\<close>: stepping and replaying
  change the clock, the outputs and the pass only.
\<close>

section \<open>Well-formedness\<close>

definition worker_ok :: "'t worker_state \<Rightarrow> bool" where
  "worker_ok w \<longleftrightarrow>
     (case ws_checkpoint_arena w of None \<Rightarrow> True | Some a \<Rightarrow> arena_inv a) \<and>
     (ws_model_handle w = None \<longleftrightarrow> ws_component_map w = None) \<and>
     (\<forall>k i. map_of (ws_component_index w) k = Some i \<longrightarrow>
        (\<exists>cmap. ws_component_map w = Some cmap \<and> i < length (cm_components cmap)))"

definition model_part :: "'t worker_state \<Rightarrow>
  CheckpointArena option \<times> u64 option \<times> ComponentMap option \<times> ((string \<times> u32) \<times> nat) list \<times> (probe_definition \<times> probe_point) list" where
  "model_part w = (ws_checkpoint_arena w, ws_model_handle w, ws_component_map w, ws_component_index w, ws_active_probes w)"

lemma worker_ok_model_part: "model_part w = model_part w' \<Longrightarrow> worker_ok w = worker_ok w'"
  by (simp add: model_part_def worker_ok_def)

lemma model_part_simps [simp]:
  "model_part (w\<lparr>ws_last_outputs := lo\<rparr>) = model_part w" "model_part (w\<lparr>ws_tick_state := ts\<rparr>) = model_part w"
  "model_part (w\<lparr>ws_forward_pass := fp\<rparr>) = model_part w" "model_part (w\<lparr>ws_kv_cache := kv\<rparr>) = model_part w"
  "model_part (w\<lparr>ws_shm_ring := ring\<rparr>) = model_part w"
  by (simp_all add: model_part_def)

lemma worker_ok_new: "worker_ok WorkerState_new"
  by (simp add: worker_ok_def WorkerState_new_def)

lemma stash_output_model [simp]: "model_part (stash_output p c t w) = model_part w"
  by (simp add: stash_output_def split: option.split)

lemma worker_ok_locate:
  assumes "worker_ok w"
  obtains canonical layer where "locate w path call_index = Some (canonical, layer)"
proof (cases "map_of (ws_component_index w) (path, call_index)")
  case None
  then show thesis using that by (simp add: locate_def)
next
  case (Some i)
  then obtain cmap where "ws_component_map w = Some cmap" "i < length (cm_components cmap)"
    using assms by (auto simp: worker_ok_def)
  with Some show thesis using that by (simp add: locate_def Let_def)
qed

section \<open>Stepping\<close>

lemma count_tick_worker [simp]: "sa_worker (snd (count_tick plan l acc)) = sa_worker acc"
  by (simp add: count_tick_def Let_def)

lemma step_loop_model:
  "step_loop B secs plan req hdl msgs acc = Some (r, acc') \<Longrightarrow> model_part (sa_worker acc') = model_part (sa_worker acc)"
proof (induction msgs arbitrary: acc)
  case (Cons m msgs)
  show ?case
  proof (cases m)
    case (Inr item)
    let ?w = "stash_output (mi_path item) (mi_call_index item) (mi_output item) (sa_worker acc)"
    show ?thesis
    proof (cases "mi_path item = FORWARD_COMPLETE_SENTINEL \<or> mi_restore item \<noteq> Ok ()")
      case False
      then obtain canonical layer where loc: "locate ?w (mi_path item) (mi_call_index item) = Some (canonical, layer)"
        using Cons.prems Inr by (auto simp: Let_def split: option.splits)
      let ?w1 = "?w\<lparr>ws_tick_state := TickState_advance canonical layer (mi_call_index item) (ws_tick_state ?w)\<rparr>"
      let ?acc1 = "probe_tick secs (unwrap_or (hsq_max_events req) 256) layer canonical (mi_call_index item) (acc\<lparr>sa_worker := ?w1\<rparr>)"
      obtain stop acc2 where ct: "count_tick plan layer ?acc1 = (stop, acc2)" by fastforce
      then have w2: "sa_worker acc2 = ?w1" using count_tick_worker [of plan layer ?acc1] by simp
      show ?thesis
        using Cons.prems Cons.IH Inr False loc ct w2
        by (fastforce simp: Let_def split: option.splits sum.splits bool.splits)
    qed (use Cons.prems Inr in \<open>auto simp: Let_def split: sum.splits\<close>)
  qed (use Cons.prems in auto)
qed simp

text \<open>A recipe whose target names no attention head is applied to the whole output, without slicing.\<close>

definition whole_targets :: "host_step_request \<Rightarrow> bool" where
  "whole_targets req \<longleftrightarrow> list_all (\<lambda>r. names_no_head (ir_target r)) (hsq_interventions req)"

lemma split_recipes_whole:
  "list_all (\<lambda>r. names_no_head (ir_target r)) rs \<Longrightarrow> split_recipes c rs = Some ([], rs)"
  by (induction rs) (auto simp: names_no_head_extract)

lemma whole_targets_apply:
  assumes "whole_targets req"
  shows "try_apply_interventions B w req t l c hdl \<noteq> None"
  using assms split_recipes_whole [of "hsq_interventions req" c]
  by (auto simp: whole_targets_def try_apply_interventions_def Let_def split: option.splits sum.splits prod.splits)

lemma step_loop_total:
  assumes "worker_ok (sa_worker acc)" "whole_targets req"
  shows "step_loop B secs plan req hdl msgs acc \<noteq> None"
  using assms(1)
proof (induction msgs arbitrary: acc)
  case (Cons m msgs)
  show ?case
  proof (cases m)
    case (Inr item)
    let ?w = "stash_output (mi_path item) (mi_call_index item) (mi_output item) (sa_worker acc)"
    have ok: "worker_ok ?w" using Cons.prems worker_ok_model_part [OF stash_output_model] by blast
    then obtain canonical layer where loc: "locate ?w (mi_path item) (mi_call_index item) = Some (canonical, layer)"
      by (rule worker_ok_locate)
    let ?w1 = "?w\<lparr>ws_tick_state := TickState_advance canonical layer (mi_call_index item) (ws_tick_state ?w)\<rparr>"
    let ?acc1 = "probe_tick secs (unwrap_or (hsq_max_events req) 256) layer canonical (mi_call_index item) (acc\<lparr>sa_worker := ?w1\<rparr>)"
    have ok1: "worker_ok ?w1" using ok worker_ok_model_part [OF model_part_simps(2)] by blast
    obtain stop acc2 where ct: "count_tick plan layer ?acc1 = (stop, acc2)" by fastforce
    then have w2: "sa_worker acc2 = ?w1" using count_tick_worker [of plan layer ?acc1] by simp
    then have "step_loop B secs plan req hdl msgs (put_result r acc2) \<noteq> None" for r
      using Cons.IH [of "put_result r acc2"] ok1 by simp
    then show ?thesis
      using whole_targets_apply [OF assms(2), of B ?w1 "mi_output item" layer canonical hdl] Inr loc ct
      by (auto simp: Let_def split: sum.splits bool.splits option.splits)
  qed simp
qed simp

lemma drop_completed_model [simp]: "model_part (drop_completed w) = model_part w"
  by (simp add: drop_completed_def)

lemma ensure_forward_pass_model: "ensure_forward_pass setup w = (r, w') \<Longrightarrow> model_part w' = model_part w"
  by (auto simp: ensure_forward_pass_def Let_def split: if_splits sum.splits)

lemma run_step_loop_model:
  assumes "run_step_loop B secs ns setup msgs hdl req w = Some (r, w', puts)"
  shows "model_part w' = model_part w"
proof -
  obtain x w1 where e: "ensure_forward_pass setup (drop_completed w) = (x, w1)" by fastforce
  then have m: "model_part w1 = model_part w" using ensure_forward_pass_model [OF e] by simp
  show ?thesis
    using assms e m by (auto simp: run_step_loop_def Let_def dest!: step_loop_model split: sum.splits option.splits if_splits)
qed

lemma run_step_loop_total:
  assumes "worker_ok w" "whole_targets req"
  shows "run_step_loop B secs ns setup msgs hdl req w \<noteq> None"
proof -
  obtain x w1 where e: "ensure_forward_pass setup (drop_completed w) = (x, w1)" by fastforce
  then have "worker_ok w1" using ensure_forward_pass_model [OF e] assms(1) worker_ok_model_part [of w1 w] by simp
  then have total: "step_loop B secs plan req hdl msgs acc = None \<Longrightarrow> sa_worker acc = w1 \<Longrightarrow> False" for plan acc
    using step_loop_total [of acc req B secs plan hdl msgs] assms(2) by simp
  show ?thesis
  proof
    assume "run_step_loop B secs ns setup msgs hdl req w = None"
    then obtain plan acc where "step_loop B secs plan req hdl msgs acc = None" "sa_worker acc = w1"
      using e by (fastforce simp: run_step_loop_def Let_def split: sum.splits option.splits prod.splits if_splits)
    then show False by (rule total)
  qed
qed

section \<open>Replaying\<close>

lemma replay_loop_model:
  "replay_loop B ops R hdl t0 msgs acc = Some (r, acc') \<Longrightarrow> model_part (ra_worker acc') = model_part (ra_worker acc)"
proof (induction msgs arbitrary: acc)
  case (Cons m msgs)
  then show ?case by (fastforce simp: Let_def split: sum.splits option.splits prod.splits if_splits)
qed simp

lemma run_replay_loop_model:
  assumes "run_replay_loop B ops R msgs hdl ctx w = Some (r, w', puts)"
  shows "model_part w' = model_part w"
proof -
  obtain x w1 where e: "ensure_forward_pass (ro_setup R) (w\<lparr>ws_forward_pass := None\<rparr>) = (x, w1)" by fastforce
  then have m: "model_part w1 = model_part w" using ensure_forward_pass_model [OF e] by simp
  show ?thesis
    using assms e m by (cases x) (auto simp: run_replay_loop_def Let_def dest!: replay_loop_model)
qed

lemma replay_deterministically_model:
  assumes "replay_deterministically B ops R msgs hdl ctx w = Some (r, w', puts, det)"
  shows "model_part w' = model_part w"
proof (cases "run_replay_loop B ops R msgs hdl ctx w")
  case (Some x)
  obtain r1 w1 puts1 where x: "x = (r1, w1, puts1)" by (cases x)
  with Some have "model_part w1 = model_part w" by (simp add: run_replay_loop_model)
  with assms Some x show ?thesis
    by (cases r1) (auto simp: replay_deterministically_def Let_def split: sum.splits if_splits)
qed (use assms in \<open>auto simp: replay_deterministically_def Let_def split: sum.splits if_splits\<close>)

lemma restore_for_replay_model:
  "restore_checkpoint_for_replay ops i infos cs w = Some (r, w', rng) \<Longrightarrow> model_part w' = model_part w"
  by (auto simp: restore_checkpoint_for_replay_def split: option.splits sum.splits)

section \<open>Attaching\<close>

lemma index_components_bound: "(k, i) \<in> set (index_components n cs) \<Longrightarrow> i < n + length cs"
  by (induction n cs rule: index_components.induct) auto

lemma fold_update_range:
  "map_of (fold (\<lambda>(k, i) m. AList.update k i m) kis al) k = Some i \<Longrightarrow> (k, i) \<in> set kis \<or> map_of al k = Some i"
  by (induction kis arbitrary: al) (fastforce simp: update_conv' split: if_splits)+

lemma build_component_index_bound:
  "map_of (build_component_index cmap) k = Some i \<Longrightarrow> i < length (cm_components cmap)"
  using fold_update_range [of "index_components 0 (cm_components cmap)" "[]" k i] index_components_bound [of k i 0]
  by (auto simp: build_component_index_def)

lemma install_model_ok: "worker_ok w \<Longrightarrow> worker_ok (install_model info cmap paths rank w)"
  using build_component_index_bound by (auto simp: worker_ok_def install_model_def split: option.splits)

lemma release_ring_model: "release_ring os w objs = Some (w', objs') \<Longrightarrow> model_part w' = model_part w"
  by (auto simp: release_ring_def split: option.splits)

lemma create_arena_ok: "create_arena E L dt info w = Some w' \<Longrightarrow> worker_ok w \<Longrightarrow> worker_ok w'"
  using new_inv by (auto simp: create_arena_def worker_ok_def split: option.splits sum.splits)

section \<open>Replies\<close>

definition answers :: "'v request \<Rightarrow> 'v response \<Rightarrow> bool" where
  "answers rq resp \<longleftrightarrow> rs_id resp = rq_id rq \<and> (rs_result resp = None) \<noteq> (rs_error resp = None)"

named_theorems answer_simps \<open>the replies the handlers build\<close>

lemma answers_basic [answer_simps]:
  "answers rq (Response_success (rq_id rq) v)" "answers rq (Response_error (rq_id rq) e)"
  by (simp_all add: answers_def Response_success_def Response_error_def)

lemma answers_replies [answer_simps]:
  "answers rq (internal_error (rq_id rq) m)" "answers rq (bare_error (rq_id rq) c m)"
  "answers rq (data_response (rq_id rq) d)" "answers rq (worker_reply (rq_id rq) r)"
  "answers rq (view_error (rq_id rq) m)" "answers rq (checkpoint_reply K (rq_id rq) x)"
  by (auto simp: internal_error_def bare_error_def data_response_def worker_reply_def view_error_def checkpoint_reply_def
      answers_basic split: sum.split)

lemma answers_result [answer_simps]:
  "answers rq (case r of Inl e \<Rightarrow> internal_error (rq_id rq) (f e) | Inr v \<Rightarrow> worker_reply (rq_id rq) (g v))"
  by (cases r) (simp_all add: answers_replies)

lemma answers_params [answer_simps]: "worker_params C de rq = Inl resp \<Longrightarrow> answers rq resp"
  by (auto simp: worker_params_def answer_simps split: sum.splits)

text \<open>A handler keeps the promise on \<open>(reply, worker)\<close> when the worker stays well-formed and the reply answers.\<close>

definition promise :: "'v request \<Rightarrow> 'v response \<Rightarrow> 't worker_state \<Rightarrow> bool" where
  "promise rq resp w \<longleftrightarrow> worker_ok w \<and> answers rq resp"

lemma promise_model:
  "model_part w' = model_part w \<Longrightarrow> worker_ok w \<Longrightarrow> answers rq resp \<Longrightarrow> promise rq resp w'"
  using worker_ok_model_part [of w' w] by (simp add: promise_def)

section \<open>The handlers\<close>

lemma step_promise:
  assumes "handle_host_step B C secs ns setup msgs rq w = Some (resp, w', puts)" "worker_ok w"
  shows "promise rq resp w'"
proof (cases "worker_params C (wc_step C) rq")
  case (Inr req)
  with assms show ?thesis
    by (cases "validate_handle w (hsq_model_handle req)")
      (auto simp: handle_host_step_def answer_simps intro: promise_model dest!: run_step_loop_model split: if_splits)
qed (use assms in \<open>auto simp: handle_host_step_def promise_def answer_simps\<close>)

lemma update_probes_promise:
  "handle_host_update_probes render C rq w = (resp, w') \<Longrightarrow> worker_ok w \<Longrightarrow> promise rq resp w'"
  by (auto simp: handle_host_update_probes_def Let_def promise_def worker_ok_def answer_simps split: sum.splits)

lemma kv_intervene_promise:
  "handle_host_kv_intervene C rq w = (resp, w') \<Longrightarrow> worker_ok w \<Longrightarrow> promise rq resp w'"
  by (auto simp: handle_host_kv_intervene_def answer_simps intro: promise_model split: sum.splits prod.splits)

lemma readonly_answers:
  "answers rq (handle_host_configure_hooks C rq)" "answers rq (handle_host_kv_read F C rq w)"
  "answers rq (handle_host_view E C H rq w)" "handle_host_export_env E C H rq = Some resp \<Longrightarrow> answers rq resp"
  by (auto simp: handle_host_configure_hooks_def handle_host_kv_read_def handle_host_view_def handle_host_export_env_def
      answer_simps split: sum.splits option.splits)

lemma inspect_promise:
  assumes "handle_host_inspect render B E C H rq w objs = Some (resp, w', objs')" "worker_ok w"
  shows "promise rq resp w'"
proof (cases "worker_params C (hc_inspect H) rq")
  case (Inr req)
  with assms show ?thesis
    by (cases "validate_handle w (hiq_model_handle req)")
      (auto simp: handle_host_inspect_def Let_def answer_simps intro!: promise_model [of _ w] split: option.splits if_splits)
qed (use assms in \<open>auto simp: handle_host_inspect_def promise_def answer_simps\<close>)

lemma attach_promise:
  assumes "handle_host_attach E L C H rq w objs = Some (resp, w', objs')" "worker_ok w"
  shows "promise rq resp w'"
  using assms
  by (auto simp: handle_host_attach_def answer_simps bind_eq_Some_conv promise_def
      dest!: release_ring_model create_arena_ok worker_ok_model_part
      simp: install_model_ok worker_ok_model_part [OF model_part_simps(5)] split: sum.splits)

lemma detach_promise:
  assumes "handle_host_detach E C H rq w objs = Some (resp, w', objs', fx)" "worker_ok w"
  shows "promise rq resp w'"
  using assms
  by (auto simp: handle_host_detach_def Let_def answer_simps promise_def release_ring_def worker_ok_def split: sum.splits option.splits)

lemma checkpoint_promise:
  assumes "handle_host_checkpoint ops C K rq w dir = Some (resp, w', dir', rng)" "worker_ok w"
  shows "promise rq resp w'"
  using assms
  by (auto simp: handle_host_checkpoint_def Let_def answer_simps promise_def worker_ok_def dest: create_checkpoint_inv
      split: sum.splits option.splits if_splits host_checkpoint_request.splits)

lemma replay_promise:
  assumes "handle_host_replay B ops R C V msgs rq w = Some (resp, w', fx)" "worker_ok w"
  shows "promise rq resp w'"
proof (cases "worker_params C (vc_replay V) rq")
  case req: (Inr req)
  show ?thesis
  proof (cases "validate_handle w (hrq_model_handle req)")
    case (Inr hdl)
    let ?cs = "build_layer_container_map [] (ws_container_paths w)"
    have here: "promise rq r w" if "answers rq r" for r using that assms(2) by (simp add: promise_def)
    show ?thesis
    proof (cases "\<exists>a infos. ws_checkpoint_arena w = Some a \<and> slot_info_for_checkpoint (hrq_checkpoint_id req) a = Some infos \<and>
        infos \<noteq> [] \<and> ws_last_outputs w \<noteq> None")
      case False
      with assms(1) Inr req here show ?thesis
        by (auto simp: handle_host_replay_def Let_def answer_simps split: option.splits if_splits)
    next
      case True
      then obtain a infos where a: "ws_checkpoint_arena w = Some a" "infos \<noteq> []" "ws_last_outputs w \<noteq> None"
        "slot_info_for_checkpoint (hrq_checkpoint_id req) a = Some infos" by blast
      then obtain x w1 rng where r: "restore_checkpoint_for_replay ops (hrq_checkpoint_id req) infos ?cs w = Some (x, w1, rng)"
        using assms(1) Inr req by (fastforce simp: handle_host_replay_def split: option.splits)
      have m: "model_part w1 = model_part w" by (rule restore_for_replay_model [OF r])
      show ?thesis
        using assms(1) Inr req a r m assms(2)
        by (cases x) (auto simp: handle_host_replay_def answer_simps dest!: replay_deterministically_model
            intro!: promise_model [of _ w])
    qed
  qed (use assms req in \<open>auto simp: handle_host_replay_def promise_def answer_simps\<close>)
qed (use assms in \<open>auto simp: handle_host_replay_def promise_def answer_simps\<close>)

section \<open>Runs of the worker\<close>

lemma worker_dispatch_promise:
  assumes "worker_dispatch S rq ww = Some (resp, ww', fx)" "worker_ok (ww_worker ww)"
  shows "promise rq resp (ww_worker ww')"
proof -
  have same: "promise rq r (ww_worker ww)" if "answers rq r" for r using that assms(2) by (simp add: promise_def)
  show ?thesis
    using assms(1) same
    by (auto simp: worker_dispatch_def Let_def answer_simps readonly_answers split: if_splits prod.splits
        intro: attach_promise [OF _ assms(2)] detach_promise [OF _ assms(2)] step_promise [OF _ assms(2)]
          update_probes_promise [OF _ assms(2)] inspect_promise [OF _ assms(2)] kv_intervene_promise [OF _ assms(2)]
          checkpoint_promise [OF _ assms(2)] replay_promise [OF _ assms(2)])
qed

fun worker_run ::
  "(('t, 'v) surroundings \<times> 'v request) list \<Rightarrow> 't worker_world \<Rightarrow> ('v response list \<times> 't worker_world) option" where
  "worker_run [] ww = Some ([], ww)"
| "worker_run ((S, rq) # calls) ww =
     (case worker_dispatch S rq ww of
        None \<Rightarrow> None
      | Some (resp, ww', _) \<Rightarrow> map_option (\<lambda>(resps, ww''). (resp # resps, ww'')) (worker_run calls ww'))"

lemma worker_run_ok:
  assumes "worker_run calls ww = Some (resps, ww')" "worker_ok (ww_worker ww)"
  shows "worker_ok (ww_worker ww') \<and> list_all2 (\<lambda>(S, rq) resp. answers rq resp) calls resps"
  using assms
proof (induction calls arbitrary: ww resps)
  case (Cons c calls)
  obtain S rq where c: "c = (S, rq)" by (cases c)
  with Cons.prems obtain resp w1 fx rs where d: "worker_dispatch S rq ww = Some (resp, w1, fx)"
    "worker_run calls w1 = Some (rs, ww')" "resps = resp # rs"
    by (auto split: option.splits)
  from worker_dispatch_promise [OF d(1) Cons.prems(2)] have "worker_ok (ww_worker w1)" "answers rq resp"
    by (simp_all add: promise_def)
  with Cons.IH [OF d(2)] c d(3) show ?case by simp
qed simp

lemma step_total:
  assumes "worker_ok w" "\<And>req. worker_params C (wc_step C) rq = Ok req \<Longrightarrow> whole_targets req"
  shows "handle_host_step B C secs ns setup msgs rq w \<noteq> None"
proof
  assume "handle_host_step B C secs ns setup msgs rq w = None"
  then obtain req hdl where "worker_params C (wc_step C) rq = Ok req" "run_step_loop B secs ns setup msgs hdl req w = None"
    by (auto simp: handle_host_step_def split: sum.splits if_splits)
  then show False using run_step_loop_total [OF assms(1)] assms(2) by blast
qed

text \<open>
  The requests during which the worker may panic: those that create, release or use the shared memory,
  the arena or the export environment, and a step with a recipe for one attention head. Every other request is
  always answered.
\<close>

definition may_panic :: "('t, 'v) surroundings \<Rightarrow> 'v request \<Rightarrow> bool" where
  "may_panic S rq \<longleftrightarrow>
     rq_method rq \<in> {i_HOST_ATTACH, i_HOST_DETACH, i_HOST_INSPECT, i_HOST_EXPORT_ENV, i_HOST_CHECKPOINT, i_HOST_REPLAY} \<or>
     rq_method rq = i_HOST_STEP \<and>
       (\<exists>req. worker_params (su_codec S) (wc_step (su_codec S)) rq = Ok req \<and> \<not> whole_targets req)"

lemma worker_dispatch_panics:
  assumes "worker_ok (ww_worker ww)" "worker_dispatch S rq ww = None"
  shows "may_panic S rq"
proof (rule ccontr)
  assume safe: "\<not> may_panic S rq"
  show False
  proof (cases "rq_method rq = i_HOST_STEP")
    case True
    then have whole: "worker_params (su_codec S) (wc_step (su_codec S)) rq = Ok req \<Longrightarrow> whole_targets req" for req
      using safe by (auto simp: may_panic_def)
    have "handle_host_step (su_bridge S) (su_codec S) secs ns start msgs rq (ww_worker ww) \<noteq> None" for secs ns start msgs
      by (rule step_total [OF assms(1) whole])
    then show False
      using assms(2) True by (auto simp: worker_dispatch_def Let_def i_HOST_STEP_def i_HOST_ATTACH_def i_HOST_DETACH_def
          i_HOST_CONFIGURE_HOOKS_def simp del: not_None_eq)
  next
    case False
    then show False
      using assms(2) safe by (auto simp: worker_dispatch_def may_panic_def Let_def split: if_splits prod.splits)
  qed
qed

lemma worker_run_sound:
  assumes "worker_ok (ww_worker ww)"
  shows "\<exists>served rest resps ww'. calls = served @ rest \<and> worker_run served ww = Some (resps, ww') \<and>
    list_all2 (\<lambda>(S, rq) resp. answers rq resp) served resps \<and> worker_ok (ww_worker ww') \<and>
    (rest = [] \<or> (\<exists>S rq later. rest = (S, rq) # later \<and> worker_dispatch S rq ww' = None \<and> may_panic S rq))"
  using assms
proof (induction calls arbitrary: ww)
  case Nil
  then show ?case by (intro exI [of _ "[]"]) simp
next
  case (Cons c calls)
  obtain S rq where c: "c = (S, rq)" by (cases c)
  show ?case
  proof (cases "worker_dispatch S rq ww")
    case None
    then have "may_panic S rq" by (rule worker_dispatch_panics [OF Cons.prems])
    with None Cons.prems show ?thesis
      by (intro exI [of _ "[]"] exI [of _ "c # calls"] exI [of _ ww]) (simp add: c)
  next
    case (Some x)
    obtain resp ww1 fx where x: "x = (resp, ww1, fx)" by (cases x)
    have "worker_ok (ww_worker ww1)" "answers rq resp"
      using worker_dispatch_promise [OF Some [unfolded x] Cons.prems] by (simp_all add: promise_def)
    moreover from Cons.IH [OF this(1)] obtain served rest resps ww' where "calls = served @ rest"
      "worker_run served ww1 = Some (resps, ww')" "list_all2 (\<lambda>(S, rq) resp. answers rq resp) served resps" "worker_ok (ww_worker ww')"
      "rest = [] \<or> (\<exists>S rq later. rest = (S, rq) # later \<and> worker_dispatch S rq ww' = None \<and> may_panic S rq)"
      by blast
    ultimately show ?thesis
      using Some x by (intro exI [of _ "c # served"] exI [of _ rest] exI [of _ "resp # resps"] exI [of _ ww']) (simp add: c)
  qed
qed

text \<open>C26: a worker process is type sound. Whatever requests it is sent and whatever the Python side
  answers, from its start it serves them one after the other, all of them or up to one during which it
  panics. Every request it served is answered by one reply with its identifier that carries either a result or
  an error, and the worker stays well-formed: its arena is consistent, a component map is present exactly
  while a model is loaded, and every entry of the component index is a component of that map. A request during
  which it panics attaches, detaches, inspects, checkpoints, replays or exports the environment, or it is
  a step with a recipe whose target has a bracket in its component; all other requests, steps
  included, are always answered.
\<close>

theorem worker_type_sound:
  "\<exists>served rest resps ww. calls = served @ rest \<and>
     worker_run served \<lparr>ww_worker = WorkerState_new, ww_objects = objs, ww_spill = dir\<rparr> = Some (resps, ww) \<and>
     list_all2 (\<lambda>(S, rq) resp. answers rq resp) served resps \<and> worker_ok (ww_worker ww) \<and>
     (rest = [] \<or> (\<exists>S rq later. rest = (S, rq) # later \<and> worker_dispatch S rq ww = None \<and> may_panic S rq))"
  using worker_run_sound [of "\<lparr>ww_worker = WorkerState_new, ww_objects = objs, ww_spill = dir\<rparr>" calls]
  by (simp add: worker_ok_new)

section \<open>Targets with an open bracket\<close>

text \<open>C38: an inspection whose target has a component that ends with its first opening bracket, such as
  \<^verbatim>\<open>gpt2:*:*:o_proj[:output\<close>, brings the worker down as soon as some component of the loaded model matches the target. The
  bracket is stripped when the target is matched against the components, so all of that name do, and
  the head index is then read from a slice that starts after its end.
\<close>

theorem open_bracket_panics:
  assumes "rq_method rq = i_HOST_INSPECT" "worker_params (su_codec S) (hc_inspect (su_host_codec S)) rq = Ok req"
    and "ws_model_handle (ww_worker ww) = Some (hiq_model_handle req)" "ws_component_map (ww_worker ww) = Some cmap"
    and "c \<in> set (cm_components cmap)" "probe_matches_target (su_render S) (ma_probe_point c) (hiq_target req)"
    and "split_on CHR '':'' (hiq_target req) = [family_seg, rank_seg, layer_seg, name @ ''['', event_seg]" "CHR ''['' \<notin> set name"
  shows "worker_dispatch S rq ww = None"
proof -
  have "filter (\<lambda>c. probe_matches_target (su_render S) (ma_probe_point c) (hiq_target req)) (cm_components cmap) \<noteq> []"
    using assms(5,6) by (auto simp: filter_empty_conv)
  moreover have "extract_head_index (hiq_target req) = None" by (rule open_bracket_head [OF assms(7,8)])
  ultimately have "handle_host_inspect (su_render S) B E (su_codec S) (su_host_codec S) rq (ww_worker ww) objs = None" for B E objs
    using assms(2-4) by (simp add: handle_host_inspect_def validate_handle_def Let_def)
  then show ?thesis
    using assms(1) by (simp add: worker_dispatch_def Let_def i_HOST_INSPECT_def i_HOST_STEP_def i_HOST_ATTACH_def i_HOST_DETACH_def
        i_HOST_CONFIGURE_HOOKS_def i_HOST_UPDATE_PROBES_def)
qed

definition bracket_world :: "nat worker_world" where
  "bracket_world = \<lparr>ww_worker = WorkerState_new\<lparr>ws_model_handle := Some 1, ws_component_map := Some
       \<lparr>cm_components = [\<lparr>ma_module_path = ''h.3.attn.c_proj'', ma_canonical = ''o_proj'', ma_layer_index = Some 3,
          ma_call_index = 0, ma_mapping = Direct ''o_proj'', ma_probe_point = probe_point_text ''gpt2'' 0 3 ''o_proj''\<rparr>],
        cm_model_family = ''gpt2'', cm_vocabulary = []\<rparr>\<rparr>,
     ww_objects = Map.empty, ww_spill = Map.empty\<rparr>"

theorem open_bracket_panics_witness:
  "\<forall>S :: (nat, nat) surroundings. worker_dispatch
     (S\<lparr>su_host_codec := (su_host_codec S)\<lparr>hc_inspect := (\<lambda>_. Ok \<lparr>hiq_model_handle = 1, hiq_target = ''gpt2:*:*:o_proj[:output'', hiq_detail = Detail_Summary, hiq_slices = None\<rparr>)\<rparr>\<rparr>)
     \<lparr>rq_jsonrpc = ''2.0'', rq_id = IdNumber 7, rq_method = i_HOST_INSPECT, rq_params = None\<rparr> bracket_world = None"
proof
  fix S :: "(nat, nat) surroundings"
  let ?req = "\<lparr>hiq_model_handle = 1, hiq_target = ''gpt2:*:*:o_proj[:output'', hiq_detail = Detail_Summary, hiq_slices = None\<rparr>"
  let ?S = "S\<lparr>su_host_codec := (su_host_codec S)\<lparr>hc_inspect := (\<lambda>_. Ok ?req)\<rparr>\<rparr>"
  let ?rq = "\<lparr>rq_jsonrpc = ''2.0'', rq_id = IdNumber 7, rq_method = i_HOST_INSPECT, rq_params = None\<rparr> :: nat request"
  have ids: "is_identifier ''gpt2''" "is_identifier ''o_proj''"
    by (simp_all add: is_identifier_def ident_char_def is_ascii_alphanumeric_def is_ascii_alphabetic_def is_ascii_digit_def)
  have target: "open_bracket_target ''gpt2'' ''o_proj'' = ''gpt2:*:*:o_proj[:output''" by (simp add: open_bracket_target_def)
  note facts = open_bracket_matches [OF ids, of "su_render ?S" 0 3] open_bracket_split [OF ids]
  have "worker_params (su_codec ?S) (hc_inspect (su_host_codec ?S)) ?rq = Ok ?req" by (simp add: worker_params_def)
  then show "worker_dispatch ?S ?rq bracket_world = None"
    using facts [unfolded target] by (intro open_bracket_panics) (auto simp: bracket_world_def)
qed

end
