(* ===== verification/Worker_Replay_Contract.thy ===== *)
theory Worker_Replay_Contract
  imports Worker_Contract Worker_Step_Contract
begin






definition outputs_in :: "((string \<times> u32) \<times> 't) set \<Rightarrow> 't worker_state \<Rightarrow> bool" where
  "outputs_in X w \<longleftrightarrow> (\<forall>lo. ws_last_outputs w = Some lo \<longrightarrow> set lo \<subseteq> X)"



lemma outputs_in_frame [simp]:
  "outputs_in X (w\<lparr>ws_tick_state := ts\<rparr>) = outputs_in X w" "outputs_in X (w\<lparr>ws_forward_pass := fp\<rparr>) = outputs_in X w"
  by (simp_all add: outputs_in_def)




end
