(* ===== verification/Transport.thy ===== *)
theory Transport
  imports Framing Protocol_Errors
begin

text \<open>
  Requests and responses over a pair of byte streams: \<^verbatim>\<open>crates/rocket-surgeon-transport/src/lib.rs\<close> and \<^verbatim>\<open>stdio.rs\<close>.
  \<^verbatim>\<open>serde_json\<close> between messages and text is the record \<open>json_text\<close>. A failing write is given with its
  error text and the number of bytes that got through, and what a failed read leaves of its stream is
  an argument. The locale \<open>framed_channel\<close> is what the processes rely on: a message that the encoder
  carries arrives as it was sent, and nothing else is consumed.
\<close>

section \<open>Errors and messages as text\<close>

datatype transport_error =
    TE_Framing framing_error
  | TE_Write string
  | TE_Json string
  | TE_Closed

text \<open>\<^verbatim>\<open>TE_Write\<close> is a framing error of the code that holds the input/output error of a write.\<close>

fun show_framing_error :: "(io_kind \<Rightarrow> string) \<Rightarrow> framing_error \<Rightarrow> string" where
  "show_framing_error io MissingContentLength = ''missing Content-Length header''"
| "show_framing_error io InvalidContentLength = ''invalid Content-Length value''"
| "show_framing_error io (MessageTooLarge n) =
     ''message too large ('' @ show_nat n @ '' bytes, max '' @ show_nat MAX_MESSAGE_BYTES @ '')''"
| "show_framing_error io (FrameIo k) = io k"

fun show_transport_error :: "(io_kind \<Rightarrow> string) \<Rightarrow> transport_error \<Rightarrow> string" where
  "show_transport_error io (TE_Framing e) = ''framing error: '' @ show_framing_error io e"
| "show_transport_error io (TE_Write e) = ''framing error: '' @ e"
| "show_transport_error io (TE_Json e) = ''JSON error: '' @ e"
| "show_transport_error io TE_Closed = ''transport closed''"

record 'v json_text =
  jt_request :: "'v request \<Rightarrow> (string, string) result"
  jt_response :: "'v response \<Rightarrow> (string, string) result"
  jf_request :: "string \<Rightarrow> (string, 'v request) result"
  jf_response :: "string \<Rightarrow> (string, 'v response) result"
  jt_parse_error :: "string \<Rightarrow> string"
  jt_serialize_error :: "string \<Rightarrow> string"
  jt_insert :: "string \<Rightarrow> u32 \<Rightarrow> 'v \<Rightarrow> 'v"

type_synonym write_outcome = "(string \<times> nat) option"

section \<open>The two ends\<close>

text \<open>Writing a message: the text or the error of its encoder, and the bytes that reach the stream.\<close>

definition send_text :: "write_outcome \<Rightarrow> (string, string) result \<Rightarrow> (transport_error, unit) result \<times> string" where
  "send_text out text =
     (case text of
        Inl e \<Rightarrow> (Err (TE_Json e), [])
      | Inr json \<Rightarrow>
          (case out of
             Some (e, n) \<Rightarrow> (Err (TE_Write e), take n (write_message json))
           | None \<Rightarrow> (Ok (), write_message json)))"

definition recv_text ::
  "(string \<Rightarrow> string) \<Rightarrow> (string \<Rightarrow> (string, 'm) result) \<Rightarrow> string \<Rightarrow> (transport_error, 'm) result \<times> string" where
  "recv_text left de s =
     (case read_message s of
        Inl e \<Rightarrow> (Err (TE_Framing e), left s)
      | Inr (json, rest) \<Rightarrow> (case de json of Inl e \<Rightarrow> Err (TE_Json e) | Inr m \<Rightarrow> Ok m, rest))"

record StdioTransport =
  st_reader :: string
  st_writer :: string

definition StdioTransport_new :: "string \<Rightarrow> string \<Rightarrow> StdioTransport" where
  "StdioTransport_new reader writer = \<lparr>st_reader = reader, st_writer = writer\<rparr>"

definition stdio_send_request ::
  "'v json_text \<Rightarrow> write_outcome \<Rightarrow> 'v request \<Rightarrow> StdioTransport \<Rightarrow> (transport_error, unit) result \<times> StdioTransport" where
  "stdio_send_request J out rq t =
     (case send_text out (jt_request J rq) of (r, bs) \<Rightarrow> (r, t\<lparr>st_writer := st_writer t @ bs\<rparr>))"

definition stdio_send_response ::
  "'v json_text \<Rightarrow> write_outcome \<Rightarrow> 'v response \<Rightarrow> StdioTransport \<Rightarrow> (transport_error, unit) result \<times> StdioTransport" where
  "stdio_send_response J out resp t =
     (case send_text out (jt_response J resp) of (r, bs) \<Rightarrow> (r, t\<lparr>st_writer := st_writer t @ bs\<rparr>))"

definition stdio_recv_request ::
  "'v json_text \<Rightarrow> (string \<Rightarrow> string) \<Rightarrow> StdioTransport \<Rightarrow> (transport_error, 'v request) result \<times> StdioTransport" where
  "stdio_recv_request J left t =
     (case recv_text left (jf_request J) (st_reader t) of (r, rest) \<Rightarrow> (r, t\<lparr>st_reader := rest\<rparr>))"

definition stdio_recv_response ::
  "'v json_text \<Rightarrow> (string \<Rightarrow> string) \<Rightarrow> StdioTransport \<Rightarrow> (transport_error, 'v response) result \<times> StdioTransport" where
  "stdio_recv_response J left t =
     (case recv_text left (jf_response J) (st_reader t) of (r, rest) \<Rightarrow> (r, t\<lparr>st_reader := rest\<rparr>))"

section \<open>The contract\<close>

text \<open>A message is carried when its text is valid, within the limit and decodes to the message.\<close>

definition carried :: "('m \<Rightarrow> (string, string) result) \<Rightarrow> (string \<Rightarrow> (string, 'm) result) \<Rightarrow> 'm \<Rightarrow> bool" where
  "carried en de m \<longleftrightarrow>
     (case en m of Inl _ \<Rightarrow> False | Inr j \<Rightarrow> utf8_valid j \<and> length j \<le> MAX_MESSAGE_BYTES \<and> de j = Ok m)"

definition carried_request :: "'v json_text \<Rightarrow> 'v request \<Rightarrow> bool" where
  "carried_request J = carried (jt_request J) (jf_request J)"

definition carried_response :: "'v json_text \<Rightarrow> 'v response \<Rightarrow> bool" where
  "carried_response J = carried (jt_response J) (jf_response J)"

primrec recv_many :: "('s \<Rightarrow> ('e, 'm) result \<times> 's) \<Rightarrow> nat \<Rightarrow> 's \<Rightarrow> ('e, 'm) result list \<times> 's" where
  "recv_many recv 0 s = ([], s)"
| "recv_many recv (Suc n) s = (let (r, s') = recv s; (rs, s'') = recv_many recv n s' in (r # rs, s''))"

locale framed_channel =
  fixes carries :: "'c \<Rightarrow> 'm \<Rightarrow> bool"
    and sent :: "'c \<Rightarrow> 'm \<Rightarrow> string"
    and recv :: "'c \<Rightarrow> string \<Rightarrow> ('e, 'm) result \<times> string"
  assumes recv_sent: "carries c m \<Longrightarrow> recv c (sent c m @ s) = (Ok m, s)"
begin

lemma recv_stream:
  "list_all (carries c) ms \<Longrightarrow> recv_many (recv c) (length ms) (concat (map (sent c) ms) @ s) = (map Ok ms, s)"
  by (induction ms) (simp_all add: recv_sent)

lemma sent_inj:
  assumes "carries c m" "carries c m'" "sent c m @ s = sent c m' @ s'"
  shows "m = m' \<and> s = s'"
proof -
  have "(Ok m, s) = recv c (sent c m @ s)" by (simp only: recv_sent [OF assms(1)])
  also have "\<dots> = (Ok m', s')" by (simp only: assms(3) recv_sent [OF assms(2)])
  finally show ?thesis by simp
qed

end

lemma recv_carried:
  assumes "carried en de m"
  shows "recv_text left de (snd (send_text None (en m)) @ s) = (Ok m, s)"
  using assms by (auto simp: carried_def recv_text_def send_text_def read_written split: sum.splits)

lemma send_carried: "carried en de m \<Longrightarrow> fst (send_text None (en m)) = Ok ()"
  by (auto simp: carried_def send_text_def split: sum.splits)

definition request_frame :: "'v json_text \<Rightarrow> 'v request \<Rightarrow> string" where
  "request_frame J rq = st_writer (snd (stdio_send_request J None rq (StdioTransport_new [] [])))"

definition response_frame :: "'v json_text \<Rightarrow> 'v response \<Rightarrow> string" where
  "response_frame J resp = st_writer (snd (stdio_send_response J None resp (StdioTransport_new [] [])))"

lemma request_frame_text: "request_frame J rq = snd (send_text None (jt_request J rq))"
  by (simp add: request_frame_def stdio_send_request_def StdioTransport_new_def split: prod.split)

lemma response_frame_text: "response_frame J resp = snd (send_text None (jt_response J resp))"
  by (simp add: response_frame_def stdio_send_response_def StdioTransport_new_def split: prod.split)

interpretation requests: framed_channel "\<lambda>(J, _). carried_request J" "\<lambda>(J, _). request_frame J"
  "\<lambda>(J, left) s. map_prod id st_reader (stdio_recv_request J left (StdioTransport_new s []))"
  by unfold_locales
    (auto simp: carried_request_def request_frame_text stdio_recv_request_def StdioTransport_new_def recv_carried)

interpretation responses: framed_channel "\<lambda>(J, _). carried_response J" "\<lambda>(J, _). response_frame J"
  "\<lambda>(J, left) s. map_prod id st_reader (stdio_recv_response J left (StdioTransport_new s []))"
  by unfold_locales
    (auto simp: carried_response_def response_frame_text stdio_recv_response_def StdioTransport_new_def recv_carried)

end
