(* ===== verification/Orchestrator.thy ===== *)
theory Orchestrator
  imports Transport Worker_Dispatch
begin

text \<open>
  The orchestrator process, \<^verbatim>\<open>crates/rocket-surgeon-orchestrator/src\<close>: its handle on a worker process
  (\<^verbatim>\<open>worker_handle.rs\<close>), its dispatcher (\<^verbatim>\<open>dispatch.rs\<close>) and its main loop (\<^verbatim>\<open>main.rs\<close>). The worker is another
  process with a state of an arbitrary type: what it writes in answer to bytes on its standard input is
  \<open>pe_react\<close>, in the record \<open>proc_env\<close> of what surrounds one request. The table of the children that were
  spawned and not yet waited for is kept beside the state, as the list of their process identifiers. A
  dropped handle kills its worker and waits for it.
\<close>

section \<open>The worker process\<close>

record 'p WorkerHandle =
  wk_pid :: u32
  wk_process :: 'p
  wk_unread :: string

record 'p proc_env =
  pe_spawn :: "string \<Rightarrow> string \<Rightarrow> (string, u32 \<times> 'p) result"
  pe_alive :: "'p \<Rightarrow> bool"
  pe_write :: write_outcome
  pe_react :: "string \<Rightarrow> 'p \<Rightarrow> string \<times> 'p"
  pe_left :: "string \<Rightarrow> string"
  pe_io :: "io_kind \<Rightarrow> string"
  pe_reply :: write_outcome

type_synonym children = "u32 list"

definition worker_spawn ::
  "'p proc_env \<Rightarrow> string \<Rightarrow> string \<Rightarrow> children \<Rightarrow> (string, 'p WorkerHandle) result \<times> children" where
  "worker_spawn P worker_bin log_level ch =
     (case pe_spawn P worker_bin log_level of
        Inl e \<Rightarrow> (Err e, ch)
      | Inr (pid, p) \<Rightarrow> (Ok \<lparr>wk_pid = pid, wk_process = p, wk_unread = []\<rparr>, pid # ch))"

definition worker_send ::
  "'v json_text \<Rightarrow> 'p proc_env \<Rightarrow> 'v request \<Rightarrow> 'p WorkerHandle \<Rightarrow> (transport_error, unit) result \<times> 'p WorkerHandle" where
  "worker_send J P rq wk =
     (case send_text (pe_write P) (jt_request J rq) of
        (r, bs) \<Rightarrow> (case pe_react P bs (wk_process wk) of
           (out, p) \<Rightarrow> (r, wk\<lparr>wk_process := p, wk_unread := wk_unread wk @ out\<rparr>)))"

definition worker_recv ::
  "'v json_text \<Rightarrow> 'p proc_env \<Rightarrow> 'p WorkerHandle \<Rightarrow> (transport_error, 'v response) result \<times> 'p WorkerHandle" where
  "worker_recv J P wk =
     (case recv_text (pe_left P) (jf_response J) (wk_unread wk) of (r, rest) \<Rightarrow> (r, wk\<lparr>wk_unread := rest\<rparr>))"

text \<open>\<^verbatim>\<open>try_wait\<close> takes a worker that has exited out of the table; killing waits for it.\<close>

definition is_alive :: "'p proc_env \<Rightarrow> 'p WorkerHandle \<Rightarrow> children \<Rightarrow> bool \<times> children" where
  "is_alive P wk ch = (if pe_alive P (wk_process wk) then (True, ch) else (False, removeAll (wk_pid wk) ch))"

definition worker_kill :: "'p WorkerHandle \<Rightarrow> children \<Rightarrow> children" where
  "worker_kill wk ch = removeAll (wk_pid wk) ch"

section \<open>The dispatcher\<close>

record 'p OrchestratorState =
  or_worker :: "'p WorkerHandle option"
  or_worker_bin :: string
  or_log_level :: string

definition transport_failed :: "'p proc_env \<Rightarrow> request_id \<Rightarrow> string \<Rightarrow> transport_error \<Rightarrow> 'v response" where
  "transport_failed P i what e = bare_error i INTERNAL_ERROR (what @ show_transport_error (pe_io P) e)"

definition stamp_pid :: "'v json_text \<Rightarrow> u32 \<Rightarrow> 'v response \<Rightarrow> 'v response" where
  "stamp_pid J pid resp = resp\<lparr>rs_result := map_option (jt_insert J ''worker_pid'' pid) (rs_result resp)\<rparr>"

definition orchestrator_attach ::
  "'v json_text \<Rightarrow> 'p proc_env \<Rightarrow> 'v request \<Rightarrow> 'p OrchestratorState \<Rightarrow> children
   \<Rightarrow> 'v response \<times> 'p OrchestratorState \<times> children" where
  "orchestrator_attach J P rq st ch =
     (if or_worker st \<noteq> None then (bare_error (rq_id rq) INTERNAL_ERROR ''Worker already running'', st, ch)
      else case worker_spawn P (or_worker_bin st) (or_log_level st) ch of
        (Inl e, ch) \<Rightarrow> (bare_error (rq_id rq) INTERNAL_ERROR (''Failed to spawn worker: '' @ e), st, ch)
      | (Inr wk, ch) \<Rightarrow>
          (case worker_send J P rq wk of
             (Inl e, wk) \<Rightarrow> (transport_failed P (rq_id rq) ''Failed to send request to worker: '' e, st, worker_kill wk ch)
           | (Inr _, wk) \<Rightarrow>
               (case worker_recv J P wk of
                  (Inl e, wk) \<Rightarrow> (transport_failed P (rq_id rq) ''Worker failed during attach: '' e, st, worker_kill wk ch)
                | (Inr resp, wk) \<Rightarrow>
                    if rs_error resp \<noteq> None then (resp, st, worker_kill wk ch)
                    else (stamp_pid J (wk_pid wk) resp, st\<lparr>or_worker := Some wk\<rparr>, ch))))"

text \<open>Whatever the outcome, the worker is taken out of the state and dropped at the end.\<close>

definition orchestrator_detach ::
  "'v json_text \<Rightarrow> 'p proc_env \<Rightarrow> 'v request \<Rightarrow> 'p OrchestratorState \<Rightarrow> children
   \<Rightarrow> 'v response \<times> 'p OrchestratorState \<times> children" where
  "orchestrator_detach J P rq st ch =
     (case or_worker st of
        None \<Rightarrow> (bare_error (rq_id rq) INTERNAL_ERROR ''No worker running'', st, ch)
      | Some wk \<Rightarrow>
          let st = st\<lparr>or_worker := None\<rparr> in
          (case is_alive P wk ch of
             (False, ch) \<Rightarrow>
               (bare_error (rq_id rq) INTERNAL_ERROR ''Worker process is no longer running'', st, worker_kill wk ch)
           | (True, ch) \<Rightarrow>
               (case worker_send J P rq wk of
                  (Inl e, wk) \<Rightarrow> (transport_failed P (rq_id rq) ''Failed to send detach to worker: '' e, st, worker_kill wk ch)
                | (Inr _, wk) \<Rightarrow>
                    (case worker_recv J P wk of
                       (Inr resp, wk) \<Rightarrow> (resp, st, worker_kill wk ch)
                     | (Inl e, wk) \<Rightarrow>
                         (transport_failed P (rq_id rq) ''Worker failed during detach: '' e, st, worker_kill wk ch)))))"

definition forward_to_worker ::
  "'v json_text \<Rightarrow> 'p proc_env \<Rightarrow> 'v request \<Rightarrow> 'p OrchestratorState \<Rightarrow> children
   \<Rightarrow> 'v response \<times> 'p OrchestratorState \<times> children" where
  "forward_to_worker J P rq st ch =
     (case or_worker st of
        None \<Rightarrow> (bare_error (rq_id rq) INTERNAL_ERROR ''No worker running'', st, ch)
      | Some wk \<Rightarrow>
          (case is_alive P wk ch of
             (False, ch) \<Rightarrow>
               (bare_error (rq_id rq) INTERNAL_ERROR ''Worker process is no longer running'', st\<lparr>or_worker := None\<rparr>,
                worker_kill wk ch)
           | (True, ch) \<Rightarrow>
               (case worker_send J P rq wk of
                  (Inl e, wk) \<Rightarrow>
                    (transport_failed P (rq_id rq) ''Failed to send request to worker: '' e, st\<lparr>or_worker := Some wk\<rparr>, ch)
                | (Inr _, wk) \<Rightarrow>
                    (case worker_recv J P wk of
                       (Inr resp, wk) \<Rightarrow> (resp, st\<lparr>or_worker := Some wk\<rparr>, ch)
                     | (Inl e, wk) \<Rightarrow>
                         (transport_failed P (rq_id rq) ''Worker failed: '' e, st\<lparr>or_worker := Some wk\<rparr>, ch)))))"

definition forwarded_methods :: "string list" where
  "forwarded_methods =
     [i_HOST_STEP, i_HOST_CONFIGURE_HOOKS, i_HOST_UPDATE_PROBES, i_HOST_INSPECT, i_HOST_VIEW, i_HOST_KV_READ,
      i_HOST_KV_INTERVENE, i_HOST_EXPORT_ENV, i_HOST_CHECKPOINT, i_HOST_REPLAY]"

definition orchestrator_dispatch ::
  "'v json_text \<Rightarrow> 'p proc_env \<Rightarrow> 'v request \<Rightarrow> 'p OrchestratorState \<Rightarrow> children
   \<Rightarrow> 'v response \<times> 'p OrchestratorState \<times> children" where
  "orchestrator_dispatch J P rq st ch =
     (if rq_method rq = i_HOST_ATTACH then orchestrator_attach J P rq st ch
      else if rq_method rq = i_HOST_DETACH then orchestrator_detach J P rq st ch
      else if rq_method rq \<in> set forwarded_methods then forward_to_worker J P rq st ch
      else (bare_error (rq_id rq) METHOD_NOT_FOUND (''Method not found: '' @ rq_method rq), st, ch))"

section \<open>The main loop\<close>

text \<open>
  One round, from the text of a message to the text of its reply; a reply that cannot be encoded panics.
  The loop ends when its input does or when a reply cannot be written. At the end the state is dropped.
\<close>

definition orchestrator_message ::
  "'v json_text \<Rightarrow> 'p proc_env \<Rightarrow> string \<Rightarrow> 'p OrchestratorState \<Rightarrow> children
   \<Rightarrow> (string \<times> 'p OrchestratorState \<times> children) option" where
  "orchestrator_message J P raw st ch =
     (case jf_request J raw of
        Inl e \<Rightarrow> Some (jt_parse_error J e, st, ch)
      | Inr rq \<Rightarrow>
          (case orchestrator_dispatch J P rq st ch of
             (resp, st, ch) \<Rightarrow>
               (case jt_response J resp of Inl _ \<Rightarrow> None | Inr text \<Rightarrow> Some (text, st, ch))))"

function orchestrator_serve ::
  "'v json_text \<Rightarrow> (nat \<Rightarrow> 'p proc_env) \<Rightarrow> nat \<Rightarrow> string \<Rightarrow> 'p OrchestratorState \<Rightarrow> children
   \<Rightarrow> (string \<times> 'p OrchestratorState \<times> children) option" where
  "orchestrator_serve J Ps n input st ch =
     (case read_message input of
        Inl _ \<Rightarrow> Some ([], st, ch)
      | Inr (raw, rest) \<Rightarrow>
          (case orchestrator_message J (Ps n) raw st ch of
             None \<Rightarrow> None
           | Some (text, st, ch) \<Rightarrow>
               (case pe_reply (Ps n) of
                  Some (e, k) \<Rightarrow> Some (take k (write_message text), st, ch)
                | None \<Rightarrow>
                    map_option (\<lambda>(out, z). (write_message text @ out, z)) (orchestrator_serve J Ps (Suc n) rest st ch))))"
  by pat_completeness auto
termination
  by (relation "measure (\<lambda>(J, Ps, n, input, st, ch). length input)") (auto simp: read_message_shrinks)

declare orchestrator_serve.simps [simp del]

definition drop_state :: "'p OrchestratorState \<Rightarrow> children \<Rightarrow> children" where
  "drop_state st ch = (case or_worker st of None \<Rightarrow> ch | Some wk \<Rightarrow> worker_kill wk ch)"

definition OrchestratorState_start :: "string \<Rightarrow> string \<Rightarrow> 'p OrchestratorState" where
  "OrchestratorState_start worker_bin log_level = \<lparr>or_worker = None, or_worker_bin = worker_bin, or_log_level = log_level\<rparr>"

section \<open>One worker at most\<close>

text \<open>The children not waited for are exactly the worker held in the state.\<close>

definition children_held :: "'p OrchestratorState \<Rightarrow> children \<Rightarrow> bool" where
  "children_held st ch \<longleftrightarrow> ch = (case or_worker st of None \<Rightarrow> [] | Some wk \<Rightarrow> [wk_pid wk])"

lemma worker_pid_kept [simp]:
  "worker_send J P rq wk = (r, wk') \<Longrightarrow> wk_pid wk' = wk_pid wk"
  "worker_recv J P wk = (r', wk') \<Longrightarrow> wk_pid wk' = wk_pid wk"
  by (auto simp: worker_send_def worker_recv_def split: prod.splits)

lemma children_held_simps [simp]:
  "or_worker st = None \<Longrightarrow> children_held st ch \<longleftrightarrow> ch = []"
  "or_worker st = Some wk \<Longrightarrow> children_held st ch \<longleftrightarrow> ch = [wk_pid wk]"
  by (simp_all add: children_held_def)

lemma attach_children:
  assumes "orchestrator_attach J P rq st ch = (resp, st', ch')" "children_held st ch"
  shows "children_held st' ch'" "or_worker st = None \<Longrightarrow> or_worker st' \<noteq> None \<longleftrightarrow> rs_error resp = None"
    "or_worker st \<noteq> None \<Longrightarrow> st' = st \<and> rs_error resp \<noteq> None"
  using assms
  by (auto simp: orchestrator_attach_def worker_spawn_def worker_kill_def bare_error_def transport_failed_def Response_error_def
      stamp_pid_def split: if_splits prod.splits sum.splits)

lemma detach_children:
  assumes "orchestrator_detach J P rq st ch = (resp, st', ch')" "children_held st ch"
  shows "or_worker st' = None" "ch' = []"
  using assms
  by (auto simp: orchestrator_detach_def worker_kill_def is_alive_def Let_def split: if_splits prod.splits sum.splits option.splits bool.splits)

lemma forward_children:
  assumes "forward_to_worker J P rq st ch = (resp, st', ch')" "children_held st ch"
  shows "children_held st' ch'" "or_worker st = None \<Longrightarrow> st' = st \<and> rs_error resp \<noteq> None"
  using assms
  by (auto simp: forward_to_worker_def worker_kill_def is_alive_def bare_error_def Response_error_def
      split: if_splits prod.splits sum.splits option.splits bool.splits)

lemma dispatch_children:
  assumes "orchestrator_dispatch J P rq st ch = (resp, st', ch')" "children_held st ch"
  shows "children_held st' ch'"
  using assms attach_children(1) [of J P rq st ch] detach_children [of J P rq st ch] forward_children(1) [of J P rq st ch]
  by (auto simp: orchestrator_dispatch_def split: if_splits)

lemma serve_children:
  assumes "orchestrator_serve J Ps n input st ch = Some (out, st', ch')" "children_held st ch"
  shows "children_held st' ch'"
  using assms
proof (induction J Ps n input st ch arbitrary: out rule: orchestrator_serve.induct)
  case (1 J Ps n input st ch)
  show ?case
  proof (cases "read_message input")
    case (Inl e)
    with 1(2,3) show ?thesis by (simp add: orchestrator_serve.simps [of J Ps n input])
  next
    case (Inr x)
    then obtain raw rest where rd: "read_message input = Inr (raw, rest)" by (cases x) auto
    with 1(2) obtain reply st1 ch1 where m: "orchestrator_message J (Ps n) raw st ch = Some (reply, st1, ch1)"
      by (auto simp: orchestrator_serve.simps [of J Ps n input] split: option.splits)
    then have held: "children_held st1 ch1"
      using 1(3) by (auto simp: orchestrator_message_def split: sum.splits prod.splits dest: dispatch_children)
    show ?thesis
    proof (cases "pe_reply (Ps n)")
      case None
      with 1(2) rd m obtain out1 where "orchestrator_serve J Ps (Suc n) rest st1 ch1 = Some (out1, st', ch')"
        by (auto simp: orchestrator_serve.simps [of J Ps n input])
      with 1(1) [OF rd refl m refl refl None _ held] show ?thesis by blast
    next
      case (Some y)
      with 1(2) rd m held show ?thesis by (cases y) (auto simp: orchestrator_serve.simps [of J Ps n input])
    qed
  qed
qed

text \<open>C32: the orchestrator never has more than one worker and never loses one. At every point of its
  run, whatever it is sent and whatever happens to its processes, the children it has not waited for
  are exactly the worker it holds. From there, attaching without a worker keeps one exactly when the
  reply is no error, attaching with a worker is refused and changes nothing, after detaching there is no
  worker and no child, and when the orchestrator ends, no child outlives it.
\<close>

theorem orchestrator_no_orphans:
  assumes "orchestrator_serve J Ps 0 input (OrchestratorState_start worker_bin log_level) [] = Some (out, st, ch)"
  shows "ch = (case or_worker st of None \<Rightarrow> [] | Some wk \<Rightarrow> [wk_pid wk]) \<and> drop_state st ch = [] \<and>
    (\<forall>P rq. case orchestrator_dispatch J P rq st ch of (resp, st', ch') \<Rightarrow>
       ch' = (case or_worker st' of None \<Rightarrow> [] | Some wk \<Rightarrow> [wk_pid wk]) \<and>
       (rq_method rq = i_HOST_ATTACH \<longrightarrow>
          (if or_worker st = None then or_worker st' \<noteq> None \<longleftrightarrow> rs_error resp = None
           else st' = st \<and> ch' = ch \<and> rs_error resp \<noteq> None)) \<and>
       (rq_method rq = i_HOST_DETACH \<longrightarrow> or_worker st' = None \<and> ch' = []))"
proof -
  have held: "children_held st ch"
    using serve_children [OF assms] by (simp add: OrchestratorState_start_def)
  have "ch' = (case or_worker st' of None \<Rightarrow> [] | Some wk \<Rightarrow> [wk_pid wk]) \<and>
       (rq_method rq = i_HOST_ATTACH \<longrightarrow>
          (if or_worker st = None then or_worker st' \<noteq> None \<longleftrightarrow> rs_error resp = None
           else st' = st \<and> ch' = ch \<and> rs_error resp \<noteq> None)) \<and>
       (rq_method rq = i_HOST_DETACH \<longrightarrow> or_worker st' = None \<and> ch' = [])"
    if d: "orchestrator_dispatch J P rq st ch = (resp, st', ch')" for P rq resp st' ch'
  proof -
    have ch: "ch' = (case or_worker st' of None \<Rightarrow> [] | Some wk \<Rightarrow> [wk_pid wk])"
      using dispatch_children [OF d held] by (simp add: children_held_def)
    consider "rq_method rq = i_HOST_ATTACH" "orchestrator_attach J P rq st ch = (resp, st', ch')"
      | "rq_method rq = i_HOST_DETACH" "orchestrator_detach J P rq st ch = (resp, st', ch')"
      | "rq_method rq \<noteq> i_HOST_ATTACH" "rq_method rq \<noteq> i_HOST_DETACH"
      using d unfolding orchestrator_dispatch_def by metis
    then show ?thesis
    proof cases
      case 1
      with attach_children [OF 1(2) held] ch held show ?thesis
        by (auto simp: children_held_def i_HOST_ATTACH_def i_HOST_DETACH_def)
    next
      case 2
      with detach_children [OF 2(2) held] ch show ?thesis
        by (simp add: i_HOST_ATTACH_def i_HOST_DETACH_def)
    qed (use ch in simp)
  qed
  then have "\<forall>P rq. case orchestrator_dispatch J P rq st ch of (resp, st', ch') \<Rightarrow>
       ch' = (case or_worker st' of None \<Rightarrow> [] | Some wk \<Rightarrow> [wk_pid wk]) \<and>
       (rq_method rq = i_HOST_ATTACH \<longrightarrow>
          (if or_worker st = None then or_worker st' \<noteq> None \<longleftrightarrow> rs_error resp = None
           else st' = st \<and> ch' = ch \<and> rs_error resp \<noteq> None)) \<and>
       (rq_method rq = i_HOST_DETACH \<longrightarrow> or_worker st' = None \<and> ch' = [])"
    by (intro allI) (split prod.split, blast)
  moreover have "ch = (case or_worker st of None \<Rightarrow> [] | Some wk \<Rightarrow> [wk_pid wk]) \<and> drop_state st ch = []"
    using held unfolding children_held_def by (cases "or_worker st") (simp_all add: drop_state_def worker_kill_def)
  ultimately show ?thesis by blast
qed

definition demo_attach :: "nat request" where
  "demo_attach = \<lparr>rq_jsonrpc = ''2.0'', rq_id = IdNumber 1, rq_method = i_HOST_ATTACH, rq_params = None\<rparr>"

definition demo_text :: "nat json_text" where
  "demo_text = \<lparr>jt_request = \<lambda>_. Ok ''rq'', jt_response = \<lambda>_. Ok ''rs'', jf_request = \<lambda>_. Ok demo_attach,
     jf_response = \<lambda>_. Ok (Response_success (IdNumber 1) 0), jt_parse_error = id, jt_serialize_error = id,
     jt_insert = \<lambda>_ pid v. v + unat pid\<rparr>"

definition demo_process :: "unit proc_env" where
  "demo_process = \<lparr>pe_spawn = \<lambda>_ _. Ok (7, ()), pe_alive = \<lambda>_. True, pe_write = None,
     pe_react = \<lambda>_ p. (write_message ''rs'', p), pe_left = id, pe_io = \<lambda>_. [], pe_reply = None\<rparr>"

lemmas demo_frames = read_written [of "''rs''" "[]"] read_written [of "''rq''" "[]"]

theorem orchestrator_no_orphans_witness:
  "\<exists>out st ch. orchestrator_serve demo_text (\<lambda>_. demo_process) 0 (write_message ''rq'') (OrchestratorState_start ''rs-worker'' ''info'') [] =
       Some (out, st, ch) \<and> ch = [7] \<and> drop_state st ch = []"
proof -
  obtain out st ch where run: "orchestrator_serve demo_text (\<lambda>_. demo_process) 0 (write_message ''rq'')
      (OrchestratorState_start ''rs-worker'' ''info'') [] = Some (out, st, ch)" "ch = [7]"
    using demo_frames
    by (simp add: orchestrator_serve.simps [of _ _ _ "write_message _"] orchestrator_serve.simps [of _ _ _ "[]"]
        read_message_def [of "[]"] read_headers.simps [of "[]"] utf8_ascii MAX_MESSAGE_BYTES_def demo_text_def demo_process_def
        orchestrator_message_def orchestrator_dispatch_def demo_attach_def orchestrator_attach_def OrchestratorState_start_def
        worker_spawn_def worker_send_def send_text_def worker_recv_def recv_text_def Response_success_def)
  from orchestrator_no_orphans [OF run(1)] run show ?thesis by blast
qed

end
