(* ===== verification/Orchestrator_Pipeline.thy ===== *)
theory Orchestrator_Pipeline
  imports Orchestrator Worker_Contract
begin

text \<open>
  The main loop of the worker (\<^verbatim>\<open>crates/rocket-surgeon-worker/src/main.rs\<close>) and the two processes together:
  the daemon's bytes go into the orchestrator, which reads a request, writes it again for the worker,
  reads the reply and writes it again for the daemon. The worker is the process behind the handle. Its
  state is the number of requests it has read and what it keeps, or nothing after a panic.
\<close>

section \<open>The worker's main loop\<close>






section \<open>Through both processes\<close>

lemma read_nothing [simp]: "read_message [] = Inl (FrameIo UnexpectedEof)"
  by (simp add: read_message_def read_headers.simps [of "[]"])












end
