(* ===== verification/Tui_Layout.thy ===== *)
theory Tui_Layout
  imports Prelude
begin

text \<open>
  Panels of the terminal interface, \<^verbatim>\<open>crates/rocket-surgeon-tui/src/tiling.rs\<close>: a layout is a tree of splits that
  divides an area among views. Ratios are \<^verbatim>\<open>f32\<close> numbers of an arbitrary type \<open>'r\<close>, with clamping to the interval from
  0.1 to 0.9 and the truncated product with a length as the record \<open>ratio_ops\<close>. Coordinates are 16-bit and
  wrap.
\<close>

record 'r ratio_ops =
  ro_clamp :: "'r \<Rightarrow> 'r"
  ro_add :: "'r \<Rightarrow> 'r \<Rightarrow> 'r"
  ro_scale :: "u16 \<Rightarrow> 'r \<Rightarrow> u16"

record Rect =
  rx :: u16
  ry :: u16
  rwidth :: u16
  rheight :: u16

type_synonym ViewId = u32

datatype 'r Layout =
    Single ViewId
  | HSplit "'r Layout" "'r Layout" 'r
  | VSplit "'r Layout" "'r Layout" 'r

definition Layout_hsplit :: "'r ratio_ops \<Rightarrow> 'r Layout \<Rightarrow> 'r Layout \<Rightarrow> 'r \<Rightarrow> 'r Layout" where
  "Layout_hsplit R left right ratio = HSplit left right (ro_clamp R ratio)"

definition Layout_vsplit :: "'r ratio_ops \<Rightarrow> 'r Layout \<Rightarrow> 'r Layout \<Rightarrow> 'r \<Rightarrow> 'r Layout" where
  "Layout_vsplit R t bottom ratio = VSplit t bottom (ro_clamp R ratio)"

definition sat_add :: "'a::len word \<Rightarrow> 'a word \<Rightarrow> 'a word" where
  "sat_add a b = (if a + b < a then - 1 else a + b)"

definition sat_sub :: "'a::len word \<Rightarrow> 'a word \<Rightarrow> 'a word" where
  "sat_sub a b = (if a < b then 0 else a - b)"

fun resolve_into :: "'r ratio_ops \<Rightarrow> 'r Layout \<Rightarrow> Rect \<Rightarrow> (ViewId \<times> Rect) list" where
  "resolve_into R (Single i) area = [(i, area)]"
| "resolve_into R (HSplit left right ratio) area =
     (let left_width = ro_scale R (rwidth area) ratio;
          right_width = sat_sub (rwidth area) left_width
      in resolve_into R left \<lparr>rx = rx area, ry = ry area, rwidth = left_width, rheight = rheight area\<rparr>
       @ resolve_into R right \<lparr>rx = rx area + left_width, ry = ry area, rwidth = right_width, rheight = rheight area\<rparr>)"
| "resolve_into R (VSplit t bottom ratio) area =
     (let top_height = ro_scale R (rheight area) ratio;
          bottom_height = sat_sub (rheight area) top_height
      in resolve_into R t \<lparr>rx = rx area, ry = ry area, rwidth = rwidth area, rheight = top_height\<rparr>
       @ resolve_into R bottom \<lparr>rx = rx area, ry = ry area + top_height, rwidth = rwidth area, rheight = bottom_height\<rparr>)"

fun adjust_ratio :: "'r ratio_ops \<Rightarrow> 'r \<Rightarrow> 'r Layout \<Rightarrow> 'r Layout" where
  "adjust_ratio R delta (HSplit left right ratio) = HSplit left right (ro_clamp R (ro_add R ratio delta))"
| "adjust_ratio R delta (VSplit t bottom ratio) = VSplit t bottom (ro_clamp R (ro_add R ratio delta))"
| "adjust_ratio R delta (Single i) = Single i"

fun view_ids :: "'r Layout \<Rightarrow> ViewId list" where
  "view_ids (Single i) = [i]"
| "view_ids (HSplit left right _) = view_ids left @ view_ids right"
| "view_ids (VSplit t bottom _) = view_ids t @ view_ids bottom"

section \<open>Tiling\<close>

text \<open>The cells of an area that does not wrap, and the splits whose ratio leaves something for both sides.\<close>

definition cells :: "Rect \<Rightarrow> (nat \<times> nat) set" where
  "cells a = {unat (rx a)..<unat (rx a) + unat (rwidth a)} \<times> {unat (ry a)..<unat (ry a) + unat (rheight a)}"

definition on_screen :: "Rect \<Rightarrow> bool" where
  "on_screen a \<longleftrightarrow> unat (rx a) + unat (rwidth a) < 2 ^ 16 \<and> unat (ry a) + unat (rheight a) < 2 ^ 16"

fun fitting :: "'r ratio_ops \<Rightarrow> 'r Layout \<Rightarrow> bool" where
  "fitting R (Single _) \<longleftrightarrow> True"
| "fitting R (HSplit l r ratio) \<longleftrightarrow> fitting R l \<and> fitting R r \<and> (\<forall>n. ro_scale R n ratio \<le> n)"
| "fitting R (VSplit t b ratio) \<longleftrightarrow> fitting R t \<and> fitting R b \<and> (\<forall>n. ro_scale R n ratio \<le> n)"

text \<open>A product with a clamped ratio does not exceed the length, so the constructors give fitting layouts.\<close>

definition shrinking :: "'r ratio_ops \<Rightarrow> bool" where
  "shrinking R \<longleftrightarrow> (\<forall>n r. ro_scale R n (ro_clamp R r) \<le> n)"

lemma fitting_splits:
  "shrinking R \<Longrightarrow> fitting R l \<Longrightarrow> fitting R r \<Longrightarrow> fitting R (Layout_hsplit R l r q) \<and> fitting R (Layout_vsplit R l r q)"
  by (simp add: shrinking_def Layout_hsplit_def Layout_vsplit_def)

lemma fitting_adjust: "shrinking R \<Longrightarrow> fitting R l \<Longrightarrow> fitting R (adjust_ratio R delta l)"
  by (cases l) (simp_all add: shrinking_def)

lemma unat_split:
  fixes n m x :: u16
  assumes "m \<le> n" "unat x + unat n < 2 ^ 16"
  shows "unat (sat_sub n m) = unat n - unat m" "unat (x + m) = unat x + unat m" "unat m \<le> unat n"
  using assms unat_add_no_wrap [of x m]
  by (auto simp: sat_sub_def unat_sub word_le_nat_alt word_less_nat_alt)

lemma resolve_counts:
  assumes "fitting R l" "on_screen area"
  shows "length (filter (\<lambda>(_, a). c \<in> cells a) (resolve_into R l area)) = (if c \<in> cells area then 1 else 0)"
  using assms
proof (induction l arbitrary: area)
  case (HSplit l r ratio)
  let ?w = "ro_scale R (rwidth area) ratio"
  have le: "?w \<le> rwidth area" and x: "unat (rx area) + unat (rwidth area) < 2 ^ 16"
    using HSplit.prems by (simp_all add: on_screen_def)
  note u = unat_split [OF le x]
  have "on_screen (area\<lparr>rwidth := ?w\<rparr>)" "on_screen (area\<lparr>rx := rx area + ?w, rwidth := sat_sub (rwidth area) ?w\<rparr>)"
    using HSplit.prems(2) u by (auto simp: on_screen_def)
  with HSplit show ?case using u by (cases c) (auto simp: Let_def cells_def on_screen_def)
next
  case (VSplit t b ratio)
  let ?h = "ro_scale R (rheight area) ratio"
  have le: "?h \<le> rheight area" and y: "unat (ry area) + unat (rheight area) < 2 ^ 16"
    using VSplit.prems by (simp_all add: on_screen_def)
  note u = unat_split [OF le y]
  with VSplit show ?case by (cases c) (auto simp: Let_def cells_def on_screen_def)
qed simp

lemma resolve_views: "map fst (resolve_into R l area) = view_ids l"
  by (induction l arbitrary: area) (simp_all add: Let_def)

text \<open>A layout tiles the area. The panels are those of the views of the layout, in order, and every cell
  of an area within the coordinate range belongs to exactly one of them, every cell outside to none, as
  long as no ratio makes a part longer than the whole; the constructors and the adjustment of a ratio
  clamp it so that none does.
\<close>

theorem layout_tiles:
  assumes "fitting R l" "on_screen area"
  shows "map fst (resolve_into R l area) = view_ids l \<and>
    (\<forall>c. length (filter (\<lambda>(_, a). c \<in> cells a) (resolve_into R l area)) = (if c \<in> cells area then 1 else 0))"
  using resolve_counts [OF assms] resolve_views by blast

theorem layout_tiles_witness:
  "\<exists>R :: nat ratio_ops. shrinking R \<and>
     map fst (resolve_into R (Layout_vsplit R (Single 0) (Layout_hsplit R (Single 1) (Single 2) 5) 9)
       \<lparr>rx = 0, ry = 0, rwidth = 80, rheight = 24\<rparr>) = [0, 1, 2]"
proof -
  let ?R = "\<lparr>ro_clamp = \<lambda>r. max 1 (min 9 r), ro_add = (+), ro_scale = \<lambda>n r. n div 2\<rparr> :: nat ratio_ops"
  let ?l = "Layout_vsplit ?R (Single 0) (Layout_hsplit ?R (Single 1) (Single 2) 5) 9"
  have R: "shrinking ?R" by (simp add: shrinking_def word_le_nat_alt unat_div)
  have "fitting ?R ?l" using fitting_splits [OF R] by simp
  moreover have "on_screen \<lparr>rx = 0, ry = 0, rwidth = 80, rheight = 24\<rparr>" by (simp add: on_screen_def)
  ultimately have "map fst (resolve_into ?R ?l \<lparr>rx = 0, ry = 0, rwidth = 80, rheight = 24\<rparr>) = view_ids ?l"
    using layout_tiles by blast
  with R show ?thesis by (intro exI [of _ ?R]) (simp add: Layout_vsplit_def Layout_hsplit_def)
qed

end
