(* ===== verification/Tui_Cache.thy ===== *)
theory Tui_Cache
  imports Protocol_Types Lru_Spec "HOL-Library.AList"
begin

text \<open>
  The cache of tensor summaries in the terminal interface, \<^verbatim>\<open>crates/rocket-surgeon-tui/src/state/cache.rs\<close>: a hash map
  of entries beside a queue of their keys, oldest first. The loop that makes room does nothing but repeat
  when the queue is empty and the map is not; it is a \<^verbatim>\<open>partial_function\<close> whose value is \<^const>\<open>None\<close> when it
  does not return.
\<close>

record CacheKey =
  ck_tick_id :: u64
  ck_probe_point :: string

record TensorCache =
  tc_entries :: "(CacheKey \<times> tensor_summary) list"
  tc_order :: "CacheKey list"
  tc_max_entries :: nat

definition TensorCache_new :: "nat \<Rightarrow> TensorCache" where
  "TensorCache_new max_entries = \<lparr>tc_entries = [], tc_order = [], tc_max_entries = max max_entries 1\<rparr>"

definition promote :: "CacheKey \<Rightarrow> TensorCache \<Rightarrow> TensorCache" where
  "promote k c = (if k \<in> set (tc_order c) then c\<lparr>tc_order := remove1 k (tc_order c) @ [k]\<rparr> else c)"

definition cache_peek :: "CacheKey \<Rightarrow> TensorCache \<Rightarrow> tensor_summary option" where
  "cache_peek k c = map_of (tc_entries c) k"

definition cache_get :: "CacheKey \<Rightarrow> TensorCache \<Rightarrow> tensor_summary option \<times> TensorCache" where
  "cache_get k c =
     (case map_of (tc_entries c) k of
        None \<Rightarrow> (None, c)
      | Some v \<Rightarrow> (Some v, promote k c))"

partial_function (option) evict_loop :: "TensorCache \<Rightarrow> TensorCache option" where
  "evict_loop c =
     (if length (tc_entries c) < tc_max_entries c then Some c
      else case tc_order c of
        [] \<Rightarrow> evict_loop c
      | evicted # ks \<Rightarrow> evict_loop (c\<lparr>tc_order := ks, tc_entries := AList.delete evicted (tc_entries c)\<rparr>))"

definition cache_insert :: "CacheKey \<Rightarrow> tensor_summary \<Rightarrow> TensorCache \<Rightarrow> TensorCache option" where
  "cache_insert k v c =
     (if map_of (tc_entries c) k \<noteq> None then
        let c = promote k c in Some (c\<lparr>tc_entries := AList.update k v (tc_entries c)\<rparr>)
      else map_option (\<lambda>c. c\<lparr>tc_order := tc_order c @ [k], tc_entries := AList.update k v (tc_entries c)\<rparr>) (evict_loop c))"

definition prefetch_keys :: "u32 \<Rightarrow> u64 \<Rightarrow> string \<Rightarrow> u64 \<Rightarrow> CacheKey list" where
  "prefetch_keys layer token comp_name tick_id =
     (if 0 < layer then [\<lparr>ck_tick_id = tick_id, ck_probe_point = comp_name @ '':layer_'' @ show_u32 (layer - 1)\<rparr>] else [])
     @ [\<lparr>ck_tick_id = tick_id, ck_probe_point = comp_name @ '':layer_'' @ show_u32 (layer + 1)\<rparr>,
        \<lparr>ck_tick_id = tick_id, ck_probe_point = comp_name @ '':token_'' @ show_u64 (token + 1)\<rparr>]"

section \<open>The cache is a least-recently-used cache\<close>

definition cache_inv :: "TensorCache \<Rightarrow> bool" where
  "cache_inv c \<longleftrightarrow> distinct (tc_order c) \<and> distinct (map fst (tc_entries c)) \<and> set (tc_order c) = fst ` set (tc_entries c) \<and>
     length (tc_entries c) \<le> tc_max_entries c \<and> 0 < tc_max_entries c"

definition cache_abs :: "TensorCache \<Rightarrow> (CacheKey \<times> tensor_summary) list" where
  "cache_abs c = map (\<lambda>k. (k, the (map_of (tc_entries c) k))) (tc_order c)"

definition lru_put :: "nat \<Rightarrow> 'k \<Rightarrow> 'd \<Rightarrow> ('k \<times> 'd) list \<Rightarrow> ('k \<times> 'd) list" where
  "lru_put n k v xs =
     (if map_of xs k \<noteq> None then filter (\<lambda>x. fst x \<noteq> k) xs @ [(k, v)]
      else drop (length xs + 1 - n) xs @ [(k, v)])"

lemma dom_delete_keys: "fst ` set (AList.delete k es) = fst ` set es - {k}"
  using arg_cong [OF delete_keys [of k es], of set] by simp

lemma length_update: "length (AList.update k v es) = (if k \<in> fst ` set es then length es else Suc (length es))"
  using arg_cong [OF update_keys [of k v es], of length] by simp

lemma dom_update_keys: "fst ` set (AList.update k v es) = insert k (fst ` set es)"
  using arg_cong [OF update_keys [of k v es], of set] by auto

lemma remove1_filter: "distinct xs \<Longrightarrow> remove1 k xs = filter (\<lambda>x. x \<noteq> k) xs"
  by (induction xs) (auto intro!: filter_True [symmetric])

lemma cache_inv_length: "cache_inv c \<Longrightarrow> length (tc_order c) = length (tc_entries c)"
  unfolding cache_inv_def by (metis distinct_card length_map list.set_map)

lemma keys_abs: "map fst (cache_abs c) = tc_order c"
  by (simp add: cache_abs_def comp_def)

lemma map_of_abs: "cache_inv c \<Longrightarrow> map_of (cache_abs c) k = map_of (tc_entries c) k"
proof -
  assume inv: "cache_inv c"
  show ?thesis
  proof (cases "k \<in> set (tc_order c)")
    case True
    then obtain v where "map_of (tc_entries c) k = Some v"
      using inv by (metis cache_inv_def map_of_eq_None_iff not_None_eq)
    with True show ?thesis by (simp add: cache_abs_def map_of_map_restrict comp_def)
  next
    case False
    then have "map_of (tc_entries c) k = None" using inv by (simp add: cache_inv_def map_of_eq_None_iff)
    moreover have "map_of (cache_abs c) k = None" using False by (auto simp: map_of_eq_None_iff cache_abs_def)
    ultimately show ?thesis by simp
  qed
qed

lemma promote_abs:
  assumes "cache_inv c"
  shows "cache_inv (promote k c)" "cache_abs (promote k c) = lru_access k (cache_abs c)"
proof -
  show "cache_inv (promote k c)" using assms by (auto simp: cache_inv_def promote_def)
  show "cache_abs (promote k c) = lru_access k (cache_abs c)"
  proof (cases "k \<in> set (tc_order c)")
    case True
    then obtain v where v: "map_of (tc_entries c) k = Some v"
      using assms by (metis cache_inv_def map_of_eq_None_iff not_None_eq)
    then have a: "map_of (cache_abs c) k = Some v" using map_of_abs [OF assms] by simp
    have "distinct (tc_order c)" using assms by (simp add: cache_inv_def)
    then have "remove1 k (tc_order c) = filter (\<lambda>x. x \<noteq> k) (tc_order c)" by (rule remove1_filter)
    then show ?thesis
      using True v by (simp add: promote_def lru_access_def a) (simp add: cache_abs_def filter_map comp_def)
  next
    case False
    then have "map_of (cache_abs c) k = None" using keys_abs [of c] by (metis image_set map_of_eq_None_iff)
    then show ?thesis using False by (simp add: promote_def lru_access_def)
  qed
qed

text \<open>Each round of the loop drops the oldest entry, so it ends as soon as there is room.\<close>

lemma evict_loop_returns:
  assumes "distinct (tc_order c)" "distinct (map fst (tc_entries c))" "set (tc_order c) = fst ` set (tc_entries c)" "0 < tc_max_entries c"
  shows "\<exists>c'. evict_loop c = Some c' \<and> cache_inv c' \<and> length (tc_entries c') < tc_max_entries c' \<and>
    tc_max_entries c' = tc_max_entries c \<and> cache_abs c' = drop (length (tc_order c) + 1 - tc_max_entries c) (cache_abs c)"
  using assms
proof (induction "tc_order c" arbitrary: c)
  case Nil
  then have "tc_entries c = []" by auto
  with Nil show ?case by (intro exI [of _ c]) (simp add: evict_loop.simps [of c] cache_inv_def)
next
  case (Cons k ks)
  have len: "length (tc_order c) = length (tc_entries c)" using Cons.prems by (metis distinct_card length_map list.set_map)
  show ?case
  proof (cases "length (tc_entries c) < tc_max_entries c")
    case True
    then show ?thesis
      using Cons.prems len by (intro exI [of _ c]) (simp add: evict_loop.simps [of c] cache_inv_def)
  next
    case False
    let ?c = "c\<lparr>tc_order := ks, tc_entries := AList.delete k (tc_entries c)\<rparr>"
    have k: "tc_order c = k # ks" using Cons.hyps(2) by simp
    then have "k \<notin> set ks" using Cons.prems(1) by simp
    then have "distinct (tc_order ?c)" "distinct (map fst (tc_entries ?c))" "set (tc_order ?c) = fst ` set (tc_entries ?c)"
      using Cons.prems k by (simp_all add: distinct_delete dom_delete_keys) auto
    then obtain c' where c': "evict_loop ?c = Some c'" "cache_inv c'" "length (tc_entries c') < tc_max_entries c'"
      "tc_max_entries c' = tc_max_entries c" "cache_abs c' = drop (length ks + 1 - tc_max_entries c) (cache_abs ?c)"
      using Cons.hyps(1) [of ?c] Cons.prems(4) by auto
    have "cache_abs ?c = tl (cache_abs c)"
      using \<open>k \<notin> set ks\<close> by (auto simp: cache_abs_def k delete_conv')
    moreover have "drop (length ks + 1 - tc_max_entries c) (tl (cache_abs c)) = drop (length (tc_order c) + 1 - tc_max_entries c) (cache_abs c)"
      using False len k by (simp add: drop_Suc [symmetric] Suc_diff_le)
    ultimately show ?thesis
      using c' False k by (intro exI [of _ c']) (simp add: evict_loop.simps [of c])
  qed
qed

lemma insert_abs:
  assumes "cache_inv c"
  shows "\<exists>c'. cache_insert k v c = Some c' \<and> cache_inv c' \<and> tc_max_entries c' = tc_max_entries c \<and>
    cache_abs c' = lru_put (tc_max_entries c) k v (cache_abs c)"
proof (cases "map_of (tc_entries c) k")
  case (Some w)
  have k: "k \<in> set (tc_order c)" using Some assms by (metis cache_inv_def map_of_eq_None_iff option.distinct(1))
  let ?p = "promote k c"
  let ?c = "?p\<lparr>tc_entries := AList.update k v (tc_entries ?p)\<rparr>"
  have e: "tc_entries ?p = tc_entries c" "tc_max_entries ?p = tc_max_entries c" by (simp_all add: promote_def)
  have "cache_inv ?p" using promote_abs(1) [OF assms] .
  moreover have "k \<in> fst ` set (tc_entries c)" using k assms by (simp add: cache_inv_def)
  ultimately have "cache_inv ?c"
    by (simp add: cache_inv_def e distinct_update dom_update_keys length_update insert_absorb)
  moreover have "cache_abs ?c = lru_put (tc_max_entries c) k v (cache_abs c)"
  proof -
    have "remove1 k (tc_order c) = filter (\<lambda>x. x \<noteq> k) (tc_order c)" using assms remove1_filter by (auto simp: cache_inv_def)
    then have "cache_abs ?c = filter (\<lambda>x. fst x \<noteq> k) (cache_abs c) @ [(k, v)]"
      using k by (simp add: promote_def cache_abs_def filter_map comp_def update_conv')
    then show ?thesis using Some map_of_abs [OF assms] by (simp add: lru_put_def)
  qed
  ultimately show ?thesis using Some by (simp add: cache_insert_def Let_def e)
next
  case None
  obtain c' where c': "evict_loop c = Some c'" "cache_inv c'" "length (tc_entries c') < tc_max_entries c'"
    "tc_max_entries c' = tc_max_entries c" "cache_abs c' = drop (length (tc_order c) + 1 - tc_max_entries c) (cache_abs c)"
    using evict_loop_returns [of c] assms by (auto simp: cache_inv_def)
  let ?c = "c'\<lparr>tc_order := tc_order c' @ [k], tc_entries := AList.update k v (tc_entries c')\<rparr>"
  have "map_of (cache_abs c) k = None" using None map_of_abs [OF assms] by simp
  then have "map_of (cache_abs c') k = None"
    unfolding c'(5) map_of_eq_None_iff by (auto dest: in_set_dropD)
  then have k: "k \<notin> set (tc_order c')" using keys_abs [of c'] by (metis image_set map_of_eq_None_iff)
  then have "k \<notin> fst ` set (tc_entries c')" using c'(2) by (simp add: cache_inv_def)
  then have "cache_inv ?c"
    using c'(2,3) k by (simp add: cache_inv_def distinct_update dom_update_keys length_update)
  moreover have "cache_abs ?c = cache_abs c' @ [(k, v)]"
    using k by (auto simp: cache_abs_def update_conv')
  moreover have "length (cache_abs c) = length (tc_order c)" by (simp add: cache_abs_def)
  ultimately show ?thesis
    using None c' \<open>map_of (cache_abs c) k = None\<close> by (simp add: cache_insert_def lru_put_def)
qed

lemma get_abs:
  assumes "cache_inv c"
  shows "cache_inv (snd (cache_get k c))" "tc_max_entries (snd (cache_get k c)) = tc_max_entries c"
    "fst (cache_get k c) = map_of (cache_abs c) k" "cache_abs (snd (cache_get k c)) = lru_access k (cache_abs c)"
  using assms promote_abs [OF assms, of k] map_of_abs [OF assms, of k]
  by (auto simp: cache_get_def promote_def lru_access_def split: option.split)

text \<open>
  A history of the cache: what each lookup answered. Beside it the same history on the list of the
  contract.
\<close>

datatype cache_op = Get CacheKey | Put CacheKey tensor_summary

fun cache_run :: "cache_op list \<Rightarrow> TensorCache \<Rightarrow> (tensor_summary option list \<times> TensorCache) option" where
  "cache_run [] c = Some ([], c)"
| "cache_run (Get k # ops) c =
     (case cache_get k c of (r, c) \<Rightarrow> map_option (\<lambda>(rs, c). (r # rs, c)) (cache_run ops c))"
| "cache_run (Put k v # ops) c = Option.bind (cache_insert k v c) (cache_run ops)"

fun lru_history :: "nat \<Rightarrow> cache_op list \<Rightarrow> (CacheKey \<times> tensor_summary) list \<Rightarrow>
    tensor_summary option list \<times> (CacheKey \<times> tensor_summary) list" where
  "lru_history n [] xs = ([], xs)"
| "lru_history n (Get k # ops) xs = (case lru_history n ops (lru_access k xs) of (rs, ys) \<Rightarrow> (map_of xs k # rs, ys))"
| "lru_history n (Put k v # ops) xs = lru_history n ops (lru_put n k v xs)"

lemma cache_run_abs:
  "cache_inv c \<Longrightarrow> \<exists>rs c'. cache_run ops c = Some (rs, c') \<and> cache_inv c' \<and> tc_max_entries c' = tc_max_entries c \<and>
     lru_history (tc_max_entries c) ops (cache_abs c) = (rs, cache_abs c')"
proof (induction ops arbitrary: c)
  case (Cons x ops)
  show ?case
  proof (cases x)
    case (Get k)
    obtain r d where g: "cache_get k c = (r, d)" by fastforce
    note a = get_abs [OF Cons.prems, of k, unfolded g fst_conv snd_conv]
    from Cons.IH [OF a(1)] show ?thesis by (auto simp: Get g a)
  next
    case (Put k v)
    obtain d where "cache_insert k v c = Some d" "cache_inv d" "tc_max_entries d = tc_max_entries c"
      "cache_abs d = lru_put (tc_max_entries c) k v (cache_abs c)"
      using insert_abs [OF Cons.prems] by blast
    with Cons.IH [of d] show ?thesis by (auto simp: Put)
  qed
qed simp

lemma TensorCache_new_inv: "cache_inv (TensorCache_new n)"
  by (simp add: cache_inv_def TensorCache_new_def)

text \<open>The tensor cache of the terminal interface is a least-recently-used cache of at least one entry. Any history
  of lookups and insertions on a new cache returns - the loop that makes room always ends, although
  nothing in it stops it when the queue runs empty - and every lookup answers what a list of the entries in order of
  use answers, where an insertion that finds no room drops from the front exactly what is in the
  way. The cache never holds more than its capacity.
\<close>

theorem tensor_cache_lru:
  "\<exists>rs c. cache_run ops (TensorCache_new n) = Some (rs, c) \<and>
     lru_history (max n 1) ops [] = (rs, cache_abs c) \<and> map_of (tc_entries c) = map_of (cache_abs c) \<and>
     length (tc_entries c) \<le> max n 1"
proof -
  have new: "cache_abs (TensorCache_new n) = []" "tc_max_entries (TensorCache_new n) = max n 1"
    by (simp_all add: TensorCache_new_def cache_abs_def)
  obtain rs c where "cache_run ops (TensorCache_new n) = Some (rs, c)" "cache_inv c" "tc_max_entries c = max n 1"
    "lru_history (max n 1) ops [] = (rs, cache_abs c)"
    using cache_run_abs [OF TensorCache_new_inv [of n], where ops = ops] by (auto simp: new)
  moreover have "map_of (tc_entries c) = map_of (cache_abs c)" using map_of_abs [OF \<open>cache_inv c\<close>] by auto
  ultimately show ?thesis by (auto simp: cache_inv_def)
qed

end
