(* ===== verification/Tui_App.thy ===== *)
theory Tui_App
  imports Tui_Layout Tui_Cache Framing Protocol_Messages
begin

text \<open>
  The terminal interface as a state machine: input modes, decoding of keys, the reducer and the
  application, \<^verbatim>\<open>crates/rocket-surgeon-tui/src\<close> (\<^verbatim>\<open>state.rs\<close>, \<^verbatim>\<open>action.rs\<close>, \<^verbatim>\<open>input/events.rs\<close>, \<^verbatim>\<open>input/mode.rs\<close>,
  \<^verbatim>\<open>input/terminal.rs\<close>, \<^verbatim>\<open>state/reducer.rs\<close>, \<^verbatim>\<open>app.rs\<close>). Drawing is left out. The events of the terminal library are a datatype of those the
  code distinguishes. A Rust \<^verbatim>\<open>char\<close> is its UTF-8 bytes.
\<close>

section \<open>Modes and events\<close>

datatype Mode = M_Normal | M_Command | M_Inspect | M_Intervene


datatype JumpTarget = Jump_Layer u32 | Jump_Token u64 | Jump_Component string
datatype Axis = Axis_Layer | Axis_TokenPosition | Axis_Head | Axis_Custom string

datatype NavigationEvent =
    N_Up | N_Down | N_Left | N_Right | N_PageUp | N_PageDown | N_Home | N_End | N_ZoomIn | N_ZoomOut
  | N_JumpTo JumpTarget | N_ContinuousAdjust Axis u32





section \<open>Keys\<close>

datatype KeyCode =
    K_Up | K_Down | K_Left | K_Right | K_PageUp | K_PageDown | K_Home | K_End | K_Enter | K_Esc | K_Backspace | K_Tab
  | K_Char string
  | K_Other











section \<open>The state\<close>

datatype ViewKind =
  V_LayerStack | V_TensorDetail | V_ProbeWatch | V_Timeline | V_KvCache | V_Worldline | V_CommandLine | V_StatusBar

record ViewSlot =
  vs_id :: ViewId
  vs_kind :: ViewKind

record CursorState =
  cu_layer :: u32
  cu_component :: string
  cu_token_position :: u64
  cu_focused_view :: ViewId

record SessionSnapshot =
  sn_status :: status
  sn_position :: "tick_position option"
  sn_capabilities :: "capabilities option"
  sn_active_interventions :: "intervention_recipe list"
  sn_protocol_version :: string
  sn_defined_probes :: "probe_definition list"

record ProbeStats =
  pst_fire_count :: u32
  pst_last_tick_id :: u64
  pst_last_point :: string

record UiState =
  ui_session :: SessionSnapshot
  ui_cursor :: CursorState
  ui_mode :: Mode
  ui_views :: "ViewSlot list"
  ui_pending_requests :: u32
  ui_status_line :: string
  ui_command_buffer :: string
  ui_tensor_cache :: TensorCache
  ui_probe_stats :: "(string \<times> ProbeStats) list"



text \<open>The layout proposed when the cursor moves to another component (of \<^verbatim>\<open>tiling.rs\<close>); 0.6 as an \<^verbatim>\<open>f32\<close>.\<close>

definition propose_layout :: "u32 ratio_ops \<Rightarrow> UiState \<Rightarrow> UiState \<Rightarrow> u32 Layout option" where
  "propose_layout R old new =
     (if cu_component (ui_cursor old) \<noteq> cu_component (ui_cursor new) \<and> cu_component (ui_cursor new) \<noteq> []
      then Some (Layout_hsplit R (Single 0) (Single 2) 0x3F19999A)
      else None)"

section \<open>The reducer\<close>













section \<open>The application\<close>















section \<open>The command line\<close>






















end
