(* ===== verification/Spec2Isabelle.thy ===== *)
theory Spec2Isabelle
  imports Daemon_Replies Session_History Session_Discovery Worker_Step_Contract Worker_Checkpoint_Roundtrip Worker_Replay_Contract Orchestrator_Pipeline
    Tui_App
begin

text \<open>
  A verification development for the rocket-surgeon debugger, a daemon that steps the forward pass of a
  language model, inspects and changes its tensors, and answers a client over JSON-RPC.

  \<^bold>\<open>The program and its parts.\<close>
  A client writes framed JSON-RPC requests to the daemon (\<^verbatim>\<open>crates/rocket-surgeon\<close>), which keeps a session, a
  probe registry, a tensor store, a trace log and, while a model is attached, a connection to an
  orchestrator and an optional Perfetto trace. The orchestrator (\<^verbatim>\<open>crates/rocket-surgeon-orchestrator\<close>) is a process
  of its own that starts a worker and forwards host requests to it. The worker
  (\<^verbatim>\<open>crates/rocket-surgeon-worker\<close>), which drives the model through Python, keeps checkpoints in an arena and
  publishes tensors into a shared-memory ring (\<^verbatim>\<open>crates/rocket-surgeon-shm\<close>) that the daemon reads.
  The terminal interface (\<^verbatim>\<open>crates/rocket-surgeon-tui\<close>) is a client of the daemon.
  \<^verbatim>\<open>crates/rocket-surgeon-protocol\<close>, \<^verbatim>\<open>-probes\<close>, \<^verbatim>\<open>-transport\<close> and \<^verbatim>\<open>perfetto-writer\<close> are the libraries both sides use.

  \<^bold>\<open>How the code is translated.\<close>
  A struct is a \<^theory_text>\<open>record\<close>, an enum a \<^theory_text>\<open>datatype\<close>, a function or method one definition that takes and
  returns the state it changes. Machine integers are words; \<^verbatim>\<open>+\<close>, \<^verbatim>\<open>-\<close> and \<^verbatim>\<open>*\<close> wrap as in the release profile,
  and checked and saturating operations are their own definitions. A \<^verbatim>\<open>String\<close> is the list of its UTF-8
  bytes, a hash map an association list (what depends on its order is shown not to matter or is an
  argument). \<^verbatim>\<open>Result\<close> is a sum with the error on the left; a panic is the outermost \<^const>\<open>None\<close>. A
  \<^verbatim>\<open>serde_json::Value\<close> is a type variable; what is not under \<^verbatim>\<open>src/\<close> (serde encoders, blake3, base64, CRC-32, prost,
  floating-point arithmetic, the operating system, Python) and other processes are arguments, collected in
  records such as \<open>serde\<close>, \<open>host_codec\<close>, \<open>world\<close> and \<open>bridge_ops\<close>. Clocks, uptimes and fresh
  identifiers are arguments too.

  \<^bold>\<open>The theories.\<close>
  \<^item> \<open>Prelude\<close>, \<open>Decimal\<close>, \<open>Text\<close>, \<open>Byte_Layout\<close>, \<open>Combinators\<close>: words, results, byte buffers and
    little-endian codecs, decimal text, string operations, fixed binary layouts, parser combinators.
  \<^item> \<open>Shm_Config\<close>, \<open>Shm_Region\<close>, \<open>Shm_Ring\<close>, \<open>Probe_Frame\<close>, \<open>Fifo_Spec\<close>, \<open>Ring_Channel\<close>: the ring
    (\<^verbatim>\<open>shm/src/lib.rs\<close>, \<^verbatim>\<open>region.rs\<close>, \<^verbatim>\<open>ring.rs\<close>) and the frame headers of \<^verbatim>\<open>python/src/probe_frame.rs\<close>. Publish and
    consume, in any interleaving, refine a bounded queue (the locale of \<open>Fifo_Spec\<close>); slots are disjoint
    and inside the region; headers round-trip.
  \<^item> \<open>Protocol_Types\<close>, \<open>Protocol_Errors\<close>, \<open>Protocol_Messages\<close>, \<open>Host_Messages\<close>, \<open>Error_Hints\<close>: the messages
    and error data of \<^verbatim>\<open>protocol/src\<close>.
  \<^item> \<open>Probe_Grammar\<close>, \<open>Probe_Registry\<close>: \<^verbatim>\<open>probes/src/grammar.rs\<close> and \<^verbatim>\<open>registry.rs\<close>; printing and parsing are
    inverse, matching is overlap, the registry is a finite map with an order of its own.
  \<^item> \<open>Tensor_Store\<close>, \<open>Lru_Spec\<close>, \<open>Tensor_Store_Lru\<close>: \<^verbatim>\<open>tensor_store.rs\<close> refines an LRU cache; what its two limits
    bound, and the one tensor that may exceed them.
  \<^item> \<open>Binary_Heap\<close>, \<open>Tensor_Stats\<close>, \<open>Tensor_Stats_Exact\<close>: the statistics of \<^verbatim>\<open>tensor_stats.rs\<close> over IEEE bit
    patterns, with the binary heap of the standard library; extremes, histogram and top entries are exact
    whatever the arithmetic rounds, and a dimension of zero panics.
  \<^item> \<open>Session\<close>, \<open>Session_Checkpoints\<close>, \<open>Session_Registry\<close>, \<open>Session_Invariant\<close>, \<open>Session_History\<close>,
    \<open>Session_Discovery\<close>: the state machine of \<^verbatim>\<open>session.rs\<close>, its invariant under every operation, restoring
    checkpoints after arbitrary histories, discovery queries and their suggestions.
  \<^item> \<open>Edit_Distance\<close>, \<open>Dispatch\<close>, \<open>Inspect\<close>, \<open>Export\<close>, \<open>Request_Contract\<close>, \<open>Dispatch_Contract\<close>,
    \<open>Inspect_Flow\<close>: the handlers of \<^verbatim>\<open>dispatch.rs\<close> and \<^verbatim>\<open>bundle.rs\<close>; every request gets one well-formed
    reply, a refused request changes nothing, tensors travel through the ring byte for byte.
  \<^item> \<open>Framing\<close>, \<open>Transport\<close>, \<open>Notifications\<close>, \<open>Orchestrator_Handle\<close>: \<^verbatim>\<open>transport/src/framing.rs\<close>, \<^verbatim>\<open>stdio.rs\<close>,
    \<^verbatim>\<open>notifications.rs\<close> with \<^verbatim>\<open>trace_log.rs\<close>, \<^verbatim>\<open>orchestrator_handle.rs\<close>.
  \<^item> \<open>Daemon\<close>, \<open>Daemon_Invariant\<close>, \<open>Daemon_Replies\<close>: the main loop of \<^verbatim>\<open>main.rs\<close>; what it keeps across any run,
    the three requests that make it panic (an export while nothing is attached, a step beyond the bits of a
    track identifier, a tensor with a dimension of zero) and that it answers all others.
  \<^item> \<open>Perfetto_Writer\<close>, \<open>Perfetto_Sink\<close>, \<open>Perfetto_Trace\<close>: \<^verbatim>\<open>perfetto-writer/src\<close> and \<^verbatim>\<open>perfetto_sink.rs\<close>; varints,
    file framing, distinct tracks, balanced slices. A failing write may leave a part of a packet in the file; the
    writer then counts as torn, and the statements about slices say what still holds.
  \<^item> \<open>Checkpoint_Spec\<close>, \<open>Worker_Arena\<close>, \<open>Worker_Arena_Store\<close>, \<open>Worker_Spill\<close>, \<open>Worker_Spill_Roundtrip\<close>,
    \<open>Worker_Arena_Invariant\<close>: the checkpoint arena and its spill files, \<^verbatim>\<open>worker/src/checkpoint.rs\<close>. The locale
    \<open>checkpoint_store\<close> is what clients rely on, the arena its interpretation; slots never overlap, leak or
    are handed out twice, and a spilled checkpoint loads back as it was.
  \<^item> \<open>Worker_Adapter\<close>, \<open>Worker_Capture\<close>, \<open>Worker_Clock\<close>, \<open>Worker_Kv\<close>: \<^verbatim>\<open>adapter.rs\<close>, \<^verbatim>\<open>capture.rs\<close> with \<^verbatim>\<open>replay.rs\<close>,
    \<^verbatim>\<open>tick.rs\<close> with \<^verbatim>\<open>step_driver.rs\<close>, and \<^verbatim>\<open>kv.rs\<close> of the worker.
  \<^item> \<open>Worker_Step\<close>, \<open>Worker_Step_Contract\<close>: the worker's state and its step loop with probes and
    interventions, \<^verbatim>\<open>worker/src/dispatch.rs\<close>, with mailbox calls that may fail; how far a step goes and what of
    it reaches the model.
  \<^item> \<open>Checkpoint_Layers\<close>, \<open>Worker_Checkpoint\<close>, \<open>Checkpoint_Bridge\<close>, \<open>Worker_Checkpoint_Roundtrip\<close>: which layers are
    checkpointed (\<^verbatim>\<open>protocol/src/lib.rs\<close>), creating and restoring checkpoints in the same file, the Python
    functions of \<^verbatim>\<open>python/rocket_surgeon/checkpoint.py\<close> that copy the tensors. A checkpoint that was created
    restores what was captured, activations and generator state; but it can be created only from tensors that
    fill their slots.
  \<^item> \<open>Worker_Replay\<close>, \<open>Worker_Replay_Contract\<close>: replaying from a checkpoint; what a replay reports is what
    happened, and none of the restored outputs is left by it.
  \<^item> \<open>Worker_Dispatch\<close>, \<open>Worker_Contract\<close>: attaching, detaching, inspecting, views, export and the dispatcher
    of the worker; every handler keeps the worker well-formed and answers the request it was given,
    or is one of the few that may panic.
  \<^item> \<open>Orchestrator\<close>, \<open>Orchestrator_Pipeline\<close>: \<^verbatim>\<open>orchestrator/src\<close> and the main loop of \<^verbatim>\<open>worker/src/main.rs\<close>; no
    worker is ever lost, and the two processes together answer as the worker's dispatcher does.
  \<^item> \<open>Tui_Layout\<close>, \<open>Tui_Cache\<close>, \<open>Tui_App\<close>: \<^verbatim>\<open>tui/src/tiling.rs\<close>, \<^verbatim>\<open>state/cache.rs\<close>, and keys, modes, reducer and
    daemon events of \<^verbatim>\<open>input/\<close>, \<^verbatim>\<open>state.rs\<close>, \<^verbatim>\<open>state/reducer.rs\<close>, \<^verbatim>\<open>action.rs\<close> and \<^verbatim>\<open>app.rs\<close>; layouts tile the screen, the cache
    is an LRU cache, a typed command has exactly its effect.

  \<^bold>\<open>Bounds and fuel.\<close>
  Loops are structural recursions over what they consume: messages, bytes, entries, probes. The parser
  combinator for repeated items takes the length of its input as fuel, which suffices because each
  round consumes a separator; the loops of the framing and the varints terminate by their measures. The
  wait loop of the worker runs over the list of values the mailbox delivers, the end of which is the
  time-out of the code. Sizes that the code bounds by a checked multiplication (the arena) are natural
  numbers; the theorem on spill files names the bound that keeps its 64-bit offsets from wrapping.

  \<^bold>\<open>Not modelled.\<close>
  Memory ordering of the ring's two atomics (its operations are atomic steps); logging; command-line
  parsing; assertions on tensors, which no other part calls; the sweep of stale regions and signal handlers; drawing
  and the daemon link of the terminal interface; build tasks. The arithmetic that rounds is an argument
  throughout. The worker's bridge only calls Python: its functions are arguments, with their outcomes, except those
  of \<open>Checkpoint_Bridge\<close>; generator states, pinning of memory and the Python objects of hooks and mailboxes are
  left out. A failing serialization of a body in the position mode of an envelope would be a panic of a
  macro and is left out too.
\<close>

end
